(* ===== verification/Prelude.thy ===== *)
theory Prelude
  imports Main "HOL-Library.Word" "HOL-Library.Multiset"
begin

text \<open>
  Shared vocabulary of the development.

  Machine integers of the Rust sources are words of the same width (\<open>u8\<close>, \<open>u16\<close>, \<open>u32\<close>,
  \<open>u64\<close>, \<open>u128\<close>), whose arithmetic wraps as the release profile of \<open>Cargo.toml\<close> (which
  does not turn overflow checks on) compiles it. A fallible function returns a sum whose left
  injection is the error. A panic (an \<open>expect\<close> on \<open>None\<close>, an index out of range, a division
  by zero) is a value of type \<open>panic\<close>.

  The collection \<open>codec_simps\<close> gathers the equations of the codecs; \<open>word_nat\<close> gathers the
  rules that move a word computation to natural numbers.
\<close>

type_synonym u8 = "8 word"
type_synonym u16 = "16 word"
type_synonym u32 = "32 word"
type_synonym u64 = "64 word"
type_synonym u128 = "128 word"
type_synonym bytes = "u8 list"

named_theorems word_nat
named_theorems codec_simps

text \<open>The ways in which the modelled Rust code can panic.\<close>

datatype panic =
    EmptyRange            \<comment> \<open>\<open>random_range\<close> on an empty range\<close>
  | NoCandidateSelected   \<comment> \<open>the explicit \<open>panic!\<close> of \<open>select_with_weight\<close>\<close>
  | IndexOutOfBounds
  | DivisionByZero
  | ArithmeticOverflow
  | ExpectFailed          \<comment> \<open>\<open>expect\<close> or \<open>unwrap\<close> on the wrong variant\<close>
  | Unreachable           \<comment> \<open>\<open>unreachable!\<close>\<close>
  | ExplicitPanic         \<comment> \<open>\<open>panic!\<close>\<close>

subsection \<open>Results\<close>

definition ok_or :: "'e \<Rightarrow> 'a option \<Rightarrow> 'e + 'a" where
  "ok_or e x = (case x of None \<Rightarrow> Inl e | Some a \<Rightarrow> Inr a)"

lemma ok_or_simps [simp]:
  "ok_or e None = Inl e"
  "ok_or e (Some a) = Inr a"
  by (simp_all add: ok_or_def)

lemma ok_or_eq_Inr [simp]: "ok_or e x = Inr a \<longleftrightarrow> x = Some a"
  by (cases x) simp_all

lemma ok_or_eq_Inl [simp]: "ok_or e x = Inl e' \<longleftrightarrow> x = None \<and> e' = e"
  by (cases x) auto

definition is_ok :: "'e + 'a \<Rightarrow> bool" where
  "is_ok r = (case r of Inl _ \<Rightarrow> False | Inr _ \<Rightarrow> True)"

lemma is_ok_simps [simp]: "is_ok (Inr a)" "\<not> is_ok (Inl e)"
  by (simp_all add: is_ok_def)

lemma is_ok_iff: "is_ok r \<longleftrightarrow> (\<exists>a. r = Inr a)"
  by (cases r) simp_all

text \<open>
  A computation that may return an error or panic. \<open>and_then\<close> is the \<open>?\<close> operator followed
  by the rest of the function; \<open>checked\<close> is \<open>ok_or(..)?\<close> on an option.
\<close>

datatype ('e, 'a) outcome = Ok 'a | Err 'e | Panic panic

fun and_then :: "('e, 'a) outcome \<Rightarrow> ('a \<Rightarrow> ('e, 'b) outcome) \<Rightarrow> ('e, 'b) outcome" where
  "and_then (Ok a) f = f a"
| "and_then (Err e) f = Err e"
| "and_then (Panic p) f = Panic p"

fun map_err :: "('e \<Rightarrow> 'f) \<Rightarrow> ('e, 'a) outcome \<Rightarrow> ('f, 'a) outcome" where
  "map_err f (Ok a) = Ok a"
| "map_err f (Err e) = Err (f e)"
| "map_err f (Panic p) = Panic p"

definition checked :: "'e \<Rightarrow> 'a option \<Rightarrow> ('e, 'a) outcome" where
  "checked e x = (case x of None \<Rightarrow> Err e | Some a \<Rightarrow> Ok a)"

lemma checked_simps [simp]:
  "checked e None = Err e"
  "checked e (Some a) = Ok a"
  by (simp_all add: checked_def)

lemma and_then_eq_Ok: "and_then r f = Ok b \<longleftrightarrow> (\<exists>a. r = Ok a \<and> f a = Ok b)"
  by (cases r) simp_all

lemma map_err_eq_Ok [simp]: "map_err f r = Ok a \<longleftrightarrow> r = Ok a"
  by (cases r) simp_all

text \<open>An outcome as the result of a data source, whose failures are an error or a panic.\<close>

definition to_result :: "('e, 'a) outcome \<Rightarrow> ('e + panic) + 'a" where
  "to_result r = (case r of Ok a \<Rightarrow> Inr a | Err e \<Rightarrow> Inl (Inl e) | Panic p \<Rightarrow> Inl (Inr p))"

lemma to_result_Inr [simp]: "to_result r = Inr a \<longleftrightarrow> r = Ok a"
  by (simp add: to_result_def split: outcome.splits)

lemma and_then_cong [fundef_cong]:
  "r = r' \<Longrightarrow> (\<And>a. r' = Ok a \<Longrightarrow> f a = g a) \<Longrightarrow> and_then r f = and_then r' g"
  by (cases r') simp_all

text \<open>
  What \<open>InherentData::get_data\<close> returns for the identifier of a pallet: a decoding error, or the
  item if there is one.
\<close>

datatype decode_error = DecodeError

type_synonym 'a inherent_item = "decode_error + 'a option"

text \<open>\<open>checked_sub\<close> and \<open>checked_div\<close> of the unsigned integers.\<close>

definition checked_sub :: "'w::len word \<Rightarrow> 'w word \<Rightarrow> 'w word option" where
  "checked_sub a b = (if b \<le> a then Some (a - b) else None)"

definition div_or_panic :: "'w::len word \<Rightarrow> 'w word \<Rightarrow> ('e, 'w word) outcome" where
  "div_or_panic a b = (if b = 0 then Panic DivisionByZero else Ok (a div b))"

lemma div_or_panic_Ok [simp]: "b \<noteq> 0 \<Longrightarrow> div_or_panic a b = Ok (a div b)"
  by (simp add: div_or_panic_def)

definition saturating_add :: "'w::len word \<Rightarrow> 'w word \<Rightarrow> 'w word" where
  "saturating_add a b = (if unat a + unat b < 2 ^ LENGTH('w) then a + b else - 1)"

definition saturating_sub :: "'w::len word \<Rightarrow> 'w word \<Rightarrow> 'w word" where
  "saturating_sub a b = (if b \<le> a then a - b else 0)"

subsection \<open>Words as natural numbers\<close>

lemma unat_add_nowrap [word_nat]:
  fixes a b :: "'w::len word"
  shows "unat a + unat b < 2 ^ LENGTH('w) \<Longrightarrow> unat (a + b) = unat a + unat b"
  by (simp add: unat_word_ariths)

lemma unat_mult_nowrap [word_nat]:
  fixes a b :: "'w::len word"
  shows "unat a * unat b < 2 ^ LENGTH('w) \<Longrightarrow> unat (a * b) = unat a * unat b"
  by (simp add: unat_word_ariths)

lemma unat_bound [simp]: "unat (a :: 'w::len word) < 2 ^ LENGTH('w)"
  by (rule unsigned_less)

lemma unat_word_of_nat_small [word_nat]:
  "n < 2 ^ LENGTH('w) \<Longrightarrow> unat (word_of_nat n :: 'w::len word) = n"
  by (simp add: unat_of_nat)

lemma unat_ucast_up [word_nat]:
  fixes w :: "'a::len word"
  assumes "LENGTH('a) \<le> LENGTH('b)"
  shows "unat (ucast w :: 'b::len word) = unat w"
proof -
  have "unat w < 2 ^ LENGTH('b)"
    using unat_bound [of w] assms by (metis order_less_le_trans one_le_numeral power_increasing)
  then show ?thesis by (simp add: unsigned_ucast_eq take_bit_nat_eq_self_iff)
qed

lemma checked_sub_unat [word_nat]:
  "unat b \<le> unat a \<Longrightarrow> \<exists>d. checked_sub a b = Some d \<and> unat d = unat a - unat b"
  by (simp add: checked_sub_def word_le_nat_alt unat_sub)

lemma checked_sub_None [simp]: "checked_sub a b = None \<longleftrightarrow> unat a < unat b"
  by (simp add: checked_sub_def word_le_nat_alt not_le)

lemma unat_saturating_add:
  "unat (saturating_add a b) = min (unat a + unat b) (2 ^ LENGTH('w) - 1)" for a b :: "'w::len word"
  by (auto simp: saturating_add_def unat_add_nowrap unsigned_minus_1_eq_mask mask_eq_exp_minus_1)

lemma unat_saturating_sub [simp]: "unat (saturating_sub a b) = unat a - unat b"
  by (simp add: saturating_sub_def word_le_nat_alt unat_sub)

text \<open>\<open>try_into\<close> to a narrower width.\<close>

definition narrow :: "'w::len word \<Rightarrow> 'v::len word option" where
  "narrow w = (if unat w < 2 ^ LENGTH('v) then Some (ucast w) else None)"

lemma unat_ucast_down [word_nat]:
  "unat w < 2 ^ LENGTH('v) \<Longrightarrow> unat (ucast w :: 'v::len word) = unat w"
  by (simp add: unsigned_ucast_eq take_bit_nat_eq_self_iff)

lemma narrow_unat:
  "unat w < 2 ^ LENGTH('v) \<Longrightarrow> \<exists>v :: 'v::len word. narrow w = Some v \<and> unat v = unat w"
  by (simp add: narrow_def unat_ucast_down)

text \<open>The value of a sum of words that does not overflow is the sum of the values.\<close>

lemma unat_sum_list_le:
  fixes ws :: "'w::len word list"
  shows "unat (sum_list ws) \<le> sum_list (map unat ws)"
proof (induction ws)
  case Nil
  then show ?case by simp
next
  case (Cons w ws)
  have "unat (w + sum_list ws) \<le> unat w + unat (sum_list ws)"
    by (metis mod_less_eq_dividend unat_word_ariths(1))
  with Cons show ?case by simp
qed

lemma unat_sum_list [word_nat]:
  fixes ws :: "'w::len word list"
  assumes "sum_list (map unat ws) < 2 ^ LENGTH('w)"
  shows "unat (sum_list ws) = sum_list (map unat ws)"
  using assms
proof (induction ws)
  case Nil
  then show ?case by simp
next
  case (Cons w ws)
  then show ?case by (simp add: unat_add_nowrap)
qed

subsection \<open>Lists\<close>

lemma sum_list_map_mset:
  "mset xs = mset ys \<Longrightarrow> sum_list (map f xs) = sum_list (map f ys)"
  for f :: "'a \<Rightarrow> 'b::comm_monoid_add"
  by (metis mset_map sum_mset_sum_list)

lemma nth_mem_fst: "i < length xs \<Longrightarrow> fst (xs ! i) \<in> fst ` set xs"
  by simp

lemma count_list_replicate_self [simp]: "count_list (replicate k x) x = k"
  by (induction k) simp_all

text \<open>Sorting has one result per multiset, for a linear order.\<close>

lemma sort_cong_mset:
  fixes xs ys :: "'a::linorder list"
  assumes "mset xs = mset ys"
  shows "sort xs = sort ys"
  using assms by (intro properties_for_sort) simp_all

end
