(* ===== verification/Weighted_Random.thy ===== *)
theory Weighted_Random
  imports Prelude
begin

text \<open>
  Independent weighted random selection,
  \<open>toolkit/committee-selection/selection/src/weighted_random.rs\<close>.

  The ChaCha20 generator of \<open>rand_chacha\<close> is a parameter of the model: the record
  \<open>chacha\<close> holds the operations the crate calls. What the code relies on is
  \<open>rng_ok\<close>, the documented contract of \<open>Rng::random_range(0..n)\<close>: for a non-empty
  range the drawn number lies in it. On the empty range the library panics, which is the
  branch \<open>EmptyRange\<close>.
\<close>

record ('seed, 'rng) chacha =
  from_seed :: "'seed \<Rightarrow> 'rng"
  get_seed :: "'rng \<Rightarrow> 'seed"
  random_range :: "u128 \<Rightarrow> 'rng \<Rightarrow> u128 \<times> 'rng"

definition rng_ok :: "('seed, 'rng) chacha \<Rightarrow> bool" where
  "rng_ok G \<longleftrightarrow> (\<forall>n r. n \<noteq> 0 \<longrightarrow> fst (random_range G n r) < n)"

type_synonym 'a weighted = "('a \<times> u128) list"

text \<open>The loop of \<open>select_with_weight\<close> over the candidates with the running sum.\<close>

fun pick_index :: "'a weighted \<Rightarrow> u128 \<Rightarrow> u128 \<Rightarrow> nat \<Rightarrow> panic + nat" where
  "pick_index [] random_number cumulative_weight index = Inl NoCandidateSelected"
| "pick_index ((_, weight) # cs) random_number cumulative_weight index =
     (let cumulative_weight = cumulative_weight + weight in
      if cumulative_weight > random_number then Inr index
      else pick_index cs random_number cumulative_weight (Suc index))"

definition select_with_weight ::
  "('seed, 'rng) chacha \<Rightarrow> 'a weighted \<Rightarrow> u128 \<Rightarrow> 'rng \<Rightarrow> panic + (nat \<times> 'rng)" where
  "select_with_weight G candidates total_weight rand =
     (if total_weight = 0 then Inl EmptyRange
      else let (random_number, rand') = random_range G total_weight rand in
        (case pick_index candidates random_number 0 0 of
           Inl p \<Rightarrow> Inl p
         | Inr index \<Rightarrow> Inr (index, rand')))"

text \<open>The \<open>while\<close> loop of \<open>select_authorities\<close>.\<close>

function select_loop ::
  "('seed, 'rng) chacha \<Rightarrow> 'a weighted \<Rightarrow> u128 \<Rightarrow> nat \<Rightarrow> 'a list \<Rightarrow> 'rng \<Rightarrow> panic + 'a list" where
  "select_loop G candidates total_weight size' committee rng =
     (if length committee < size' \<and> candidates \<noteq> [] then
        (case select_with_weight G candidates total_weight rng of
           Inl p \<Rightarrow> Inl p
         | Inr (selected_index, rng') \<Rightarrow>
             (if selected_index < length candidates
              then select_loop G candidates total_weight size'
                     (committee @ [fst (candidates ! selected_index)]) rng'
              else Inl IndexOutOfBounds))
      else Inr committee)"
  by pat_completeness auto
termination
  by (relation "measure (\<lambda>(G, cs, w, size', committee, rng). size' - length committee)") auto

declare select_loop.simps [simp del]

definition weighted_select_authorities ::
  "('seed, 'rng) chacha \<Rightarrow> 'a weighted \<Rightarrow> 'seed \<Rightarrow> u16 \<Rightarrow> panic + 'a list option" where
  "weighted_select_authorities G weighted_candidates seed size' =
     (let size' = unat size';
          total_weight = sum_list (map snd weighted_candidates) in
      (case select_loop G weighted_candidates total_weight size' [] (from_seed G seed) of
         Inl p \<Rightarrow> Inl p
       | Inr committee \<Rightarrow> Inr (if size' \<le> length committee then Some committee else None)))"

subsection \<open>The index drawn is the one whose interval holds the random number\<close>

definition weight_upto :: "'a weighted \<Rightarrow> nat \<Rightarrow> nat" where
  "weight_upto cs i = sum_list (map (\<lambda>(_, w). unat w) (take i cs))"

definition total_of :: "'a weighted \<Rightarrow> nat" where
  "total_of cs = sum_list (map (\<lambda>(_, w). unat w) cs)"

lemma total_of_simps [simp]:
  "total_of [] = 0"
  "total_of (c # cs) = unat (snd c) + total_of cs"
  "total_of (xs @ ys) = total_of xs + total_of ys"
  by (simp_all add: total_of_def split: prod.splits)

lemma total_of_mset: "mset xs = mset ys \<Longrightarrow> total_of xs = total_of ys"
  unfolding total_of_def by (rule sum_list_map_mset)

lemma total_of_unat [word_nat]:
  "total_of cs < 2 ^ 128 \<Longrightarrow> unat (sum_list (map snd cs)) = total_of cs"
proof -
  have total: "total_of cs = sum_list (map unat (map snd cs))"
    by (simp add: total_of_def split_def comp_def)
  assume "total_of cs < 2 ^ 128"
  then have "sum_list (map unat (map snd cs)) < 2 ^ LENGTH(128)"
    unfolding total by simp
  then show ?thesis unfolding total by (rule unat_sum_list)
qed

lemma total_of_mem_le: "(c, w) \<in> set cs \<Longrightarrow> unat w \<le> total_of cs"
  by (induction cs) auto

lemma total_of_pos_iff: "0 < total_of cs \<longleftrightarrow> (\<exists>c w. (c, w) \<in> set cs \<and> 0 < w)"
  by (induction cs) (fastforce simp: word_less_nat_alt)+

lemma weight_upto_simps [simp]:
  "weight_upto cs 0 = 0"
  "weight_upto ((c, w) # cs) (Suc i) = unat w + weight_upto cs i"
  by (simp_all add: weight_upto_def)

text \<open>
  \<open>pick_index\<close> started with cumulative weight \<open>cum\<close> below the random number finds the index
  whose half-open interval of cumulative weights contains the number.
\<close>

lemma pick_index_interval:
  assumes "unat cum + total_of cs < 2 ^ 128"
    and "unat cum \<le> unat r" and "unat r < unat cum + total_of cs"
  shows "\<exists>k. pick_index cs r cum i = Inr (i + k) \<and> k < length cs
           \<and> unat cum + weight_upto cs k \<le> unat r
           \<and> unat r < unat cum + weight_upto cs (Suc k)"
  using assms
proof (induction cs arbitrary: cum i)
  case Nil
  then show ?case by simp
next
  case (Cons c cs)
  obtain x w where c: "c = (x, w)" by (cases c)
  have sum: "unat (cum + w) = unat cum + unat w"
    using Cons.prems(1) c by (intro unat_add_nowrap) simp
  show ?case
  proof (cases "r < cum + w")
    case True
    then have "unat r < unat cum + unat w" by (simp add: word_less_nat_alt sum)
    then show ?thesis
      using True Cons.prems c by (intro exI [of _ 0]) (simp add: weight_upto_def)
  next
    case False
    then have ge: "unat (cum + w) \<le> unat r" by (simp add: word_less_nat_alt)
    have "unat (cum + w) + total_of cs < 2 ^ 128"
      and "unat r < unat (cum + w) + total_of cs"
      using Cons.prems c by (simp_all add: sum)
    from Cons.IH [OF this(1) ge this(2), of "Suc i"] obtain k where k:
      "pick_index cs r (cum + w) (Suc i) = Inr (Suc i + k)" "k < length cs"
      "unat (cum + w) + weight_upto cs k \<le> unat r"
      "unat r < unat (cum + w) + weight_upto cs (Suc k)" by auto
    show ?thesis
      using False k c by (intro exI [of _ "Suc k"]) (simp add: sum Let_def)
  qed
qed

lemma weight_upto_Suc_nth:
  "k < length cs \<Longrightarrow> weight_upto cs (Suc k) = weight_upto cs k + unat (snd (cs ! k))"
  by (simp add: weight_upto_def take_Suc_conv_app_nth split_def)

text \<open>The draw of one seat: total, in range, and never a candidate of weight zero.\<close>

lemma select_with_weight_ok:
  assumes rng: "rng_ok G" and bound: "total_of cs < 2 ^ 128" and pos: "0 < total_of cs"
  shows "\<exists>k rng'. select_with_weight G cs (sum_list (map snd cs)) rng = Inr (k, rng')
           \<and> k < length cs \<and> 0 < snd (cs ! k)"
proof -
  let ?t = "sum_list (map snd cs)"
  obtain r rng' where draw: "random_range G ?t rng = (r, rng')" by (cases "random_range G ?t rng")
  have t: "unat ?t = total_of cs" using bound by (rule total_of_unat)
  then have "?t \<noteq> 0" using pos by (metis unat_0 less_numeral_extra(3))
  then have "r < ?t" using rng draw by (metis rng_ok_def fst_conv)
  then have "unat r < total_of cs" by (simp add: word_less_nat_alt t)
  then obtain k where k: "pick_index cs r 0 0 = Inr k" "k < length cs"
    "weight_upto cs k \<le> unat r" "unat r < weight_upto cs (Suc k)"
    using pick_index_interval [of 0 cs r 0] bound by auto
  then have "0 < unat (snd (cs ! k))" using weight_upto_Suc_nth [of k cs] by simp
  then have "0 < snd (cs ! k)" by (simp add: word_less_nat_alt)
  then show ?thesis
    using k draw \<open>?t \<noteq> 0\<close> by (simp add: select_with_weight_def)
qed

lemma select_loop_ok:
  assumes "rng_ok G" and "total_of cs < 2 ^ 128" and "0 < total_of cs"
    and "length committee \<le> n"
  shows "\<exists>sel. select_loop G cs (sum_list (map snd cs)) n committee rng = Inr (committee @ sel)
           \<and> length (committee @ sel) = n \<and> (\<forall>x\<in>set sel. \<exists>w. (x, w) \<in> set cs \<and> 0 < w)"
  using assms(4)
proof (induction "n - length committee" arbitrary: committee rng)
  case 0
  then show ?case by (simp add: select_loop.simps [of G])
next
  case (Suc m)
  have ne: "cs \<noteq> []" using assms(3) by auto
  have lt: "length committee < n" using Suc.hyps(2) by simp
  obtain k rng' where k: "select_with_weight G cs (sum_list (map snd cs)) rng = Inr (k, rng')"
    "k < length cs" "0 < snd (cs ! k)"
    using select_with_weight_ok [OF assms(1-3), of rng] by blast
  let ?c = "committee @ [fst (cs ! k)]"
  obtain sel where sel: "select_loop G cs (sum_list (map snd cs)) n ?c rng' = Inr (?c @ sel)"
    "length (?c @ sel) = n" "\<forall>x\<in>set sel. \<exists>w. (x, w) \<in> set cs \<and> 0 < w"
    using Suc.hyps(1) [of ?c rng'] Suc.hyps(2) lt by force
  have "(fst (cs ! k), snd (cs ! k)) \<in> set cs" using k(2) by simp
  then have "\<forall>x\<in>set (fst (cs ! k) # sel). \<exists>w. (x, w) \<in> set cs \<and> 0 < w"
    using k(3) sel(3) by (metis set_ConsD)
  moreover have "select_loop G cs (sum_list (map snd cs)) n committee rng
      = Inr (committee @ fst (cs ! k) # sel)"
    using sel(1) k(1,2) lt ne by (subst select_loop.simps) simp
  ultimately show ?case using sel(2) by (intro exI [of _ "fst (cs ! k) # sel"]) simp
qed

text \<open>With candidates of positive total weight every seat is filled.\<close>

lemma weighted_select_ok:
  assumes "rng_ok G" and "total_of cs < 2 ^ 128" and "0 < total_of cs"
  shows "\<exists>sel. weighted_select_authorities G cs seed n = Inr (Some sel)
           \<and> length sel = unat n \<and> (\<forall>x\<in>set sel. \<exists>w. (x, w) \<in> set cs \<and> 0 < w)"
  using select_loop_ok [OF assms, of "[]" "unat n" "from_seed G seed"]
  by (auto simp: weighted_select_authorities_def)

lemma weighted_select_zero_seats: "weighted_select_authorities G cs seed 0 = Inr (Some [])"
  by (simp add: weighted_select_authorities_def select_loop.simps [of G])

lemma weighted_select_no_candidates:
  "weighted_select_authorities G [] seed n = Inr (if n = 0 then Some [] else None)"
  by (auto simp: weighted_select_authorities_def select_loop.simps [of G] unat_eq_0)

text \<open>
  Candidates whose weights are all zero make the draw panic: \<open>random_range(0..0)\<close> is
  the empty range.
\<close>

lemma weighted_select_zero_weight_panics:
  assumes "total_of cs = 0" and "cs \<noteq> []" and "n \<noteq> 0"
  shows "weighted_select_authorities G cs seed n = Inl EmptyRange"
proof -
  have "unat (sum_list (map snd cs)) = 0"
    using assms(1) by (simp add: total_of_unat)
  then have "sum_list (map snd cs) = (0 :: u128)" by (simp add: unat_eq_0)
  then show ?thesis
    using assms(2,3)
    by (simp add: weighted_select_authorities_def select_loop.simps [of G] select_with_weight_def
        unat_gt_0)
qed

end
