(* ===== verification/Ariadne.thy ===== *)
theory Ariadne
  imports Weighted_Random "HOL-Library.Product_Lexorder"
begin

text \<open>
  The Ariadne committee selection algorithms,
  \<open>toolkit/committee-selection/selection/src/ariadne.rs\<close> and \<open>ariadne_v2.rs\<close>.

  Candidates are any linearly ordered type (the trait bound \<open>SC: Ord + Clone\<close>), and a
  vector of candidates with weights is sorted lexicographically, as \<open>Vec::sort\<close> on pairs does.
  \<open>SliceRandom::shuffle\<close> is a parameter; \<open>shuffle_ok\<close> is its documented contract, that it
  permutes the slice.
\<close>

definition shuffle_ok :: "('rng \<Rightarrow> 'a list \<Rightarrow> 'a list) \<Rightarrow> bool" where
  "shuffle_ok shuffle \<longleftrightarrow> (\<forall>r xs. mset (shuffle r xs) = mset xs)"

subsection \<open>Ariadne\<close>

definition trustless_candidates_with_weights :: "'a weighted \<Rightarrow> u16 \<Rightarrow> nat \<Rightarrow> 'a weighted" where
  "trustless_candidates_with_weights trustless_candidates num_trustless_candidates
      permissioned_candidates_count =
     (let weight_factor = (if permissioned_candidates_count > 0
        then ucast num_trustless_candidates * word_of_nat permissioned_candidates_count else 1)
      in map (\<lambda>(c, weight). (c, weight * weight_factor)) trustless_candidates)"

definition permissioned_candidates_with_weights ::
  "'a list \<Rightarrow> u16 \<Rightarrow> u16 \<Rightarrow> u128 \<Rightarrow> 'a weighted" where
  "permissioned_candidates_with_weights permissioned_candidates num_permissioned_candidates
      num_trustless_candidates total_stake =
     (let weight = (if total_stake > 0 \<and> num_trustless_candidates > 0
        then ucast num_permissioned_candidates * total_stake else 1)
      in map (\<lambda>c. (c, weight)) permissioned_candidates)"

definition ariadne_weighted_candidates ::
  "u16 \<Rightarrow> u16 \<Rightarrow> 'a::linorder weighted \<Rightarrow> 'a list \<Rightarrow> 'a weighted" where
  "ariadne_weighted_candidates num_trustless_candidates num_permissioned_candidates
      trustless_candidates permissioned_candidates =
     (let total_stake = sum_list (map snd trustless_candidates) in
      sort (trustless_candidates_with_weights trustless_candidates num_trustless_candidates
              (length permissioned_candidates)
          @ permissioned_candidates_with_weights permissioned_candidates
              num_permissioned_candidates num_trustless_candidates total_stake))"

definition ariadne_select_authorities ::
  "('seed, 'rng) chacha \<Rightarrow> u16 \<Rightarrow> u16 \<Rightarrow> 'a::linorder weighted \<Rightarrow> 'a list \<Rightarrow> 'seed
     \<Rightarrow> panic + 'a list option" where
  "ariadne_select_authorities G num_trustless_candidates num_permissioned_candidates
      trustless_candidates permissioned_candidates seed =
     (let committee_size = num_trustless_candidates + num_permissioned_candidates in
      weighted_select_authorities G
        (ariadne_weighted_candidates num_trustless_candidates num_permissioned_candidates
           trustless_candidates permissioned_candidates)
        seed committee_size)"

subsection \<open>Ariadne with guaranteed assignment\<close>

text \<open>
  The loop of \<open>select_guaranteed\<close> over the scaled candidates. The \<open>try_into\<close> to
  \<open>usize\<close> is the 32-bit one of the \<open>wasm32\<close> runtime.
\<close>

fun select_guaranteed_loop ::
  "u128 \<Rightarrow> 'a weighted \<Rightarrow> 'a list \<Rightarrow> 'a weighted \<Rightarrow> panic + ('a list \<times> 'a weighted)" where
  "select_guaranteed_loop threshold [] selected remaining = Inr (selected, remaining)"
| "select_guaranteed_loop threshold ((c, weight) # cs) selected remaining =
     (if threshold = 0 then Inl DivisionByZero
      else if 2 ^ 32 \<le> unat (weight div threshold) then Inl ExpectFailed
      else let guaranteed = unat (weight div threshold);
               remaining_weight = weight mod threshold
           in select_guaranteed_loop threshold cs (selected @ replicate guaranteed c)
                (if remaining_weight > 0 then remaining @ [(c, remaining_weight)] else remaining))"

definition select_guaranteed :: "'a weighted \<Rightarrow> u16 \<Rightarrow> panic + ('a list \<times> 'a weighted)" where
  "select_guaranteed weighted_candidates n =
     (let threshold = sum_list (map snd weighted_candidates);
          scale = ucast n;
          scaled_candidates = map (\<lambda>(c, weight). (c, weight * scale))
            (filter (\<lambda>(_, weight). weight > 0) weighted_candidates)
      in select_guaranteed_loop threshold scaled_candidates [] [])"

definition select_remaining ::
  "('seed, 'rng) chacha \<Rightarrow> 'a weighted \<Rightarrow> u16 \<Rightarrow> 'rng \<Rightarrow> panic + 'a list" where
  "select_remaining G weighted_candidates n rng =
     (case weighted_select_authorities G weighted_candidates (get_seed G rng) n of
        Inl p \<Rightarrow> Inl p
      | Inr None \<Rightarrow> Inr []
      | Inr (Some sel) \<Rightarrow> Inr sel)"

definition weighted_with_guaranteed_assignment ::
  "('seed, 'rng) chacha \<Rightarrow> 'a::linorder weighted \<Rightarrow> u16 \<Rightarrow> 'rng \<Rightarrow> panic + 'a list" where
  "weighted_with_guaranteed_assignment G candidates n rng =
     (if candidates = [] \<or> n = 0 then Inr []
      else (case select_guaranteed (sort candidates) n of
          Inl p \<Rightarrow> Inl p
        | Inr (selected, remaining) \<Rightarrow>
            (if 2 ^ 16 \<le> length selected then Inl ExpectFailed
             else let selected_count = word_of_nat (length selected) in
               (case select_remaining G remaining (n - selected_count) rng of
                  Inl p \<Rightarrow> Inl p
                | Inr random \<Rightarrow> Inr (selected @ random)))))"

definition ariadne_v2_select_authorities ::
  "('seed, 'rng) chacha \<Rightarrow> ('rng \<Rightarrow> 'a list \<Rightarrow> 'a list) \<Rightarrow> u16 \<Rightarrow> u16 \<Rightarrow> 'a::linorder weighted
     \<Rightarrow> 'a list \<Rightarrow> 'seed \<Rightarrow> panic + 'a list option" where
  "ariadne_v2_select_authorities G shuffle registered_seats permissioned_seats
      registered_candidates permissioned_candidates seed =
     (let seats_total = permissioned_seats + registered_seats;
          rng = from_seed G seed;
          permissioned_candidates = map (\<lambda>c. (c, 1)) permissioned_candidates;
          selected =
            (if registered_candidates \<noteq> [] \<and> permissioned_candidates \<noteq> [] then
               (case weighted_with_guaranteed_assignment G registered_candidates registered_seats rng of
                  Inl p \<Rightarrow> Inl p
                | Inr registered_selected \<Rightarrow>
                    (case weighted_with_guaranteed_assignment G permissioned_candidates
                            permissioned_seats rng of
                       Inl p \<Rightarrow> Inl p
                     | Inr permissioned_selected \<Rightarrow>
                         Inr (registered_selected @ permissioned_selected)))
             else if registered_candidates = [] then
               weighted_with_guaranteed_assignment G permissioned_candidates seats_total rng
             else
               weighted_with_guaranteed_assignment G registered_candidates seats_total rng)
      in (case selected of
            Inl p \<Rightarrow> Inl p
          | Inr sel \<Rightarrow>
              (let sel = shuffle rng sel
               in Inr (if sel = [] \<and> seats_total > 0 then None else Some sel))))"

subsection \<open>Guaranteed seats\<close>

text \<open>
  The specification of the guaranteed part: candidate \<open>c\<close> of weight \<open>w\<close> gets
  \<open>floor (w * n / W)\<close> seats, for \<open>W\<close> the total weight.
\<close>

definition guaranteed_seats :: "nat \<Rightarrow> nat \<Rightarrow> 'a weighted \<Rightarrow> 'a list" where
  "guaranteed_seats W n cs = concat (map (\<lambda>(c, w). replicate (unat w * n div W) c) cs)"

lemma guaranteed_seats_simps [simp]:
  "guaranteed_seats W n [] = []"
  "guaranteed_seats W n ((c, w) # cs) = replicate (unat w * n div W) c @ guaranteed_seats W n cs"
  by (simp_all add: guaranteed_seats_def)

lemma select_guaranteed_loop_eq:
  assumes "t \<noteq> 0" and "\<And>c w. (c, w) \<in> set cs \<Longrightarrow> unat (w div t) < 2 ^ 32"
  shows "select_guaranteed_loop t cs sel rm =
     Inr (sel @ concat (map (\<lambda>(c, w). replicate (unat (w div t)) c) cs),
          rm @ filter (\<lambda>(_, w). w > 0) (map (\<lambda>(c, w). (c, w mod t)) cs))"
  using assms(2)
proof (induction cs arbitrary: sel rm)
  case Nil
  then show ?case by simp
next
  case (Cons c cs)
  obtain x w where c: "c = (x, w)" by (cases c)
  have "unat (w div t) < 2 ^ 32" using Cons.prems [of x w] c by simp
  moreover have "\<And>c w. (c, w) \<in> set cs \<Longrightarrow> unat (w div t) < 2 ^ 32"
    using Cons.prems by (meson list.set_intros(2))
  note IH = Cons.IH [OF this]
  ultimately show ?case using assms(1) c by (simp add: IH Let_def)
qed

text \<open>Seats and remainders add up: this is division with remainder, summed.\<close>

lemma seats_and_remainders:
  "length (guaranteed_seats W n cs) * W + sum_list (map (\<lambda>(_, w). unat w * n mod W) cs)
     = n * total_of cs"
proof (induction cs)
  case Nil
  then show ?case by simp
next
  case (Cons c cs)
  obtain x w where c: "c = (x, w)" by (cases c)
  have "unat w * n div W * W + unat w * n mod W = unat w * n" by simp
  with Cons show ?case by (simp add: c algebra_simps)
qed

lemma guaranteed_seats_mem:
  "x \<in> set (guaranteed_seats W n cs) \<Longrightarrow> \<exists>w. (x, w) \<in> set cs \<and> 0 < w"
proof (induction cs)
  case Nil
  then show ?case by simp
next
  case (Cons c cs)
  obtain y w where c: "c = (y, w)" by (cases c)
  show ?case
  proof (cases "x \<in> set (guaranteed_seats W n cs)")
    case True
    with Cons.IH show ?thesis by auto
  next
    case False
    then have "x = y" and "unat w * n div W \<noteq> 0" using Cons.prems c by auto
    then have "0 < w" by (cases "w = 0") (simp_all add: word_neq_0_conv)
    with c \<open>x = y\<close> show ?thesis by auto
  qed
qed

lemma guaranteed_seats_count:
  "(c, w) \<in> set cs \<Longrightarrow> unat w * n div W \<le> count_list (guaranteed_seats W n cs) c"
  by (induction cs) (auto simp: count_list_append trans_le_add2)

lemma total_of_filter_pos: "total_of (filter (\<lambda>(_, w). w > 0) cs) = total_of cs"
  by (induction cs) (auto simp: word_less_nat_alt)

text \<open>\<open>select_guaranteed\<close> on weights that do not overflow.\<close>

lemma select_guaranteed_eq:
  assumes pos: "0 < total_of cs" and bound: "total_of cs * unat n < 2 ^ 128" and "n \<noteq> 0"
  shows "\<exists>rm. select_guaranteed cs n = Inr (guaranteed_seats (total_of cs) (unat n) cs, rm)
     \<and> total_of rm = sum_list (map (\<lambda>(_, w). unat w * unat n mod total_of cs) cs)
     \<and> (\<forall>(c, v)\<in>set rm. \<exists>w. (c, w) \<in> set cs \<and> 0 < w)"
proof -
  let ?W = "total_of cs" and ?n = "unat n" and ?t = "sum_list (map snd cs)"
  let ?pos = "filter (\<lambda>(_, w). w > 0) cs"
  let ?scaled = "map (\<lambda>(c, w). (c, w * ucast n)) ?pos"
  have n: "0 < ?n" using \<open>n \<noteq> 0\<close> by (simp add: unat_gt_0)
  have "?W * 1 \<le> ?W * ?n" using n by (intro mult_le_mono2) simp
  then have W: "?W < 2 ^ 128" using bound by linarith
  have t: "unat ?t = ?W" using W by (rule total_of_unat)
  have t0: "?t \<noteq> 0" using t pos by auto
  have un: "unat (ucast n :: u128) = ?n" by (simp add: unat_ucast_up)
  have scaled: "unat (w * ucast n) = unat w * ?n" if "(c, w) \<in> set cs" for c w
  proof -
    have "unat w * ?n \<le> ?W * ?n" using total_of_mem_le [OF that] by (rule mult_le_mono1)
    then have "unat w * ?n < 2 ^ 128" using bound by linarith
    then show ?thesis using un by (simp add: unat_mult_nowrap)
  qed
  have fits: "unat (w div ?t) < 2 ^ 32" if "(c, w) \<in> set ?scaled" for c w
  proof -
    from that obtain v where v: "(c, v) \<in> set cs" "w = v * ucast n" by auto
    have "unat (w div ?t) = unat v * ?n div ?W" using v scaled by (simp add: unat_div t)
    also have "\<dots> \<le> ?W * ?n div ?W"
      using total_of_mem_le [OF v(1)] by (intro div_le_mono mult_le_mono1)
    also have "\<dots> = ?n" using pos by simp
    also have "\<dots> < 2 ^ 16" using unat_bound [of n] by simp
    finally show ?thesis by simp
  qed
  let ?seats = "concat (map (\<lambda>(c, w). replicate (unat (w div ?t)) c) ?scaled)"
  let ?rm = "filter (\<lambda>(_, w). w > 0) (map (\<lambda>(c, w). (c, w mod ?t)) ?scaled)"
  have sel: "select_guaranteed cs n = Inr (?seats, ?rm)"
  proof -
    have "select_guaranteed_loop ?t ?scaled [] [] = Inr ([] @ ?seats, [] @ ?rm)"
      by (rule select_guaranteed_loop_eq [OF t0]) (rule fits)
    then show ?thesis by (simp only: select_guaranteed_def Let_def append_Nil)
  qed
  have sub: "set xs \<subseteq> set cs \<Longrightarrow>
      concat (map (\<lambda>(c, w). replicate (unat (w div ?t)) c)
        (map (\<lambda>(c, w). (c, w * ucast n)) (filter (\<lambda>(_, w). w > 0) xs))) = guaranteed_seats ?W ?n xs
    \<and> total_of (map (\<lambda>(c, w). (c, w mod ?t))
        (map (\<lambda>(c, w). (c, w * ucast n)) (filter (\<lambda>(_, w). w > 0) xs)))
      = sum_list (map (\<lambda>(_, w). unat w * ?n mod ?W) xs)" for xs
    by (induction xs) (auto simp: scaled unat_div unat_mod t word_less_nat_alt)
  from sub [of cs] have seats: "?seats = guaranteed_seats ?W ?n cs"
    and rest: "total_of ?rm = sum_list (map (\<lambda>(_, w). unat w * ?n mod ?W) cs)"
    by (simp_all add: total_of_filter_pos)
  have "\<forall>(c, v)\<in>set ?rm. \<exists>w. (c, w) \<in> set cs \<and> 0 < w" by auto
  with sel seats rest show ?thesis by simp
qed

text \<open>
  The correctness of \<open>weighted_with_guaranteed_assignment\<close>: exactly \<open>n\<close> seats, only
  candidates of positive weight, and at least the floor of the expected number of seats each.
\<close>

lemma weighted_with_guaranteed_assignment_ok:
  assumes rng: "rng_ok G" and pos: "0 < total_of cs" and bound: "total_of cs * unat n < 2 ^ 128"
  shows "\<exists>sel. weighted_with_guaranteed_assignment G cs n rng = Inr sel \<and> length sel = unat n
     \<and> (\<forall>x\<in>set sel. \<exists>w. (x, w) \<in> set cs \<and> 0 < w)
     \<and> (\<forall>(c, w)\<in>set cs. unat w * unat n div total_of cs \<le> count_list sel c)"
proof (cases "n = 0")
  case True
  then show ?thesis by (auto simp: weighted_with_guaranteed_assignment_def)
next
  case False
  let ?cs = "sort cs" and ?W = "total_of cs" and ?n = "unat n"
  have W: "total_of ?cs = ?W" by (rule total_of_mset) simp
  have set_eq: "set ?cs = set cs" by simp
  have ne: "cs \<noteq> []" using pos by auto
  obtain rm where rm: "select_guaranteed ?cs n = Inr (guaranteed_seats ?W ?n ?cs, rm)"
    "total_of rm = sum_list (map (\<lambda>(_, w). unat w * ?n mod ?W) ?cs)"
    "\<forall>(c, v)\<in>set rm. \<exists>w. (c, w) \<in> set cs \<and> 0 < w"
    using select_guaranteed_eq [of ?cs n] pos bound False W set_eq by auto
  let ?S = "guaranteed_seats ?W ?n ?cs"
  have eq: "length ?S * ?W + total_of rm = ?n * ?W"
    using seats_and_remainders [of ?W ?n ?cs] by (simp only: rm(2) W)
  then have "length ?S * ?W \<le> ?n * ?W" by linarith
  then have le: "length ?S \<le> ?n" using pos by simp
  have n16: "?n < 2 ^ 16" using unat_bound [of n] by simp
  have rmW: "total_of rm = (?n - length ?S) * ?W"
    using eq by (simp add: diff_mult_distrib)
  have "unat (word_of_nat (length ?S) :: u16) = length ?S"
    using le n16 by (intro unat_word_of_nat_small) simp
  then have un: "unat (n - word_of_nat (length ?S)) = ?n - length ?S"
    using le by (simp add: unat_sub word_le_nat_alt)
  have "\<exists>sel. select_remaining G rm (n - word_of_nat (length ?S)) rng = Inr sel
      \<and> length sel = ?n - length ?S \<and> (\<forall>x\<in>set sel. \<exists>w. (x, w) \<in> set rm)"
  proof (cases "length ?S = ?n")
    case True
    then have "n - word_of_nat (length ?S) = 0" using un by (simp add: unat_eq_0)
    then show ?thesis
      using True by (simp add: select_remaining_def weighted_select_zero_seats)
  next
    case False
    with le have "0 < ?n - length ?S" by simp
    then have "0 < total_of rm" using rmW pos by simp
    moreover have "total_of rm \<le> ?n * ?W" using eq by linarith
    then have "total_of rm < 2 ^ 128" using bound by (simp add: mult.commute)
    ultimately obtain sel where
      "weighted_select_authorities G rm (get_seed G rng) (n - word_of_nat (length ?S)) = Inr (Some sel)"
      "length sel = ?n - length ?S" "\<forall>x\<in>set sel. \<exists>w. (x, w) \<in> set rm \<and> 0 < w"
      using weighted_select_ok [OF rng] un by metis
    then show ?thesis by (auto simp: select_remaining_def)
  qed
  then obtain sel where sel:
    "select_remaining G rm (n - word_of_nat (length ?S)) rng = Inr sel"
    "length sel = ?n - length ?S" "\<forall>x\<in>set sel. \<exists>w. (x, w) \<in> set rm" by blast
  have "weighted_with_guaranteed_assignment G cs n rng = Inr (?S @ sel)"
    using False ne rm(1) sel(1) le n16
    by (simp add: weighted_with_guaranteed_assignment_def)
  moreover have "length (?S @ sel) = ?n" using sel(2) le by simp
  moreover have "\<exists>w. (x, w) \<in> set cs \<and> 0 < w" if "x \<in> set (?S @ sel)" for x
    using that guaranteed_seats_mem [of x ?W ?n ?cs] sel(3) rm(3) set_eq by fastforce
  moreover have "unat w * ?n div ?W \<le> count_list (?S @ sel) c" if "(c, w) \<in> set cs" for c w
    using guaranteed_seats_count [of c w ?cs ?n ?W] that by (simp add: count_list_append)
  ultimately show ?thesis by blast
qed

text \<open>A pool whose weights are all zero contributes nobody, without a panic.\<close>

lemma weighted_with_guaranteed_assignment_zero:
  assumes "total_of cs = 0"
  shows "weighted_with_guaranteed_assignment G cs n rng = Inr []"
proof -
  have "total_of (sort cs) = 0" using assms total_of_mset [of "sort cs" cs] by simp
  then have "filter (\<lambda>(_, w). w > 0) (sort cs) = []"
    using total_of_pos_iff [of "sort cs"] by (auto simp: filter_empty_conv)
  then show ?thesis
    by (simp add: weighted_with_guaranteed_assignment_def select_guaranteed_def
        select_remaining_def weighted_select_no_candidates)
qed

lemma total_of_permissioned [simp]: "total_of (map (\<lambda>c. (c, 1)) cs) = length cs"
  by (induction cs) simp_all

lemma wwga_permissioned_ok:
  assumes "rng_ok G" and "perm \<noteq> []" and "length perm * unat n < 2 ^ 128"
  shows "\<exists>sel. weighted_with_guaranteed_assignment G (map (\<lambda>c. (c, 1)) perm) n rng = Inr sel
     \<and> length sel = unat n \<and> set sel \<subseteq> set perm
     \<and> (\<forall>c\<in>set perm. unat n div length perm \<le> count_list sel c)"
proof -
  have "0 < total_of (map (\<lambda>c. (c, 1)) perm)" using assms(2) by simp
  moreover have "total_of (map (\<lambda>c. (c, 1)) perm) * unat n < 2 ^ 128" using assms(3) by simp
  ultimately obtain sel where
    "weighted_with_guaranteed_assignment G (map (\<lambda>c. (c, 1)) perm) n rng = Inr sel"
    "length sel = unat n" "\<forall>x\<in>set sel. \<exists>w. (x, w) \<in> set (map (\<lambda>c. (c, 1)) perm) \<and> (0 :: u128) < w"
    "\<forall>(c, w)\<in>set (map (\<lambda>c. (c, 1 :: u128)) perm). unat w * unat n div length perm \<le> count_list sel c"
    using weighted_with_guaranteed_assignment_ok [OF assms(1)] by (metis total_of_permissioned)
  then show ?thesis by auto
qed

subsection \<open>Properties\<close>

text \<open>A linear congruential generator and the identity permutation, for the witnesses.\<close>

definition lcg :: "(nat, nat) chacha" where
  "lcg = \<lparr>from_seed = (\<lambda>s. s), get_seed = (\<lambda>r. r),
          random_range = (\<lambda>n r. (word_of_nat r mod n, 5 * r + 3))\<rparr>"

lemma lcg_ok: "rng_ok lcg"
proof -
  have "word_of_nat r mod n < n" if "n \<noteq> 0" for n :: u128 and r
  proof -
    have "0 < unat n" using that by (simp add: unat_gt_0)
    then show ?thesis by (simp add: word_less_nat_alt unat_mod)
  qed
  then show ?thesis by (simp add: rng_ok_def lcg_def)
qed

lemma shuffle_id_ok: "shuffle_ok (\<lambda>_ xs. xs)"
  by (simp add: shuffle_ok_def)

text \<open>
  C5: when both pools are non-empty and the registered candidates have stake, Ariadne v2
  returns a committee that is a permutation of exactly \<open>r\<close> seats given to registered
  candidates of positive weight and \<open>p\<close> seats given to permissioned ones, in which every
  candidate has at least the floor of its expected number of seats.
\<close>

theorem ariadne_v2_committee:
  assumes "rng_ok G" and "shuffle_ok shuffle" and "perm \<noteq> []" and "0 < total_of reg"
    and "total_of reg * unat r < 2 ^ 128" and "length perm * unat p < 2 ^ 128"
    and "unat r + unat p < 2 ^ 16"
  shows "\<exists>sel R P. ariadne_v2_select_authorities G shuffle r p reg perm seed = Inr (Some sel)
     \<and> mset sel = mset R + mset P \<and> length R = unat r \<and> length P = unat p
     \<and> (\<forall>x\<in>set R. \<exists>w. (x, w) \<in> set reg \<and> 0 < w) \<and> set P \<subseteq> set perm
     \<and> (\<forall>(c, w)\<in>set reg. unat w * unat r div total_of reg \<le> count_list R c)
     \<and> (\<forall>c\<in>set perm. unat p div length perm \<le> count_list P c)"
proof -
  obtain R where R: "weighted_with_guaranteed_assignment G reg r (from_seed G seed) = Inr R"
    "length R = unat r" "\<forall>x\<in>set R. \<exists>w. (x, w) \<in> set reg \<and> 0 < w"
    "\<forall>(c, w)\<in>set reg. unat w * unat r div total_of reg \<le> count_list R c"
    using weighted_with_guaranteed_assignment_ok [OF assms(1,4,5)] by blast
  obtain P where P:
    "weighted_with_guaranteed_assignment G (map (\<lambda>c. (c, 1)) perm) p (from_seed G seed) = Inr P"
    "length P = unat p" "set P \<subseteq> set perm" "\<forall>c\<in>set perm. unat p div length perm \<le> count_list P c"
    using wwga_permissioned_ok [OF assms(1,3,6)] by blast
  let ?sel = "shuffle (from_seed G seed) (R @ P)"
  have ms: "mset ?sel = mset R + mset P" using assms(2) by (simp add: shuffle_ok_def)
  then have "length ?sel = unat r + unat p" using R(2) P(2) by (metis size_mset size_union)
  moreover have "unat (p + r) = unat p + unat r"
    using assms(7) by (intro unat_add_nowrap) simp
  ultimately have "\<not> (?sel = [] \<and> 0 < p + r)" by (auto simp: word_less_nat_alt)
  moreover have "reg \<noteq> []" using assms(4) by auto
  ultimately have "ariadne_v2_select_authorities G shuffle r p reg perm seed = Inr (Some ?sel)"
    using R(1) P(1) assms(3) by (auto simp: ariadne_v2_select_authorities_def Let_def)
  with ms R(2-4) P(2-4) show ?thesis by blast
qed

theorem ariadne_v2_committee_witness:
  "\<exists>sel R P. ariadne_v2_select_authorities lcg (\<lambda>_ xs. xs) 5 3 [(1::nat, 20), (2, 10), (3, 10)] [7, 8] 4
       = Inr (Some sel)
     \<and> mset sel = mset R + mset P \<and> length R = unat (5::u16) \<and> length P = unat (3::u16)
     \<and> (\<forall>x\<in>set R. \<exists>w. (x, w) \<in> set [(1, 20), (2, 10), (3, 10::u128)] \<and> 0 < w) \<and> set P \<subseteq> set [7, 8]
     \<and> (\<forall>(c, w)\<in>set [(1, 20), (2, 10), (3, 10::u128)].
          unat w * unat (5::u16) div total_of [(1::nat, 20), (2, 10), (3, 10)] \<le> count_list R c)
     \<and> (\<forall>c\<in>set [7, 8]. unat (3::u16) div length [7::nat, 8] \<le> count_list P c)"
  by (rule ariadne_v2_committee [OF lcg_ok shuffle_id_ok]) simp_all

text \<open>The number of seats filled, as a function of the seats and the two pools.\<close>

definition v2_size :: "nat \<Rightarrow> nat \<Rightarrow> 'a weighted \<Rightarrow> 'a list \<Rightarrow> nat" where
  "v2_size r p reg perm =
     (let stake_seats = (\<lambda>n. if 0 < total_of reg then n else 0) in
      if reg \<noteq> [] \<and> perm \<noteq> [] then stake_seats r + p
      else if reg = [] then (if perm = [] then 0 else p + r)
      else stake_seats (p + r))"

lemma ariadne_v2_selects:
  assumes "rng_ok G" and "shuffle_ok shuffle" and seats: "unat r + unat p < 2 ^ 16"
    and reg: "total_of reg * (unat r + unat p) < 2 ^ 128"
    and perm: "length perm * (unat r + unat p) < 2 ^ 128"
  shows "\<exists>sel. ariadne_v2_select_authorities G shuffle r p reg perm seed
           = Inr (if sel = [] \<and> 0 < unat r + unat p then None else Some sel)
         \<and> length sel = v2_size (unat r) (unat p) reg perm \<and> set sel \<subseteq> fst ` set reg \<union> set perm"
proof -
  let ?w = "weighted_with_guaranteed_assignment G" and ?rng = "from_seed G seed"
  let ?perm = "map (\<lambda>c. (c, 1 :: u128)) perm"
  have pr: "unat (p + r) = unat p + unat r" using seats by (intro unat_add_nowrap) simp
  have bound: "x * n < 2 ^ 128" if "x * (unat r + unat p) < 2 ^ 128" "n \<le> unat r + unat p" for x n :: nat
    using that by (meson mult_le_mono2 order_le_less_trans)
  have R: "\<exists>S. ?w reg n ?rng = Inr S \<and> length S = (if 0 < total_of reg then unat n else 0)
      \<and> set S \<subseteq> fst ` set reg"
    if "unat n \<le> unat r + unat p" for n
  proof (cases "0 < total_of reg")
    case True
    from weighted_with_guaranteed_assignment_ok [OF assms(1) this bound [OF reg that], of ?rng]
    obtain S where "?w reg n ?rng = Inr S" "length S = unat n" "\<forall>x\<in>set S. \<exists>w. (x, w) \<in> set reg \<and> 0 < w"
      by blast
    then show ?thesis using True by force
  next
    case False
    then show ?thesis using weighted_with_guaranteed_assignment_zero [of reg G n ?rng] by simp
  qed
  have P: "\<exists>S. ?w ?perm n ?rng = Inr S \<and> length S = (if perm = [] then 0 else unat n)
      \<and> set S \<subseteq> set perm"
    if "unat n \<le> unat r + unat p" for n
    using wwga_permissioned_ok [OF assms(1), of perm n ?rng] bound [OF perm that]
    by (cases "perm = []") (fastforce simp: weighted_with_guaranteed_assignment_def)+
  let ?sel = "if reg \<noteq> [] \<and> ?perm \<noteq> [] then
           (case ?w reg r ?rng of Inl e \<Rightarrow> Inl e | Inr A \<Rightarrow>
              (case ?w ?perm p ?rng of Inl e \<Rightarrow> Inl e | Inr B \<Rightarrow> Inr (A @ B)))
         else if reg = [] then ?w ?perm (p + r) ?rng else ?w reg (p + r) ?rng"
  have "\<exists>S. ?sel = Inr S \<and> length S = v2_size (unat r) (unat p) reg perm
      \<and> set S \<subseteq> fst ` set reg \<union> set perm"
    using R [of r] P [of p] R [of "p + r"] P [of "p + r"] pr by (auto simp: v2_size_def)
  then obtain S where S: "?sel = Inr S" "length S = v2_size (unat r) (unat p) reg perm"
    "set S \<subseteq> fst ` set reg \<union> set perm" by blast
  have "length (shuffle ?rng S) = length S" "set (shuffle ?rng S) = set S"
    using assms(2) by (metis shuffle_ok_def size_mset, metis shuffle_ok_def set_mset_mset)
  moreover have "0 < p + r \<longleftrightarrow> 0 < unat r + unat p" by (simp add: word_less_nat_alt pr add.commute)
  ultimately show ?thesis
    using S by (intro exI [of _ "shuffle ?rng S"]) (simp add: ariadne_v2_select_authorities_def Let_def)
qed

text \<open>
  C32: Ariadne v2 never panics on weights that do not overflow, and the size of what it selects
  is exact in every case: a missing pool leaves all seats to the other one, and a registered pool
  without any stake gets none of the seats reserved for it.
\<close>

theorem ariadne_v2_size:
  assumes "rng_ok G" and "shuffle_ok shuffle" and "unat r + unat p < 2 ^ 16"
    and "total_of reg * (unat r + unat p) < 2 ^ 128"
    and "length perm * (unat r + unat p) < 2 ^ 128"
  shows "\<exists>sel. ariadne_v2_select_authorities G shuffle r p reg perm seed
           = Inr (if sel = [] \<and> 0 < unat r + unat p then None else Some sel)
         \<and> length sel = v2_size (unat r) (unat p) reg perm"
  using ariadne_v2_selects [OF assms, of seed] by blast

theorem ariadne_v2_size_witness:
  "\<exists>sel. ariadne_v2_select_authorities lcg (\<lambda>_ xs. xs) 5 3 [(1::nat, 0)] [7, 8] 4
      = Inr (if sel = [] \<and> 0 < unat (5::u16) + unat (3::u16) then None else Some sel)
    \<and> length sel = v2_size (unat (5::u16)) (unat (3::u16)) [(1::nat, 0)] [7, 8]"
  by (rule ariadne_v2_size [OF lcg_ok shuffle_id_ok]) simp_all

text \<open>Ariadne v2 does not depend on the order of its two candidate lists.\<close>

lemma ariadne_v2_order_independent:
  assumes "mset reg = mset reg'" and "mset perm = mset perm'"
  shows "ariadne_v2_select_authorities G shuffle r p reg perm seed
       = ariadne_v2_select_authorities G shuffle r p reg' perm' seed"
proof -
  have sorted: "weighted_with_guaranteed_assignment G xs n rng
      = weighted_with_guaranteed_assignment G ys n rng"
    if "mset xs = mset ys" for xs ys :: "'a weighted" and n rng
  proof -
    have "xs = [] \<longleftrightarrow> ys = []" using that by (metis mset_zero_iff)
    then show ?thesis using sort_cong_mset [OF that] by (simp add: weighted_with_guaranteed_assignment_def)
  qed
  have "mset (map (\<lambda>c. (c, 1 :: u128)) perm) = mset (map (\<lambda>c. (c, 1)) perm')"
    using assms(2) by simp
  note sorted [OF assms(1)] sorted [OF this]
  moreover have "reg = [] \<longleftrightarrow> reg' = []" "perm = [] \<longleftrightarrow> perm' = []"
    using assms by (metis mset_zero_iff)+
  ultimately show ?thesis by (simp add: ariadne_v2_select_authorities_def Let_def cong: sum.case_cong)
qed

lemma total_of_scaled:
  fixes f :: u128
  assumes "total_of ts * unat f < 2 ^ 128"
  shows "total_of (map (\<lambda>(c, w). (c, w * f)) ts) = total_of ts * unat f"
  using assms
proof (induction ts)
  case Nil
  then show ?case by simp
next
  case (Cons x ts)
  have sum: "unat (snd x) * unat f + total_of ts * unat f < 2 ^ 128" using Cons.prems by (simp add: add_mult_distrib)
  then have "unat (snd x * f) = unat (snd x) * unat f" by (intro unat_mult_nowrap) simp
  moreover have "total_of ts * unat f < 2 ^ 128" using sum by linarith
  ultimately show ?case using Cons.IH by (simp add: split_def add_mult_distrib)
qed

text \<open>
  C33: in the original Ariadne the total weight of the trustless candidates relates to the total
  weight of the permissioned ones as the trustless seats of the D-parameter relate to its
  permissioned seats.
\<close>

theorem ariadne_weight_ratio:
  assumes "0 < total_of ts" and "0 < T" and "ps \<noteq> []"
    and bT: "total_of ts * unat T * length ps < 2 ^ 128"
    and bP: "total_of ts * unat P * length ps < 2 ^ 128"
  shows "total_of (trustless_candidates_with_weights ts T (length ps)) * unat P
       = total_of (permissioned_candidates_with_weights ps P T (sum_list (map snd ts))) * unat T"
proof -
  let ?S = "total_of ts" and ?n = "length ps" and ?s = "sum_list (map snd ts)"
  have T: "0 < unat T" using assms(2) by (simp add: word_less_nat_alt)
  have n: "0 < ?n" using assms(3) by simp
  have uT: "unat (ucast T :: u128) = unat T" and uP: "unat (ucast P :: u128) = unat P"
    by (simp_all add: unat_ucast_up)
  have T1: "unat T * ?n < 2 ^ 128"
    using bT assms(1) by (metis mult.assoc mult_le_mono1 nat_mult_1 One_nat_def Suc_leI order_le_less_trans)
  have "?n * 1 \<le> ?n * (unat T)" using T by (intro mult_le_mono2) simp
  then have n1: "?n < 2 ^ 128" using T1 by (metis mult.commute mult.right_neutral order_le_less_trans)
  have S1: "?S < 2 ^ 128"
    using bT T n by (metis One_nat_def Suc_leI mult.assoc mult_le_mono2 mult.right_neutral
        nat_0_less_mult_iff order_le_less_trans)
  have f: "unat (ucast T * word_of_nat ?n :: u128) = unat T * ?n"
    using T1 n1 by (simp add: unat_mult_nowrap uT unat_word_of_nat_small)
  have "?S * unat (ucast T * word_of_nat ?n :: u128) < 2 ^ 128" using bT by (simp add: f mult.assoc)
  from total_of_scaled [OF this] have L: "total_of (trustless_candidates_with_weights ts T ?n) = ?S * (unat T * ?n)"
    using n by (simp add: trustless_candidates_with_weights_def f)
  have s: "unat ?s = ?S" using S1 by (rule total_of_unat)
  then have s0: "0 < ?s" using assms(1) by (simp add: word_less_nat_alt)
  have "unat P * ?S \<le> ?S * unat P * ?n" using n by (cases ?n) simp_all
  then have "unat P * ?S < 2 ^ 128" using bP by linarith
  then have w: "unat (ucast P * ?s :: u128) = unat P * ?S" by (simp add: unat_mult_nowrap uP s)
  have "total_of (map (\<lambda>c. (c, ucast P * ?s)) xs) = length xs * (unat P * ?S)" for xs
    by (induction xs) (simp_all add: w)
  then have R: "total_of (permissioned_candidates_with_weights ps P T ?s) = ?n * (unat P * ?S)"
    using s0 assms(2) by (simp add: permissioned_candidates_with_weights_def)
  show ?thesis unfolding L R by (simp add: algebra_simps)
qed

theorem ariadne_weight_ratio_witness:
  "total_of (trustless_candidates_with_weights [(1::nat, 30), (2, 12)] 3 (length [7::nat, 8])) * unat (4::u16)
     = total_of (permissioned_candidates_with_weights [7::nat, 8] 4 3
         (sum_list (map snd [(1::nat, 30), (2, 12)]))) * unat (3::u16)"
  by (rule ariadne_weight_ratio) simp_all

end
