(* ===== verification/Slots.thy ===== *)
theory Slots
  imports Prelude
begin

text \<open>
  Partner Chain slots and epochs, \<open>toolkit/sidechain/sidechain-slots/src/lib.rs\<close>, and the
  Sidechain pallet that tracks the current epoch, \<open>toolkit/sidechain/pallet/src/lib.rs\<close>.

  Slots, epochs and timestamps are \<open>u64\<close>; the number of slots per epoch is \<open>u32\<close>. The
  conversions \<open>Slot::timestamp\<close> and \<open>Slot::from_timestamp\<close> of \<open>sp_consensus_slots\<close> are
  parameters of the functions that call them.
\<close>

type_synonym slot = u64
type_synonym sc_epoch = u64

definition epoch_number :: "slot \<Rightarrow> u32 \<Rightarrow> panic + sc_epoch" where
  "epoch_number slot slots_per_epoch =
     (if slots_per_epoch = 0 then Inl DivisionByZero else Inr (slot div ucast slots_per_epoch))"

definition first_slot_number :: "sc_epoch \<Rightarrow> u32 \<Rightarrow> slot" where
  "first_slot_number epoch slots_per_epoch = epoch * ucast slots_per_epoch"

definition slot_number_in_epoch :: "slot \<Rightarrow> u32 \<Rightarrow> panic + u32" where
  "slot_number_in_epoch slot slots_per_epoch =
     (if slots_per_epoch = 0 then Inl DivisionByZero
      else let r = slot mod ucast slots_per_epoch in
        if unat r < 2 ^ 32 then Inr (ucast r) else Inl ExpectFailed)"

definition is_last_slot_of_an_epoch :: "slot \<Rightarrow> u32 \<Rightarrow> panic + bool" where
  "is_last_slot_of_an_epoch slot slots_per_epoch =
     (case slot_number_in_epoch slot slots_per_epoch of
        Inl p \<Rightarrow> Inl p
      | Inr k \<Rightarrow> Inr (k = slots_per_epoch - 1))"

definition default_slots_per_epoch :: u32 where
  "default_slots_per_epoch = 60"

text \<open>
  \<open>slot_duration\<close> is the opaque \<open>SlotDuration\<close> of \<open>sp_consensus_slots\<close>.
\<close>

record 'dur sc_slot_config =
  slots_per_epoch :: u32
  slot_duration :: 'dur

definition config_epoch_number :: "'dur sc_slot_config \<Rightarrow> slot \<Rightarrow> panic + sc_epoch" where
  "config_epoch_number cfg slot = epoch_number slot (slots_per_epoch cfg)"

definition config_first_slot_number :: "'dur sc_slot_config \<Rightarrow> sc_epoch \<Rightarrow> slot" where
  "config_first_slot_number cfg epoch = first_slot_number epoch (slots_per_epoch cfg)"

definition slot_from_timestamp ::
  "(u64 \<Rightarrow> 'dur \<Rightarrow> slot) \<Rightarrow> 'dur sc_slot_config \<Rightarrow> u64 \<Rightarrow> slot" where
  "slot_from_timestamp from_timestamp cfg timestamp = from_timestamp timestamp (slot_duration cfg)"

definition epoch_start_time ::
  "(slot \<Rightarrow> 'dur \<Rightarrow> u64 option) \<Rightarrow> 'dur sc_slot_config \<Rightarrow> sc_epoch \<Rightarrow> u64 option" where
  "epoch_start_time slot_timestamp cfg epoch =
     slot_timestamp (config_first_slot_number cfg epoch) (slot_duration cfg)"

subsection \<open>The Sidechain pallet\<close>

text \<open>
  The storage of the pallet; \<open>epoch_number_storage\<close> is \<open>None\<close> until the first block, which is
  what \<open>try_get\<close> distinguishes. The calls to \<open>OnNewEpoch\<close> are recorded in
  \<open>new_epoch_events\<close> in the order they are made.
\<close>

record 'utxo sidechain_state =
  epoch_number_storage :: "sc_epoch option"
  slots_per_epoch_storage :: u32
  genesis_utxo_storage :: 'utxo
  new_epoch_events :: "(sc_epoch \<times> sc_epoch) list"

definition sidechain_genesis_build :: "'utxo \<Rightarrow> u32 \<Rightarrow> 'utxo sidechain_state" where
  "sidechain_genesis_build utxo spe =
     \<lparr>epoch_number_storage = None, slots_per_epoch_storage = spe,
      genesis_utxo_storage = utxo, new_epoch_events = []\<rparr>"

definition sidechain_current_epoch_number :: "'utxo sidechain_state \<Rightarrow> slot \<Rightarrow> panic + sc_epoch" where
  "sidechain_current_epoch_number s current_slot_number =
     epoch_number current_slot_number (slots_per_epoch_storage s)"

definition sidechain_on_initialize ::
  "'utxo sidechain_state \<Rightarrow> slot \<Rightarrow> panic + 'utxo sidechain_state" where
  "sidechain_on_initialize s current_slot_number =
     (case sidechain_current_epoch_number s current_slot_number of
        Inl p \<Rightarrow> Inl p
      | Inr real_epoch \<Rightarrow> Inr
          (case epoch_number_storage s of
             Some saved_epoch \<Rightarrow>
               (if saved_epoch \<noteq> real_epoch
                then s\<lparr>epoch_number_storage := Some real_epoch,
                       new_epoch_events := new_epoch_events s @ [(saved_epoch, real_epoch)]\<rparr>
                else s)
           | None \<Rightarrow> s\<lparr>epoch_number_storage := Some real_epoch\<rparr>))"

text \<open>The pallet over the slots of successive blocks.\<close>

fun sidechain_run :: "'utxo sidechain_state \<Rightarrow> slot list \<Rightarrow> panic + 'utxo sidechain_state" where
  "sidechain_run s [] = Inr s"
| "sidechain_run s (slot # slots) =
     (case sidechain_on_initialize s slot of Inl p \<Rightarrow> Inl p | Inr s' \<Rightarrow> sidechain_run s' slots)"

subsection \<open>Lemmas\<close>

lemma unat_ucast_spe [simp]: "unat (ucast (n :: u32) :: u64) = unat n"
  by (simp add: unat_ucast_up)

lemma ucast_spe_eq_0_iff [simp]: "(ucast (n :: u32) :: u64) = 0 \<longleftrightarrow> n = 0"
  by (metis unat_ucast_spe unat_eq_0 unat_0)

lemma slot_mod_less:
  fixes slot :: u64 and n :: u32
  shows "n \<noteq> 0 \<Longrightarrow> unat (slot mod ucast n) < unat n"
  by (simp add: unat_mod unat_gt_0)

text \<open>The remainder always fits \<open>u32\<close>: the \<open>expect\<close> in \<open>slot_number_in_epoch\<close> never fails.\<close>

lemma slot_number_in_epoch_eq:
  assumes "n \<noteq> 0"
  shows "\<exists>k. slot_number_in_epoch slot n = Inr k \<and> unat k = unat slot mod unat n"
proof -
  let ?r = "slot mod ucast n :: u64"
  have lt: "unat ?r < 2 ^ 32" using slot_mod_less [OF assms, of slot] unat_bound [of n] by simp
  then have "unat (ucast ?r :: u32) = unat ?r"
    by (simp add: unsigned_ucast_eq take_bit_nat_eq_self_iff)
  with lt assms show ?thesis by (simp add: slot_number_in_epoch_def unat_mod)
qed

lemma epoch_number_eq:
  assumes "n \<noteq> 0"
  shows "\<exists>e. epoch_number slot n = Inr e \<and> unat e = unat slot div unat n"
  using assms by (simp add: epoch_number_def unat_div)

text \<open>The pairs of distinct neighbours of a list, in order.\<close>

fun changes :: "'a list \<Rightarrow> ('a \<times> 'a) list" where
  "changes (x # y # xs) = (if x \<noteq> y then [(x, y)] else []) @ changes (y # xs)"
| "changes _ = []"

lemma changes_append:
  "xs \<noteq> [] \<Longrightarrow> changes (xs @ [y]) = changes xs @ (if last xs \<noteq> y then [(last xs, y)] else [])"
  by (induction xs rule: changes.induct) auto

definition epoch_of :: "u32 \<Rightarrow> slot \<Rightarrow> sc_epoch" where
  "epoch_of n slot = slot div ucast n"

lemma sidechain_on_initialize_eq:
  assumes "slots_per_epoch_storage s \<noteq> 0"
  shows "sidechain_on_initialize s slot = Inr (s\<lparr>
     epoch_number_storage := Some (epoch_of (slots_per_epoch_storage s) slot),
     new_epoch_events := new_epoch_events s @ (case epoch_number_storage s of
        None \<Rightarrow> [] | Some e \<Rightarrow> changes [e, epoch_of (slots_per_epoch_storage s) slot])\<rparr>)"
  using assms
  by (auto simp: sidechain_on_initialize_def sidechain_current_epoch_number_def epoch_number_def
      epoch_of_def split: option.splits)

lemma sidechain_run_append:
  "sidechain_run s (xs @ [x]) =
     (case sidechain_run s xs of Inl p \<Rightarrow> Inl p | Inr s' \<Rightarrow> sidechain_on_initialize s' x)"
  by (induction xs arbitrary: s) (auto split: sum.splits)

subsection \<open>Properties\<close>

text \<open>
  every slot is the first slot of its epoch plus its number within the epoch, the number is
  below the epoch length, and the slot is the last of the epoch exactly when the next slot
  belongs to the next epoch.
\<close>

lemma slot_epoch_decomposition:
  assumes n: "n \<noteq> 0"
  shows "\<exists>e k. epoch_number slot n = Inr e \<and> slot_number_in_epoch slot n = Inr k
     \<and> unat slot = unat (first_slot_number e n) + unat k \<and> unat k < unat n
     \<and> is_last_slot_of_an_epoch slot n = Inr ((unat slot + 1) div unat n = unat e + 1)"
proof -
  obtain e where e: "epoch_number slot n = Inr e" "unat e = unat slot div unat n"
    using epoch_number_eq [OF n] by blast
  obtain k where k: "slot_number_in_epoch slot n = Inr k" "unat k = unat slot mod unat n"
    using slot_number_in_epoch_eq [OF n] by blast
  have n0: "0 < unat n" using n by (simp add: unat_gt_0)
  have "unat e * unat n \<le> unat slot" by (simp add: e(2))
  then have "unat e * unat n < 2 ^ 64" using unat_bound [of slot] by simp
  then have first: "unat (first_slot_number e n) = unat e * unat n"
    by (simp add: first_slot_number_def unat_mult_nowrap)
  have slot: "unat slot = unat e * unat n + unat k" by (simp add: e(2) k(2))
  have kn: "unat k < unat n" using n0 by (simp add: k(2))
  have last: "k = n - 1 \<longleftrightarrow> unat k + 1 = unat n"
    using n0 by (simp add: word_unat_eq_iff unat_minus_one n) linarith
  have "(unat slot + 1) div unat n = unat e + 1 \<longleftrightarrow> unat k + 1 = unat n"
  proof (cases "unat k + 1 = unat n")
    case True
    then have "unat slot + 1 = (unat e + 1) * unat n" by (simp add: slot algebra_simps)
    then show ?thesis using True n0 by simp
  next
    case False
    then have "(unat k + 1) div unat n = 0" using kn by (intro div_less) linarith
    then have "((unat k + 1) + unat e * unat n) div unat n = unat e"
      using n0 by (subst div_mult_self1) simp_all
    then show ?thesis using False by (simp add: slot add.commute)
  qed
  then show ?thesis
    using e(1) k(1) first slot kn by (simp add: is_last_slot_of_an_epoch_def last)
qed

lemma slot_epoch_decomposition_example:
  "\<exists>e k. epoch_number 179 60 = Inr e \<and> slot_number_in_epoch 179 60 = Inr k
     \<and> unat (179::u64) = unat (first_slot_number e 60) + unat k \<and> unat k < unat (60::u32)
     \<and> is_last_slot_of_an_epoch 179 60 = Inr ((unat (179::u64) + 1) div unat (60::u32) = unat e + 1)"
  by (rule slot_epoch_decomposition) simp

text \<open>
  over any sequence of blocks from genesis the Sidechain pallet stores the epoch of the last
  block's slot and calls \<open>OnNewEpoch\<close> once for every block whose epoch differs from the previous
  block's, with the previous and the new epoch, in block order; the first block makes no call.
\<close>

lemma sidechain_epoch_tracking:
  assumes n: "n \<noteq> 0"
  shows "\<exists>s. sidechain_run (sidechain_genesis_build utxo n) slots = Inr s
     \<and> slots_per_epoch_storage s = n \<and> genesis_utxo_storage s = utxo
     \<and> epoch_number_storage s = (if slots = [] then None else Some (epoch_of n (last slots)))
     \<and> new_epoch_events s = changes (map (epoch_of n) slots)"
proof (induction slots rule: rev_induct)
  case Nil
  then show ?case by (simp add: sidechain_genesis_build_def)
next
  case (snoc x xs)
  then obtain s where s: "sidechain_run (sidechain_genesis_build utxo n) xs = Inr s"
    "slots_per_epoch_storage s = n" "genesis_utxo_storage s = utxo"
    "epoch_number_storage s = (if xs = [] then None else Some (epoch_of n (last xs)))"
    "new_epoch_events s = changes (map (epoch_of n) xs)"
    by blast
  show ?case
  proof (cases "xs = []")
    case True
    then show ?thesis using s n by (simp add: sidechain_on_initialize_eq)
  next
    case False
    then show ?thesis using s n
      by (simp add: sidechain_run_append sidechain_on_initialize_eq changes_append last_map)
  qed
qed

lemma sidechain_epoch_tracking_example:
  "\<exists>s. sidechain_run (sidechain_genesis_build ''utxo'' 60) [59, 60, 61, 200] = Inr s
     \<and> slots_per_epoch_storage s = 60 \<and> genesis_utxo_storage s = ''utxo''
     \<and> epoch_number_storage s = (if [59, 60, 61, 200 :: slot] = [] then None
         else Some (epoch_of 60 (last [59, 60, 61, 200])))
     \<and> new_epoch_events s = changes (map (epoch_of 60) [59, 60, 61, 200])"
  by (rule sidechain_epoch_tracking) simp

end
