(* ===== verification/Mainchain_Epoch.thy ===== *)
theory Mainchain_Epoch
  imports Prelude
begin

text \<open>
  Cardano epochs and slots, \<open>toolkit/sidechain/domain/src/mainchain_epoch.rs\<close>.

  Durations and timestamps are the \<open>u64\<close> milliseconds inside \<open>Duration\<close> and
  \<open>Timestamp\<close> of \<open>sp_core::offchain\<close>. The record fields carry the names of the
  struct fields, with the prefix \<open>mc\<close>.
\<close>

type_synonym mc_epoch = u32
type_synonym mc_slot = u64
type_synonym timestamp = u64

record mainchain_epoch_config =
  mc_epoch_duration_millis :: u64
  mc_slot_duration_millis :: u64
  mc_first_epoch_timestamp_millis :: timestamp
  mc_first_epoch_number :: u32
  mc_first_slot_number :: u64

datatype epoch_derivation_error = TimestampTooSmall | EpochTooBig | EpochTooSmall | SlotTooSmall

definition mc_slots_per_epoch :: "mainchain_epoch_config \<Rightarrow> u64" where
  "mc_slots_per_epoch cfg = mc_epoch_duration_millis cfg div 1000"

definition epochs_passed ::
  "mainchain_epoch_config \<Rightarrow> timestamp \<Rightarrow> (epoch_derivation_error, u32) outcome" where
  "epochs_passed cfg timestamp =
     and_then (checked TimestampTooSmall (checked_sub timestamp (mc_first_epoch_timestamp_millis cfg)))
     (\<lambda>time_elapsed. and_then (div_or_panic time_elapsed (mc_epoch_duration_millis cfg))
     (\<lambda>q. and_then (checked EpochTooBig (narrow q))
     (\<lambda>res. if res > 0x7FFFFFFF then Err EpochTooBig else Ok res)))"

definition timestamp_to_mainchain_epoch ::
  "mainchain_epoch_config \<Rightarrow> timestamp \<Rightarrow> (epoch_derivation_error, mc_epoch) outcome" where
  "timestamp_to_mainchain_epoch cfg timestamp =
     and_then (epochs_passed cfg timestamp)
     (\<lambda>n. Ok (saturating_add (mc_first_epoch_number cfg) n))"

definition timestamp_to_mainchain_slot_number ::
  "mainchain_epoch_config \<Rightarrow> timestamp \<Rightarrow> (epoch_derivation_error, mc_slot) outcome" where
  "timestamp_to_mainchain_slot_number cfg timestamp =
     and_then (checked TimestampTooSmall (checked_sub timestamp (mc_first_epoch_timestamp_millis cfg)))
     (\<lambda>time_elapsed. and_then (div_or_panic time_elapsed (mc_slot_duration_millis cfg))
     (\<lambda>q. Ok (mc_first_slot_number cfg + q)))"

definition mainchain_epoch_to_timestamp :: "mainchain_epoch_config \<Rightarrow> mc_epoch \<Rightarrow> timestamp" where
  "mainchain_epoch_to_timestamp cfg epoch =
     (let time_elapsed = mc_epoch_duration_millis cfg * ucast epoch in
      mc_first_epoch_timestamp_millis cfg + time_elapsed)"

definition first_slot_of_epoch ::
  "mainchain_epoch_config \<Rightarrow> mc_epoch \<Rightarrow> (epoch_derivation_error, mc_slot) outcome" where
  "first_slot_of_epoch cfg epoch =
     and_then (checked EpochTooSmall (checked_sub epoch (mc_first_epoch_number cfg)))
     (\<lambda>epochs_since_first_epoch.
        let slots_since_first_epoch = ucast epochs_since_first_epoch * mc_slots_per_epoch cfg in
        Ok (slots_since_first_epoch + mc_first_slot_number cfg))"

definition epoch_for_slot ::
  "mainchain_epoch_config \<Rightarrow> mc_slot \<Rightarrow> (epoch_derivation_error, mc_epoch) outcome" where
  "epoch_for_slot cfg slot =
     and_then (checked SlotTooSmall (checked_sub slot (mc_first_slot_number cfg)))
     (\<lambda>slots_since_first_slot.
        and_then (div_or_panic slots_since_first_slot (mc_slots_per_epoch cfg))
     (\<lambda>q. and_then (checked EpochTooBig (narrow q))
     (\<lambda>epochs_since_first_epoch. Ok (mc_first_epoch_number cfg + epochs_since_first_epoch))))"

subsection \<open>The functions on natural numbers\<close>

lemma epochs_passed_Ok:
  assumes "unat (mc_first_epoch_timestamp_millis cfg) \<le> unat t" and "mc_epoch_duration_millis cfg \<noteq> 0"
    and "(unat t - unat (mc_first_epoch_timestamp_millis cfg)) div unat (mc_epoch_duration_millis cfg) < 2 ^ 31"
  shows "\<exists>n. epochs_passed cfg t = Ok n
     \<and> unat n = (unat t - unat (mc_first_epoch_timestamp_millis cfg)) div unat (mc_epoch_duration_millis cfg)"
proof -
  obtain d where d: "checked_sub t (mc_first_epoch_timestamp_millis cfg) = Some d"
    "unat d = unat t - unat (mc_first_epoch_timestamp_millis cfg)"
    using checked_sub_unat [OF assms(1)] by blast
  let ?q = "d div mc_epoch_duration_millis cfg"
  have q: "unat ?q = unat d div unat (mc_epoch_duration_millis cfg)" by (simp add: unat_div)
  have "unat ?q < 2 ^ LENGTH(32)" using assms(3) by (simp add: q d(2))
  from narrow_unat [OF this] obtain v :: u32 where v: "narrow ?q = Some v" "unat v = unat ?q" by blast
  have "\<not> v > 0x7FFFFFFF" using assms(3) by (simp add: word_less_nat_alt v(2) q d(2))
  then show ?thesis using d assms(2) v q by (simp add: epochs_passed_def)
qed

lemma timestamp_to_mainchain_epoch_Ok:
  assumes "unat (mc_first_epoch_timestamp_millis cfg) \<le> unat t" and "mc_epoch_duration_millis cfg \<noteq> 0"
    and "(unat t - unat (mc_first_epoch_timestamp_millis cfg)) div unat (mc_epoch_duration_millis cfg) < 2 ^ 31"
    and "unat (mc_first_epoch_number cfg)
      + (unat t - unat (mc_first_epoch_timestamp_millis cfg)) div unat (mc_epoch_duration_millis cfg) < 2 ^ 32"
  shows "\<exists>e. timestamp_to_mainchain_epoch cfg t = Ok e \<and> unat e = unat (mc_first_epoch_number cfg)
      + (unat t - unat (mc_first_epoch_timestamp_millis cfg)) div unat (mc_epoch_duration_millis cfg)"
proof -
  obtain n where n: "epochs_passed cfg t = Ok n" "unat n =
      (unat t - unat (mc_first_epoch_timestamp_millis cfg)) div unat (mc_epoch_duration_millis cfg)"
    using epochs_passed_Ok [OF assms(1-3)] by blast
  then show ?thesis using assms(4)
    by (auto simp: timestamp_to_mainchain_epoch_def unat_saturating_add min_def)
qed

lemma epoch_for_slot_Ok:
  assumes "unat (mc_first_slot_number cfg) \<le> unat s" and "mc_slots_per_epoch cfg \<noteq> 0"
    and "unat (mc_first_epoch_number cfg)
      + (unat s - unat (mc_first_slot_number cfg)) div unat (mc_slots_per_epoch cfg) < 2 ^ 32"
  shows "\<exists>e. epoch_for_slot cfg s = Ok e \<and> unat e = unat (mc_first_epoch_number cfg)
      + (unat s - unat (mc_first_slot_number cfg)) div unat (mc_slots_per_epoch cfg)"
proof -
  obtain d where d: "checked_sub s (mc_first_slot_number cfg) = Some d"
    "unat d = unat s - unat (mc_first_slot_number cfg)"
    using checked_sub_unat [OF assms(1)] by blast
  let ?q = "d div mc_slots_per_epoch cfg"
  have q: "unat ?q = unat d div unat (mc_slots_per_epoch cfg)" by (simp add: unat_div)
  have "unat ?q < 2 ^ LENGTH(32)" using assms(3) by (simp add: q d(2))
  from narrow_unat [OF this] obtain v :: u32 where v: "narrow ?q = Some v" "unat v = unat ?q" by blast
  show ?thesis using d assms(2,3) v q by (simp add: epoch_for_slot_def unat_add_nowrap)
qed

subsection \<open>Properties\<close>

text \<open>
  for one second slots and an epoch that is a whole number of seconds, the epoch of the slot
  that contains a timestamp is the epoch that contains the timestamp: \<open>epoch_for_slot\<close> after
  \<open>timestamp_to_mainchain_slot_number\<close> agrees with \<open>timestamp_to_mainchain_epoch\<close> for every
  timestamp from the reference point on whose epoch and slot numbers fit their types.
\<close>

lemma mainchain_slot_epoch_agree:
  assumes slot: "mc_slot_duration_millis cfg = 1000"
    and whole: "unat (mc_epoch_duration_millis cfg) = 1000 * k" "0 < k"
    and after: "unat (mc_first_epoch_timestamp_millis cfg) \<le> unat t"
    and epochs: "(unat t - unat (mc_first_epoch_timestamp_millis cfg)) div (1000 * k) < 2 ^ 31"
      "unat (mc_first_epoch_number cfg)
        + (unat t - unat (mc_first_epoch_timestamp_millis cfg)) div (1000 * k) < 2 ^ 32"
    and slots: "unat (mc_first_slot_number cfg)
        + (unat t - unat (mc_first_epoch_timestamp_millis cfg)) div 1000 < 2 ^ 64"
  shows "\<exists>s e. timestamp_to_mainchain_slot_number cfg t = Ok s \<and> epoch_for_slot cfg s = Ok e
    \<and> timestamp_to_mainchain_epoch cfg t = Ok e"
proof -
  let ?d = "unat t - unat (mc_first_epoch_timestamp_millis cfg)"
  obtain d where d: "checked_sub t (mc_first_epoch_timestamp_millis cfg) = Some d" "unat d = ?d"
    using checked_sub_unat [OF after] by blast
  have s: "timestamp_to_mainchain_slot_number cfg t = Ok (mc_first_slot_number cfg + d div 1000)"
    by (simp add: timestamp_to_mainchain_slot_number_def d(1) slot)
  have us: "unat (mc_first_slot_number cfg + d div 1000) = unat (mc_first_slot_number cfg) + ?d div 1000"
    using slots by (simp add: unat_add_nowrap unat_div d(2))
  have spe: "unat (mc_slots_per_epoch cfg) = k" by (simp add: mc_slots_per_epoch_def unat_div whole)
  then have nz: "mc_slots_per_epoch cfg \<noteq> 0" "mc_epoch_duration_millis cfg \<noteq> 0" using whole by auto
  have dd: "?d div 1000 div k = ?d div (1000 * k)" by (simp add: div_mult2_eq)
  obtain e where e: "epoch_for_slot cfg (mc_first_slot_number cfg + d div 1000) = Ok e"
    "unat e = unat (mc_first_epoch_number cfg) + ?d div (1000 * k)"
    using epoch_for_slot_Ok [of cfg "mc_first_slot_number cfg + d div 1000"] nz epochs(2)
    by (auto simp: us spe dd)
  obtain e' where e': "timestamp_to_mainchain_epoch cfg t = Ok e'"
    "unat e' = unat (mc_first_epoch_number cfg) + ?d div (1000 * k)"
    using timestamp_to_mainchain_epoch_Ok [of cfg t] nz after epochs by (auto simp: whole)
  have "e = e'" using e(2) e'(2) by (simp add: word_unat_eq_iff)
  then show ?thesis using s e(1) e'(1) by blast
qed

definition shelley_mainnet :: mainchain_epoch_config where
  "shelley_mainnet = \<lparr>mc_epoch_duration_millis = 432000000, mc_slot_duration_millis = 1000,
     mc_first_epoch_timestamp_millis = 1596059091000, mc_first_epoch_number = 208,
     mc_first_slot_number = 4492800\<rparr>"

lemma mainchain_slot_epoch_agree_example:
  "\<exists>s e. timestamp_to_mainchain_slot_number shelley_mainnet 1700000000000 = Ok s
    \<and> epoch_for_slot shelley_mainnet s = Ok e
    \<and> timestamp_to_mainchain_epoch shelley_mainnet 1700000000000 = Ok e"
  by (rule mainchain_slot_epoch_agree [where k = 432000]) (simp_all add: shelley_mainnet_def)

text \<open>
  \<open>epoch_for_slot\<close> inverts \<open>first_slot_of_epoch\<close>: the first slot of an epoch, and every
  slot before the first slot of the next epoch, is mapped back to the epoch.
\<close>

lemma first_slot_of_epoch_roundtrip:
  assumes spe: "mc_slots_per_epoch cfg \<noteq> 0"
    and after: "unat (mc_first_epoch_number cfg) \<le> unat epoch"
    and k: "k < unat (mc_slots_per_epoch cfg)"
    and fits: "(unat epoch - unat (mc_first_epoch_number cfg)) * unat (mc_slots_per_epoch cfg)
        + unat (mc_first_slot_number cfg) + k < 2 ^ 64"
  shows "\<exists>s. first_slot_of_epoch cfg epoch = Ok s \<and> epoch_for_slot cfg (s + word_of_nat k) = Ok epoch"
proof -
  let ?n = "unat epoch - unat (mc_first_epoch_number cfg)" and ?l = "unat (mc_slots_per_epoch cfg)"
  obtain d where d: "checked_sub epoch (mc_first_epoch_number cfg) = Some d" "unat d = ?n"
    using checked_sub_unat [OF after] by blast
  let ?s = "ucast d * mc_slots_per_epoch cfg + mc_first_slot_number cfg"
  have s: "first_slot_of_epoch cfg epoch = Ok ?s" by (simp add: first_slot_of_epoch_def d(1))
  have "unat (ucast d * mc_slots_per_epoch cfg) = ?n * ?l"
    using fits by (simp add: unat_mult_nowrap unat_ucast_up d(2))
  then have "unat ?s = ?n * ?l + unat (mc_first_slot_number cfg)"
    using fits by (simp add: unat_add_nowrap)
  then have us: "unat (?s + word_of_nat k) = ?n * ?l + unat (mc_first_slot_number cfg) + k"
    using fits by (simp add: unat_add_nowrap unat_word_of_nat_small)
  have l: "0 < ?l" using spe by (simp add: unat_gt_0)
  have "(?n * ?l + k) div ?l = ?n" using k l by simp
  then have q: "(unat (?s + word_of_nat k) - unat (mc_first_slot_number cfg)) div ?l = ?n"
    by (simp add: us)
  have "unat (mc_first_epoch_number cfg) + ?n = unat epoch" using after by simp
  moreover have "unat epoch < 2 ^ 32" using unat_bound [of epoch] by simp
  ultimately obtain e where "epoch_for_slot cfg (?s + word_of_nat k) = Ok e" "unat e = unat epoch"
    using epoch_for_slot_Ok [of cfg "?s + word_of_nat k"] spe q us by auto
  then show ?thesis using s by (metis word_unat_eq_iff)
qed

lemma first_slot_of_epoch_roundtrip_example:
  "\<exists>s. first_slot_of_epoch shelley_mainnet 500 = Ok s
     \<and> epoch_for_slot shelley_mainnet (s + word_of_nat 431999) = Ok 500"
  by (rule first_slot_of_epoch_roundtrip) (simp_all add: shelley_mainnet_def mc_slots_per_epoch_def unat_div)

text \<open>
  the timestamp \<open>mainchain_epoch_to_timestamp\<close> computes for an epoch lies in the epoch whose
  number is larger by \<open>first_epoch_number\<close>, because the number of the first epoch is not
  subtracted: it is the start of the epoch it is asked for exactly when \<open>first_epoch_number\<close> is
  zero.
\<close>

lemma mainchain_epoch_to_timestamp_shifted:
  assumes dur: "mc_epoch_duration_millis cfg \<noteq> 0"
    and epoch: "unat epoch < 2 ^ 31" "unat (mc_first_epoch_number cfg) + unat epoch < 2 ^ 32"
    and fits: "unat (mc_first_epoch_timestamp_millis cfg)
        + unat (mc_epoch_duration_millis cfg) * unat epoch < 2 ^ 64"
  shows "timestamp_to_mainchain_epoch cfg (mainchain_epoch_to_timestamp cfg epoch)
      = Ok (mc_first_epoch_number cfg + epoch)
    \<and> (timestamp_to_mainchain_epoch cfg (mainchain_epoch_to_timestamp cfg epoch) = Ok epoch
      \<longleftrightarrow> mc_first_epoch_number cfg = 0)"
proof -
  let ?t = "mainchain_epoch_to_timestamp cfg epoch" and ?D = "unat (mc_epoch_duration_millis cfg)"
  have D: "0 < ?D" using dur by (simp add: unat_gt_0)
  have "unat (mc_epoch_duration_millis cfg * ucast epoch) = ?D * unat epoch"
    using fits by (simp add: unat_mult_nowrap unat_ucast_up)
  then have t: "unat ?t = unat (mc_first_epoch_timestamp_millis cfg) + ?D * unat epoch"
    using fits by (simp add: mainchain_epoch_to_timestamp_def unat_add_nowrap)
  then have q: "(unat ?t - unat (mc_first_epoch_timestamp_millis cfg)) div ?D = unat epoch"
    using D by simp
  obtain e where e: "timestamp_to_mainchain_epoch cfg ?t = Ok e"
    "unat e = unat (mc_first_epoch_number cfg) + unat epoch"
    using timestamp_to_mainchain_epoch_Ok [of cfg ?t] dur epoch q t by auto
  have "unat (mc_first_epoch_number cfg + epoch) = unat (mc_first_epoch_number cfg) + unat epoch"
    using epoch(2) by (simp add: unat_add_nowrap)
  then have "e = mc_first_epoch_number cfg + epoch" using e(2) by (simp add: word_unat_eq_iff)
  then show ?thesis using e(1) by simp
qed

lemma mainchain_epoch_to_timestamp_shifted_example:
  "timestamp_to_mainchain_epoch shelley_mainnet (mainchain_epoch_to_timestamp shelley_mainnet 210) = Ok 418"
  using mainchain_epoch_to_timestamp_shifted [of shelley_mainnet 210]
  by (simp add: shelley_mainnet_def)

end
