(* ===== verification/Plutus_Data.thy ===== *)
theory Plutus_Data
  imports Prelude
begin

text \<open>
  Plutus data and its CBOR encoding, \<open>toolkit/utils/plutus/src/lib.rs\<close>, \<open>cbor.rs\<close> and the
  derive macro \<open>plutus-datum-derive\<close>.

  The encoder emits calls on a \<open>minicbor\<close> encoder; the model records the calls in order. What
  \<open>minicbor\<close> writes for a call is a parameter \<open>write\<close>, and \<open>minicbor_ok\<close> states what its
  documentation promises: the items written can be read back one by one. The big endian bytes of
  \<open>num_bigint\<close> are a parameter \<open>to_be\<close> with the contract \<open>to_be_ok\<close>.
\<close>

datatype datum =
    IntegerDatum int
  | ByteStringDatum bytes
  | ConstructorDatum u64 "datum list"
  | ListDatum "datum list"
  | MapDatum "(datum \<times> datum) list"

subsection \<open>Encoding values as data\<close>

definition bytes_to_datum :: "bytes \<Rightarrow> datum" where
  "bytes_to_datum bs = ByteStringDatum bs"

definition option_to_datum :: "('a \<Rightarrow> datum) \<Rightarrow> 'a option \<Rightarrow> datum" where
  "option_to_datum f x =
     (case x of Some v \<Rightarrow> ConstructorDatum 0 [f v] | None \<Rightarrow> ConstructorDatum 1 [])"

definition list_to_datum :: "('a \<Rightarrow> datum) \<Rightarrow> 'a list \<Rightarrow> datum" where
  "list_to_datum f xs = ListDatum (map f xs)"

definition uint_to_datum :: "'w::len word \<Rightarrow> datum" where
  "uint_to_datum n = IntegerDatum (uint n)"

definition as_bytestring :: "datum \<Rightarrow> bytes option" where
  "as_bytestring d = (case d of ByteStringDatum bs \<Rightarrow> Some bs | _ \<Rightarrow> None)"

text \<open>
  The code the derive macro generates for a struct whose fields have the data \<open>fields\<close>:
  a single field stands for the struct unless the attribute \<open>constructor_datum\<close> is given.
\<close>

definition derive_to_datum :: "bool \<Rightarrow> datum list \<Rightarrow> datum" where
  "derive_to_datum has_constructor_datum_attribute fields =
     (if length fields = 1 \<and> \<not> has_constructor_datum_attribute then hd fields
      else ConstructorDatum 0 fields)"

subsection \<open>The calls on the encoder\<close>

datatype cbor_call =
    CallI64 u64
  | CallU64 u64
  | CallBytes bytes
  | CallBeginBytes
  | CallTag u64
  | CallArray u64
  | CallBeginArray
  | CallMap u64
  | CallEnd

text \<open>\<open>slice::chunks\<close>.\<close>

function chunks :: "nat \<Rightarrow> 'a list \<Rightarrow> 'a list list" where
  "chunks n xs = (if xs = [] \<or> n = 0 then [] else take n xs # chunks n (drop n xs))"
  by pat_completeness auto
termination by (relation "measure (length \<circ> snd)") auto

declare chunks.simps [simp del]

definition bytes_chunk_size_limit :: nat where
  "bytes_chunk_size_limit = 64"

definition encode_bytestring :: "bytes \<Rightarrow> cbor_call list" where
  "encode_bytestring bs =
     (if length bs \<le> bytes_chunk_size_limit then [CallBytes bs]
      else CallBeginBytes # map CallBytes (chunks bytes_chunk_size_limit bs) @ [CallEnd])"

definition encode_integer :: "(nat \<Rightarrow> bytes) \<Rightarrow> int \<Rightarrow> cbor_call list" where
  "encode_integer to_be i =
     (if - (2 ^ 63) \<le> i \<and> i < 2 ^ 63 then [CallI64 (word_of_int i)]
      else CallTag (if i > 0 then 2 else 3) # encode_bytestring (to_be (nat \<bar>i\<bar>)))"

definition constructor_small_tag :: "u64 \<Rightarrow> u64" where
  "constructor_small_tag value = value + 121"

definition constructor_big_tag :: "u64 \<Rightarrow> u64" where
  "constructor_big_tag value = 1280 + value - 7"

definition constructor_over_limit_tag :: u64 where
  "constructor_over_limit_tag = 102"

text \<open>
  \<open>encode_linear_seq\<close> and \<open>encode_constructor\<close> take the calls of the elements, which
  \<open>encode_datum\<close> makes recursively.
\<close>

definition encode_linear_seq :: "cbor_call list list \<Rightarrow> cbor_call list" where
  "encode_linear_seq ds =
     (if ds = [] then [CallArray 0] else CallBeginArray # concat ds @ [CallEnd])"

definition encode_constructor_over_limit_fields :: "u64 \<Rightarrow> cbor_call list list \<Rightarrow> cbor_call list" where
  "encode_constructor_over_limit_fields c ds = CallArray 2 # CallU64 c # encode_linear_seq ds"

definition encode_constructor :: "u64 \<Rightarrow> cbor_call list list \<Rightarrow> cbor_call list" where
  "encode_constructor c fields =
     (if c < 7 then CallTag (constructor_small_tag c) # encode_linear_seq fields
      else if 7 \<le> c \<and> c < 128 then CallTag (constructor_big_tag c) # encode_linear_seq fields
      else CallTag constructor_over_limit_tag # encode_constructor_over_limit_fields c fields)"

definition encode_entries :: "(cbor_call list \<times> cbor_call list) list \<Rightarrow> cbor_call list" where
  "encode_entries entries =
     CallMap (word_of_nat (length entries)) # concat (map (\<lambda>(k, v). k @ v) entries)"

fun encode_datum :: "(nat \<Rightarrow> bytes) \<Rightarrow> datum \<Rightarrow> cbor_call list" where
  "encode_datum to_be (IntegerDatum i) = encode_integer to_be i"
| "encode_datum to_be (ByteStringDatum bs) = encode_bytestring bs"
| "encode_datum to_be (ConstructorDatum c fields) =
     encode_constructor c (map (encode_datum to_be) fields)"
| "encode_datum to_be (ListDatum items) = encode_linear_seq (map (encode_datum to_be) items)"
| "encode_datum to_be (MapDatum entries) =
     encode_entries (map (\<lambda>(k, v). (encode_datum to_be k, encode_datum to_be v)) entries)"

definition to_datum_cbor_bytes :: "(nat \<Rightarrow> bytes) \<Rightarrow> (cbor_call \<Rightarrow> bytes) \<Rightarrow> datum \<Rightarrow> bytes" where
  "to_datum_cbor_bytes to_be write d = concat (map write (encode_datum to_be d))"

subsection \<open>What the encoder writes\<close>

text \<open>
  The CBOR items (RFC 8949) a call stands for; an \<open>i64\<close> and a \<open>u64\<close> are both integers.
\<close>

datatype cbor_item =
    IntItem int
  | BytesItem bytes
  | BytesStart
  | TagItem nat
  | ArrayItem nat
  | ArrayStart
  | MapItem nat
  | Break

primrec item_of :: "cbor_call \<Rightarrow> cbor_item" where
  "item_of (CallI64 i) = IntItem (sint i)"
| "item_of (CallU64 n) = IntItem (uint n)"
| "item_of (CallBytes bs) = BytesItem bs"
| "item_of CallBeginBytes = BytesStart"
| "item_of (CallTag t) = TagItem (unat t)"
| "item_of (CallArray n) = ArrayItem (unat n)"
| "item_of CallBeginArray = ArrayStart"
| "item_of (CallMap n) = MapItem (unat n)"
| "item_of CallEnd = Break"

fun call_ok :: "cbor_call \<Rightarrow> bool" where
  "call_ok (CallBytes bs) = (length bs < 2 ^ 64)"
| "call_ok _ = True"

definition minicbor_ok :: "(cbor_call \<Rightarrow> bytes) \<Rightarrow> bool" where
  "minicbor_ok write \<longleftrightarrow> (\<exists>read. read [] = None
     \<and> (\<forall>c rest. call_ok c \<longrightarrow> read (write c @ rest) = Some (item_of c, rest)))"

definition be_value :: "bytes \<Rightarrow> nat" where
  "be_value bs = foldl (\<lambda>n b. n * 256 + unat b) 0 bs"

definition to_be_ok :: "(nat \<Rightarrow> bytes) \<Rightarrow> bool" where
  "to_be_ok to_be \<longleftrightarrow> (\<forall>n. be_value (to_be n) = n)"

text \<open>Lengths of vectors fit \<open>u64\<close>.\<close>

fun datum_fits :: "datum \<Rightarrow> bool" where
  "datum_fits (IntegerDatum _) = True"
| "datum_fits (ByteStringDatum _) = True"
| "datum_fits (ConstructorDatum _ fields) = (\<forall>d \<in> set fields. datum_fits d)"
| "datum_fits (ListDatum items) = (\<forall>d \<in> set items. datum_fits d)"
| "datum_fits (MapDatum entries) =
     (length entries < 2 ^ 64 \<and> (\<forall>(k, v) \<in> set entries. datum_fits k \<and> datum_fits v))"

subsection \<open>The encoding is unambiguous\<close>

lemma concat_chunks: "0 < n \<Longrightarrow> concat (chunks n xs) = xs"
  by (induction n xs rule: chunks.induct) (subst chunks.simps, auto)

lemma map_break_inj:
  assumes "map f xs @ b # r = map f ys @ b # s" and "inj f" and "\<And>x. f x \<noteq> b"
  shows "xs = ys \<and> r = s"
  using assms
proof (induction xs arbitrary: ys)
  case Nil
  then show ?case by (cases ys) auto
next
  case (Cons x xs)
  then show ?case by (cases ys) (auto simp: inj_eq)
qed

abbreviation items :: "cbor_call list \<Rightarrow> cbor_item list" where
  "items cs \<equiv> map item_of cs"

lemma items_bytestring:
  "items (encode_bytestring bs) =
     (if length bs \<le> 64 then [BytesItem bs] else BytesStart # map BytesItem (chunks 64 bs) @ [Break])"
  by (simp add: encode_bytestring_def bytes_chunk_size_limit_def)

lemma bytestring_inj:
  assumes "items (encode_bytestring a) @ r = items (encode_bytestring b) @ s"
  shows "a = b \<and> r = s"
proof (cases "length a \<le> 64")
  case True
  with assms show ?thesis by (auto simp: items_bytestring split: if_splits)
next
  case False
  with assms have "map BytesItem (chunks 64 a) @ Break # r = map BytesItem (chunks 64 b) @ Break # s"
    by (auto simp: items_bytestring split: if_splits)
  then have "chunks 64 a = chunks 64 b \<and> r = s" by (rule map_break_inj) (simp_all add: inj_def)
  then show ?thesis by (metis concat_chunks zero_less_numeral)
qed

lemma sint_word_of_int_i64:
  "- (2 ^ 63) \<le> i \<Longrightarrow> i < 2 ^ 63 \<Longrightarrow> sint (word_of_int i :: u64) = i"
  by (simp add: signed_of_int signed_take_bit_int_eq_self)

lemma uint_word_inj: "uint a = uint b \<longleftrightarrow> a = b"
  by (simp add: word_uint_eq_iff)

definition is_i64 :: "int \<Rightarrow> bool" where
  "is_i64 i \<longleftrightarrow> - (2 ^ 63) \<le> i \<and> i < 2 ^ 63"

lemma items_integer:
  "items (encode_integer to_be i) =
     (if is_i64 i then [IntItem i]
      else TagItem (if i > 0 then 2 else 3) # items (encode_bytestring (to_be (nat \<bar>i\<bar>))))"
  by (simp add: encode_integer_def is_i64_def sint_word_of_int_i64)

lemma to_be_inj: "to_be_ok to_be \<Longrightarrow> to_be a = to_be b \<longleftrightarrow> a = b"
  by (metis to_be_ok_def)

lemma integer_inj:
  assumes be: "to_be_ok to_be"
    and eq: "items (encode_integer to_be i) @ r = items (encode_integer to_be j) @ s"
  shows "i = j \<and> r = s"
proof (cases "is_i64 i")
  case True
  with eq show ?thesis by (auto simp: items_integer split: if_splits)
next
  case False
  with eq have sign: "i > 0 \<longleftrightarrow> j > 0"
    and bs: "items (encode_bytestring (to_be (nat \<bar>i\<bar>))) @ r
      = items (encode_bytestring (to_be (nat \<bar>j\<bar>))) @ s"
    by (auto simp: items_integer split: if_splits)
  from bytestring_inj [OF bs] have "nat \<bar>i\<bar> = nat \<bar>j\<bar>" "r = s" using be by (simp_all add: to_be_inj)
  with sign show ?thesis by linarith
qed

text \<open>Every datum starts with an item that tells its kind, and never with a break.\<close>

fun item_kind :: "cbor_item \<Rightarrow> nat" where
  "item_kind (IntItem _) = 0"
| "item_kind (TagItem t) = (if t = 2 \<or> t = 3 then 0 else 2)"
| "item_kind (BytesItem _) = 1"
| "item_kind BytesStart = 1"
| "item_kind (ArrayItem _) = 3"
| "item_kind ArrayStart = 3"
| "item_kind (MapItem _) = 4"
| "item_kind Break = 5"

primrec datum_kind :: "datum \<Rightarrow> nat" where
  "datum_kind (IntegerDatum _) = 0"
| "datum_kind (ByteStringDatum _) = 1"
| "datum_kind (ConstructorDatum _ _) = 2"
| "datum_kind (ListDatum _) = 3"
| "datum_kind (MapDatum _) = 4"

definition constructor_tag :: "u64 \<Rightarrow> nat" where
  "constructor_tag c = (if unat c < 7 then unat c + 121 else if unat c < 128 then unat c + 1273 else 102)"

lemma constructor_tag_range: "constructor_tag c \<noteq> 2" "constructor_tag c \<noteq> 3"
  by (simp_all add: constructor_tag_def)

lemma items_constructor:
  "items (encode_constructor c fs) = TagItem (constructor_tag c) #
     (if unat c < 128 then items (encode_linear_seq fs)
      else ArrayItem 2 # IntItem (uint c) # items (encode_linear_seq fs))"
proof -
  have small: "unat (constructor_small_tag c) = unat c + 121" if "unat c < 7"
    using that by (simp add: constructor_small_tag_def unat_add_nowrap)
  have big: "unat (constructor_big_tag c) = unat c + 1273" if "unat c < 128"
  proof -
    have "constructor_big_tag c = c + 1273" by (simp add: constructor_big_tag_def)
    then show ?thesis using that by (simp add: unat_add_nowrap)
  qed
  show ?thesis
    by (auto simp: encode_constructor_def constructor_tag_def small big word_less_nat_alt
        word_le_nat_alt constructor_over_limit_tag_def encode_constructor_over_limit_fields_def)
qed

lemma datum_head: "\<exists>h t. items (encode_datum to_be d) = h # t \<and> item_kind h = datum_kind d"
  by (cases d) (auto simp: items_integer items_bytestring items_constructor encode_linear_seq_def
      encode_entries_def constructor_tag_range)

lemma datum_kind_less: "datum_kind d < 5"
  by (cases d) simp_all

lemma datum_same_kind:
  assumes "items (encode_datum to_be d) @ r = items (encode_datum to_be e) @ s"
  shows "datum_kind d = datum_kind e"
  using assms datum_head [of to_be d] datum_head [of to_be e] by force

lemma datum_no_break:
  assumes "items (encode_datum to_be d) @ r = Break # s"
  shows False
  using assms datum_head [of to_be d] datum_kind_less [of d] by force

text \<open>The element-wise step: \<open>unamb to_be d\<close> says that the encoding of \<open>d\<close> can be told from any other.\<close>

definition unamb :: "(nat \<Rightarrow> bytes) \<Rightarrow> datum \<Rightarrow> bool" where
  "unamb to_be d \<longleftrightarrow> (\<forall>e r s. datum_fits e \<longrightarrow>
     items (encode_datum to_be d) @ r = items (encode_datum to_be e) @ s \<longrightarrow> d = e \<and> r = s)"

lemma unambD:
  assumes "unamb to_be d" and "datum_fits e"
    and "items (encode_datum to_be d) @ r = items (encode_datum to_be e) @ s"
  shows "d = e \<and> r = s"
  using assms(1) [unfolded unamb_def, rule_format, OF assms(2,3)] .

lemma seq_body_inj:
  assumes "\<forall>d \<in> set ds. unamb to_be d" and "\<forall>e \<in> set es. datum_fits e"
    and "concat (map (\<lambda>d. items (encode_datum to_be d)) ds) @ Break # r
       = concat (map (\<lambda>d. items (encode_datum to_be d)) es) @ Break # s"
  shows "ds = es \<and> r = s"
  using assms
proof (induction ds arbitrary: es)
  case Nil
  show ?case
  proof (cases es)
    case Nil
    then show ?thesis using Nil.prems by simp
  next
    case (Cons e es')
    with Nil.prems(3) show ?thesis by (auto dest!: datum_no_break [OF sym])
  qed
next
  case (Cons d ds)
  show ?case
  proof (cases es)
    case Nil
    with Cons.prems(3) show ?thesis by (auto dest!: datum_no_break)
  next
    case es: (Cons e es')
    have "d = e \<and> concat (map (\<lambda>d. items (encode_datum to_be d)) ds) @ Break # r
        = concat (map (\<lambda>d. items (encode_datum to_be d)) es') @ Break # s"
      by (rule unambD) (use Cons.prems es in \<open>simp_all del: encode_datum.simps\<close>)
    with Cons.IH [of es'] Cons.prems es show ?thesis by simp
  qed
qed

lemma items_linear_seq:
  "items (encode_linear_seq (map (encode_datum to_be) ds)) =
     (if ds = [] then [ArrayItem 0]
      else ArrayStart # concat (map (\<lambda>d. items (encode_datum to_be d)) ds) @ [Break])"
  by (simp add: encode_linear_seq_def map_concat comp_def)

lemma linear_seq_inj:
  assumes "\<forall>d \<in> set ds. unamb to_be d" and "\<forall>e \<in> set es. datum_fits e"
    and "items (encode_linear_seq (map (encode_datum to_be) ds)) @ r
       = items (encode_linear_seq (map (encode_datum to_be) es)) @ s"
  shows "ds = es \<and> r = s"
proof (cases "ds = []")
  case True
  then show ?thesis using assms(3) unfolding items_linear_seq by (simp split: if_splits)
next
  case False
  then have "concat (map (\<lambda>d. items (encode_datum to_be d)) ds) @ Break # r
       = concat (map (\<lambda>d. items (encode_datum to_be d)) es) @ Break # s"
    using assms(3) unfolding items_linear_seq by (simp split: if_splits)
  then show ?thesis by (rule seq_body_inj [OF assms(1,2)])
qed

lemma entries_inj:
  assumes "\<forall>(k, v) \<in> set ms. unamb to_be k \<and> unamb to_be v"
    and "\<forall>(k, v) \<in> set ns. datum_fits k \<and> datum_fits v" and "length ms = length ns"
    and "concat (map (\<lambda>(k, v). items (encode_datum to_be k) @ items (encode_datum to_be v)) ms) @ r
       = concat (map (\<lambda>(k, v). items (encode_datum to_be k) @ items (encode_datum to_be v)) ns) @ s"
  shows "ms = ns \<and> r = s"
  using assms(3,1,2,4)
proof (induction ms ns rule: list_induct2)
  case Nil
  then show ?case by simp
next
  case (Cons m ms n ns)
  obtain k v where m: "m = (k, v)" by (cases m)
  obtain k' v' where n: "n = (k', v')" by (cases n)
  let ?rest = "\<lambda>ms r. concat (map (\<lambda>(k, v). items (encode_datum to_be k) @ items (encode_datum to_be v)) ms) @ r"
  have "unamb to_be k" "unamb to_be v" "datum_fits k'" "datum_fits v'" using Cons.prems m n by auto
  moreover have "items (encode_datum to_be k) @ items (encode_datum to_be v) @ ?rest ms r
      = items (encode_datum to_be k') @ items (encode_datum to_be v') @ ?rest ns s"
    using Cons.prems(3) m n by simp
  ultimately have "k = k'" "v = v'" "?rest ms r = ?rest ns s" by (metis unambD)+
  with Cons.IH Cons.prems m n show ?case by simp
qed

lemma constructor_inj:
  assumes tag: "constructor_tag c = constructor_tag c'" and "unat c < 128 \<or> c = c'"
  shows "c = c'"
  using assms by (auto simp: constructor_tag_def word_unat_eq_iff split: if_splits)

lemma constructor_tag_128: "constructor_tag c = constructor_tag c' \<Longrightarrow> unat c < 128 \<longleftrightarrow> unat c' < 128"
  by (auto simp: constructor_tag_def split: if_splits)

lemma datum_unamb_constructor:
  assumes "\<forall>d \<in> set fs. unamb to_be d"
  shows "unamb to_be (ConstructorDatum c fs)"
  unfolding unamb_def
proof (intro allI impI)
  fix e r s
  assume fits: "datum_fits e"
    and eq: "items (encode_datum to_be (ConstructorDatum c fs)) @ r = items (encode_datum to_be e) @ s"
  obtain c' fs' where e: "e = ConstructorDatum c' fs'"
    using datum_same_kind [OF eq] by (cases e) simp_all
  have tag: "constructor_tag c = constructor_tag c'"
    using eq by (simp add: e items_constructor)
  have c: "c = c'" and seq: "items (encode_linear_seq (map (encode_datum to_be) fs)) @ r
      = items (encode_linear_seq (map (encode_datum to_be) fs')) @ s"
    using eq constructor_tag_128 [OF tag] constructor_inj [OF tag]
    by (auto simp: e items_constructor uint_word_inj split: if_splits)
  have "\<forall>e \<in> set fs'. datum_fits e" using fits by (simp add: e)
  from linear_seq_inj [OF assms this seq] show "ConstructorDatum c fs = e \<and> r = s"
    by (simp add: e c)
qed

lemma datum_unamb_map:
  assumes "\<forall>(k, v) \<in> set ms. unamb to_be k \<and> unamb to_be v" and "length ms < 2 ^ 64"
  shows "unamb to_be (MapDatum ms)"
  unfolding unamb_def
proof (intro allI impI)
  fix e r s
  assume fits: "datum_fits e"
    and eq: "items (encode_datum to_be (MapDatum ms)) @ r = items (encode_datum to_be e) @ s"
  obtain ns where e: "e = MapDatum ns" using datum_same_kind [OF eq] by (cases e) simp_all
  have items: "items (encode_datum to_be (MapDatum xs)) = MapItem (length xs) #
      concat (map (\<lambda>(k, v). items (encode_datum to_be k) @ items (encode_datum to_be v)) xs)"
    if "length xs < 2 ^ 64" for xs
    using that by (simp add: encode_entries_def unat_word_of_nat_small map_concat comp_def split_def)
  have "length ns < 2 ^ 64" using fits by (simp add: e)
  with eq assms(2) have len: "length ms = length ns" and body:
    "concat (map (\<lambda>(k, v). items (encode_datum to_be k) @ items (encode_datum to_be v)) ms) @ r
     = concat (map (\<lambda>(k, v). items (encode_datum to_be k) @ items (encode_datum to_be v)) ns) @ s"
    by (simp_all add: e items del: encode_datum.simps)
  have "\<forall>(k, v) \<in> set ns. datum_fits k \<and> datum_fits v" using fits by (simp add: e)
  from entries_inj [OF assms(1) this len body] show "MapDatum ms = e \<and> r = s" by (simp add: e)
qed

lemma datum_unamb:
  assumes "to_be_ok to_be"
  shows "datum_fits d \<Longrightarrow> unamb to_be d"
proof (induction d)
  case (IntegerDatum i)
  show ?case unfolding unamb_def
  proof (intro allI impI)
    fix e r s assume eq: "items (encode_datum to_be (IntegerDatum i)) @ r = items (encode_datum to_be e) @ s"
    obtain j where e: "e = IntegerDatum j" using datum_same_kind [OF eq] by (cases e) simp_all
    show "IntegerDatum i = e \<and> r = s"
      using integer_inj [OF assms eq [unfolded e encode_datum.simps]] by (simp add: e)
  qed
next
  case (ByteStringDatum bs)
  show ?case unfolding unamb_def
  proof (intro allI impI)
    fix e r s assume eq: "items (encode_datum to_be (ByteStringDatum bs)) @ r = items (encode_datum to_be e) @ s"
    obtain cs where e: "e = ByteStringDatum cs" using datum_same_kind [OF eq] by (cases e) simp_all
    show "ByteStringDatum bs = e \<and> r = s"
      using bytestring_inj [OF eq [unfolded e encode_datum.simps]] by (simp add: e)
  qed
next
  case (ConstructorDatum c fs)
  then show ?case by (intro datum_unamb_constructor) auto
next
  case (ListDatum ds)
  then have "\<forall>d \<in> set ds. unamb to_be d" by auto
  note inj = linear_seq_inj [OF this]
  show ?case unfolding unamb_def
  proof (intro allI impI)
    fix e r s assume fits: "datum_fits e"
      and eq: "items (encode_datum to_be (ListDatum ds)) @ r = items (encode_datum to_be e) @ s"
    obtain es where e: "e = ListDatum es" using datum_same_kind [OF eq] by (cases e) simp_all
    have "\<forall>e \<in> set es. datum_fits e" using fits by (simp add: e)
    from inj [OF this eq [unfolded e encode_datum.simps]] show "ListDatum ds = e \<and> r = s"
      by (simp add: e)
  qed
next
  case (MapDatum ms)
  then have "\<forall>(k, v) \<in> set ms. unamb to_be k \<and> unamb to_be v" by fastforce
  then show ?case using MapDatum.prems by (intro datum_unamb_map) simp_all
qed

lemma chunks_length: "c \<in> set (chunks n xs) \<Longrightarrow> length c \<le> n"
  by (induction n xs rule: chunks.induct) (subst (asm) chunks.simps, auto split: if_splits)

lemma bytestring_calls_ok: "c \<in> set (encode_bytestring bs) \<Longrightarrow> call_ok c"
  using chunks_length [of _ 64 bs]
  by (fastforce simp: encode_bytestring_def bytes_chunk_size_limit_def split: if_splits)

lemma datum_calls_ok: "c \<in> set (encode_datum to_be d) \<Longrightarrow> call_ok c"
proof (induction to_be d rule: encode_datum.induct)
  case (1 to_be i)
  then show ?case by (auto simp: encode_integer_def bytestring_calls_ok split: if_splits)
next
  case (2 to_be bs)
  then show ?case by (simp add: bytestring_calls_ok)
next
  case (3 to_be c fs)
  then show ?case by (auto simp: encode_constructor_def encode_linear_seq_def
      encode_constructor_over_limit_fields_def split: if_splits)
next
  case (4 to_be ds)
  then show ?case by (auto simp: encode_linear_seq_def split: if_splits)
next
  case (5 to_be ms)
  then show ?case by (fastforce simp: encode_entries_def)
qed

lemma written_items:
  assumes "minicbor_ok write" and "\<forall>c \<in> set cs \<union> set ds. call_ok c"
    and "concat (map write cs) = concat (map write ds)"
  shows "items cs = items ds"
proof -
  obtain read where nil: "read [] = None"
    and read: "\<And>c rest. call_ok c \<Longrightarrow> read (write c @ rest) = Some (item_of c, rest)"
    using assms(1) by (auto simp: minicbor_ok_def)
  have written: "read (concat (map write cs)) = (case cs of [] \<Rightarrow> None
      | c # cs' \<Rightarrow> Some (item_of c, concat (map write cs')))" if "\<forall>c \<in> set cs. call_ok c" for cs
    using that nil read by (cases cs) simp_all
  show ?thesis using assms(2,3)
  proof (induction cs arbitrary: ds)
    case Nil
    then have "None = (case ds of [] \<Rightarrow> None | d # ds' \<Rightarrow> Some (item_of d, concat (map write ds')))"
      using written [of "[]"] written [of ds] by (metis Un_iff list.simps(4,8))
    then show ?case by (cases ds) simp_all
  next
    case (Cons c cs)
    then have "read (concat (map write ds)) = Some (item_of c, concat (map write cs))"
      using written [of "c # cs"] by simp
    then show ?case using Cons written [of ds] by (cases ds) simp_all
  qed
qed

lemma datum_cbor_inj:
  assumes be: "to_be_ok to_be" and wr: "minicbor_ok write"
    and fits: "datum_fits d" "datum_fits e"
    and eq: "to_datum_cbor_bytes to_be write d = to_datum_cbor_bytes to_be write e"
  shows "d = e"
proof -
  have "items (encode_datum to_be d) @ [] = items (encode_datum to_be e) @ []"
    using written_items [OF wr, of "encode_datum to_be d" "encode_datum to_be e"] eq
    by (simp add: to_datum_cbor_bytes_def) (use datum_calls_ok in blast)
  then show ?thesis using unambD [OF datum_unamb [OF be fits(1)] fits(2)] by blast
qed

subsection \<open>A writer with the promised behaviour\<close>

text \<open>
  The item heads of RFC 8949: a major type and an argument of the shortest of five widths. This
  instance shows that the contracts can be met; the properties hold for every writer that
  meets them.
\<close>

primrec be_bytes :: "nat \<Rightarrow> nat \<Rightarrow> bytes" where
  "be_bytes 0 n = []"
| "be_bytes (Suc k) n = be_bytes k (n div 256) @ [word_of_nat (n mod 256)]"

fun nat_be :: "nat \<Rightarrow> bytes" where
  "nat_be n = (if n = 0 then [] else nat_be (n div 256) @ [word_of_nat (n mod 256)])"

declare nat_be.simps [simp del]

lemma be_value_snoc: "be_value (bs @ [b]) = be_value bs * 256 + unat b"
  by (simp add: be_value_def)

lemma be_value_Nil [simp]: "be_value [] = 0"
  by (simp add: be_value_def)

lemma unat_byte: "unat (word_of_nat (n mod 256) :: u8) = n mod 256"
  by (simp add: unat_word_of_nat_small)

lemma be_value_be_bytes: "n < 256 ^ k \<Longrightarrow> be_value (be_bytes k n) = n"
proof (induction k arbitrary: n)
  case 0
  then show ?case by simp
next
  case (Suc k)
  then have "n div 256 < 256 ^ k" by (simp add: less_mult_imp_div_less mult.commute)
  then show ?case by (simp add: Suc.IH be_value_snoc unat_byte)
qed

lemma length_be_bytes [simp]: "length (be_bytes k n) = k"
  by (induction k arbitrary: n) simp_all

lemma nat_be_ok: "to_be_ok nat_be"
proof -
  have "be_value (nat_be n) = n" for n
    by (induction n rule: nat_be.induct) (subst nat_be.simps, simp add: be_value_snoc unat_byte)
  then show ?thesis by (simp add: to_be_ok_def)
qed

definition cbor_head :: "nat \<Rightarrow> nat \<Rightarrow> bytes" where
  "cbor_head major n =
     (if n < 24 then [word_of_nat (32 * major + n)]
      else if n < 256 then word_of_nat (32 * major + 24) # be_bytes 1 n
      else if n < 65536 then word_of_nat (32 * major + 25) # be_bytes 2 n
      else if n < 2 ^ 32 then word_of_nat (32 * major + 26) # be_bytes 4 n
      else word_of_nat (32 * major + 27) # be_bytes 8 n)"

definition read_head :: "bytes \<Rightarrow> (nat \<times> nat option \<times> bytes) option" where
  "read_head bs = (case bs of [] \<Rightarrow> None
     | b # rest \<Rightarrow> (let major = unat b div 32; a = unat b mod 32;
           k = (if a = 24 then 1 else if a = 25 then 2 else if a = 26 then 4 else 8) in
         if a < 24 then Some (major, Some a, rest)
         else if a = 31 then Some (major, None, rest)
         else Some (major, Some (be_value (take k rest)), drop k rest)))"

lemma read_head_Cons:
  assumes "major < 8" and "a < 32"
  shows "read_head (word_of_nat (32 * major + a) # rest) =
    (if a < 24 then Some (major, Some a, rest)
     else if a = 31 then Some (major, None, rest)
     else let k = (if a = 24 then 1 else if a = 25 then 2 else if a = 26 then 4 else 8) in
       Some (major, Some (be_value (take k rest)), drop k rest))"
proof -
  have "unat (word_of_nat (32 * major + a) :: u8) = 32 * major + a"
    using assms by (subst unat_word_of_nat_small) simp_all
  moreover have "(32 * major + a) div 32 = major" "(32 * major + a) mod 32 = a" using assms by simp_all
  ultimately show ?thesis by (simp only: read_head_def list.case Let_def)
qed

lemma read_head_be:
  assumes "major < 8" and "n < 256 ^ k" and "(a, k) \<in> {(24, 1), (25, 2), (26, 4), (27, 8)}"
  shows "read_head (word_of_nat (32 * major + a) # be_bytes k n @ rest) = Some (major, Some n, rest)"
proof -
  have "a < 32" using assms(3) by auto
  from read_head_Cons [OF assms(1) this, of "be_bytes k n @ rest"] assms(3)
    be_value_be_bytes [OF assms(2)]
  show ?thesis by (auto simp del: of_nat_add be_bytes.simps)
qed

lemma read_cbor_head:
  assumes "major < 8" and "n < 2 ^ 64"
  shows "read_head (cbor_head major n @ rest) = Some (major, Some n, rest)"
proof -
  have "n < 256 ^ 8" using assms(2) by simp
  moreover have "n < 256 ^ 4" if "n < 2 ^ 32" using that by simp
  moreover have "n < 256 ^ 2" if "n < 65536" using that by simp
  moreover have "n < 256 ^ 1" if "n < 256" using that by simp
  ultimately show ?thesis
    using read_head_be [OF assms(1), of n] read_head_Cons [OF assms(1), of n rest]
    by (simp only: cbor_head_def split: if_split)
      (simp del: of_nat_add be_bytes.simps power_numeral)
qed

definition cbor_write :: "cbor_call \<Rightarrow> bytes" where
  "cbor_write c = (case c of
       CallI64 i \<Rightarrow> (if 0 \<le> sint i then cbor_head 0 (nat (sint i)) else cbor_head 1 (nat (- 1 - sint i)))
     | CallU64 n \<Rightarrow> cbor_head 0 (unat n)
     | CallBytes bs \<Rightarrow> cbor_head 2 (length bs) @ bs
     | CallBeginBytes \<Rightarrow> [0x5F]
     | CallTag t \<Rightarrow> cbor_head 6 (unat t)
     | CallArray n \<Rightarrow> cbor_head 4 (unat n)
     | CallBeginArray \<Rightarrow> [0x9F]
     | CallMap n \<Rightarrow> cbor_head 5 (unat n)
     | CallEnd \<Rightarrow> [0xFF])"

definition cbor_read :: "bytes \<Rightarrow> (cbor_item \<times> bytes) option" where
  "cbor_read bs = (case read_head bs of None \<Rightarrow> None
     | Some (major, None, rest) \<Rightarrow>
         Some (if major = 2 then BytesStart else if major = 4 then ArrayStart else Break, rest)
     | Some (major, Some n, rest) \<Rightarrow>
         (if major = 0 then Some (IntItem (int n), rest)
          else if major = 1 then Some (IntItem (- 1 - int n), rest)
          else if major = 2 then Some (BytesItem (take n rest), drop n rest)
          else if major = 4 then Some (ArrayItem n, rest)
          else if major = 5 then Some (MapItem n, rest)
          else Some (TagItem n, rest)))"

lemma sint_i64_bounds: "- (2 ^ 63) \<le> sint (w :: u64)" "sint (w :: u64) < 2 ^ 63"
  using sint_greater_eq [of w] sint_less [of w] by simp_all

lemma cbor_read_write:
  assumes "call_ok c"
  shows "cbor_read (cbor_write c @ rest) = Some (item_of c, rest)"
proof (cases c)
  case (CallI64 i)
  have "sint i < 2 ^ 64" "- 1 - sint i < 2 ^ 64" using sint_i64_bounds [of i] by simp_all
  then have "nat (sint i) < 2 ^ 64" "nat (- 1 - sint i) < 2 ^ 64"
    by (simp_all only: nat_less_numeral_power_cancel_iff)
  then show ?thesis by (simp add: CallI64 cbor_write_def cbor_read_def read_cbor_head)
next
  case (CallU64 n)
  have "unat n < 2 ^ 64" using unat_bound [of n] by simp
  then show ?thesis by (simp add: CallU64 cbor_write_def cbor_read_def read_cbor_head)
next
  case (CallBytes bs)
  then show ?thesis using assms by (simp add: cbor_write_def cbor_read_def read_cbor_head)
next
  case (CallTag t)
  have "unat t < 2 ^ 64" using unat_bound [of t] by simp
  then show ?thesis by (simp add: CallTag cbor_write_def cbor_read_def read_cbor_head)
next
  case (CallArray n)
  have "unat n < 2 ^ 64" using unat_bound [of n] by simp
  then show ?thesis by (simp add: CallArray cbor_write_def cbor_read_def read_cbor_head)
next
  case (CallMap n)
  have "unat n < 2 ^ 64" using unat_bound [of n] by simp
  then show ?thesis by (simp add: CallMap cbor_write_def cbor_read_def read_cbor_head)
qed (simp_all add: cbor_write_def cbor_read_def read_head_def Let_def)

lemma cbor_write_ok: "minicbor_ok cbor_write"
  unfolding minicbor_ok_def
  by (rule exI [of _ cbor_read]) (simp add: cbor_read_write, simp add: cbor_read_def read_head_def)

subsection \<open>Properties\<close>

text \<open>
  C27: the CBOR encoding of Plutus data is injective: two data with the same bytes are equal, for
  every CBOR writer whose items can be read back. A signature over the encoding of a datum
  therefore covers exactly one datum.
\<close>

theorem datum_cbor_injective:
  assumes be: "to_be_ok to_be" and wr: "minicbor_ok write"
    and fits: "datum_fits d" "datum_fits e"
    and eq: "to_datum_cbor_bytes to_be write d = to_datum_cbor_bytes to_be write e"
  shows "d = e"
  by (rule datum_cbor_inj [OF be wr fits eq])

theorem datum_cbor_injective_witness:
  "to_datum_cbor_bytes nat_be cbor_write (ConstructorDatum 2 (map IntegerDatum [1, 2, 3]))
     = [0xd8, 0x7b, 0x9f, 0x01, 0x02, 0x03, 0xff]
   \<and> ConstructorDatum 2 (map IntegerDatum [1, 2, 3])
     = ConstructorDatum 2 [IntegerDatum 1, IntegerDatum 2, IntegerDatum 3]"
proof
  show "to_datum_cbor_bytes nat_be cbor_write (ConstructorDatum 2 (map IntegerDatum [1, 2, 3]))
     = [0xd8, 0x7b, 0x9f, 0x01, 0x02, 0x03, 0xff]"
    by (simp add: to_datum_cbor_bytes_def encode_constructor_def constructor_small_tag_def
        encode_linear_seq_def encode_integer_def cbor_write_def cbor_head_def)
  show "ConstructorDatum 2 (map IntegerDatum [1, 2, 3])
     = ConstructorDatum 2 [IntegerDatum 1, IntegerDatum 2, IntegerDatum 3]"
    by (rule datum_cbor_injective [OF nat_be_ok cbor_write_ok]) simp_all
qed

text \<open>
  The integer a reader of CBOR takes from the items of \<open>encode_integer\<close>: tag 2 is an unsigned
  bignum and tag 3 the bignum \<open>-1 - n\<close> (RFC 8949, section 3.4.3).
\<close>

fun cbor_bytes_value :: "cbor_item list \<Rightarrow> bytes" where
  "cbor_bytes_value (BytesItem bs # rest) = bs @ cbor_bytes_value rest"
| "cbor_bytes_value (BytesStart # rest) = cbor_bytes_value rest"
| "cbor_bytes_value _ = []"

fun cbor_int_value :: "cbor_item list \<Rightarrow> int" where
  "cbor_int_value (IntItem i # _) = i"
| "cbor_int_value (TagItem t # rest) =
     (if t = 3 then - 1 - int (be_value (cbor_bytes_value rest)) else int (be_value (cbor_bytes_value rest)))"
| "cbor_int_value _ = 0"

lemma cbor_bytes_value_chunks: "cbor_bytes_value (map BytesItem xs @ [Break]) = concat xs"
  by (induction xs) simp_all

lemma cbor_bytes_value_bytestring [simp]: "cbor_bytes_value (items (encode_bytestring bs)) = bs"
  by (simp add: items_bytestring cbor_bytes_value_chunks concat_chunks)

text \<open>
  an integer datum of at least \<open>-2^63\<close> is encoded as a CBOR integer or bignum of the same
  value, but one below \<open>-2^63\<close> is encoded as the bignum of the value less one: the magnitude is
  written where RFC 8949 has the magnitude less one.
\<close>

lemma encode_integer_value:
  assumes "to_be_ok to_be"
  shows "cbor_int_value (map item_of (encode_integer to_be i)) = (if - (2 ^ 63) \<le> i then i else i - 1)"
  using assms by (simp add: items_integer to_be_ok_def is_i64_def)

lemma encode_integer_value_example:
  "cbor_int_value (map item_of (encode_integer nat_be (- (2 ^ 63) - 1)))
     = (if - (2 ^ 63) \<le> (- (2 ^ 63) - 1 :: int) then - (2 ^ 63) - 1 else (- (2 ^ 63) - 1) - 1)"
  by (rule encode_integer_value) (rule nat_be_ok)

end
