(* ===== verification/Domain.thy ===== *)
theory Domain
  imports Plutus_Data "HOL-Library.Product_Lexorder" "HOL-Library.List_Lexorder"
begin

text \<open>
  The types of \<open>toolkit/sidechain/domain/src/lib.rs\<close> that the committee selection uses, with
  their data encodings, and the backward compatible SCALE codec of \<open>CandidateKeys\<close>.

  Newtypes around byte vectors and arrays are byte lists. The generic SCALE codecs of
  \<open>parity_scale_codec\<close> (\<open>Compact<u32>\<close>, \<open>Vec<u8>\<close>, \<open>Vec<CandidateKey>\<close>) are parameters, with
  the documented laws of the format in \<open>scale_ok\<close>.
\<close>

subsection \<open>Cardano transaction outputs\<close>

record utxo_id =
  utxo_tx_hash :: bytes
  utxo_index :: u16

text \<open>
  \<open>McTxHash\<close> carries the attribute \<open>constructor_datum\<close>, \<open>UtxoIndex\<close> does not.
\<close>

definition utxo_id_to_datum :: "utxo_id \<Rightarrow> datum" where
  "utxo_id_to_datum u = derive_to_datum False
     [derive_to_datum True [bytes_to_datum (utxo_tx_hash u)],
      derive_to_datum False [uint_to_datum (utxo_index u)]]"

record utxo_info =
  info_utxo_id :: utxo_id
  info_epoch_number :: u32
  info_block_number :: u32
  info_slot_number :: u64
  info_tx_index_within_block :: u32

type_synonym utxo_info_ordering_key = "u32 \<times> u32 \<times> u16"

definition ordering_key :: "utxo_info \<Rightarrow> utxo_info_ordering_key" where
  "ordering_key i = (info_block_number i, info_tx_index_within_block i, utxo_index (info_utxo_id i))"

definition data_mc_epoch_offset :: u32 where
  "data_mc_epoch_offset = 2"

definition offset_data_epoch :: "u32 \<Rightarrow> u32 + u32" where
  "offset_data_epoch epoch = ok_or data_mc_epoch_offset (checked_sub epoch data_mc_epoch_offset)"

definition epoch_nonce_as_array :: "bytes \<Rightarrow> bytes" where
  "epoch_nonce_as_array nonce = take 32 nonce @ replicate (32 - length nonce) 0"

subsection \<open>Candidate keys\<close>

record candidate_key =
  key_id :: bytes
  key_bytes :: bytes

type_synonym candidate_keys = "candidate_key list"

definition aura_id :: bytes where
  "aura_id = [0x61, 0x75, 0x72, 0x61]"

definition grandpa_id :: bytes where
  "grandpa_id = [0x67, 0x72, 0x61, 0x6e]"

definition find_key :: "candidate_keys \<Rightarrow> bytes \<Rightarrow> bytes option" where
  "find_key keys i = map_option key_bytes (List.find (\<lambda>e. key_id e = i) keys)"

definition find_or_empty :: "candidate_keys \<Rightarrow> bytes \<Rightarrow> bytes" where
  "find_or_empty keys i = (case find_key keys i of Some b \<Rightarrow> b | None \<Rightarrow> [])"

definition has_only_aura_and_grandpa_keys :: "candidate_keys \<Rightarrow> bool" where
  "has_only_aura_and_grandpa_keys keys \<longleftrightarrow>
     length keys = 2 \<and> find_key keys aura_id \<noteq> None \<and> find_key keys grandpa_id \<noteq> None"

text \<open>
  The parts of \<open>parity_scale_codec\<close> the codec calls: \<open>Compact<u32>\<close>, a \<open>Vec<u8>\<close> after its
  length (\<open>decode_vec_with_len\<close>) and \<open>Vec<CandidateKey>\<close>.
\<close>

record scale_codec =
  compact_encode :: "u32 \<Rightarrow> bytes"
  compact_decode :: "bytes \<Rightarrow> (u32 \<times> bytes) option"
  keys_vec_encode :: "candidate_keys \<Rightarrow> bytes"
  keys_vec_decode :: "bytes \<Rightarrow> (candidate_keys \<times> bytes) option"

definition vec_u8_encode :: "scale_codec \<Rightarrow> bytes \<Rightarrow> bytes" where
  "vec_u8_encode S bs = compact_encode S (word_of_nat (length bs)) @ bs"

definition decode_vec_with_len :: "bytes \<Rightarrow> nat \<Rightarrow> (bytes \<times> bytes) option" where
  "decode_vec_with_len input n =
     (if length input < n then None else Some (take n input, drop n input))"

definition vec_u8_decode :: "scale_codec \<Rightarrow> bytes \<Rightarrow> (bytes \<times> bytes) option" where
  "vec_u8_decode S input = (case compact_decode S input of None \<Rightarrow> None
     | Some (n, rest) \<Rightarrow> decode_vec_with_len rest (unat n))"

text \<open>
  Key type ids have four bytes, and the lengths of vectors fit \<open>u32\<close> with the value of the marker
  left out.
\<close>

definition keys_fit :: "candidate_keys \<Rightarrow> bool" where
  "keys_fit keys \<longleftrightarrow> length keys < 2 ^ 32
     \<and> list_all (\<lambda>k. length (key_id k) = 4 \<and> length (key_bytes k) < 2 ^ 32 - 1) keys"

definition scale_ok :: "scale_codec \<Rightarrow> bool" where
  "scale_ok S \<longleftrightarrow>
     (\<forall>n rest. compact_decode S (compact_encode S n @ rest) = Some (n, rest))
   \<and> (\<forall>keys rest. keys_fit keys \<longrightarrow>
        keys_vec_decode S (keys_vec_encode S keys @ rest) = Some (keys, rest))"

definition candidate_keys_encode :: "scale_codec \<Rightarrow> candidate_keys \<Rightarrow> bytes" where
  "candidate_keys_encode S keys =
     (if has_only_aura_and_grandpa_keys keys
      then vec_u8_encode S (find_or_empty keys aura_id) @ vec_u8_encode S (find_or_empty keys grandpa_id)
      else compact_encode S (- 1) @ keys_vec_encode S keys)"

definition candidate_keys_decode :: "scale_codec \<Rightarrow> bytes \<Rightarrow> (candidate_keys \<times> bytes) option" where
  "candidate_keys_decode S input =
     (case compact_decode S input of
        None \<Rightarrow> None
      | Some (marker_or_aura_size, rest) \<Rightarrow>
          if marker_or_aura_size = - 1 then keys_vec_decode S rest
          else (case decode_vec_with_len rest (unat marker_or_aura_size) of
              None \<Rightarrow> None
            | Some (aura_bytes, rest) \<Rightarrow>
                (case vec_u8_decode S rest of
                   None \<Rightarrow> None
                 | Some (grandpa, rest) \<Rightarrow>
                     Some ([\<lparr>key_id = aura_id, key_bytes = aura_bytes\<rparr>,
                            \<lparr>key_id = grandpa_id, key_bytes = grandpa\<rparr>], rest))))"

lemma aura_grandpa_cases:
  assumes "has_only_aura_and_grandpa_keys keys"
  obtains a g where "keys = [\<lparr>key_id = aura_id, key_bytes = a\<rparr>, \<lparr>key_id = grandpa_id, key_bytes = g\<rparr>]
      \<or> keys = [\<lparr>key_id = grandpa_id, key_bytes = g\<rparr>, \<lparr>key_id = aura_id, key_bytes = a\<rparr>]"
    and "find_or_empty keys aura_id = a" and "find_or_empty keys grandpa_id = g"
proof -
  have ne: "aura_id \<noteq> grandpa_id" by (simp add: aura_id_def grandpa_id_def)
  obtain k l where keys: "keys = [k, l]"
    using assms by (auto simp: has_only_aura_and_grandpa_keys_def numeral_2_eq_2 length_Suc_conv)
  then have "(key_id k = aura_id \<and> key_id l = grandpa_id) \<or> (key_id k = grandpa_id \<and> key_id l = aura_id)"
    using assms ne by (auto simp: has_only_aura_and_grandpa_keys_def find_key_def split: if_splits)
  then show thesis
  proof
    assume "key_id k = aura_id \<and> key_id l = grandpa_id"
    then show thesis
      using ne keys by (intro that [of "key_bytes k" "key_bytes l"]) (auto simp: find_or_empty_def find_key_def)
  next
    assume "key_id k = grandpa_id \<and> key_id l = aura_id"
    then show thesis
      using ne keys by (intro that [of "key_bytes l" "key_bytes k"]) (auto simp: find_or_empty_def find_key_def)
  qed
qed

text \<open>The keys a decoder returns for \<open>keys\<close>: the legacy form puts the Aura key first.\<close>

definition normal_keys :: "candidate_keys \<Rightarrow> candidate_keys" where
  "normal_keys keys =
     (if has_only_aura_and_grandpa_keys keys
      then [\<lparr>key_id = aura_id, key_bytes = find_or_empty keys aura_id\<rparr>,
            \<lparr>key_id = grandpa_id, key_bytes = find_or_empty keys grandpa_id\<rparr>]
      else keys)"

lemma vec_u8_roundtrip:
  assumes "scale_ok S" and "length bs < 2 ^ 32"
  shows "vec_u8_decode S (vec_u8_encode S bs @ rest) = Some (bs, rest)"
  using assms
  by (simp add: scale_ok_def vec_u8_decode_def vec_u8_encode_def decode_vec_with_len_def
      unat_word_of_nat_small)

subsection \<open>Properties\<close>

text \<open>
  decoding an encoded \<open>CandidateKeys\<close> gives back the same keys, in both the legacy and the
  generic form, except that a pair of a Grandpa and an Aura key comes back with the Aura key
  first; the decoded keys always have the same keys as a multiset, and the rest of the input is
  left in place. The only requirement is that the lengths fit \<open>u32\<close>, less the value of the marker.
\<close>

lemma candidate_keys_roundtrip:
  assumes S: "scale_ok S" and fit: "keys_fit keys"
  shows "candidate_keys_decode S (candidate_keys_encode S keys @ rest) = Some (normal_keys keys, rest)
    \<and> mset (normal_keys keys) = mset keys"
proof (cases "has_only_aura_and_grandpa_keys keys")
  case True
  obtain a g where keys: "keys = [\<lparr>key_id = aura_id, key_bytes = a\<rparr>, \<lparr>key_id = grandpa_id, key_bytes = g\<rparr>]
      \<or> keys = [\<lparr>key_id = grandpa_id, key_bytes = g\<rparr>, \<lparr>key_id = aura_id, key_bytes = a\<rparr>]"
    and ag: "find_or_empty keys aura_id = a" "find_or_empty keys grandpa_id = g"
    by (rule aura_grandpa_cases [OF True])
  have short: "length a < 2 ^ 32 - 1" "length g < 2 ^ 32" using keys fit by (auto simp: keys_fit_def)
  let ?n = "word_of_nat (length a) :: u32"
  have n: "unat ?n = length a" using short(1) by (intro unat_word_of_nat_small) simp
  have "unat ?n \<noteq> unat (- 1 :: u32)"
    unfolding n using short(1) by (simp add: unsigned_minus_1_eq_mask mask_eq_exp_minus_1)
  then have "?n \<noteq> - 1" by auto
  moreover have "candidate_keys_encode S keys @ rest
      = compact_encode S ?n @ a @ vec_u8_encode S g @ rest"
    by (simp add: candidate_keys_encode_def True ag vec_u8_encode_def)
  ultimately have "candidate_keys_decode S (candidate_keys_encode S keys @ rest)
      = Some (normal_keys keys, rest)"
    using S vec_u8_roundtrip [OF S short(2), of rest] n
    by (simp add: candidate_keys_decode_def scale_ok_def decode_vec_with_len_def normal_keys_def True ag)
  moreover have "mset (normal_keys keys) = mset keys" using keys by (auto simp: normal_keys_def True ag)
  ultimately show ?thesis by simp
next
  case False
  then show ?thesis using S fit
    by (simp add: candidate_keys_encode_def candidate_keys_decode_def normal_keys_def scale_ok_def)
qed

text \<open>
  A codec with the laws: four little endian bytes for a number, and a length prefixed vector.
\<close>

definition le4 :: "nat \<Rightarrow> bytes" where
  "le4 n = rev (be_bytes 4 n)"

definition le4_read :: "bytes \<Rightarrow> (nat \<times> bytes) option" where
  "le4_read bs = (if length bs < 4 then None else Some (be_value (rev (take 4 bs)), drop 4 bs))"

lemma le4_roundtrip: "n < 2 ^ 32 \<Longrightarrow> le4_read (le4 n @ rest) = Some (n, rest)"
  using be_value_be_bytes [of n 4] by (simp add: le4_def le4_read_def del: be_bytes.simps)

primrec read_keys :: "nat \<Rightarrow> bytes \<Rightarrow> (candidate_keys \<times> bytes) option" where
  "read_keys 0 bs = Some ([], bs)"
| "read_keys (Suc n) bs =
     (case le4_read (drop 4 bs) of None \<Rightarrow> None
      | Some (l, rest) \<Rightarrow>
          (case read_keys n (drop l rest) of None \<Rightarrow> None
           | Some (ks, rest') \<Rightarrow> Some (\<lparr>key_id = take 4 bs, key_bytes = take l rest\<rparr> # ks, rest')))"

definition le_scale :: scale_codec where
  "le_scale = \<lparr>compact_encode = (\<lambda>n. le4 (unat n)),
     compact_decode = (\<lambda>bs. map_option (\<lambda>(n, r). (word_of_nat n, r)) (le4_read bs)),
     keys_vec_encode = (\<lambda>ks. le4 (length ks)
        @ concat (map (\<lambda>k. key_id k @ le4 (length (key_bytes k)) @ key_bytes k) ks)),
     keys_vec_decode = (\<lambda>bs. Option.bind (le4_read bs) (\<lambda>(n, r). read_keys n r))\<rparr>"

lemma read_keys_roundtrip:
  assumes "list_all (\<lambda>k. length (key_id k) = 4 \<and> length (key_bytes k) < 2 ^ 32 - 1) ks"
  shows "read_keys (length ks)
      (concat (map (\<lambda>k. key_id k @ le4 (length (key_bytes k)) @ key_bytes k) ks) @ rest) = Some (ks, rest)"
  using assms
proof (induction ks)
  case Nil
  then show ?case by simp
next
  case (Cons k ks)
  have "length (key_bytes k) < 2 ^ 32" using Cons.prems by simp
  from le4_roundtrip [OF this] Cons show ?case by simp
qed

lemma le_scale_ok: "scale_ok le_scale"
proof -
  have "compact_decode le_scale (compact_encode le_scale n @ rest) = Some (n, rest)" for n rest
  proof -
    have "unat n < 2 ^ 32" using unat_bound [of n] by simp
    from le4_roundtrip [OF this] show ?thesis by (simp add: le_scale_def)
  qed
  moreover have "keys_vec_decode le_scale (keys_vec_encode le_scale ks @ rest) = Some (ks, rest)"
    if "keys_fit ks" for ks rest
    using that read_keys_roundtrip [of ks rest] le4_roundtrip [of "length ks"]
    by (simp add: le_scale_def keys_fit_def)
  ultimately show ?thesis by (simp add: scale_ok_def)
qed

lemma candidate_keys_roundtrip_example:
  "candidate_keys_decode le_scale (candidate_keys_encode le_scale
      [\<lparr>key_id = grandpa_id, key_bytes = [1, 2]\<rparr>, \<lparr>key_id = aura_id, key_bytes = [3]\<rparr>] @ [9])
     = Some ([\<lparr>key_id = aura_id, key_bytes = [3]\<rparr>, \<lparr>key_id = grandpa_id, key_bytes = [1, 2]\<rparr>], [9])"
proof -
  let ?keys = "[\<lparr>key_id = grandpa_id, key_bytes = [1, 2]\<rparr>, \<lparr>key_id = aura_id, key_bytes = [3]\<rparr>]"
  have "keys_fit ?keys" by (simp add: keys_fit_def grandpa_id_def aura_id_def)
  moreover have "normal_keys ?keys =
      [\<lparr>key_id = aura_id, key_bytes = [3]\<rparr>, \<lparr>key_id = grandpa_id, key_bytes = [1, 2]\<rparr>]"
    by (simp add: normal_keys_def has_only_aura_and_grandpa_keys_def find_or_empty_def find_key_def
        grandpa_id_def aura_id_def)
  ultimately show ?thesis using candidate_keys_roundtrip [OF le_scale_ok, of ?keys "[9]"] by simp
qed

end
