(* ===== verification/Candidates.thy ===== *)
theory Candidates
  imports Domain Ariadne
begin

text \<open>
  Filtering of candidates and selection of a committee from the data observed on Cardano,
  \<open>toolkit/committee-selection/authority-selection-inherents/src\<close>:
  \<open>filter_invalid_candidates.rs\<close>, \<open>select_authorities.rs\<close> and the \<open>CommitteeMember\<close> type of
  \<open>lib.rs\<close>.

  Signature verification, the conversion of an ECDSA key to an account id, the decoding of opaque
  session keys and the CBOR writer are outside the repository; they are the fields of
  \<open>('acc, 'keys) keys_env\<close>.
\<close>

record ('acc, 'keys) keys_env =
  ed25519_verify :: "bytes \<Rightarrow> bytes \<Rightarrow> bytes \<Rightarrow> bool"
  ecdsa_verify :: "bytes \<Rightarrow> bytes \<Rightarrow> bytes \<Rightarrow> bool"
  account_of :: "bytes \<Rightarrow> 'acc"
  required_key_ids :: "bytes list"
  opaque_keys_decode :: "bytes \<Rightarrow> 'keys option"
  bigint_to_be :: "nat \<Rightarrow> bytes"
  cbor_writer :: "cbor_call \<Rightarrow> bytes"

subsection \<open>Observed data\<close>

record registration_data =
  registration_utxo :: utxo_id
  sidechain_signature :: bytes
  mainchain_signature :: bytes
  cross_chain_signature :: bytes
  sidechain_pub_key :: bytes
  cross_chain_pub_key :: bytes
  reg_utxo_info :: utxo_info
  tx_inputs :: "utxo_id list"
  reg_keys :: candidate_keys

record candidate_registrations =
  stake_pool_public_key :: bytes
  registrations :: "registration_data list"
  stake_delegation :: "u64 option"

record permissioned_candidate_data =
  perm_sidechain_public_key :: bytes
  perm_keys :: candidate_keys

record d_parameter =
  num_permissioned_candidates :: u16
  num_registered_candidates :: u16

record authority_selection_inputs =
  d_param :: d_parameter
  permissioned_candidates :: "permissioned_candidate_data list"
  registered_candidates :: "candidate_registrations list"
  epoch_nonce :: bytes

subsection \<open>Candidates and committee members\<close>

record ('acc, 'keys) candidate_with_stake =
  cws_stake_pool_pub_key :: bytes
  cws_stake_delegation :: u64
  cws_account_id :: 'acc
  cws_account_keys :: 'keys

record ('acc, 'keys) permissioned_candidate =
  pc_account_id :: 'acc
  pc_account_keys :: 'keys

datatype ('acc, 'keys) candidate =
    Permissioned "('acc, 'keys) permissioned_candidate"
  | Registered "('acc, 'keys) candidate_with_stake"

datatype ('acc, 'keys) committee_member =
    PermissionedMember 'acc 'keys
  | RegisteredMember 'acc 'keys bytes

primrec candidate_into_member :: "('acc, 'keys) candidate \<Rightarrow> ('acc, 'keys) committee_member" where
  "candidate_into_member (Permissioned m) = PermissionedMember (pc_account_id m) (pc_account_keys m)"
| "candidate_into_member (Registered m) =
     RegisteredMember (cws_account_id m) (cws_account_keys m) (cws_stake_pool_pub_key m)"

primrec authority_id :: "('acc, 'keys) committee_member \<Rightarrow> 'acc" where
  "authority_id (PermissionedMember i k) = i"
| "authority_id (RegisteredMember i k p) = i"

primrec authority_keys :: "('acc, 'keys) committee_member \<Rightarrow> 'keys" where
  "authority_keys (PermissionedMember i k) = k"
| "authority_keys (RegisteredMember i k p) = k"

primrec candidate_account_id :: "('acc, 'keys) candidate \<Rightarrow> 'acc" where
  "candidate_account_id (Permissioned c) = pc_account_id c"
| "candidate_account_id (Registered c) = cws_account_id c"

primrec candidate_account_keys :: "('acc, 'keys) candidate \<Rightarrow> 'keys" where
  "candidate_account_keys (Permissioned c) = pc_account_keys c"
| "candidate_account_keys (Registered c) = cws_account_keys c"

primrec candidate_stake_delegation :: "('acc, 'keys) candidate \<Rightarrow> u64 option" where
  "candidate_stake_delegation (Permissioned c) = None"
| "candidate_stake_delegation (Registered c) = Some (cws_stake_delegation c)"

text \<open>
  The derived \<open>Ord\<close>: variants in the order of their declaration, then the fields in the order
  of theirs.
\<close>

definition ord_key :: "('acc, 'keys) candidate \<Rightarrow> nat \<times> bytes \<times> u64 \<times> 'acc \<times> 'keys" where
  "ord_key c = (case c of
       Permissioned p \<Rightarrow> (0, [], 0, pc_account_id p, pc_account_keys p)
     | Registered r \<Rightarrow> (1, cws_stake_pool_pub_key r, cws_stake_delegation r,
         cws_account_id r, cws_account_keys r))"

lemma ord_key_inj: "ord_key c = ord_key d \<Longrightarrow> c = d"
  by (cases c; cases d) (auto simp: ord_key_def)

instantiation candidate :: (linorder, linorder) linorder
begin

definition less_eq_candidate :: "('a, 'b) candidate \<Rightarrow> ('a, 'b) candidate \<Rightarrow> bool" where
  "less_eq_candidate c d \<longleftrightarrow> ord_key c \<le> ord_key d"

definition less_candidate :: "('a, 'b) candidate \<Rightarrow> ('a, 'b) candidate \<Rightarrow> bool" where
  "less_candidate c d \<longleftrightarrow> ord_key c < ord_key d"

instance
  by standard (auto simp: less_eq_candidate_def less_candidate_def intro: ord_key_inj)

end

subsection \<open>Validation\<close>

datatype stake_error = InvalidStake | UnknownStake

datatype registration_data_error =
    InvalidMainchainSignature
  | InvalidSidechainSignature
  | InvalidTxInput
  | InvalidMainchainPubKey
  | InvalidSidechainPubKey
  | InvalidAccountKeys

datatype permissioned_candidate_data_error =
    PermissionedInvalidSidechainPubKey
  | PermissionedInvalidAccountKeys

text \<open>
  \<open>MaybeFromCandidateKeys::maybe_from\<close>: the bytes of the required keys, in the order of the
  required ids and at most 1024 in total, decoded as session keys.
\<close>

fun collect_keys :: "candidate_keys \<Rightarrow> bytes list \<Rightarrow> bytes \<Rightarrow> bytes option" where
  "collect_keys keys [] encoded_keys = Some encoded_keys"
| "collect_keys keys (i # is) encoded_keys =
     (case List.find (\<lambda>k. key_id k = i) keys of
        None \<Rightarrow> None
      | Some key \<Rightarrow>
          if length encoded_keys + length (key_bytes key) \<le> 1024
          then collect_keys keys is (encoded_keys @ key_bytes key)
          else None)"

definition maybe_from :: "('acc, 'keys) keys_env \<Rightarrow> candidate_keys \<Rightarrow> 'keys option" where
  "maybe_from E keys = Option.bind (collect_keys keys (required_key_ids E) []) (opaque_keys_decode E)"

definition validate_stake :: "u64 option \<Rightarrow> stake_error + u64" where
  "validate_stake stake = (case stake of
       None \<Rightarrow> Inl UnknownStake
     | Some s \<Rightarrow> if s = 0 then Inl InvalidStake else Inr s)"

definition validate_permissioned_candidate_data ::
  "('acc, 'keys) keys_env \<Rightarrow> permissioned_candidate_data
     \<Rightarrow> permissioned_candidate_data_error + bytes \<times> 'keys" where
  "validate_permissioned_candidate_data E c =
     (if length (perm_sidechain_public_key c) \<noteq> 33 then Inl PermissionedInvalidSidechainPubKey
      else (case maybe_from E (perm_keys c) of
          None \<Rightarrow> Inl PermissionedInvalidAccountKeys
        | Some keys \<Rightarrow> Inr (perm_sidechain_public_key c, keys)))"

definition signed_message_to_datum :: "utxo_id \<Rightarrow> bytes \<Rightarrow> utxo_id \<Rightarrow> datum" where
  "signed_message_to_datum genesis_utxo pub_key reg_utxo =
     derive_to_datum False [utxo_id_to_datum genesis_utxo, bytes_to_datum pub_key,
       utxo_id_to_datum reg_utxo]"

definition signed_message_encoded ::
  "('acc, 'keys) keys_env \<Rightarrow> utxo_id \<Rightarrow> bytes \<Rightarrow> utxo_id \<Rightarrow> bytes" where
  "signed_message_encoded E genesis_utxo pub_key reg_utxo =
     to_datum_cbor_bytes (bigint_to_be E) (cbor_writer E)
       (signed_message_to_datum genesis_utxo pub_key reg_utxo)"

definition verify_stake_pool_signature ::
  "('acc, 'keys) keys_env \<Rightarrow> bytes \<Rightarrow> registration_data \<Rightarrow> bytes \<Rightarrow> registration_data_error option" where
  "verify_stake_pool_signature E stake_pool_pub_key r message =
     (if length (mainchain_signature r) \<noteq> 64 then Some InvalidMainchainSignature
      else if ed25519_verify E (mainchain_signature r) message stake_pool_pub_key then None
      else Some InvalidMainchainSignature)"

definition verify_sidechain_signature ::
  "('acc, 'keys) keys_env \<Rightarrow> bytes \<Rightarrow> bytes \<Rightarrow> bytes \<Rightarrow> registration_data_error option" where
  "verify_sidechain_signature E pub_key signature message =
     (if length signature \<noteq> 64 then Some InvalidSidechainSignature
      else if list_ex (\<lambda>v. ecdsa_verify E (signature @ [v]) message pub_key) [27, 28] then None
      else Some InvalidSidechainSignature)"

definition verify_tx_inputs :: "registration_data \<Rightarrow> registration_data_error option" where
  "verify_tx_inputs r = (if registration_utxo r \<in> set (tx_inputs r) then None else Some InvalidTxInput)"

definition validate_registration_data ::
  "('acc, 'keys) keys_env \<Rightarrow> bytes \<Rightarrow> registration_data \<Rightarrow> utxo_id
     \<Rightarrow> registration_data_error + bytes \<times> 'keys" where
  "validate_registration_data E stake_pool_pub_key r genesis_utxo =
     (case maybe_from E (reg_keys r) of
        None \<Rightarrow> Inl InvalidAccountKeys
      | Some account_keys \<Rightarrow>
          if length (sidechain_pub_key r) \<noteq> 33 then Inl InvalidSidechainPubKey
          else let message = signed_message_encoded E genesis_utxo (sidechain_pub_key r)
                     (registration_utxo r) in
            (case verify_stake_pool_signature E stake_pool_pub_key r message of
               Some e \<Rightarrow> Inl e
             | None \<Rightarrow>
                 (case verify_sidechain_signature E (sidechain_pub_key r) (sidechain_signature r) message of
                    Some e \<Rightarrow> Inl e
                  | None \<Rightarrow>
                      (case verify_tx_inputs r of
                         Some e \<Rightarrow> Inl e
                       | None \<Rightarrow> Inr (sidechain_pub_key r, account_keys)))))"

subsection \<open>Filtering\<close>

text \<open>\<open>Iterator::max_by_key\<close>: the last of the elements with the largest key.\<close>

fun max_by_key :: "('a \<Rightarrow> 'k::linorder) \<Rightarrow> 'a list \<Rightarrow> 'a option" where
  "max_by_key f [] = None"
| "max_by_key f (x # xs) = Some (foldl (\<lambda>m y. if f m \<le> f y then y else m) x xs)"

definition valid_registrations ::
  "('acc, 'keys) keys_env \<Rightarrow> bytes \<Rightarrow> utxo_id \<Rightarrow> registration_data list
     \<Rightarrow> ((bytes \<times> 'keys) \<times> utxo_info) list" where
  "valid_registrations E pub_key genesis_utxo rs =
     List.map_filter (\<lambda>r. case validate_registration_data E pub_key r genesis_utxo of
         Inr c \<Rightarrow> Some (c, reg_utxo_info r)
       | Inl _ \<Rightarrow> None) rs"

definition select_latest_valid_candidate ::
  "('acc, 'keys) keys_env \<Rightarrow> candidate_registrations \<Rightarrow> utxo_id
     \<Rightarrow> ('acc, 'keys) candidate_with_stake option" where
  "select_latest_valid_candidate E cr genesis_utxo =
     (case validate_stake (stake_delegation cr) of
        Inl _ \<Rightarrow> None
      | Inr stake \<Rightarrow>
          (case max_by_key (\<lambda>(_, utxo_info). ordering_key utxo_info)
              (valid_registrations E (stake_pool_public_key cr) genesis_utxo (registrations cr)) of
             None \<Rightarrow> None
           | Some ((account_id, account_keys), _) \<Rightarrow>
               Some \<lparr>cws_stake_pool_pub_key = stake_pool_public_key cr, cws_stake_delegation = stake,
                     cws_account_id = account_of E account_id, cws_account_keys = account_keys\<rparr>))"

definition filter_trustless_candidates_registrations ::
  "('acc, 'keys) keys_env \<Rightarrow> candidate_registrations list \<Rightarrow> utxo_id
     \<Rightarrow> ('acc, 'keys) candidate weighted" where
  "filter_trustless_candidates_registrations E crs genesis_utxo =
     map (\<lambda>c. (Registered c, ucast (cws_stake_delegation c)))
       (List.map_filter (\<lambda>cr. select_latest_valid_candidate E cr genesis_utxo) crs)"

definition filter_invalid_permissioned_candidates ::
  "('acc, 'keys) keys_env \<Rightarrow> permissioned_candidate_data list \<Rightarrow> ('acc, 'keys) candidate list" where
  "filter_invalid_permissioned_candidates E cs =
     List.map_filter (\<lambda>c. case validate_permissioned_candidate_data E c of
         Inl _ \<Rightarrow> None
       | Inr (key, account_keys) \<Rightarrow>
           Some (Permissioned \<lparr>pc_account_id = account_of E key, pc_account_keys = account_keys\<rparr>)) cs"

subsection \<open>Selection\<close>

text \<open>\<open>U256\<close> is the 256-bit word: \<open>overflowing_add\<close> keeps the sum modulo \<open>2^256\<close>.\<close>

definition seed_from_nonce_and_sc_epoch :: "bytes \<Rightarrow> u64 \<Rightarrow> bytes" where
  "seed_from_nonce_and_sc_epoch nonce epoch =
     be_bytes 32 (unat (word_of_nat (be_value (epoch_nonce_as_array nonce)) + ucast epoch :: 256 word))"

definition select_candidates ::
  "(bytes, 'rng) chacha \<Rightarrow> ('rng \<Rightarrow> ('acc, 'keys) candidate list \<Rightarrow> ('acc, 'keys) candidate list)
     \<Rightarrow> ('acc::linorder, 'keys::linorder) keys_env \<Rightarrow> utxo_id \<Rightarrow> authority_selection_inputs \<Rightarrow> u64
     \<Rightarrow> panic + ('acc, 'keys) committee_member list option" where
  "select_candidates G shuffle E genesis_utxo input sidechain_epoch =
     (let valid_registered_candidates =
            filter_trustless_candidates_registrations E (registered_candidates input) genesis_utxo;
          valid_permissioned_candidates =
            filter_invalid_permissioned_candidates E (permissioned_candidates input);
          random_seed = seed_from_nonce_and_sc_epoch (epoch_nonce input) sidechain_epoch
      in (case ariadne_v2_select_authorities G shuffle
              (num_registered_candidates (d_param input)) (num_permissioned_candidates (d_param input))
              valid_registered_candidates valid_permissioned_candidates random_seed of
            Inl p \<Rightarrow> Inl p
          | Inr None \<Rightarrow> Inr None
          | Inr (Some validators) \<Rightarrow> Inr (Some (map candidate_into_member validators))))"

text \<open>The caller bounds the committee with \<open>BoundedVec::truncate_from\<close>.\<close>

definition select_authorities ::
  "(bytes, 'rng) chacha \<Rightarrow> ('rng \<Rightarrow> ('acc, 'keys) candidate list \<Rightarrow> ('acc, 'keys) candidate list)
     \<Rightarrow> ('acc::linorder, 'keys::linorder) keys_env \<Rightarrow> u32 \<Rightarrow> utxo_id \<Rightarrow> authority_selection_inputs \<Rightarrow> u64
     \<Rightarrow> panic + ('acc, 'keys) committee_member list option" where
  "select_authorities G shuffle E max_authorities genesis_utxo input sidechain_epoch =
     (case select_candidates G shuffle E genesis_utxo input sidechain_epoch of
        Inl p \<Rightarrow> Inl p
      | Inr None \<Rightarrow> Inr None
      | Inr (Some ms) \<Rightarrow> Inr (Some (take (unat max_authorities) ms)))"

subsection \<open>Lemmas\<close>

lemma set_map_filter: "set (List.map_filter f xs) = {y. \<exists>x \<in> set xs. f x = Some y}"
  by (induction xs) (auto simp: List.map_filter_simps split: option.splits)

lemma length_map_filter: "length (List.map_filter f xs) \<le> length xs"
  by (induction xs) (auto simp: List.map_filter_simps split: option.splits)

lemma foldl_max:
  fixes f :: "'a \<Rightarrow> 'k::linorder"
  shows "foldl (\<lambda>m y. if f m \<le> f y then y else m) x xs \<in> set (x # xs)
    \<and> (\<forall>y \<in> set (x # xs). f y \<le> f (foldl (\<lambda>m y. if f m \<le> f y then y else m) x xs))"
proof (induction xs arbitrary: x)
  case Nil
  then show ?case by simp
next
  case (Cons a xs)
  from Cons.IH [of a] Cons.IH [of x] show ?case by (cases "f x \<le> f a") (auto intro: order_trans)
qed

lemma max_by_key_Some:
  assumes "max_by_key f xs = Some m"
  shows "m \<in> set xs \<and> (\<forall>x \<in> set xs. f x \<le> f m)"
  using assms foldl_max [of f "hd xs" "tl xs"] by (cases xs) auto

text \<open>The conditions a registration has to meet, with the message both signatures are over.\<close>

definition registration_valid ::
  "('acc, 'keys) keys_env \<Rightarrow> bytes \<Rightarrow> utxo_id \<Rightarrow> registration_data \<Rightarrow> 'keys \<Rightarrow> bool" where
  "registration_valid E pub_key genesis r keys \<longleftrightarrow>
     (let message = signed_message_encoded E genesis (sidechain_pub_key r) (registration_utxo r) in
      maybe_from E (reg_keys r) = Some keys
    \<and> length (sidechain_pub_key r) = 33
    \<and> length (mainchain_signature r) = 64
    \<and> ed25519_verify E (mainchain_signature r) message pub_key
    \<and> length (sidechain_signature r) = 64
    \<and> (ecdsa_verify E (sidechain_signature r @ [27]) message (sidechain_pub_key r)
       \<or> ecdsa_verify E (sidechain_signature r @ [28]) message (sidechain_pub_key r))
    \<and> registration_utxo r \<in> set (tx_inputs r))"

lemma validate_registration_data_Inr:
  "validate_registration_data E pub_key r genesis = Inr (k, keys)
     \<longleftrightarrow> k = sidechain_pub_key r \<and> registration_valid E pub_key genesis r keys"
  by (auto simp: validate_registration_data_def registration_valid_def Let_def
      verify_stake_pool_signature_def verify_sidechain_signature_def verify_tx_inputs_def
      split: option.splits if_splits)

lemma validate_stake_Inr: "validate_stake s = Inr v \<longleftrightarrow> s = Some v \<and> v \<noteq> 0"
  by (auto simp: validate_stake_def split: option.splits)

lemma select_latest_valid_candidate_Some:
  assumes "select_latest_valid_candidate E cr genesis = Some c"
  shows "cws_stake_pool_pub_key c = stake_pool_public_key cr
    \<and> stake_delegation cr = Some (cws_stake_delegation c) \<and> cws_stake_delegation c \<noteq> 0
    \<and> (\<exists>r \<in> set (registrations cr).
         registration_valid E (stake_pool_public_key cr) genesis r (cws_account_keys c)
       \<and> cws_account_id c = account_of E (sidechain_pub_key r)
       \<and> (\<forall>r' \<in> set (registrations cr). \<forall>keys.
            registration_valid E (stake_pool_public_key cr) genesis r' keys
            \<longrightarrow> ordering_key (reg_utxo_info r') \<le> ordering_key (reg_utxo_info r)))"
proof -
  let ?pk = "stake_pool_public_key cr"
  let ?vs = "valid_registrations E ?pk genesis (registrations cr)"
  obtain stake k keys i where stake: "validate_stake (stake_delegation cr) = Inr stake"
    and m: "max_by_key (\<lambda>(_, utxo_info). ordering_key utxo_info) ?vs = Some ((k, keys), i)"
    and c: "c = \<lparr>cws_stake_pool_pub_key = ?pk, cws_stake_delegation = stake,
        cws_account_id = account_of E k, cws_account_keys = keys\<rparr>"
    using assms by (auto simp: select_latest_valid_candidate_def split: sum.splits option.splits)
  have mem: "((k', keys'), i') \<in> set ?vs \<longleftrightarrow> (\<exists>r \<in> set (registrations cr).
      registration_valid E ?pk genesis r keys' \<and> k' = sidechain_pub_key r \<and> i' = reg_utxo_info r)"
    for k' keys' i'
  proof -
    have "(case v of Inr c \<Rightarrow> Some (c, j) | Inl _ \<Rightarrow> None) = Some ((k', keys'), i')
        \<longleftrightarrow> v = Inr (k', keys') \<and> i' = j" for v :: "registration_data_error + bytes \<times> 'b" and j
      by (cases v) auto
    then show ?thesis
      by (simp add: valid_registrations_def set_map_filter validate_registration_data_Inr) blast
  qed
  from max_by_key_Some [OF m] have in_vs: "((k, keys), i) \<in> set ?vs"
    and max: "\<forall>x \<in> set ?vs. ordering_key (snd x) \<le> ordering_key i" by (auto simp: split_def)
  from in_vs obtain r where r: "r \<in> set (registrations cr)" "registration_valid E ?pk genesis r keys"
    "k = sidechain_pub_key r" "i = reg_utxo_info r" using mem by blast
  have "ordering_key (reg_utxo_info r') \<le> ordering_key (reg_utxo_info r)"
    if "r' \<in> set (registrations cr)" "registration_valid E ?pk genesis r' keys'" for r' keys'
    using max mem that r(4) by fastforce
  then show ?thesis using r stake by (auto simp: c validate_stake_Inr)
qed

lemma validate_permissioned_Inr:
  "validate_permissioned_candidate_data E c = Inr (k, keys) \<longleftrightarrow>
     k = perm_sidechain_public_key c \<and> length k = 33 \<and> maybe_from E (perm_keys c) = Some keys"
  by (auto simp: validate_permissioned_candidate_data_def split: option.splits)

text \<open>What a member of the committee has to come from.\<close>

definition member_valid ::
  "('acc, 'keys) keys_env \<Rightarrow> utxo_id \<Rightarrow> authority_selection_inputs \<Rightarrow> ('acc, 'keys) committee_member
     \<Rightarrow> bool" where
  "member_valid E genesis input m = (case m of
       PermissionedMember i keys \<Rightarrow> (\<exists>d \<in> set (permissioned_candidates input).
         length (perm_sidechain_public_key d) = 33 \<and> i = account_of E (perm_sidechain_public_key d)
       \<and> maybe_from E (perm_keys d) = Some keys)
     | RegisteredMember i keys pub_key \<Rightarrow> (\<exists>cr \<in> set (registered_candidates input).
         stake_pool_public_key cr = pub_key \<and> (\<exists>stake > 0. stake_delegation cr = Some stake)
       \<and> (\<exists>r \<in> set (registrations cr). registration_valid E pub_key genesis r keys
           \<and> i = account_of E (sidechain_pub_key r)
           \<and> (\<forall>r' \<in> set (registrations cr). \<forall>keys'. registration_valid E pub_key genesis r' keys'
                \<longrightarrow> ordering_key (reg_utxo_info r') \<le> ordering_key (reg_utxo_info r)))))"

lemma registered_candidate_valid:
  assumes "c \<in> fst ` set (filter_trustless_candidates_registrations E (registered_candidates input) genesis)"
  shows "member_valid E genesis input (candidate_into_member c)"
proof -
  obtain d cr where d: "c = Registered d" "cr \<in> set (registered_candidates input)"
    "select_latest_valid_candidate E cr genesis = Some d"
    using assms by (auto simp: filter_trustless_candidates_registrations_def set_map_filter)
  note v = select_latest_valid_candidate_Some [OF d(3)]
  then have "cws_stake_pool_pub_key d = stake_pool_public_key cr"
    and "\<exists>stake > 0. stake_delegation cr = Some stake" by (auto simp: word_neq_0_conv)
  with v d(2) show ?thesis unfolding member_valid_def d(1) by auto
qed

lemma permissioned_candidate_valid:
  assumes "c \<in> set (filter_invalid_permissioned_candidates E (permissioned_candidates input))"
  shows "member_valid E genesis input (candidate_into_member c)"
proof -
  obtain d where "d \<in> set (permissioned_candidates input)"
    "(case validate_permissioned_candidate_data E d of Inl _ \<Rightarrow> None
      | Inr (key, account_keys) \<Rightarrow>
         Some (Permissioned \<lparr>pc_account_id = account_of E key, pc_account_keys = account_keys\<rparr>)) = Some c"
    using assms by (auto simp: filter_invalid_permissioned_candidates_def set_map_filter)
  then obtain k keys where d: "d \<in> set (permissioned_candidates input)"
    "validate_permissioned_candidate_data E d = Inr (k, keys)"
    "c = Permissioned \<lparr>pc_account_id = account_of E k, pc_account_keys = keys\<rparr>"
    by (cases "validate_permissioned_candidate_data E d") auto
  from d(2) show ?thesis using d(1) by (auto simp: d(3) member_valid_def validate_permissioned_Inr)
qed

lemma trustless_total_bound:
  "total_of (filter_trustless_candidates_registrations E crs genesis) \<le> length crs * 2 ^ 64"
proof -
  have "total_of (map (\<lambda>c. (Registered c, ucast (cws_stake_delegation c) :: u128)) cs) \<le> length cs * 2 ^ 64"
    for cs :: "('a, 'b) candidate_with_stake list"
  proof (induction cs)
    case Nil
    then show ?case by simp
  next
    case (Cons c cs)
    have "unat (ucast (cws_stake_delegation c) :: u128) < 2 ^ 64"
      using unat_bound [of "cws_stake_delegation c"] by (simp add: unat_ucast_up)
    with Cons show ?case by simp
  qed
  from this [of "List.map_filter (\<lambda>cr. select_latest_valid_candidate E cr genesis) crs"]
    length_map_filter [of "\<lambda>cr. select_latest_valid_candidate E cr genesis" crs]
  show ?thesis unfolding filter_trustless_candidates_registrations_def
    by (meson mult_le_mono1 order_trans)
qed

lemma trustless_total_zero:
  "total_of (filter_trustless_candidates_registrations E crs genesis) = 0
     \<longleftrightarrow> filter_trustless_candidates_registrations E crs genesis = []"
proof -
  have "0 < unat (ucast (cws_stake_delegation c) :: u128)"
    if "c \<in> set (List.map_filter (\<lambda>cr. select_latest_valid_candidate E cr genesis) crs)" for c
  proof -
    have "cws_stake_delegation c \<noteq> 0"
      using that by (auto simp: set_map_filter dest: select_latest_valid_candidate_Some)
    then show ?thesis by (simp add: unat_ucast_up unat_gt_0)
  qed
  then show ?thesis unfolding filter_trustless_candidates_registrations_def
    by (cases "List.map_filter (\<lambda>cr. select_latest_valid_candidate E cr genesis) crs") auto
qed

text \<open>The number of seats that are filled when every candidate has weight.\<close>

definition committee_size :: "nat \<Rightarrow> nat \<Rightarrow> bool \<Rightarrow> bool \<Rightarrow> nat" where
  "committee_size r p any_registered any_permissioned =
     (if any_registered \<or> any_permissioned then r + p else 0)"

lemma v2_size_trustless:
  "v2_size r p (filter_trustless_candidates_registrations E crs genesis) perm =
     committee_size r p (filter_trustless_candidates_registrations E crs genesis \<noteq> []) (perm \<noteq> [])"
  using trustless_total_zero [of E crs genesis]
  by (auto simp: v2_size_def committee_size_def Let_def)

lemma trustless_seats_bound:
  assumes "length crs < 2 ^ 48" and "n < 2 ^ 16"
  shows "total_of (filter_trustless_candidates_registrations E crs genesis) * n < 2 ^ 128"
proof -
  have "length crs * 2 ^ 64 * n \<le> (2 ^ 48 - 1) * 2 ^ 64 * (2 ^ 16 - 1)"
    using assms by (intro mult_le_mono) simp_all
  also have "\<dots> < 2 ^ 128" by simp
  finally show ?thesis
    using trustless_total_bound [of E crs genesis] by (meson mult_le_mono1 order_le_less_trans)
qed

lemma select_candidates_ok:
  fixes E :: "('acc::linorder, 'keys::linorder) keys_env"
  assumes "rng_ok G" and "shuffle_ok shuffle"
    and seats: "unat (num_registered_candidates (d_param input))
        + unat (num_permissioned_candidates (d_param input)) < 2 ^ 16"
    and reg: "length (registered_candidates input) < 2 ^ 48"
    and perm: "length (permissioned_candidates input) < 2 ^ 112"
  shows "\<exists>ms. select_candidates G shuffle E genesis input epoch =
       Inr (if ms = [] \<and> 0 < unat (num_registered_candidates (d_param input))
          + unat (num_permissioned_candidates (d_param input)) then None else Some ms)
     \<and> (\<forall>m \<in> set ms. member_valid E genesis input m)
     \<and> length ms = committee_size (unat (num_registered_candidates (d_param input)))
         (unat (num_permissioned_candidates (d_param input)))
         (filter_trustless_candidates_registrations E (registered_candidates input) genesis \<noteq> [])
         (filter_invalid_permissioned_candidates E (permissioned_candidates input) \<noteq> [])"
proof -
  let ?r = "num_registered_candidates (d_param input)" and ?p = "num_permissioned_candidates (d_param input)"
  let ?reg = "filter_trustless_candidates_registrations E (registered_candidates input) genesis"
  let ?perm = "filter_invalid_permissioned_candidates E (permissioned_candidates input)"
  let ?seed = "seed_from_nonce_and_sc_epoch (epoch_nonce input) epoch"
  have "length ?perm \<le> length (permissioned_candidates input)"
    by (simp add: filter_invalid_permissioned_candidates_def length_map_filter)
  then have "length ?perm * (unat ?r + unat ?p) \<le> (2 ^ 112 - 1) * (2 ^ 16 - 1)"
    using perm seats by (intro mult_le_mono) simp_all
  also have "\<dots> < 2 ^ 128" by simp
  finally have pb: "length ?perm * (unat ?r + unat ?p) < 2 ^ 128" .
  obtain sel where sel: "ariadne_v2_select_authorities G shuffle ?r ?p ?reg ?perm ?seed
      = Inr (if sel = [] \<and> 0 < unat ?r + unat ?p then None else Some sel)"
    "length sel = v2_size (unat ?r) (unat ?p) ?reg ?perm" "set sel \<subseteq> fst ` set ?reg \<union> set ?perm"
    using ariadne_v2_selects [OF assms(1,2) seats trustless_seats_bound [OF reg seats] pb] by blast
  have "\<forall>m \<in> set (map candidate_into_member sel). member_valid E genesis input m"
    using sel(3) registered_candidate_valid permissioned_candidate_valid by fastforce
  moreover have "select_candidates G shuffle E genesis input epoch =
      Inr (if map candidate_into_member sel = [] \<and> 0 < unat ?r + unat ?p then None
        else Some (map candidate_into_member sel))"
    using sel(1) by (auto simp: select_candidates_def Let_def)
  ultimately show ?thesis using sel(2) by (intro exI [of _ "map candidate_into_member sel"])
      (simp add: v2_size_trustless)
qed

lemma bytes_value_bound: "be_value bs < 256 ^ length bs"
proof (induction bs rule: rev_induct)
  case Nil
  then show ?case by simp
next
  case (snoc b bs)
  have "unat b < 256" using unat_bound [of b] by simp
  with snoc show ?case by (simp add: be_value_snoc)
qed

lemma length_epoch_nonce_as_array [simp]: "length (epoch_nonce_as_array nonce) = 32"
  by (simp add: epoch_nonce_as_array_def)

subsection \<open>Properties\<close>

text \<open>
  C6: \<open>select_authorities\<close> never panics on any observed data with fewer than \<open>2^48\<close>
  registrations, and every member of the committee it returns is a candidate that passed
  validation: a permissioned member has a well-formed key and session keys, and a registered member
  has positive stake, and its id and keys come from a registration with both signatures valid and
  its UTXO spent by the registration transaction, no valid registration of the same stake pool
  being later. The committee fills all seats of the D-parameter, up to the bound of the
  runtime, as soon as one candidate is valid; with no valid candidate no committee is returned.
\<close>

theorem select_authorities_valid:
  fixes E :: "('acc::linorder, 'keys::linorder) keys_env"
  assumes "rng_ok G" and "shuffle_ok shuffle"
    and "unat (num_registered_candidates (d_param input))
        + unat (num_permissioned_candidates (d_param input)) < 2 ^ 16"
    and "length (registered_candidates input) < 2 ^ 48"
    and "length (permissioned_candidates input) < 2 ^ 112"
  shows "\<exists>ms. select_authorities G shuffle E bound genesis input epoch =
       Inr (if ms = [] \<and> 0 < unat (num_registered_candidates (d_param input))
          + unat (num_permissioned_candidates (d_param input)) then None
          else Some (take (unat bound) ms))
     \<and> (\<forall>m \<in> set ms. member_valid E genesis input m)
     \<and> length ms = committee_size (unat (num_registered_candidates (d_param input)))
         (unat (num_permissioned_candidates (d_param input)))
         (filter_trustless_candidates_registrations E (registered_candidates input) genesis \<noteq> [])
         (filter_invalid_permissioned_candidates E (permissioned_candidates input) \<noteq> [])"
proof -
  from select_candidates_ok [OF assms, of E genesis epoch] obtain ms where ms:
    "select_candidates G shuffle E genesis input epoch =
       Inr (if ms = [] \<and> 0 < unat (num_registered_candidates (d_param input))
          + unat (num_permissioned_candidates (d_param input)) then None else Some ms)"
    "\<forall>m \<in> set ms. member_valid E genesis input m"
    "length ms = committee_size (unat (num_registered_candidates (d_param input)))
         (unat (num_permissioned_candidates (d_param input)))
         (filter_trustless_candidates_registrations E (registered_candidates input) genesis \<noteq> [])
         (filter_invalid_permissioned_candidates E (permissioned_candidates input) \<noteq> [])"
    by blast
  then show ?thesis by (intro exI [of _ ms]) (auto simp: select_authorities_def)
qed

text \<open>
  An environment for the witnesses: a signature is the message cut to 63 bytes behind a zero, an
  account id is the key, and the session keys are the bytes of one Aura key.
\<close>

definition demo_env :: "(bytes, bytes) keys_env" where
  "demo_env = \<lparr>ed25519_verify = (\<lambda>sig msg pub. sig = take 64 (0 # msg)),
     ecdsa_verify = (\<lambda>sig msg pub. take 64 sig = take 64 (0 # msg)),
     account_of = (\<lambda>k. k), required_key_ids = [aura_id], opaque_keys_decode = Some,
     bigint_to_be = nat_be, cbor_writer = cbor_write\<rparr>"

definition demo_rng :: "(bytes, nat) chacha" where
  "demo_rng = \<lparr>from_seed = be_value, get_seed = (\<lambda>r. []),
          random_range = (\<lambda>n r. (word_of_nat r mod n, 5 * r + 3))\<rparr>"

lemma demo_rng_ok: "rng_ok demo_rng"
  using lcg_ok by (simp add: rng_ok_def lcg_def demo_rng_def)

definition demo_input :: authority_selection_inputs where
  "demo_input = \<lparr>d_param = \<lparr>num_permissioned_candidates = 2, num_registered_candidates = 1\<rparr>,
     permissioned_candidates = [\<lparr>perm_sidechain_public_key = replicate 33 7,
        perm_keys = [\<lparr>key_id = aura_id, key_bytes = [1]\<rparr>]\<rparr>],
     registered_candidates = [], epoch_nonce = [3]\<rparr>"

definition demo_utxo :: utxo_id where
  "demo_utxo = \<lparr>utxo_tx_hash = replicate 32 5, utxo_index = 1\<rparr>"

theorem select_authorities_valid_witness:
  "\<exists>ms. select_authorities demo_rng (\<lambda>_ xs. xs) demo_env 32 demo_utxo demo_input 4 =
       Inr (if ms = [] \<and> 0 < unat (num_registered_candidates (d_param demo_input))
          + unat (num_permissioned_candidates (d_param demo_input)) then None
          else Some (take (unat (32 :: u32)) ms))
     \<and> (\<forall>m \<in> set ms. member_valid demo_env demo_utxo demo_input m) \<and> length ms = 3"
proof -
  have "filter_invalid_permissioned_candidates demo_env (permissioned_candidates demo_input) \<noteq> []"
    by (simp add: filter_invalid_permissioned_candidates_def demo_env_def demo_input_def
        List.map_filter_simps validate_permissioned_candidate_data_def maybe_from_def)
  then have size: "committee_size (unat (num_registered_candidates (d_param demo_input)))
      (unat (num_permissioned_candidates (d_param demo_input))) b
      (filter_invalid_permissioned_candidates demo_env (permissioned_candidates demo_input) \<noteq> []) = 3" for b
    by (simp add: committee_size_def demo_input_def)
  show ?thesis
    by (rule select_authorities_valid [OF demo_rng_ok shuffle_id_ok, of demo_input demo_env 32 demo_utxo 4,
          unfolded size]) (simp_all add: demo_input_def)
qed

text \<open>
  C28: the message a candidate signs determines the Partner Chain, the key and the spent UTXO: two
  registrations have the same signed bytes only if all three agree. A signature made for one
  Partner Chain, or for one registration UTXO, is over bytes no other one accepts.
\<close>

theorem signed_message_binds:
  assumes "to_be_ok (bigint_to_be E)" and "minicbor_ok (cbor_writer E)"
  shows "signed_message_encoded E g k u = signed_message_encoded E g' k' u'
     \<longleftrightarrow> g = g' \<and> k = k' \<and> u = u'"
proof
  assume eq: "signed_message_encoded E g k u = signed_message_encoded E g' k' u'"
  have fits: "datum_fits (signed_message_to_datum g k u)" for g k u
    by (simp add: signed_message_to_datum_def utxo_id_to_datum_def derive_to_datum_def
        bytes_to_datum_def uint_to_datum_def)
  have "signed_message_to_datum g k u = signed_message_to_datum g' k' u'"
    using datum_cbor_inj [OF assms fits fits] eq by (simp add: signed_message_encoded_def)
  then show "g = g' \<and> k = k' \<and> u = u'"
    by (simp add: signed_message_to_datum_def utxo_id_to_datum_def derive_to_datum_def
        bytes_to_datum_def uint_to_datum_def uint_word_inj)
qed simp

theorem signed_message_binds_witness:
  "signed_message_encoded demo_env demo_utxo [1] demo_utxo \<noteq>
   signed_message_encoded demo_env demo_utxo [1] (demo_utxo\<lparr>utxo_index := 2\<rparr>)"
  using signed_message_binds [of demo_env demo_utxo "[1]" demo_utxo demo_utxo "[1]" "demo_utxo\<lparr>utxo_index := 2\<rparr>"]
  by (simp add: demo_env_def nat_be_ok cbor_write_ok demo_utxo_def)

text \<open>
  \<open>validate_registration_data\<close> accepts a registration exactly when its session keys decode,
  its key has 33 bytes, both signatures have 64 bytes and verify over the registration message
  (the ECDSA one with either recovery byte) and its UTXO is an input of the registration
  transaction; it returns the registered key and the decoded session keys.
\<close>

lemma validate_registration_data_exact:
  "validate_registration_data E pub_key r genesis = Inr (k, keys)
     \<longleftrightarrow> k = sidechain_pub_key r \<and> registration_valid E pub_key genesis r keys"
  by (rule validate_registration_data_Inr)

text \<open>
  The seed has 32 bytes, and two Partner Chain epochs that use the same Cardano nonce have
  different seeds.
\<close>

lemma seed_distinct:
  "length (seed_from_nonce_and_sc_epoch nonce e) = 32
   \<and> (seed_from_nonce_and_sc_epoch nonce e = seed_from_nonce_and_sc_epoch nonce e' \<longleftrightarrow> e = e')"
proof -
  let ?w = "\<lambda>e. word_of_nat (be_value (epoch_nonce_as_array nonce)) + ucast e :: 256 word"
  have "unat (?w e) < 256 ^ 32" for e using unat_bound [of "?w e"] by simp
  then have value_eq: "be_value (seed_from_nonce_and_sc_epoch nonce e) = unat (?w e)" for e
    unfolding seed_from_nonce_and_sc_epoch_def by (rule be_value_be_bytes)
  have "e = e'" if "seed_from_nonce_and_sc_epoch nonce e = seed_from_nonce_and_sc_epoch nonce e'"
  proof -
    have "unat (?w e) = unat (?w e')" using that value_eq by metis
    then have "(ucast e :: 256 word) = ucast e'" by (simp add: word_unat_eq_iff [symmetric])
    then have "unat (ucast e :: 256 word) = unat (ucast e' :: 256 word)" by simp
    then show ?thesis by (simp add: unat_ucast_up word_unat_eq_iff)
  qed
  then show ?thesis by (auto simp: seed_from_nonce_and_sc_epoch_def simp del: be_bytes.simps)
qed

end
