(* ===== verification/Committee.thy ===== *)
theory Committee
  imports Prelude
begin

text \<open>
  The committee selection pallet, \<open>toolkit/committee-selection/pallet/src/lib.rs\<close>, with the
  inherent error type of \<open>toolkit/committee-selection/primitives/src/lib.rs\<close>.

  The items of the pallet's \<open>Config\<close> trait are the fields of \<open>committee_config\<close>; the epoch
  number is the \<open>u64\<close> of \<open>ScEpochNumber\<close>. A \<open>BoundedVec\<close> is a list. An extrinsic returns the new
  storage or the error, in which case the storage is left as it was.
\<close>

record main_chain_scripts =
  committee_candidate_address :: bytes
  d_parameter_policy_id :: bytes
  permissioned_candidates_policy_id :: bytes

record 'member committee_info =
  ci_epoch :: u64
  committee :: "'member list"

definition as_pair :: "'member committee_info \<Rightarrow> u64 \<times> 'member list" where
  "as_pair ci = (ci_epoch ci, committee ci)"

record 'member committee_state =
  current_committee :: "'member committee_info"
  next_committee_info :: "'member committee_info option"
  main_chain_scripts_configuration :: main_chain_scripts

record ('origin, 'input, 'member, 'hash) committee_config =
  max_validators :: u32
  cfg_select_authorities :: "'input \<Rightarrow> u64 \<Rightarrow> 'member list option"
  inputs_hash :: "'input \<Rightarrow> 'hash"
  origin_is_none :: "'origin \<Rightarrow> bool"
  origin_is_governance :: "'origin \<Rightarrow> bool"

datatype ('member, 'hash) committee_call =
    SetCommittee "'member list" u64 'hash
  | SetMainChainScripts bytes bytes bytes

datatype 'hash committee_inherent_error =
    InvalidValidators
  | CommitteeNeedsToBeStoredOneEpochInAdvance
  | InvalidValidatorsMatchingHash 'hash
  | InvalidValidatorsHashMismatch 'hash 'hash

datatype committee_error = CommitteeBadOrigin | InvalidEpoch | NextCommitteeAlreadySet

subsection \<open>Genesis and hooks\<close>

definition committee_genesis_build ::
  "('origin, 'input, 'member, 'hash) committee_config \<Rightarrow> 'member list \<Rightarrow> main_chain_scripts
     \<Rightarrow> 'member committee_state" where
  "committee_genesis_build cfg initial_authorities scripts =
     \<lparr>current_committee = \<lparr>ci_epoch = 0, committee = take (unat (max_validators cfg)) initial_authorities\<rparr>,
      next_committee_info = None, main_chain_scripts_configuration = scripts\<rparr>"

definition committee_on_initialize ::
  "nat \<Rightarrow> u64 \<Rightarrow> 'member committee_state \<Rightarrow> 'member committee_state" where
  "committee_on_initialize block_nr current_epoch_number s =
     (if block_nr = 1
      then s\<lparr>current_committee := (current_committee s)\<lparr>ci_epoch := current_epoch_number\<rparr>\<rparr>
      else s)"

subsection \<open>The inherent\<close>

definition inherent_data_to_authority_selection_inputs ::
  "('origin, 'input, 'member, 'hash) committee_config \<Rightarrow> 'input inherent_item \<Rightarrow> panic + 'input \<times> 'hash" where
  "inherent_data_to_authority_selection_inputs cfg data = (case data of
       Inl _ \<Rightarrow> Inl ExpectFailed
     | Inr None \<Rightarrow> Inl ExpectFailed
     | Inr (Some decoded_data) \<Rightarrow> Inr (decoded_data, inputs_hash cfg decoded_data))"

definition committee_create_inherent ::
  "('origin, 'input, 'member, 'hash) committee_config \<Rightarrow> 'member committee_state \<Rightarrow> 'input inherent_item
     \<Rightarrow> panic + ('member, 'hash) committee_call option" where
  "committee_create_inherent cfg s data =
     (if next_committee_info s \<noteq> None then Inr None
      else let for_epoch_number = ci_epoch (current_committee s) + 1 in
        (case inherent_data_to_authority_selection_inputs cfg data of
           Inl p \<Rightarrow> Inl p
         | Inr (inputs, selection_inputs_hash) \<Rightarrow>
             (case cfg_select_authorities cfg inputs for_epoch_number of
                Some validators \<Rightarrow>
                  Inr (Some (SetCommittee validators for_epoch_number selection_inputs_hash))
              | None \<Rightarrow>
                  Inr (Some (SetCommittee (committee (current_committee s)) for_epoch_number
                    selection_inputs_hash)))))"

definition committee_check_inherent ::
  "('origin, 'input, 'member, 'hash) committee_config \<Rightarrow> 'member committee_state
     \<Rightarrow> ('member, 'hash) committee_call \<Rightarrow> 'input inherent_item
     \<Rightarrow> panic + 'hash committee_inherent_error option" where
  "committee_check_inherent cfg s call data = (case call of
       SetMainChainScripts _ _ _ \<Rightarrow> Inr None
     | SetCommittee validators_param for_epoch_number_param call_hash \<Rightarrow>
         (case inherent_data_to_authority_selection_inputs cfg data of
            Inl p \<Rightarrow> Inl p
          | Inr (inputs, computed_hash) \<Rightarrow>
              (let validators = (case cfg_select_authorities cfg inputs for_epoch_number_param of
                     Some vs \<Rightarrow> vs
                   | None \<Rightarrow> committee (case next_committee_info s of
                         Some info \<Rightarrow> info
                       | None \<Rightarrow> current_committee s))
               in if validators_param \<noteq> validators
                  then Inr (Some (if call_hash = computed_hash
                    then InvalidValidatorsMatchingHash computed_hash
                    else InvalidValidatorsHashMismatch computed_hash call_hash))
                  else Inr None)))"

definition committee_is_inherent :: "('member, 'hash) committee_call \<Rightarrow> bool" where
  "committee_is_inherent call = (case call of SetCommittee _ _ _ \<Rightarrow> True | _ \<Rightarrow> False)"

definition committee_is_inherent_required ::
  "'member committee_state \<Rightarrow> 'hash committee_inherent_error option" where
  "committee_is_inherent_required s =
     (if next_committee_info s = None then Some CommitteeNeedsToBeStoredOneEpochInAdvance else None)"

subsection \<open>Calls\<close>

definition committee_set ::
  "('origin, 'input, 'member, 'hash) committee_config \<Rightarrow> 'member committee_state \<Rightarrow> 'origin
     \<Rightarrow> 'member list \<Rightarrow> u64 \<Rightarrow> 'hash \<Rightarrow> committee_error + 'member committee_state" where
  "committee_set cfg s origin validators for_epoch_number selection_inputs_hash =
     (if \<not> origin_is_none cfg origin then Inl CommitteeBadOrigin
      else let expected_epoch_number = ci_epoch (current_committee s) + 1 in
        if for_epoch_number \<noteq> expected_epoch_number then Inl InvalidEpoch
        else if next_committee_info s \<noteq> None then Inl NextCommitteeAlreadySet
        else Inr (s\<lparr>next_committee_info := Some \<lparr>ci_epoch = for_epoch_number, committee = validators\<rparr>\<rparr>))"

definition committee_set_main_chain_scripts ::
  "('origin, 'input, 'member, 'hash) committee_config \<Rightarrow> 'member committee_state \<Rightarrow> 'origin
     \<Rightarrow> bytes \<Rightarrow> bytes \<Rightarrow> bytes \<Rightarrow> committee_error + 'member committee_state" where
  "committee_set_main_chain_scripts cfg s origin address d_policy perm_policy =
     (if \<not> origin_is_governance cfg origin then Inl CommitteeBadOrigin
      else Inr (s\<lparr>main_chain_scripts_configuration :=
        \<lparr>committee_candidate_address = address, d_parameter_policy_id = d_policy,
         permissioned_candidates_policy_id = perm_policy\<rparr>\<rparr>))"

fun committee_dispatch ::
  "('origin, 'input, 'member, 'hash) committee_config \<Rightarrow> 'member committee_state \<Rightarrow> 'origin
     \<Rightarrow> ('member, 'hash) committee_call \<Rightarrow> committee_error + 'member committee_state" where
  "committee_dispatch cfg s origin (SetCommittee vs e h) = committee_set cfg s origin vs e h"
| "committee_dispatch cfg s origin (SetMainChainScripts a d p) =
     committee_set_main_chain_scripts cfg s origin a d p"

subsection \<open>Queries and rotation\<close>

definition get_next_unset_epoch_number :: "'member committee_state \<Rightarrow> u64" where
  "get_next_unset_epoch_number s = (case next_committee_info s of
       Some info \<Rightarrow> ci_epoch info + 1
     | None \<Rightarrow> ci_epoch (current_committee s) + 1)"

definition get_current_authority_round_robin :: "'member committee_state \<Rightarrow> nat \<Rightarrow> 'member option" where
  "get_current_authority_round_robin s index =
     (let cs = committee (current_committee s) in
      if cs = [] then None
      else let i = index mod length cs in if i < length cs then Some (cs ! i) else None)"

definition next_committee ::
  "('member \<Rightarrow> 'id) \<Rightarrow> ('origin, 'input, 'member, 'hash) committee_config \<Rightarrow> 'member committee_state
     \<Rightarrow> 'id list option" where
  "next_committee authority_id cfg s = (case next_committee_info s of
       None \<Rightarrow> None
     | Some info \<Rightarrow> Some (take (unat (max_validators cfg)) (map authority_id (committee info))))"

definition calculate_committee ::
  "('origin, 'input, 'member, 'hash) committee_config \<Rightarrow> 'input \<Rightarrow> u64 \<Rightarrow> 'member list option" where
  "calculate_committee cfg inputs sidechain_epoch = cfg_select_authorities cfg inputs sidechain_epoch"

definition rotate_committee_to_next_epoch ::
  "'member committee_state \<Rightarrow> 'member list option \<times> 'member committee_state" where
  "rotate_committee_to_next_epoch s = (case next_committee_info s of
       None \<Rightarrow> (None, s)
     | Some info \<Rightarrow>
         (Some (committee info), s\<lparr>next_committee_info := None, current_committee := info\<rparr>))"

subsection \<open>The storage invariant\<close>

text \<open>
  A stored next committee is for the epoch after the current one, and committees are bounded.
  The configured selection respects the bound by its type.
\<close>

definition committee_inv ::
  "('origin, 'input, 'member, 'hash) committee_config \<Rightarrow> 'member committee_state \<Rightarrow> bool" where
  "committee_inv cfg s \<longleftrightarrow>
     length (committee (current_committee s)) \<le> unat (max_validators cfg)
   \<and> (case next_committee_info s of None \<Rightarrow> True
      | Some info \<Rightarrow> ci_epoch info = ci_epoch (current_committee s) + 1
          \<and> length (committee info) \<le> unat (max_validators cfg))"

definition selection_bounded :: "('origin, 'input, 'member, 'hash) committee_config \<Rightarrow> bool" where
  "selection_bounded cfg \<longleftrightarrow> (\<forall>inputs e vs. cfg_select_authorities cfg inputs e = Some vs
     \<longrightarrow> length vs \<le> unat (max_validators cfg))"

lemma committee_inv_genesis [simp]: "committee_inv cfg (committee_genesis_build cfg vs scripts)"
  by (simp add: committee_inv_def committee_genesis_build_def)

lemma committee_inv_on_initialize:
  assumes "committee_inv cfg s" and "n = 1 \<Longrightarrow> next_committee_info s = None"
  shows "committee_inv cfg (committee_on_initialize n e s)"
  using assms by (auto simp: committee_inv_def committee_on_initialize_def)

lemma committee_inv_set:
  assumes "committee_inv cfg s" and "committee_set cfg s origin vs e h = Inr s'"
    and "length vs \<le> unat (max_validators cfg)"
  shows "committee_inv cfg s'"
  using assms by (auto simp: committee_inv_def committee_set_def Let_def split: if_splits)

lemma committee_inv_scripts:
  "committee_inv cfg s \<Longrightarrow> committee_set_main_chain_scripts cfg s origin a d p = Inr s'
    \<Longrightarrow> committee_inv cfg s'"
  by (auto simp: committee_inv_def committee_set_main_chain_scripts_def split: if_splits option.splits)

lemma committee_inv_rotate:
  "committee_inv cfg s \<Longrightarrow> committee_inv cfg (snd (rotate_committee_to_next_epoch s))"
  by (auto simp: committee_inv_def rotate_committee_to_next_epoch_def split: option.splits)

lemmas committee_inv_intros =
  committee_inv_genesis committee_inv_on_initialize committee_inv_set committee_inv_scripts
  committee_inv_rotate

lemma create_inherent_SetCommittee:
  assumes "committee_create_inherent cfg s data = Inr (Some call)"
  obtains inputs where "data = Inr (Some inputs)" "next_committee_info s = None"
    "call = SetCommittee (case cfg_select_authorities cfg inputs (ci_epoch (current_committee s) + 1) of
        Some vs \<Rightarrow> vs | None \<Rightarrow> committee (current_committee s))
      (ci_epoch (current_committee s) + 1) (inputs_hash cfg inputs)"
  using assms
  by (auto simp: committee_create_inherent_def inherent_data_to_authority_selection_inputs_def Let_def
      split: if_splits sum.splits option.splits)

end
