(* ===== verification/Session.thy ===== *)
theory Session
  imports Prelude
begin

text \<open>
  The session pallet, \<open>substrate-extensions/partner-chains-session/src/lib.rs\<close>.

  A session manager (the traits \<open>ShouldEndSession\<close> and \<open>SessionManager\<close>) is a record of functions
  on its own state \<open>'m\<close>. The account provider counters of \<open>frame_system\<close> are an opaque state
  \<open>'sys\<close> with the functions \<open>inc_providers\<close> and \<open>dec_providers\<close>. Calls to the session handlers
  and to the notifications of the manager are recorded as \<open>session_event\<close>s in the order they are
  made. The contract between the session pallet and its manager is the locale
  \<open>session_manager_contract\<close>.
\<close>

record ('v, 'k, 'm) session_manager =
  should_end_session :: "'m \<Rightarrow> bool"
  manager_new_session :: "u32 \<Rightarrow> 'm \<Rightarrow> panic + ('v \<times> 'k) list option \<times> 'm"
  manager_new_session_genesis :: "u32 \<Rightarrow> 'm \<Rightarrow> ('v \<times> 'k) list option"

datatype ('v, 'k) session_event =
    OnGenesisSession "('v \<times> 'k) list"
  | OnBeforeSessionEnding
  | EndSession u32
  | StartSession u32
  | NewSessionEvent u32
  | OnNewSession bool "('v \<times> 'k) list" "('v \<times> 'k) list"
  | OnDisabled u32

record ('v, 'k, 'sys) session_state =
  validators_storage :: "'v list"
  validators_and_keys :: "('v \<times> 'k) list"
  current_index :: u32
  disabled_validators :: "u32 list"
  system_state :: 'sys
  session_events :: "('v, 'k) session_event list"

record ('v, 'acc, 'sys) session_env =
  into_account :: "'v \<Rightarrow> 'acc"
  inc_providers :: "'acc \<Rightarrow> 'sys \<Rightarrow> 'sys"
  dec_providers :: "'acc \<Rightarrow> 'sys \<Rightarrow> 'sys option"
  polkadot_js_compat :: bool

definition emit :: "('v, 'k) session_event list \<Rightarrow> ('v, 'k, 'sys) session_state \<Rightarrow> ('v, 'k, 'sys) session_state" where
  "emit es s = s\<lparr>session_events := session_events s @ es\<rparr>"

subsection \<open>Session handlers\<close>

text \<open>
  The handler of one key type in a tuple of handlers is given the validators that have a key of
  its type.
\<close>

definition our_keys :: "('k \<Rightarrow> 'type \<Rightarrow> 'key option) \<Rightarrow> 'type \<Rightarrow> ('v \<times> 'k) list \<Rightarrow> ('v \<times> 'key) list" where
  "our_keys get key_type validators =
     List.map_filter (\<lambda>(v, ks). map_option (\<lambda>k. (v, k)) (get ks key_type)) validators"

definition tuple_on_genesis_session ::
  "('k \<Rightarrow> 'type \<Rightarrow> 'key option) \<Rightarrow> 'type list \<Rightarrow> ('v \<times> 'k) list \<Rightarrow> ('type \<times> ('v \<times> 'key) list) list" where
  "tuple_on_genesis_session get types validators = map (\<lambda>t. (t, our_keys get t validators)) types"

definition tuple_on_new_session ::
  "('k \<Rightarrow> 'type \<Rightarrow> 'key option) \<Rightarrow> 'type list \<Rightarrow> bool \<Rightarrow> ('v \<times> 'k) list \<Rightarrow> ('v \<times> 'k) list
     \<Rightarrow> ('type \<times> bool \<times> ('v \<times> 'key) list \<times> ('v \<times> 'key) list) list" where
  "tuple_on_new_session get types changed validators queued =
     map (\<lambda>t. (t, changed, our_keys get t validators, our_keys get t queued)) types"

subsection \<open>Account providers\<close>

definition acc_ids :: "('v, 'acc, 'sys) session_env \<Rightarrow> ('v \<times> 'k) list \<Rightarrow> 'acc list" where
  "acc_ids E validators = map (\<lambda>(v, _). into_account E v) validators"

fun dec_all :: "('acc \<Rightarrow> 'sys \<Rightarrow> 'sys option) \<Rightarrow> 'acc list \<Rightarrow> 'sys \<Rightarrow> panic + 'sys" where
  "dec_all dec [] sys = Inr sys"
| "dec_all dec (a # as) sys = (case dec a sys of None \<Rightarrow> Inl ExpectFailed | Some sys' \<Rightarrow> dec_all dec as sys')"

text \<open>\<open>BTreeSet::difference\<close> yields its elements in ascending order.\<close>

definition change_account_providers ::
  "('v, 'acc::linorder, 'sys) session_env \<Rightarrow> 'acc list \<Rightarrow> 'acc list \<Rightarrow> 'sys \<Rightarrow> panic + 'sys" where
  "change_account_providers E new_ids old_ids sys =
     (let to_inc = sorted_list_of_set (set new_ids - set old_ids);
          to_dec = sorted_list_of_set (set old_ids - set new_ids)
      in dec_all (dec_providers E) to_dec (fold (inc_providers E) to_inc sys))"

definition rotate_validators ::
  "('v, 'acc::linorder, 'sys) session_env \<Rightarrow> ('v \<times> 'k) list \<Rightarrow> ('v, 'k, 'sys) session_state
     \<Rightarrow> panic + ('v, 'k, 'sys) session_state" where
  "rotate_validators E new_validators s =
     (let s1 = s\<lparr>validators_and_keys := new_validators\<rparr>;
          s2 = (if polkadot_js_compat E then s1\<lparr>validators_storage := map fst new_validators\<rparr> else s1)
      in (case change_account_providers E (acc_ids E new_validators)
              (acc_ids E (validators_and_keys s2)) (system_state s2) of
            Inl p \<Rightarrow> Inl p
          | Inr sys \<Rightarrow> Inr (s2\<lparr>system_state := sys, disabled_validators := []\<rparr>)))"

subsection \<open>Genesis and rotation\<close>

definition session_genesis_build ::
  "('v, 'acc::linorder, 'sys) session_env \<Rightarrow> ('v, 'k, 'm) session_manager \<Rightarrow> 'type list \<Rightarrow> 'type list
     \<Rightarrow> ('v \<times> 'k) list \<Rightarrow> 'm \<Rightarrow> ('v, 'k, 'sys) session_state \<Rightarrow> panic + ('v, 'k, 'sys) session_state" where
  "session_genesis_build E M handler_key_type_ids session_key_ids config_validators m s =
     (if length handler_key_type_ids \<noteq> length session_key_ids then Inl ExplicitPanic
      else if handler_key_type_ids \<noteq> session_key_ids then Inl ExplicitPanic
      else let initial_validators = (case manager_new_session_genesis M 0 m of
               Some validators \<Rightarrow> validators
             | None \<Rightarrow> config_validators)
        in (case rotate_validators E initial_validators s of
              Inl p \<Rightarrow> Inl p
            | Inr s' \<Rightarrow> Inr (emit [OnGenesisSession initial_validators, StartSession 0] s')))"

definition rotate_session ::
  "('v, 'acc::linorder, 'sys) session_env \<Rightarrow> ('v, 'k, 'm) session_manager \<Rightarrow> 'm
     \<Rightarrow> ('v, 'k, 'sys) session_state \<Rightarrow> panic + 'm \<times> ('v, 'k, 'sys) session_state" where
  "rotate_session E M m s =
     (let session_index = current_index s;
          s = emit [OnBeforeSessionEnding, EndSession session_index] s;
          session_index = session_index + 1;
          s = s\<lparr>current_index := session_index\<rparr>
      in (case manager_new_session M session_index m of
            Inl p \<Rightarrow> Inl p
          | Inr (new_validators, m) \<Rightarrow>
              (case (case new_validators of
                   Some validators \<Rightarrow>
                     (case rotate_validators E validators s of
                        Inl p \<Rightarrow> Inl p
                      | Inr s \<Rightarrow> Inr (validators, True, s))
                 | None \<Rightarrow> Inr (validators_and_keys s, False, s)) of
                 Inl p \<Rightarrow> Inl p
               | Inr (validators, changed, s) \<Rightarrow>
                   Inr (m, emit [StartSession session_index, NewSessionEvent session_index,
                     OnNewSession changed validators []] s))))"

definition session_on_initialize ::
  "('v, 'acc::linorder, 'sys) session_env \<Rightarrow> ('v, 'k, 'm) session_manager \<Rightarrow> 'm
     \<Rightarrow> ('v, 'k, 'sys) session_state \<Rightarrow> panic + 'm \<times> ('v, 'k, 'sys) session_state" where
  "session_on_initialize E M m s =
     (if should_end_session M m then rotate_session E M m s else Inr (m, s))"

subsection \<open>Disabled validators\<close>

text \<open>
  \<open>slice::binary_search\<close> on a sorted vector: the index where the element is, or the index where
  it has to be inserted.
\<close>

definition search_index :: "'a::linorder \<Rightarrow> 'a list \<Rightarrow> nat" where
  "search_index x xs = length (takeWhile (\<lambda>y. y < x) xs)"

definition search_found :: "'a::linorder \<Rightarrow> 'a list \<Rightarrow> bool" where
  "search_found x xs \<longleftrightarrow> search_index x xs < length xs \<and> xs ! search_index x xs = x"

definition disable_index ::
  "u32 \<Rightarrow> ('v, 'k, 'sys) session_state \<Rightarrow> bool \<times> ('v, 'k, 'sys) session_state" where
  "disable_index i s =
     (if i \<ge> word_of_nat (length (validators_storage s)) then (False, s)
      else let disabled = disabled_validators s; index = search_index i disabled in
        if \<not> search_found i disabled
        then (True, emit [OnDisabled i]
                (s\<lparr>disabled_validators := take index disabled @ i # drop index disabled\<rparr>))
        else (False, s))"

fun position :: "('a \<Rightarrow> bool) \<Rightarrow> 'a list \<Rightarrow> nat option" where
  "position P [] = None"
| "position P (x # xs) = (if P x then Some 0 else map_option Suc (position P xs))"

definition disable ::
  "'v \<Rightarrow> ('v, 'k, 'sys) session_state \<Rightarrow> bool \<times> ('v, 'k, 'sys) session_state" where
  "disable c s = (case position (\<lambda>(i, _). i = c) (validators_and_keys s) of
       Some i \<Rightarrow> disable_index (word_of_nat i) s
     | None \<Rightarrow> (False, s))"

definition is_disabled :: "u32 \<Rightarrow> ('v, 'k, 'sys) session_state \<Rightarrow> bool" where
  "is_disabled i s = search_found i (disabled_validators s)"

definition is_registered :: "'v \<Rightarrow> ('v, 'k, 'sys) session_state \<Rightarrow> bool" where
  "is_registered c s = list_ex (\<lambda>(v, _). v = c) (validators_and_keys s)"

definition find_author ::
  "('digest \<Rightarrow> u32 option) \<Rightarrow> 'digest \<Rightarrow> ('v, 'k, 'sys) session_state \<Rightarrow> 'v option" where
  "find_author inner digests s = (case inner digests of
       None \<Rightarrow> None
     | Some i \<Rightarrow>
         (if unat i < length (validators_and_keys s) then Some (fst (validators_and_keys s ! unat i))
          else None))"

subsection \<open>Rotation of validators\<close>

text \<open>
  The new validators are stored before the old ones are read for the comparison, so the two sides
  are always equal.
\<close>

lemma rotate_validators_eq:
  "rotate_validators E vs s = Inr (s\<lparr>validators_and_keys := vs, disabled_validators := [],
     validators_storage := (if polkadot_js_compat E then map fst vs else validators_storage s)\<rparr>)"
  by (simp add: rotate_validators_def change_account_providers_def Let_def)

lemma emit_simps [simp]:
  "validators_storage (emit es s) = validators_storage s"
  "validators_and_keys (emit es s) = validators_and_keys s"
  "current_index (emit es s) = current_index s"
  "disabled_validators (emit es s) = disabled_validators s"
  "system_state (emit es s) = system_state s"
  "session_events (emit es s) = session_events s @ es"
  by (simp_all add: emit_def)

lemma rotate_session_Some:
  assumes "manager_new_session M (current_index s + 1) m = Inr (Some vs, m')"
  shows "\<exists>s'. rotate_session E M m s = Inr (m', s') \<and> validators_and_keys s' = vs
     \<and> current_index s' = current_index s + 1 \<and> disabled_validators s' = []
     \<and> validators_storage s' = (if polkadot_js_compat E then map fst vs else validators_storage s)
     \<and> session_events s' = session_events s @ [OnBeforeSessionEnding, EndSession (current_index s),
         StartSession (current_index s + 1), NewSessionEvent (current_index s + 1), OnNewSession True vs []]"
  using assms by (simp add: rotate_session_def rotate_validators_eq Let_def)

subsection \<open>The session manager contract\<close>

text \<open>
  What the session pallet relies on: when the manager says that the session should end, it has a
  new validator set, and \<open>current_of\<close> is the set it last gave out.
\<close>

locale session_manager_contract =
  fixes M :: "('v, 'k, 'm) session_manager"
    and current_of :: "'m \<Rightarrow> ('v \<times> 'k) list"
  assumes new_session_defined: "should_end_session M m
      \<Longrightarrow> \<exists>m'. manager_new_session M i m = Inr (Some (current_of m'), m')"
    and genesis_is_current: "manager_new_session_genesis M i m = Some (current_of m)"
begin

lemma on_initialize_no_panic: "\<exists>m' s'. session_on_initialize E M m s = Inr (m', s')"
  using new_session_defined [of m "current_index s + 1"] rotate_session_Some [of M s m]
  by (fastforce simp: session_on_initialize_def)

lemma on_initialize_validators:
  assumes "validators_and_keys s = current_of m" and "session_on_initialize E M m s = Inr (m', s')"
  shows "validators_and_keys s' = current_of m'"
proof (cases "should_end_session M m")
  case True
  obtain m1 where "manager_new_session M (current_index s + 1) m = Inr (Some (current_of m1), m1)"
    using new_session_defined [OF True] by blast
  from rotate_session_Some [OF this, of E] assms(2) True show ?thesis
    by (auto simp: session_on_initialize_def)
next
  case False
  with assms show ?thesis by (simp add: session_on_initialize_def)
qed

lemma on_initialize_index:
  assumes "session_on_initialize E M m s = Inr (m', s')"
  shows "current_index s' = (if should_end_session M m then current_index s + 1 else current_index s)"
proof (cases "should_end_session M m")
  case True
  obtain m1 where "manager_new_session M (current_index s + 1) m = Inr (Some (current_of m1), m1)"
    using new_session_defined [OF True] by blast
  from rotate_session_Some [OF this, of E] assms True show ?thesis
    by (auto simp: session_on_initialize_def)
next
  case False
  with assms show ?thesis by (simp add: session_on_initialize_def)
qed

lemma genesis_validators:
  assumes "ids = ids'"
  shows "\<exists>s'. session_genesis_build E M ids ids' vs m s = Inr s' \<and> validators_and_keys s' = current_of m"
  using assms by (simp add: session_genesis_build_def genesis_is_current rotate_validators_eq Let_def)

end

subsection \<open>Disabled validators\<close>

definition disabled_inv :: "('v, 'k, 'sys) session_state \<Rightarrow> bool" where
  "disabled_inv s \<longleftrightarrow> sorted (disabled_validators s) \<and> distinct (disabled_validators s)
     \<and> (\<forall>i \<in> set (disabled_validators s). unat i < length (validators_storage s))"

lemma takeWhile_less_sorted:
  fixes xs :: "'a::linorder list"
  assumes "sorted xs"
  shows "set (takeWhile (\<lambda>y. y < x) xs) = {y \<in> set xs. y < x}
    \<and> set (dropWhile (\<lambda>y. y < x) xs) = {y \<in> set xs. x \<le> y}"
  using assms
proof (induction xs)
  case Nil
  then show ?case by simp
next
  case (Cons a xs)
  show ?case
  proof (cases "a < x")
    case True
    then have "\<not> x \<le> a" by simp
    with True Cons show ?thesis by (simp add: set_eq_iff) blast
  next
    case False
    then have "\<forall>y \<in> set (a # xs). \<not> y < x \<and> x \<le> y"
      using Cons.prems by (metis leD le_less_linear order.trans set_ConsD sorted_simps(2))
    with False show ?thesis by (simp add: set_eq_iff) blast
  qed
qed

lemma take_search_index: "take (search_index x xs) xs = takeWhile (\<lambda>y. y < x) xs"
  by (metis search_index_def takeWhile_eq_take)

lemma drop_search_index: "drop (search_index x xs) xs = dropWhile (\<lambda>y. y < x) xs"
  by (metis search_index_def dropWhile_eq_drop)

lemma search_found_iff:
  fixes xs :: "'a::linorder list"
  assumes "sorted xs"
  shows "search_found x xs \<longleftrightarrow> x \<in> set xs"
proof
  assume "search_found x xs"
  then show "x \<in> set xs" by (auto simp: search_found_def dest: nth_mem)
next
  assume "x \<in> set xs"
  with takeWhile_less_sorted [OF assms, of x] have x: "x \<in> set (dropWhile (\<lambda>y. y < x) xs)" by simp
  then obtain y ys where y: "dropWhile (\<lambda>y. y < x) xs = y # ys" by (cases "dropWhile (\<lambda>y. y < x) xs") auto
  have "sorted (y # ys)" using assms y by (metis sorted_wrt_dropWhile)
  then have "y \<le> x" using x y by auto
  moreover have "\<not> y < x" using y by (metis dropWhile_eq_Cons_conv)
  ultimately have "y = x" by simp
  moreover have "search_index x xs < length xs"
    using y arg_cong [OF takeWhile_dropWhile_id [of "\<lambda>y. y < x" xs], of length]
    by (simp add: search_index_def)
  moreover have "xs ! search_index x xs = y"
    using y drop_search_index [of x xs] calculation(2) by (metis Cons_nth_drop_Suc list.inject)
  ultimately show "search_found x xs" by (simp add: search_found_def)
qed

lemma sorted_insert_search:
  fixes xs :: "'a::linorder list"
  assumes "sorted xs" "distinct xs" "x \<notin> set xs"
  shows "sorted (take (search_index x xs) xs @ x # drop (search_index x xs) xs)
    \<and> distinct (take (search_index x xs) xs @ x # drop (search_index x xs) xs)
    \<and> set (take (search_index x xs) xs @ x # drop (search_index x xs) xs) = insert x (set xs)"
proof -
  have s: "sorted (takeWhile (\<lambda>y. y < x) xs)" "sorted (dropWhile (\<lambda>y. y < x) xs)"
    using assms(1) by (simp_all add: sorted_wrt_takeWhile sorted_wrt_dropWhile)
  have d: "distinct (takeWhile (\<lambda>y. y < x) xs)" "distinct (dropWhile (\<lambda>y. y < x) xs)"
    using assms(2) by simp_all
  show ?thesis unfolding take_search_index drop_search_index
    using s d assms(3) takeWhile_less_sorted [OF assms(1), of x]
    by (auto simp: sorted_append not_le)
qed

subsection \<open>Properties\<close>

text \<open>
  C39: rotating the validators never changes an account's provider references, whatever the old
  and the new validators are: \<open>rotate_validators\<close> stores the new validators before it reads the
  old ones back for the comparison, so no account is ever found to have joined or left.
\<close>

theorem rotate_validators_keeps_providers:
  "\<exists>s'. rotate_validators E new_validators s = Inr s' \<and> validators_and_keys s' = new_validators
     \<and> disabled_validators s' = [] \<and> system_state s' = system_state s"
  by (simp add: rotate_validators_eq)

text \<open>
  the vector of disabled validators stays sorted and without duplicates, with indices of
  validators only. \<open>disable_index\<close> answers true exactly when the index is one of a validator that
  was not disabled before; afterwards exactly that validator is disabled in addition, as
  \<open>is_disabled\<close> reports.
\<close>

lemma disable_index_correct:
  assumes inv: "disabled_inv s" and len: "length (validators_storage s) < 2 ^ 32"
    and run: "disable_index i s = (b, s')"
  shows "disabled_inv s'
    \<and> (b \<longleftrightarrow> unat i < length (validators_storage s) \<and> \<not> is_disabled i s)
    \<and> (\<forall>j. is_disabled j s' \<longleftrightarrow> is_disabled j s \<or> b \<and> j = i)"
proof -
  let ?d = "disabled_validators s"
  have srt: "sorted ?d" and dst: "distinct ?d" and idx: "\<forall>i \<in> set ?d. unat i < length (validators_storage s)"
    using inv by (simp_all add: disabled_inv_def)
  have bound: "i \<ge> word_of_nat (length (validators_storage s)) \<longleftrightarrow> length (validators_storage s) \<le> unat i"
    using len by (simp add: word_le_nat_alt unat_word_of_nat_small)
  have found: "search_found i ?d \<longleftrightarrow> i \<in> set ?d" by (rule search_found_iff [OF srt])
  show ?thesis
  proof (cases "unat i < length (validators_storage s) \<and> i \<notin> set ?d")
    case True
    then have "i \<notin> set ?d" by simp
    note ins = sorted_insert_search [OF srt dst this]
    have b: "b" and s': "disabled_validators s' = take (search_index i ?d) ?d @ i # drop (search_index i ?d) ?d"
      and v: "validators_storage s' = validators_storage s"
      using run True bound found by (auto simp: disable_index_def Let_def)
    have "sorted (disabled_validators s')" "distinct (disabled_validators s')"
      "set (disabled_validators s') = insert i (set ?d)" using ins unfolding s' by blast+
    then show ?thesis using True b v idx found
      by (auto simp: disabled_inv_def is_disabled_def search_found_iff srt)
  next
    case False
    then have "b = False" "s' = s" using run bound found by (auto simp: disable_index_def Let_def)
    then show ?thesis using False inv found by (auto simp: is_disabled_def)
  qed
qed

definition demo_session :: "(string, nat, unit) session_state" where
  "demo_session = \<lparr>validators_storage = [''a'', ''b'', ''c''],
     validators_and_keys = [(''a'', 1), (''b'', 2), (''c'', 3)], current_index = 4,
     disabled_validators = [0, 2], system_state = (), session_events = []\<rparr>"

lemma disable_index_correct_example:
  "disabled_inv (snd (disable_index 1 demo_session))
    \<and> (fst (disable_index 1 demo_session) \<longleftrightarrow> unat (1 :: u32) < length (validators_storage demo_session)
         \<and> \<not> is_disabled 1 demo_session)
    \<and> (\<forall>j. is_disabled j (snd (disable_index 1 demo_session))
         \<longleftrightarrow> is_disabled j demo_session \<or> fst (disable_index 1 demo_session) \<and> j = 1)"
  by (rule disable_index_correct) (simp_all add: demo_session_def disabled_inv_def)

end
