(* ===== verification/Committee_Session.thy ===== *)
theory Committee_Session
  imports Committee Session
begin

text \<open>
  The session manager backed by the committee pallet,
  \<open>toolkit/committee-selection/pallet/src/session_manager.rs\<close>, its variant for Substrate's own
  session pallet, \<open>pallet_session_support.rs\<close>, and the two pallets together over the blocks of a
  chain, in the order in which the runtime initializes them: the committee pallet first, the
  session pallet last, then the inherent of the committee pallet.
\<close>

text \<open>What the manager reads and writes: the committee storage, the epoch and \<open>pallet_session::CurrentIndex\<close>.\<close>

record 'member manager_state =
  mgr_committee :: "'member committee_state"
  mgr_epoch :: u64
  mgr_pallet_session_index :: u32

definition members_and_keys :: "('member \<Rightarrow> 'v) \<Rightarrow> ('member \<Rightarrow> 'k) \<Rightarrow> 'member list \<Rightarrow> ('v \<times> 'k) list" where
  "members_and_keys mid mkeys ms = map (\<lambda>m. (mid m, mkeys m)) ms"

definition vm_should_end_session ::
  "('member \<Rightarrow> 'v) \<Rightarrow> ('origin, 'input, 'member, 'hash) committee_config \<Rightarrow> 'member manager_state \<Rightarrow> bool" where
  "vm_should_end_session mid cfg m \<longleftrightarrow>
     mgr_epoch m > ci_epoch (current_committee (mgr_committee m))
   \<and> next_committee mid cfg (mgr_committee m) \<noteq> None"

definition vm_new_session_genesis ::
  "('member \<Rightarrow> 'v) \<Rightarrow> ('member \<Rightarrow> 'k) \<Rightarrow> u32 \<Rightarrow> 'member manager_state \<Rightarrow> ('v \<times> 'k) list option" where
  "vm_new_session_genesis mid mkeys new_index m =
     Some (members_and_keys mid mkeys (committee (current_committee (mgr_committee m))))"

definition vm_new_session ::
  "('member \<Rightarrow> 'v) \<Rightarrow> ('member \<Rightarrow> 'k) \<Rightarrow> u32 \<Rightarrow> 'member manager_state
     \<Rightarrow> panic + ('v \<times> 'k) list option \<times> 'member manager_state" where
  "vm_new_session mid mkeys new_index m =
     (let m = m\<lparr>mgr_pallet_session_index := new_index\<rparr> in
      (case rotate_committee_to_next_epoch (mgr_committee m) of
         (None, _) \<Rightarrow> Inl ExpectFailed
       | (Some validators, c) \<Rightarrow>
           Inr (Some (members_and_keys mid mkeys validators), m\<lparr>mgr_committee := c\<rparr>)))"

definition validator_management_session_manager ::
  "('member \<Rightarrow> 'v) \<Rightarrow> ('member \<Rightarrow> 'k) \<Rightarrow> ('origin, 'input, 'member, 'hash) committee_config
     \<Rightarrow> ('v, 'k, 'member manager_state) session_manager" where
  "validator_management_session_manager mid mkeys cfg =
     \<lparr>should_end_session = vm_should_end_session mid cfg,
      manager_new_session = vm_new_session mid mkeys,
      manager_new_session_genesis = vm_new_session_genesis mid mkeys\<rparr>"

definition manager_current :: "('member \<Rightarrow> 'v) \<Rightarrow> ('member \<Rightarrow> 'k) \<Rightarrow> 'member manager_state \<Rightarrow> ('v \<times> 'k) list" where
  "manager_current mid mkeys m = members_and_keys mid mkeys (committee (current_committee (mgr_committee m)))"

lemma vm_new_session_Some:
  assumes "next_committee_info (mgr_committee m) = Some info"
  shows "vm_new_session mid mkeys i m = Inr (Some (members_and_keys mid mkeys (committee info)),
     m\<lparr>mgr_pallet_session_index := i,
       mgr_committee := (mgr_committee m)\<lparr>next_committee_info := None, current_committee := info\<rparr>\<rparr>)"
  using assms by (simp add: vm_new_session_def rotate_committee_to_next_epoch_def)

lemma vm_should_end_session_iff:
  "vm_should_end_session mid cfg m \<longleftrightarrow>
     mgr_epoch m > ci_epoch (current_committee (mgr_committee m))
   \<and> (\<exists>info. next_committee_info (mgr_committee m) = Some info)"
  by (auto simp: vm_should_end_session_def next_committee_def split: option.splits)

interpretation vm: session_manager_contract
  "validator_management_session_manager mid mkeys cfg" "manager_current mid mkeys"
  for mid :: "'member \<Rightarrow> 'v" and mkeys :: "'member \<Rightarrow> 'k"
    and cfg :: "('origin, 'input, 'member, 'hash) committee_config"
proof unfold_locales
  fix m :: "'member manager_state" and i
  assume "should_end_session (validator_management_session_manager mid mkeys cfg) m"
  then obtain info where "next_committee_info (mgr_committee m) = Some info"
    by (auto simp: validator_management_session_manager_def vm_should_end_session_iff)
  from vm_new_session_Some [OF this, of mid mkeys i]
  show "\<exists>m'. manager_new_session (validator_management_session_manager mid mkeys cfg) i m
      = Inr (Some (manager_current mid mkeys m'), m')"
    by (auto simp: validator_management_session_manager_def manager_current_def)
next
  fix i and m :: "'member manager_state"
  show "manager_new_session_genesis (validator_management_session_manager mid mkeys cfg) i m
      = Some (manager_current mid mkeys m)"
    by (simp add: validator_management_session_manager_def vm_new_session_genesis_def manager_current_def)
qed

subsection \<open>The manager for Substrate's session pallet\<close>

definition support_new_session_genesis ::
  "('member \<Rightarrow> 'v) \<Rightarrow> u32 \<Rightarrow> 'member manager_state \<Rightarrow> 'v list option" where
  "support_new_session_genesis mid new_index m =
     Some (map mid (committee (current_committee (mgr_committee m))))"

definition support_new_session ::
  "('member \<Rightarrow> 'v) \<Rightarrow> u32 \<Rightarrow> 'member manager_state \<Rightarrow> panic + 'v list option \<times> 'member manager_state" where
  "support_new_session mid new_index m =
     (let m = m\<lparr>mgr_pallet_session_index := new_index\<rparr> in
      (case rotate_committee_to_next_epoch (mgr_committee m) of
         (None, _) \<Rightarrow> Inl ExpectFailed
       | (Some validators, c) \<Rightarrow> Inr (Some (map mid validators), m\<lparr>mgr_committee := c\<rparr>)))"

definition support_should_end_session ::
  "('member \<Rightarrow> 'v) \<Rightarrow> ('origin, 'input, 'member, 'hash) committee_config \<Rightarrow> 'member manager_state \<Rightarrow> bool" where
  "support_should_end_session mid cfg m =
     (let current_epoch_number = mgr_epoch m;
          current_committee_epoch = ci_epoch (current_committee (mgr_committee m));
          next_committee_is_defined = next_committee mid cfg (mgr_committee m) \<noteq> None
      in if current_epoch_number > current_committee_epoch
         then (if next_committee_is_defined then True else False)
         else False)"

subsection \<open>Blocks\<close>

record ('v, 'k, 'member, 'sys) chain_state =
  chain_block :: nat
  chain_committee :: "'member committee_state"
  chain_session :: "('v, 'k, 'sys) session_state"
  chain_pallet_session_index :: u32

record ('v, 'k, 'acc, 'origin, 'input, 'member, 'hash, 'sys) runtime =
  rt_member_id :: "'member \<Rightarrow> 'v"
  rt_member_keys :: "'member \<Rightarrow> 'k"
  rt_committee :: "('origin, 'input, 'member, 'hash) committee_config"
  rt_session :: "('v, 'acc, 'sys) session_env"
  rt_none_origin :: 'origin

datatype block_error = BlockPanic panic | InherentFailed committee_error

text \<open>The hooks of the two pallets at the start of a block of epoch \<open>epoch\<close>.\<close>

definition initialize_block ::
  "('v, 'k, 'acc::linorder, 'origin, 'input, 'member, 'hash, 'sys) runtime \<Rightarrow> u64
     \<Rightarrow> ('v, 'k, 'member, 'sys) chain_state \<Rightarrow> panic + ('v, 'k, 'member, 'sys) chain_state" where
  "initialize_block R epoch st =
     (let n = chain_block st + 1;
          c = committee_on_initialize n epoch (chain_committee st)
      in (case session_on_initialize (rt_session R)
              (validator_management_session_manager (rt_member_id R) (rt_member_keys R) (rt_committee R))
              \<lparr>mgr_committee = c, mgr_epoch = epoch,
               mgr_pallet_session_index = chain_pallet_session_index st\<rparr> (chain_session st) of
            Inl p \<Rightarrow> Inl p
          | Inr (m, s) \<Rightarrow> Inr \<lparr>chain_block = n, chain_committee = mgr_committee m, chain_session = s,
              chain_pallet_session_index = mgr_pallet_session_index m\<rparr>))"

text \<open>A block with its inherent; a failing inherent makes the block invalid.\<close>

definition author_block ::
  "('v, 'k, 'acc::linorder, 'origin, 'input, 'member, 'hash, 'sys) runtime \<Rightarrow> u64 \<Rightarrow> 'input inherent_item
     \<Rightarrow> ('v, 'k, 'member, 'sys) chain_state \<Rightarrow> block_error + ('v, 'k, 'member, 'sys) chain_state" where
  "author_block R epoch data st = (case initialize_block R epoch st of
       Inl p \<Rightarrow> Inl (BlockPanic p)
     | Inr st \<Rightarrow>
         (case committee_create_inherent (rt_committee R) (chain_committee st) data of
            Inl p \<Rightarrow> Inl (BlockPanic p)
          | Inr None \<Rightarrow> Inr st
          | Inr (Some call) \<Rightarrow>
              (case committee_dispatch (rt_committee R) (chain_committee st) (rt_none_origin R) call of
                 Inl e \<Rightarrow> Inl (InherentFailed e)
               | Inr c \<Rightarrow> Inr (st\<lparr>chain_committee := c\<rparr>))))"

fun author_blocks ::
  "('v, 'k, 'acc::linorder, 'origin, 'input, 'member, 'hash, 'sys) runtime \<Rightarrow> u64
     \<Rightarrow> 'input inherent_item list \<Rightarrow> ('v, 'k, 'member, 'sys) chain_state
     \<Rightarrow> block_error + ('v, 'k, 'member, 'sys) chain_state" where
  "author_blocks R epoch [] st = Inr st"
| "author_blocks R epoch (d # ds) st =
     (case author_block R epoch d st of Inl e \<Rightarrow> Inl e | Inr st' \<Rightarrow> author_blocks R epoch ds st')"

text \<open>The chain that starts from a genesis committee.\<close>

definition genesis_session :: "'sys \<Rightarrow> ('v, 'k, 'sys) session_state" where
  "genesis_session sys = \<lparr>validators_storage = [], validators_and_keys = [], current_index = 0,
     disabled_validators = [], system_state = sys, session_events = []\<rparr>"

definition chain_genesis ::
  "('v, 'k, 'acc::linorder, 'origin, 'input, 'member, 'hash, 'sys) runtime \<Rightarrow> 'member list
     \<Rightarrow> main_chain_scripts \<Rightarrow> 'sys \<Rightarrow> panic + ('v, 'k, 'member, 'sys) chain_state" where
  "chain_genesis R members scripts sys =
     (let c = committee_genesis_build (rt_committee R) members scripts in
      (case session_genesis_build (rt_session R)
          (validator_management_session_manager (rt_member_id R) (rt_member_keys R) (rt_committee R))
          ([] :: nat list) [] [] \<lparr>mgr_committee = c, mgr_epoch = 0, mgr_pallet_session_index = 0\<rparr>
          (genesis_session sys) of
         Inl p \<Rightarrow> Inl p
       | Inr s \<Rightarrow> Inr \<lparr>chain_block = 0, chain_committee = c, chain_session = s,
           chain_pallet_session_index = 0\<rparr>))"

inductive chain_reachable ::
  "('v, 'k, 'acc::linorder, 'origin, 'input, 'member, 'hash, 'sys) runtime
     \<Rightarrow> ('v, 'k, 'member, 'sys) chain_state \<Rightarrow> bool" for R where
  genesis: "chain_genesis R members scripts sys = Inr st \<Longrightarrow> chain_reachable R st"
| block: "chain_reachable R st \<Longrightarrow> author_block R epoch data st = Inr st' \<Longrightarrow> chain_reachable R st'"
| scripts: "chain_reachable R st
    \<Longrightarrow> committee_set_main_chain_scripts (rt_committee R) (chain_committee st) origin a d p = Inr c
    \<Longrightarrow> chain_reachable R (st\<lparr>chain_committee := c\<rparr>)"
| disabling: "chain_reachable R st \<Longrightarrow> disable_index i (chain_session st) = (b, s)
    \<Longrightarrow> chain_reachable R (st\<lparr>chain_session := s\<rparr>)"

subsection \<open>What a block does\<close>

definition rotates :: "u64 \<Rightarrow> 'member committee_state \<Rightarrow> bool" where
  "rotates epoch c \<longleftrightarrow> epoch > ci_epoch (current_committee c) \<and> next_committee_info c \<noteq> None"

lemma initialize_block_rotating:
  assumes "c = committee_on_initialize (chain_block st + 1) epoch (chain_committee st)"
    and "epoch > ci_epoch (current_committee c)" and "next_committee_info c = Some info"
  shows "\<exists>s. initialize_block R epoch st = Inr \<lparr>chain_block = chain_block st + 1,
      chain_committee = c\<lparr>next_committee_info := None, current_committee := info\<rparr>, chain_session = s,
      chain_pallet_session_index = current_index (chain_session st) + 1\<rparr>
    \<and> validators_and_keys s = members_and_keys (rt_member_id R) (rt_member_keys R) (committee info)
    \<and> current_index s = current_index (chain_session st) + 1"
proof -
  let ?M = "validator_management_session_manager (rt_member_id R) (rt_member_keys R) (rt_committee R)"
  let ?m = "\<lparr>mgr_committee = c, mgr_epoch = epoch, mgr_pallet_session_index = chain_pallet_session_index st\<rparr>"
  have new: "manager_new_session ?M (current_index (chain_session st) + 1) ?m =
      Inr (Some (members_and_keys (rt_member_id R) (rt_member_keys R) (committee info)),
        ?m\<lparr>mgr_pallet_session_index := current_index (chain_session st) + 1,
           mgr_committee := c\<lparr>next_committee_info := None, current_committee := info\<rparr>\<rparr>)"
    using assms(3) by (simp add: validator_management_session_manager_def vm_new_session_Some)
  have "should_end_session ?M ?m"
    using assms(2,3) by (simp add: validator_management_session_manager_def vm_should_end_session_iff)
  with rotate_session_Some [OF new, of "rt_session R"] show ?thesis
    by (auto simp: initialize_block_def session_on_initialize_def Let_def assms(1))
qed

lemma initialize_block_keeping:
  assumes "c = committee_on_initialize (chain_block st + 1) epoch (chain_committee st)"
    and "\<not> rotates epoch c"
  shows "initialize_block R epoch st = Inr \<lparr>chain_block = chain_block st + 1, chain_committee = c,
      chain_session = chain_session st, chain_pallet_session_index = chain_pallet_session_index st\<rparr>"
  using assms(2)
  by (auto simp: initialize_block_def session_on_initialize_def Let_def assms(1) rotates_def
      validator_management_session_manager_def vm_should_end_session_iff)

lemma committee_on_initialize_simps [simp]:
  "next_committee_info (committee_on_initialize n e c) = next_committee_info c"
  "committee (current_committee (committee_on_initialize n e c)) = committee (current_committee c)"
  "ci_epoch (current_committee (committee_on_initialize n e c)) =
     (if n = 1 then e else ci_epoch (current_committee c))"
  by (simp_all add: committee_on_initialize_def)

text \<open>
  The chain invariant: the pallets' own invariants, the session's validators are the current
  committee, the two session indices agree, and after the first block there is a next committee.
\<close>

definition chain_inv ::
  "('v, 'k, 'acc::linorder, 'origin, 'input, 'member, 'hash, 'sys) runtime
     \<Rightarrow> ('v, 'k, 'member, 'sys) chain_state \<Rightarrow> bool" where
  "chain_inv R st \<longleftrightarrow> committee_inv (rt_committee R) (chain_committee st)
   \<and> validators_and_keys (chain_session st)
       = members_and_keys (rt_member_id R) (rt_member_keys R) (committee (current_committee (chain_committee st)))
   \<and> chain_pallet_session_index st = current_index (chain_session st)
   \<and> (next_committee_info (chain_committee st) = None \<longleftrightarrow> chain_block st = 0)"

lemma initialize_block_inv:
  assumes inv: "chain_inv R st" and run: "initialize_block R epoch st = Inr st'"
  shows "committee_inv (rt_committee R) (chain_committee st')
   \<and> validators_and_keys (chain_session st')
       = members_and_keys (rt_member_id R) (rt_member_keys R) (committee (current_committee (chain_committee st')))
   \<and> chain_pallet_session_index st' = current_index (chain_session st')
   \<and> chain_block st' = chain_block st + 1"
proof -
  let ?c = "committee_on_initialize (chain_block st + 1) epoch (chain_committee st)"
  have c: "committee_inv (rt_committee R) ?c"
    using inv by (intro committee_inv_on_initialize) (auto simp: chain_inv_def)
  show ?thesis
  proof (cases "rotates epoch ?c")
    case True
    then obtain info where info: "epoch > ci_epoch (current_committee ?c)" "next_committee_info ?c = Some info"
      unfolding rotates_def by blast
    from initialize_block_rotating [OF refl this, of R] run obtain s where
      "st' = \<lparr>chain_block = chain_block st + 1,
        chain_committee = ?c\<lparr>next_committee_info := None, current_committee := info\<rparr>, chain_session = s,
        chain_pallet_session_index = current_index (chain_session st) + 1\<rparr>"
      "validators_and_keys s = members_and_keys (rt_member_id R) (rt_member_keys R) (committee info)"
      "current_index s = current_index (chain_session st) + 1" by auto
    moreover have "committee_inv (rt_committee R) (?c\<lparr>next_committee_info := None, current_committee := info\<rparr>)"
      using committee_inv_rotate [OF c] info(2) by (simp add: rotate_committee_to_next_epoch_def)
    ultimately show ?thesis by simp
  next
    case False
    from initialize_block_keeping [OF refl this, of R] run c inv show ?thesis by (auto simp: chain_inv_def)
  qed
qed

lemma create_inherent_bounded:
  assumes "selection_bounded cfg" and "committee_inv cfg c"
    and "committee_create_inherent cfg c data = Inr (Some (SetCommittee vs e h))"
  shows "length vs \<le> unat (max_validators cfg)"
  using assms by (elim create_inherent_SetCommittee)
    (auto simp: selection_bounded_def committee_inv_def split: option.splits)

lemma author_block_inv:
  assumes inv: "chain_inv R st" and bounded: "selection_bounded (rt_committee R)"
    and run: "author_block R epoch data st = Inr st'"
  shows "chain_inv R st'"
proof -
  obtain st1 where st1: "initialize_block R epoch st = Inr st1"
    using run by (auto simp: author_block_def split: sum.splits)
  note i = initialize_block_inv [OF inv this]
  let ?cfg = "rt_committee R" and ?c = "chain_committee st1"
  obtain r where r: "committee_create_inherent ?cfg ?c data = Inr r"
    using run st1 by (auto simp: author_block_def split: sum.splits)
  show ?thesis
  proof (cases r)
    case None
    then have "next_committee_info ?c \<noteq> None"
      using r by (auto simp: committee_create_inherent_def Let_def split: if_splits sum.splits option.splits)
    then show ?thesis using run st1 r None i by (simp add: author_block_def chain_inv_def)
  next
    case (Some call)
    with r obtain vs e h where call: "call = SetCommittee vs e h"
      by (auto elim: create_inherent_SetCommittee)
    then obtain c where c: "committee_set ?cfg ?c (rt_none_origin R) vs e h = Inr c"
      and st': "st' = st1\<lparr>chain_committee := c\<rparr>"
      using run st1 r Some by (auto simp: author_block_def split: sum.splits)
    have "committee_inv ?cfg c"
      using committee_inv_set [OF _ c] create_inherent_bounded [OF bounded, of ?c data vs e h] i r Some call
      by simp
    moreover have "current_committee c = current_committee ?c" "next_committee_info c \<noteq> None"
      using c by (auto simp: committee_set_def Let_def split: if_splits)
    ultimately show ?thesis using i by (simp add: chain_inv_def st')
  qed
qed

lemma chain_genesis_inv:
  assumes "chain_genesis R members scripts sys = Inr st"
  shows "chain_inv R st"
  using assms by (auto simp: chain_genesis_def session_genesis_build_def rotate_validators_eq chain_inv_def
      validator_management_session_manager_def vm_new_session_genesis_def genesis_session_def Let_def
      committee_genesis_build_def committee_inv_def)

lemma disable_index_keeps:
  "disable_index i s = (b, s') \<Longrightarrow> validators_and_keys s' = validators_and_keys s \<and> current_index s' = current_index s"
  by (auto simp: disable_index_def Let_def split: if_splits)

lemma chain_reachable_inv:
  assumes "chain_reachable R st" and "selection_bounded (rt_committee R)"
  shows "chain_inv R st"
  using assms(1)
proof (induction rule: chain_reachable.induct)
  case (genesis members scripts sys st)
  then show ?case by (rule chain_genesis_inv)
next
  case (block st epoch data st')
  then show ?case using author_block_inv [OF _ assms(2)] by blast
next
  case (scripts st origin a d p c)
  then have "current_committee c = current_committee (chain_committee st)"
    "next_committee_info c = next_committee_info (chain_committee st)"
    by (auto simp: committee_set_main_chain_scripts_def split: if_splits)
  with scripts show ?case by (auto simp: chain_inv_def intro: committee_inv_scripts)
next
  case (disabling st i b s)
  then show ?case using disable_index_keeps [of i "chain_session st" b s] by (simp add: chain_inv_def)
qed

lemma initialize_block_Inr: "\<exists>st'. initialize_block R epoch st = Inr st'"
  using initialize_block_keeping [OF refl, where R = R and st = st and epoch = epoch]
    initialize_block_rotating [OF refl, where R = R and st = st and epoch = epoch]
  unfolding rotates_def by blast

text \<open>A block on a chain with a next committee: it succeeds and moves at most one epoch on.\<close>

lemma author_block_step:
  assumes none: "origin_is_none (rt_committee R) (rt_none_origin R)"
    and block: "chain_block st \<noteq> 0" and info: "next_committee_info (chain_committee st) = Some info"
    and epoch_info: "ci_epoch info = ci_epoch (current_committee (chain_committee st)) + 1"
    and data: "data = Inr (Some inputs)"
  shows "\<exists>st'. author_block R epoch data st = Inr st' \<and> chain_block st' \<noteq> 0
     \<and> (\<exists>info'. next_committee_info (chain_committee st') = Some info'
          \<and> ci_epoch info' = ci_epoch (current_committee (chain_committee st')) + 1)
     \<and> ci_epoch (current_committee (chain_committee st')) =
         (if epoch > ci_epoch (current_committee (chain_committee st))
          then ci_epoch (current_committee (chain_committee st)) + 1
          else ci_epoch (current_committee (chain_committee st)))"
proof -
  let ?c = "chain_committee st"
  have c: "committee_on_initialize (chain_block st + 1) epoch ?c = ?c"
    using block by (simp add: committee_on_initialize_def)
  show ?thesis
  proof (cases "epoch > ci_epoch (current_committee ?c)")
    case True
    from initialize_block_rotating [OF c [symmetric] True info, of R] obtain s where
      init: "initialize_block R epoch st = Inr \<lparr>chain_block = chain_block st + 1,
        chain_committee = ?c\<lparr>next_committee_info := None, current_committee := info\<rparr>, chain_session = s,
        chain_pallet_session_index = current_index (chain_session st) + 1\<rparr>" by blast
    show ?thesis
      using True none epoch_info
      by (auto simp: author_block_def init committee_create_inherent_def data
          inherent_data_to_authority_selection_inputs_def committee_set_def Let_def split: option.splits)
  next
    case False
    then have "\<not> rotates epoch ?c" by (simp add: rotates_def)
    from initialize_block_keeping [OF c [symmetric] this, of R] show ?thesis
      using False info epoch_info by (simp add: author_block_def committee_create_inherent_def)
  qed
qed

subsection \<open>Properties\<close>


text \<open>A runtime for the witnesses: members are names, and selection rotates a fixed list.\<close>

definition demo_runtime :: "(string, nat, nat, bool, nat, string, nat, unit) runtime" where
  "demo_runtime = \<lparr>rt_member_id = (\<lambda>m. m), rt_member_keys = length,
     rt_committee = \<lparr>max_validators = 4,
       cfg_select_authorities = (\<lambda>i e. if i = 0 then None else Some [''b'', ''c'']),
       inputs_hash = (\<lambda>i. i), origin_is_none = (\<lambda>b. b), origin_is_governance = Not\<rparr>,
     rt_session = \<lparr>into_account = length, inc_providers = (\<lambda>_ s. s), dec_providers = (\<lambda>_ s. Some s),
       polkadot_js_compat = True\<rparr>,
     rt_none_origin = True\<rparr>"

definition demo_scripts :: main_chain_scripts where
  "demo_scripts = \<lparr>committee_candidate_address = [1], d_parameter_policy_id = [2],
     permissioned_candidates_policy_id = [3]\<rparr>"

lemma demo_bounded: "selection_bounded (rt_committee demo_runtime)"
  by (auto simp: selection_bounded_def demo_runtime_def split: if_splits)

definition demo_chain0 :: "(string, nat, string, unit) chain_state" where
  "demo_chain0 = \<lparr>chain_block = 0,
     chain_committee = \<lparr>current_committee = \<lparr>ci_epoch = 0, committee = [''a'']\<rparr>, next_committee_info = None,
       main_chain_scripts_configuration = demo_scripts\<rparr>,
     chain_session = \<lparr>validators_storage = [''a''], validators_and_keys = [(''a'', 1)], current_index = 0,
       disabled_validators = [], system_state = (), session_events = [OnGenesisSession [(''a'', 1)], StartSession 0]\<rparr>,
     chain_pallet_session_index = 0\<rparr>"

definition demo_chain1 :: "(string, nat, string, unit) chain_state" where
  "demo_chain1 = demo_chain0\<lparr>chain_block := 1,
     chain_committee := \<lparr>current_committee = \<lparr>ci_epoch = 7, committee = [''a'']\<rparr>,
       next_committee_info = Some \<lparr>ci_epoch = 8, committee = [''b'', ''c'']\<rparr>,
       main_chain_scripts_configuration = demo_scripts\<rparr>\<rparr>"

lemmas demo_block_simps = demo_chain0_def demo_chain1_def demo_runtime_def chain_genesis_def
  committee_genesis_build_def session_genesis_build_def validator_management_session_manager_def
  vm_new_session_genesis_def members_and_keys_def rotate_validators_eq genesis_session_def emit_def
  author_block_def initialize_block_def session_on_initialize_def committee_on_initialize_def
  vm_should_end_session_iff committee_create_inherent_def committee_set_def
  inherent_data_to_authority_selection_inputs_def Let_def

lemma demo_genesis: "chain_genesis demo_runtime [''a''] demo_scripts () = Inr demo_chain0"
  by (simp add: demo_block_simps)

lemma demo_block: "author_block demo_runtime 7 (Inr (Some 1)) demo_chain0 = Inr demo_chain1"
  by (simp add: demo_block_simps)



text \<open>In the second block the committee rotates and no new one can be selected.\<close>

definition demo_chain2_init :: "(string, nat, string, unit) chain_state" where
  "demo_chain2_init = projr (initialize_block demo_runtime 9 demo_chain1)"


text \<open>
  C23: after a gap of any number of epochs the committee catches up by one epoch per block: after
  \<open>n\<close> blocks of epoch \<open>epoch\<close> the current committee's epoch is the smaller of \<open>epoch\<close> and the
  old epoch plus \<open>n\<close>. No block fails.
\<close>

theorem committee_catches_up:
  assumes none: "origin_is_none (rt_committee R) (rt_none_origin R)"
    and "chain_block st \<noteq> 0" and "next_committee_info (chain_committee st) = Some info"
    and "ci_epoch info = ci_epoch (current_committee (chain_committee st)) + 1"
    and "ci_epoch (current_committee (chain_committee st)) \<le> epoch"
  shows "\<exists>st'. author_blocks R epoch (map (\<lambda>i. Inr (Some i)) inputs) st = Inr st'
     \<and> unat (ci_epoch (current_committee (chain_committee st')))
       = min (unat epoch) (unat (ci_epoch (current_committee (chain_committee st))) + length inputs)"
  using assms(2-)
proof (induction inputs arbitrary: st info)
  case Nil
  then show ?case by (simp add: word_le_nat_alt)
next
  case (Cons i inputs)
  let ?e = "ci_epoch (current_committee (chain_committee st))"
  obtain st1 info1 where st1: "author_block R epoch (Inr (Some i)) st = Inr st1" "chain_block st1 \<noteq> 0"
    "next_committee_info (chain_committee st1) = Some info1"
    "ci_epoch info1 = ci_epoch (current_committee (chain_committee st1)) + 1"
    "ci_epoch (current_committee (chain_committee st1)) = (if epoch > ?e then ?e + 1 else ?e)"
    using author_block_step [OF none Cons.prems(1-3) refl, where epoch = epoch and inputs = i] by blast
  have e1: "unat (ci_epoch (current_committee (chain_committee st1))) = min (unat epoch) (unat ?e + 1)"
  proof (cases "epoch > ?e")
    case True
    then have "unat ?e + 1 \<le> unat epoch" by (simp add: word_less_nat_alt)
    moreover have "unat (?e + 1) = unat ?e + 1"
      using calculation unat_bound [of epoch] by (subst unat_add_nowrap) simp_all
    ultimately show ?thesis using True st1(5) by simp
  next
    case False
    then show ?thesis using Cons.prems(4) st1(5) by simp
  qed
  then have "ci_epoch (current_committee (chain_committee st1)) \<le> epoch" by (simp add: word_le_nat_alt)
  from Cons.IH [OF st1(2-4) this] show ?case using st1(1) e1 by auto
qed

theorem committee_catches_up_witness:
  "\<exists>st'. author_blocks demo_runtime 100 (map (\<lambda>i. Inr (Some i)) [1, 0, 1]) demo_chain1 = Inr st'
     \<and> unat (ci_epoch (current_committee (chain_committee st')))
       = min (unat (100 :: u64)) (unat (ci_epoch (current_committee (chain_committee demo_chain1)))
           + length [1, 0, 1 :: nat])"
  by (rule committee_catches_up [where info = "\<lparr>ci_epoch = 8, committee = [''b'', ''c'']\<rparr>"]) (simp_all add: demo_runtime_def demo_chain1_def)

end
