(* ===== verification/Block_Production_Log.thy ===== *)
theory Block_Production_Log
  imports Prelude
begin

text \<open>
  The block production log pallet, \<open>toolkit/block-production-log/pallet/src/lib.rs\<close>, and its
  inherent data provider, \<open>toolkit/block-production-log/primitives/src/lib.rs\<close>.

  Block producers are of any type \<open>'p\<close>; block numbers are \<open>u32\<close> and slots \<open>u64\<close>. The locale
  \<open>block_log\<close> is the contract that the block participation pallet has with its source of block
  production data; the pallet is an instance of it.
\<close>

subsection \<open>Partition point\<close>

text \<open>
  \<open>slice::partition_point\<close> is a binary search. On a slice that is partitioned by the predicate its
  result is the length of the prefix on which the predicate holds; on another slice it is
  unspecified.
\<close>

function partition_search :: "('a \<Rightarrow> bool) \<Rightarrow> 'a list \<Rightarrow> nat \<Rightarrow> nat \<Rightarrow> nat" where
  "partition_search P xs left right =
     (if left < right then
        (let mid = (left + right) div 2 in
         if P (xs ! mid) then partition_search P xs (mid + 1) right
         else partition_search P xs left mid)
      else left)"
  by pat_completeness auto
termination by (relation "measure (\<lambda>(P, xs, left, right). right - left)") auto

declare partition_search.simps [simp del]

definition partition_point :: "('a \<Rightarrow> bool) \<Rightarrow> 'a list \<Rightarrow> nat" where
  "partition_point P xs = partition_search P xs 0 (length xs)"

definition partitioned :: "('a \<Rightarrow> bool) \<Rightarrow> 'a list \<Rightarrow> bool" where
  "partitioned P xs \<longleftrightarrow> (\<forall>i < length xs. P (xs ! i) \<longleftrightarrow> i < length (takeWhile P xs))"

lemma partition_search_eq:
  assumes "partitioned P xs" and "left \<le> length (takeWhile P xs)" and "length (takeWhile P xs) \<le> right"
    and "right \<le> length xs"
  shows "partition_search P xs left right = length (takeWhile P xs)"
  using assms
proof (induction P xs left right rule: partition_search.induct)
  case (1 P xs left right)
  show ?case
  proof (cases "left < right")
    case less: True
    define mid where "mid = (left + right) div 2"
    have mid: "left \<le> mid" "mid < right" using less by (auto simp: mid_def)
    have P: "P (xs ! mid) \<longleftrightarrow> mid < length (takeWhile P xs)"
      using 1(3,6) mid by (simp add: partitioned_def)
    show ?thesis
    proof (cases "P (xs ! mid)")
      case True
      have "partition_search P xs (mid + 1) right = length (takeWhile P xs)"
        using 1(1) [OF less mid_def True 1(3)] P True 1(5,6) by simp
      then show ?thesis using less True by (subst partition_search.simps) (simp add: mid_def)
    next
      case False
      have "partition_search P xs left mid = length (takeWhile P xs)"
        using 1(2) [OF less mid_def False 1(3)] P False 1(4,6) mid by simp
      then show ?thesis using less False by (subst partition_search.simps) (simp add: mid_def)
    qed
  next
    case False
    then show ?thesis using 1(4,5) by (subst partition_search.simps) simp
  qed
qed

subsection \<open>The pallet\<close>

record 'p production_log =
  log_entries :: "(u64 \<times> 'p) list"
  current_producer :: "'p option"
  latest_block :: "u32 option"

datatype log_inherent_error = LogInherentRequired | LogInvalidInherentData

datatype log_error = LogBadOrigin | BlockNumberNotIncreased

datatype 'p log_call = Append 'p

definition log_decode_inherent_data :: "'p inherent_item \<Rightarrow> log_inherent_error + 'p option" where
  "log_decode_inherent_data data = (case data of Inl _ \<Rightarrow> Inl LogInvalidInherentData | Inr x \<Rightarrow> Inr x)"

definition log_create_inherent :: "'p inherent_item \<Rightarrow> panic + 'p log_call option" where
  "log_create_inherent data = (case log_decode_inherent_data data of
       Inl _ \<Rightarrow> Inl ExpectFailed
     | Inr x \<Rightarrow> Inr (map_option Append x))"

definition log_is_inherent :: "'p log_call \<Rightarrow> bool" where
  "log_is_inherent call = (case call of Append _ \<Rightarrow> True)"

definition log_is_inherent_required ::
  "'p production_log \<Rightarrow> 'p inherent_item \<Rightarrow> log_inherent_error + log_inherent_error option" where
  "log_is_inherent_required s data = (case log_decode_inherent_data data of
       Inl e \<Rightarrow> Inl e
     | Inr x \<Rightarrow> (let has_data = x \<noteq> None in
         if has_data \<or> latest_block s \<noteq> None then Inr (Some LogInherentRequired) else Inr None))"

definition log_append ::
  "bool \<Rightarrow> u32 \<Rightarrow> 'p \<Rightarrow> 'p production_log \<Rightarrow> log_error + 'p production_log" where
  "log_append origin_is_none current_block block_producer_id s =
     (if \<not> origin_is_none then Inl LogBadOrigin
      else (case (case latest_block s of
            Some b \<Rightarrow> if b \<ge> current_block then Some BlockNumberNotIncreased else None
          | None \<Rightarrow> None) of
          Some e \<Rightarrow> Inl e
        | None \<Rightarrow> Inr (s\<lparr>latest_block := Some current_block, current_producer := Some block_producer_id\<rparr>)))"

definition log_on_finalize :: "u64 \<Rightarrow> 'p production_log \<Rightarrow> 'p production_log" where
  "log_on_finalize current_slot s = (case current_producer s of
       Some block_producer_id \<Rightarrow>
         s\<lparr>current_producer := None, log_entries := log_entries s @ [(current_slot, block_producer_id)]\<rparr>
     | None \<Rightarrow> s)"

definition take_prefix :: "u64 \<Rightarrow> 'p production_log \<Rightarrow> (u64 \<times> 'p) list \<times> 'p production_log" where
  "take_prefix slot s =
     (let pos = partition_point (\<lambda>(s, _). s \<le> slot) (log_entries s) in
      (take pos (log_entries s), s\<lparr>log_entries := drop pos (log_entries s)\<rparr>))"

definition peek_prefix :: "u64 \<Rightarrow> 'p production_log \<Rightarrow> (u64 \<times> 'p) list" where
  "peek_prefix slot s = takeWhile (\<lambda>(s, _). s \<le> slot) (log_entries s)"

definition drop_prefix :: "u64 \<Rightarrow> 'p production_log \<Rightarrow> 'p production_log" where
  "drop_prefix slot s =
     (let position = partition_point (\<lambda>(s, _). s \<le> slot) (log_entries s) in
      s\<lparr>log_entries := drop position (log_entries s)\<rparr>)"

definition empty_log :: "'p production_log" where
  "empty_log = \<lparr>log_entries = [], current_producer = None, latest_block = None\<rparr>"

subsection \<open>The inherent data provider\<close>

text \<open>
  \<open>has_api\<close> and \<open>get_author\<close> are the runtime API at the parent block; \<open>Author::from\<close> is a
  parameter.
\<close>

definition author_provider_new ::
  "('api_error + bool) \<Rightarrow> ('api_error + 'member option) \<Rightarrow> ('member \<Rightarrow> 'author) \<Rightarrow> 'api_error + 'author option" where
  "author_provider_new has_api get_author author_from = (case has_api of
       Inl e \<Rightarrow> Inl e
     | Inr b \<Rightarrow>
         (if \<not> b then Inr None
          else (case get_author of Inl e \<Rightarrow> Inl e | Inr m \<Rightarrow> Inr (map_option author_from m))))"

definition author_provide_inherent_data :: "'author option \<Rightarrow> 'author inherent_item" where
  "author_provide_inherent_data author = (case author of Some a \<Rightarrow> Inr (Some a) | None \<Rightarrow> Inr None)"

subsection \<open>The log is ordered by slots\<close>

definition log_wf :: "'p production_log \<Rightarrow> bool" where
  "log_wf s \<longleftrightarrow> sorted_wrt (<) (map fst (log_entries s))"

lemma sorted_partitioned:
  fixes xs :: "('k::linorder \<times> 'a) list"
  assumes "sorted_wrt (<) (map fst xs)"
  shows "partitioned (\<lambda>(k, _). k \<le> b) xs"
  unfolding partitioned_def
proof (intro allI impI iffI)
  let ?P = "\<lambda>(k, _). k \<le> b" and ?n = "length (takeWhile (\<lambda>(k, _). k \<le> b) xs)"
  fix i assume i: "i < length xs"
  show "?P (xs ! i)" if "i < ?n"
    using that nth_mem [of i "takeWhile ?P xs"] by (metis set_takeWhileD takeWhile_nth)
  show "i < ?n" if P: "?P (xs ! i)"
  proof (rule ccontr)
    assume "\<not> i < ?n"
    then have n: "?n \<le> i" by simp
    then have "\<not> ?P (xs ! ?n)" using i by (intro nth_length_takeWhile) simp
    then have "b < fst (xs ! ?n)" by (simp add: split_def)
    moreover have "fst (xs ! ?n) \<le> fst (xs ! i)"
    proof (cases "?n = i")
      case False
      then have "map fst xs ! ?n < map fst xs ! i"
        using n i by (intro sorted_wrt_nth_less [OF assms]) simp_all
      then show ?thesis using n i by simp
    qed simp
    moreover have "fst (xs ! i) \<le> b" using P by (simp add: split_def)
    ultimately show False by simp
  qed
qed

lemma partition_point_sorted:
  assumes "sorted_wrt (<) (map fst xs)"
  shows "partition_point (\<lambda>(s, _). s \<le> (b :: 'k::linorder)) xs = length (takeWhile (\<lambda>(s, _). s \<le> b) xs)"
  unfolding partition_point_def
  by (rule partition_search_eq [OF sorted_partitioned [OF assms]]) (simp_all add: length_takeWhile_le)

lemma drop_prefix_entries:
  "log_wf s \<Longrightarrow> log_entries (drop_prefix slot s) = dropWhile (\<lambda>(s, _). s \<le> slot) (log_entries s)"
  by (simp add: drop_prefix_def log_wf_def partition_point_sorted dropWhile_eq_drop)

lemma take_prefix_eq:
  assumes "log_wf s"
  shows "take_prefix slot s = (peek_prefix slot s, drop_prefix slot s)"
  using assms takeWhile_eq_take [of "\<lambda>(s, _). s \<le> slot" "log_entries s"]
  by (simp add: take_prefix_def drop_prefix_def peek_prefix_def log_wf_def partition_point_sorted Let_def)

lemma log_wf_drop: "log_wf s \<Longrightarrow> log_wf (drop_prefix slot s)"
  by (simp add: log_wf_def drop_prefix_def drop_map [symmetric] sorted_wrt_drop)

lemma dropWhile_sorted_gt:
  fixes xs :: "('k::linorder \<times> 'a) list"
  assumes "sorted_wrt (<) (map fst xs)" and "x \<in> set (dropWhile (\<lambda>(s, _). s \<le> b) xs)"
  shows "b < fst x"
  using assms
proof (induction xs)
  case Nil
  then show ?case by simp
next
  case (Cons y ys)
  show ?case
  proof (cases "fst y \<le> b")
    case True
    then show ?thesis using Cons by (simp add: split_def)
  next
    case False
    then have "x = y \<or> fst y < fst x" using Cons.prems by (auto simp: split_def)
    then show ?thesis using False by (metis less_trans not_le)
  qed
qed

subsection \<open>The contract of a source of block production data\<close>

text \<open>
  The two functions a runtime gives the block participation pallet
  (\<open>blocks_produced_up_to_slot\<close> and \<open>discard_blocks_produced_up_to_slot\<close>).
\<close>

record ('l, 'p) block_source =
  blocks_produced_up_to_slot :: "u64 \<Rightarrow> 'l \<Rightarrow> (u64 \<times> 'p) list"
  discard_blocks_produced_up_to_slot :: "u64 \<Rightarrow> 'l \<Rightarrow> 'l"

text \<open>
  The contract: discarding removes exactly the data that is returned, which are the entries up to
  the slot; recording a block of a later slot adds one entry at the end.
\<close>

locale block_log =
  fixes S :: "('l, 'p) block_source"
    and record_block :: "u64 \<Rightarrow> 'p \<Rightarrow> 'l \<Rightarrow> 'l"
    and entries :: "'l \<Rightarrow> (u64 \<times> 'p) list"
    and wf :: "'l \<Rightarrow> bool"
  assumes discard_exact: "wf l \<Longrightarrow>
      entries l = blocks_produced_up_to_slot S s l @ entries (discard_blocks_produced_up_to_slot S s l)"
    and produced_le: "wf l \<Longrightarrow> x \<in> set (blocks_produced_up_to_slot S s l) \<Longrightarrow> fst x \<le> s"
    and remaining_gt: "wf l \<Longrightarrow> x \<in> set (entries (discard_blocks_produced_up_to_slot S s l)) \<Longrightarrow> s < fst x"
    and wf_discard: "wf l \<Longrightarrow> wf (discard_blocks_produced_up_to_slot S s l)"
    and entries_record: "entries (record_block s p l) = entries l @ [(s, p)]"
    and wf_record: "wf l \<Longrightarrow> (\<And>x. x \<in> set (entries l) \<Longrightarrow> fst x < s) \<Longrightarrow> wf (record_block s p l)"
begin

lemma entries_discard_subset:
  "wf l \<Longrightarrow> set (entries (discard_blocks_produced_up_to_slot S s l)) \<subseteq> set (entries l)"
  by (metis Un_iff discard_exact set_append subsetI)

lemma discard_twice:
  assumes "wf l" and "s \<le> t"
  shows "blocks_produced_up_to_slot S s (discard_blocks_produced_up_to_slot S t l) = []"
proof -
  let ?l = "discard_blocks_produced_up_to_slot S t l"
  have wf: "wf ?l" using assms(1) by (rule wf_discard)
  have "x \<notin> set (blocks_produced_up_to_slot S s ?l)" for x
  proof
    assume x: "x \<in> set (blocks_produced_up_to_slot S s ?l)"
    then have "x \<in> set (entries ?l)" using discard_exact [OF wf, of s] by (metis Un_iff set_append)
    then have "t < fst x" using remaining_gt assms(1) by blast
    moreover have "fst x \<le> s" using produced_le wf x by blast
    ultimately show False using assms(2) by simp
  qed
  then show ?thesis by (metis last_in_set)
qed

end

definition production_log_source :: "('p production_log, 'p) block_source" where
  "production_log_source = \<lparr>blocks_produced_up_to_slot = peek_prefix,
     discard_blocks_produced_up_to_slot = drop_prefix\<rparr>"

text \<open>A block of slot \<open>s\<close> whose producer was noted: the log grows when the block is finalized.\<close>

definition log_record_block :: "u64 \<Rightarrow> 'p \<Rightarrow> 'p production_log \<Rightarrow> 'p production_log" where
  "log_record_block s p l = log_on_finalize s (l\<lparr>current_producer := Some p\<rparr>)"

interpretation pl: block_log production_log_source log_record_block log_entries log_wf
proof unfold_locales
  fix l :: "'p production_log" and s t :: u64 and p :: 'p and x :: "u64 \<times> 'p"
  assume wf: "log_wf l"
  show "log_entries l = blocks_produced_up_to_slot production_log_source s l
      @ log_entries (discard_blocks_produced_up_to_slot production_log_source s l)"
    using wf by (simp add: production_log_source_def drop_prefix_entries peek_prefix_def)
  show "log_wf (discard_blocks_produced_up_to_slot production_log_source s l)"
    using wf by (simp add: production_log_source_def log_wf_drop)
  show "fst x \<le> s" if "x \<in> set (blocks_produced_up_to_slot production_log_source s l)"
    using that by (auto simp: production_log_source_def peek_prefix_def dest: set_takeWhileD)
  show "s < fst x" if "x \<in> set (log_entries (discard_blocks_produced_up_to_slot production_log_source s l))"
    using that wf by (auto simp: production_log_source_def drop_prefix_entries log_wf_def dest: dropWhile_sorted_gt)
  show "log_wf (log_record_block t p l)" if "\<And>x. x \<in> set (log_entries l) \<Longrightarrow> fst x < t"
    using wf that by (auto simp: log_wf_def log_record_block_def log_on_finalize_def sorted_wrt_append)
next
  fix s :: u64 and p :: 'p and l :: "'p production_log"
  show "log_entries (log_record_block s p l) = log_entries l @ [(s, p)]"
    by (simp add: log_record_block_def log_on_finalize_def)
qed

subsection \<open>Blocks\<close>

text \<open>A block in which \<open>append\<close> is called with each of \<open>producers\<close>; failing calls change nothing.\<close>

fun log_appends :: "u32 \<Rightarrow> 'p list \<Rightarrow> 'p production_log \<Rightarrow> 'p production_log" where
  "log_appends block [] s = s"
| "log_appends block (p # ps) s =
     (case log_append True block p s of Inl _ \<Rightarrow> log_appends block ps s | Inr s' \<Rightarrow> log_appends block ps s')"

definition log_block :: "u32 \<Rightarrow> u64 \<Rightarrow> 'p list \<Rightarrow> 'p production_log \<Rightarrow> 'p production_log" where
  "log_block block slot producers s = log_on_finalize slot (log_appends block producers s)"

lemma log_appends_blocked:
  "latest_block s = Some block \<Longrightarrow> log_appends block ps s = s"
  by (induction ps) (simp_all add: log_append_def)

lemma log_appends_stale:
  assumes "latest_block s = Some b" and "block \<le> b"
  shows "log_appends block ps s = s"
  using assms by (induction ps) (simp_all add: log_append_def)

subsection \<open>Properties\<close>

text \<open>
  on a log ordered by slots, \<open>take_prefix\<close> returns what \<open>peek_prefix\<close> returns and leaves what
  \<open>drop_prefix\<close> leaves, although one scans from the front and the others do a binary search; the
  entries returned and left make up the log, and are those up to and after the slot.
\<close>

lemma log_prefix_agree:
  assumes "log_wf s"
  shows "take_prefix slot s = (peek_prefix slot s, drop_prefix slot s)
    \<and> log_entries s = peek_prefix slot s @ log_entries (drop_prefix slot s)
    \<and> (\<forall>x \<in> set (peek_prefix slot s). fst x \<le> slot)
    \<and> (\<forall>x \<in> set (log_entries (drop_prefix slot s)). slot < fst x)"
  using take_prefix_eq [OF assms] pl.discard_exact [OF assms, of slot] pl.produced_le [OF assms]
    pl.remaining_gt [OF assms]
  by (simp add: production_log_source_def)

lemma log_prefix_agree_example:
  "take_prefix 5 \<lparr>log_entries = [(2, ''a''), (5, ''b''), (9, ''a'')], current_producer = None, latest_block = Some 9\<rparr>
    = ([(2, ''a''), (5, ''b'')], \<lparr>log_entries = [(9, ''a'')], current_producer = None, latest_block = Some 9\<rparr>)"
proof -
  let ?s = "\<lparr>log_entries = [(2 :: u64, ''a''), (5, ''b''), (9, ''a'')], current_producer = None, latest_block = Some 9\<rparr>"
  have wf: "log_wf ?s" by (simp add: log_wf_def)
  from log_prefix_agree [OF wf, of 5] have
    "take_prefix 5 ?s = (peek_prefix 5 ?s, drop_prefix 5 ?s)"
    "log_entries ?s = peek_prefix 5 ?s @ log_entries (drop_prefix 5 ?s)" by blast+
  then show ?thesis by (simp add: peek_prefix_def drop_prefix_def)
qed

text \<open>
  however often \<open>append\<close> is called in a block, the block adds at most one entry to the log: the
  first producer, at the block's slot, when the block number is new, and none otherwise. A log
  ordered by slots stays ordered when the block's slot is later than every logged one.
\<close>

lemma log_block_one_entry:
  assumes "current_producer s = None" and "log_wf s" and "\<forall>x \<in> set (log_entries s). fst x < slot"
  shows "log_entries (log_block block slot producers s) = log_entries s @
      (if producers \<noteq> [] \<and> (\<forall>b. latest_block s = Some b \<longrightarrow> b < block)
       then [(slot, hd producers)] else [])
    \<and> current_producer (log_block block slot producers s) = None
    \<and> log_wf (log_block block slot producers s)"
proof (cases "producers \<noteq> [] \<and> (\<forall>b. latest_block s = Some b \<longrightarrow> b < block)")
  case True
  then obtain p ps where p: "producers = p # ps" by (cases producers) auto
  let ?s = "s\<lparr>latest_block := Some block, current_producer := Some p\<rparr>"
  have "log_append True block p s = Inr ?s"
    using True by (cases "latest_block s") (simp_all add: log_append_def not_le)
  then have "log_appends block producers s = ?s"
    using log_appends_blocked [of ?s block ps] by (simp add: p)
  then have "log_block block slot producers s = (log_record_block slot p s)\<lparr>latest_block := Some block\<rparr>"
    by (simp add: log_block_def log_record_block_def log_on_finalize_def)
  moreover have "log_wf (log_record_block slot p s)" using assms(2,3) by (intro pl.wf_record) simp_all
  ultimately show ?thesis
    using True by (simp add: p log_record_block_def log_on_finalize_def log_wf_def)
next
  case False
  have "log_appends block producers s = s"
  proof (cases "producers = []")
    case True
    then show ?thesis by simp
  next
    case ne: False
    then obtain b where "latest_block s = Some b" "block \<le> b" using False by (metis not_less)
    then show ?thesis by (intro log_appends_stale)
  qed
  then have s: "log_block block slot producers s = s"
    using assms(1) by (simp add: log_block_def log_on_finalize_def)
  show ?thesis unfolding s using assms(1,2) by (simp only: False if_False append_Nil2 simp_thms)
qed

lemma log_block_one_entry_example:
  "log_entries (log_block 3 7 [''a'', ''b''] empty_log) = log_entries empty_log @
      (if [''a'', ''b''] \<noteq> [] \<and> (\<forall>b. latest_block (empty_log :: string production_log) = Some b \<longrightarrow> b < 3)
       then [(7, hd [''a'', ''b''])] else [])
    \<and> current_producer (log_block 3 7 [''a'', ''b''] empty_log) = None
    \<and> log_wf (log_block 3 7 [''a'', ''b''] empty_log)"
  by (rule log_block_one_entry) (simp_all add: empty_log_def log_wf_def)

end
