(* ===== verification/Inherents.thy ===== *)
theory Inherents
  imports Prelude
begin

text \<open>
  The contract of a pallet that provides an inherent (\<open>ProvideInherent\<close>): how \<open>create_inherent\<close>,
  \<open>check_inherent\<close> and \<open>is_inherent_required\<close> fit together. \<open>'s\<close> is the state of the pallet at the
  parent block, \<open>'d\<close> the inherent data of the node, \<open>'c\<close> the call and \<open>'e\<close> the error of the pallet.
  \<open>check_inherent\<close> returns \<open>Inr None\<close> for a call it accepts; \<open>is_inherent_required\<close> returns
  \<open>Inr (Inr (Some e))\<close> when a block without the call must be refused with \<open>e\<close>.

  The pallets whose check compares the call with the one the node would have created itself
  (block participation, governed map, token bridge) are instances.
\<close>

locale inherent_pallet =
  fixes create_inh :: "'s \<Rightarrow> 'd \<Rightarrow> panic + 'c option"
    and check_inh :: "'s \<Rightarrow> 'c \<Rightarrow> 'd \<Rightarrow> panic + 'e option"
    and required_inh :: "'s \<Rightarrow> 'd \<Rightarrow> panic + ('e + 'e option)"
  assumes created_accepted: "create_inh s d = Inr (Some c) \<Longrightarrow> check_inh s c d = Inr None"
    and accepted_created: "check_inh s c d = Inr None \<Longrightarrow> create_inh s d = Inr (Some c)"
    and created_required: "create_inh s d = Inr (Some c) \<Longrightarrow> \<exists>e. required_inh s d = Inr (Inr (Some e))"
    and not_created_not_required: "create_inh s d = Inr None \<Longrightarrow> required_inh s d = Inr (Inr None)"
begin

lemma accepted_unique: "check_inh s c d = Inr None \<Longrightarrow> check_inh s c' d = Inr None \<Longrightarrow> c = c'"
  by (metis accepted_created option.inject sum.inject(2))

text \<open>
  The inherent calls of a block that a verifying node accepts: each passes \<open>check_inherent\<close>, and
  there is one when one is required.
\<close>

lemma block_calls_exact:
  assumes "create_inh s d = Inr r"
    and "\<forall>c \<in> set calls. check_inh s c d = Inr None"
    and "\<forall>e. required_inh s d = Inr (Inr (Some e)) \<longrightarrow> calls \<noteq> []"
  shows "set calls = set_option r"
proof (cases r)
  case None
  then show ?thesis using assms(1,2) accepted_created [of s _ d] by (cases calls) auto
next
  case (Some c)
  then obtain e where "required_inh s d = Inr (Inr (Some e))" using assms(1) created_required by blast
  then have "calls \<noteq> []" using assms(3) by blast
  moreover have "c' = c" if "c' \<in> set calls" for c'
    using accepted_created assms(1,2) Some that by fastforce
  ultimately show ?thesis using Some by (cases calls) auto
qed

text \<open>The author's own block is accepted.\<close>

lemma author_block_accepted:
  assumes "create_inh s d = Inr r"
  shows "(\<forall>c \<in> set_option r. check_inh s c d = Inr None)
    \<and> (\<forall>e. required_inh s d = Inr (Inr (Some e)) \<longrightarrow> r \<noteq> None)"
  using assms created_accepted not_created_not_required by (cases r) auto

end

end
