(* ===== verification/Collections.thy ===== *)
theory Collections
  imports Prelude "HOL-Library.List_Lexorder"
begin

text \<open>
  The collections of the Rust standard library and of FRAME the components share: a \<open>BTreeMap\<close> is
  the list of its entries in strictly ascending order of the keys, so that equality of maps is
  equality of lists and iteration is the list itself. The caches of the data sources are those of the
  \<open>lru\<close> crate.
\<close>

definition btree_wf :: "('k::linorder \<times> 'v) list \<Rightarrow> bool" where
  "btree_wf m \<longleftrightarrow> sorted_wrt (<) (map fst m)"

text \<open>\<open>BTreeMap::insert\<close>\<close>

fun btree_insert :: "'k::linorder \<Rightarrow> 'v \<Rightarrow> ('k \<times> 'v) list \<Rightarrow> ('k \<times> 'v) list" where
  "btree_insert k v [] = [(k, v)]"
| "btree_insert k v ((k', v') # m) =
     (if k < k' then (k, v) # (k', v') # m
      else if k = k' then (k, v) # m
      else (k', v') # btree_insert k v m)"

text \<open>Collecting the entries of a finite map, as iterating a storage map into a \<open>BTreeMap\<close> does.\<close>

definition entries_of :: "('k::linorder \<rightharpoonup> 'v) \<Rightarrow> ('k \<times> 'v) list" where
  "entries_of m = map (\<lambda>k. (k, the (m k))) (sorted_list_of_set (dom m))"

lemma btree_wf_Nil [simp]: "btree_wf []"
  by (simp add: btree_wf_def)

lemma btree_wf_distinct: "btree_wf m \<Longrightarrow> distinct (map fst m)"
  by (simp add: btree_wf_def strict_sorted_iff)

lemma fst_btree_insert: "fst ` set (btree_insert k v m) = insert k (fst ` set m)"
  by (induction k v m rule: btree_insert.induct) auto

lemma btree_wf_Cons:
  "btree_wf ((k, v) # m) \<longleftrightarrow> btree_wf m \<and> (\<forall>k' \<in> fst ` set m. k < k')"
  by (auto simp: btree_wf_def)

lemma btree_wf_insert [simp]: "btree_wf m \<Longrightarrow> btree_wf (btree_insert k v m)"
proof (induction k v m rule: btree_insert.induct)
  case (1 k v)
  then show ?case by (simp add: btree_wf_def)
next
  case (2 k v k' v' m)
  have m: "btree_wf m" "\<forall>j \<in> fst ` set m. k' < j" using 2(2) by (simp_all add: btree_wf_Cons)
  show ?case
  proof (cases k k' rule: linorder_cases)
    case less
    then show ?thesis using m by (auto simp: btree_wf_Cons)
  next
    case equal
    then show ?thesis using m by (simp add: btree_wf_Cons)
  next
    case greater
    then show ?thesis using m 2(1) by (auto simp: btree_wf_Cons fst_btree_insert)
  qed
qed

lemma map_of_btree_insert [simp]: "btree_wf m \<Longrightarrow> map_of (btree_insert k v m) = (map_of m)(k \<mapsto> v)"
proof (induction k v m rule: btree_insert.induct)
  case (1 k v)
  then show ?case by simp
next
  case (2 k v k' v' m)
  then have "btree_wf m" by (simp add: btree_wf_Cons)
  then show ?case using 2(1) by (auto simp: fun_upd_twist)
qed

lemma length_btree_insert:
  "length (btree_insert k v m) \<le> length m + 1"
  by (induction k v m rule: btree_insert.induct) auto

lemma btree_wf_eqI:
  assumes "btree_wf m" "btree_wf n" "map_of m = map_of n"
  shows "m = n"
proof -
  have "fst ` set m = fst ` set n" using assms(3) by (metis dom_map_of_conv_image_fst)
  then have "map fst m = map fst n"
    using assms(1,2) by (metis btree_wf_def list.set_map strict_sorted_equal)
  moreover have "set m = set n"
    using map_of_inject_set [OF btree_wf_distinct [OF assms(1)] btree_wf_distinct [OF assms(2)]] assms(3) by simp
  moreover have "inj_on fst (set m)" using btree_wf_distinct [OF assms(1)] by (simp add: distinct_map)
  ultimately show ?thesis by (intro map_inj_on [of fst]) simp_all
qed

lemma entries_of_ok [simp]:
  assumes "finite (dom m)"
  shows "distinct (map fst (entries_of m))" "map_of (entries_of m) = m" "btree_wf (entries_of m)"
  using assms by (simp_all add: entries_of_def comp_def map_of_map_keys btree_wf_def)

lemma rev_entries_of_ok [simp]:
  assumes "finite (dom m)"
  shows "distinct (rev (map fst (entries_of m)))" "map_of (rev (entries_of m)) = m"
proof -
  show d: "distinct (rev (map fst (entries_of m)))" using assms by simp
  have "map_of (rev (entries_of m)) = map_of (entries_of m)"
    using assms by (subst map_of_inject_set) (simp_all add: rev_map [symmetric])
  then show "map_of (rev (entries_of m)) = m" using assms by simp
qed

subsection \<open>LRU caches\<close>

text \<open>
  The operations of \<open>lru::LruCache\<close> that the data sources call. Documented behaviour: a new cache is empty,
  \<open>get\<close> changes only the order of use, and \<open>put\<close> stores the entry and may evict others.
\<close>

record ('l, 'k, 'v) lru =
  lru_new :: "nat \<Rightarrow> 'l"
  lru_get :: "'l \<Rightarrow> 'k \<Rightarrow> 'v option \<times> 'l"
  lru_put :: "'l \<Rightarrow> 'k \<Rightarrow> 'v \<Rightarrow> 'l"

definition lru_ok :: "('l, 'k, 'v) lru \<Rightarrow> bool" where
  "lru_ok L \<longleftrightarrow> (\<forall>n k. fst (lru_get L (lru_new L n) k) = None)
     \<and> (\<forall>l k k'. fst (lru_get L (snd (lru_get L l k)) k') = fst (lru_get L l k'))
     \<and> (\<forall>l k v k' w. fst (lru_get L (lru_put L l k v) k') = Some w \<longrightarrow> k' = k \<and> w = v \<or> fst (lru_get L l k') = Some w)"

text \<open>What a cache behind a lock holds; a poisoned lock is \<open>None\<close>.\<close>

definition lru_holds :: "('l, 'k, 'v) lru \<Rightarrow> 'l option \<Rightarrow> 'k \<Rightarrow> 'v \<Rightarrow> bool" where
  "lru_holds L cache k v \<longleftrightarrow> (\<exists>l. cache = Some l \<and> fst (lru_get L l k) = Some v)"

lemma lru_get_keeps:
  "lru_ok L \<Longrightarrow> lru_holds L (Some (snd (lru_get L l k))) k' v \<longleftrightarrow> lru_holds L (Some l) k' v"
  by (simp add: lru_ok_def lru_holds_def)

lemma lru_put_holds:
  "lru_ok L \<Longrightarrow> lru_holds L (Some (lru_put L l k v)) k' w \<Longrightarrow> k' = k \<and> w = v \<or> lru_holds L (Some l) k' w"
  by (simp add: lru_ok_def lru_holds_def)

text \<open>A cache of bounded size that keeps its entries in the order of their use.\<close>

definition demo_lru :: "(nat \<times> ('k \<times> 'v) list, 'k, 'v) lru" where
  "demo_lru = \<lparr>lru_new = (\<lambda>n. (n, [])),
     lru_get = (\<lambda>(n, es) k. case map_of es k of None \<Rightarrow> (None, (n, es)) | Some v \<Rightarrow> (Some v, (n, (k, v) # filter (\<lambda>e. fst e \<noteq> k) es))),
     lru_put = (\<lambda>(n, es) k v. (n, take n ((k, v) # filter (\<lambda>e. fst e \<noteq> k) es)))\<rparr>"

lemma map_of_filter_ne: "map_of (filter (\<lambda>e. fst e \<noteq> k) es) k' = (if k' = k then None else map_of es k')"
  by (induction es) auto

lemma map_of_take: "map_of (take n es) k = Some v \<Longrightarrow> map_of es k = Some v"
  by (induction es arbitrary: n) (auto simp: take_Cons split: nat.splits if_splits)

lemma demo_lru_get: "fst (lru_get demo_lru (n, es) k) = map_of es k"
  "map_of (snd (snd (lru_get demo_lru (n, es) k))) k' = map_of es k'"
  by (auto simp: demo_lru_def map_of_filter_ne split: option.splits)

lemma demo_lru_ok: "lru_ok (demo_lru :: (nat \<times> ('k \<times> 'v) list, 'k, 'v) lru)"
  unfolding lru_ok_def
proof (intro conjI allI impI)
  show "fst (lru_get demo_lru (lru_new demo_lru n) (k :: 'k)) = (None :: 'v option)" for n k
    by (simp add: demo_lru_def)
  show "fst (lru_get demo_lru (snd (lru_get demo_lru l k)) k') = fst (lru_get demo_lru l k')" for l :: "nat \<times> ('k \<times> 'v) list" and k k'
    by (cases l; cases "snd (lru_get demo_lru l k)") (metis demo_lru_get snd_conv)
  show "k' = k \<and> w = v \<or> fst (lru_get demo_lru l k') = Some w"
    if "fst (lru_get demo_lru (lru_put demo_lru l k v) k') = Some w" for l :: "nat \<times> ('k \<times> 'v) list" and k v k' w
  proof -
    obtain n es where l: "l = (n, es)" by (cases l)
    have "map_of (take n ((k, v) # filter (\<lambda>e. fst e \<noteq> k) es)) k' = Some w"
      using that by (simp add: l demo_lru_def split: option.splits)
    from map_of_take [OF this] show ?thesis by (auto simp: l demo_lru_get map_of_filter_ne split: if_splits)
  qed
qed

end
