(* ===== verification/Block_Participation.thy ===== *)
theory Block_Participation
  imports Block_Production_Log Mainchain_Epoch Domain Inherents Collections
begin

text \<open>
  The block participation feature: the pallet, \<open>toolkit/block-participation/pallet/src/lib.rs\<close>,
  and the inherent data provider that aggregates the block production log,
  \<open>toolkit/block-participation/primitives/src/lib.rs\<close>.

  A \<open>HashMap\<close> is a map; the order in which it is iterated, which differs between nodes, is a
  parameter (\<open>hash_iteration\<close>). A \<open>BTreeMap\<close> that is iterated is an association list in the order
  of its keys. The runtime API and the data source are parameters. The structs
  \<open>DelegatorBlockParticipationData\<close> and \<open>BlockProducerParticipationData\<close> are tuples of their fields
  in the order of declaration, so that the derived \<open>Ord\<close> is the lexicographic order.
\<close>

subsection \<open>The pallet\<close>

record 'l participation_state =
  processed_up_to_slot :: u64
  production_source :: 'l

datatype participation_inherent_error =
    ParticipationInherentRequired
  | UnexpectedInherent
  | IncorrectSlotBoundary
  | ParticipationInvalidInherentData

datatype participation_error = ParticipationBadOrigin | UpToSlotNotIncreased

datatype participation_call = NoteProcessing u64

definition participation_decode_inherent_data ::
  "u64 inherent_item \<Rightarrow> participation_inherent_error + u64 option" where
  "participation_decode_inherent_data data =
     (case data of Inl _ \<Rightarrow> Inl ParticipationInvalidInherentData | Inr x \<Rightarrow> Inr x)"

definition participation_create_inherent :: "u64 inherent_item \<Rightarrow> panic + participation_call option" where
  "participation_create_inherent data = (case participation_decode_inherent_data data of
       Inl _ \<Rightarrow> Inl ExpectFailed
     | Inr up_to_slot \<Rightarrow> Inr (map_option NoteProcessing up_to_slot))"

definition participation_check_inherent ::
  "participation_call \<Rightarrow> u64 inherent_item \<Rightarrow> participation_inherent_error option" where
  "participation_check_inherent call data = (case participation_decode_inherent_data data of
       Inl e \<Rightarrow> Some e
     | Inr None \<Rightarrow> Some UnexpectedInherent
     | Inr (Some expected) \<Rightarrow>
         (case call of NoteProcessing up_to_slot \<Rightarrow>
            if up_to_slot = expected then None else Some IncorrectSlotBoundary))"

definition participation_is_inherent_required ::
  "u64 inherent_item \<Rightarrow> participation_inherent_error + participation_inherent_error option" where
  "participation_is_inherent_required data = (case participation_decode_inherent_data data of
       Inl e \<Rightarrow> Inl e
     | Inr x \<Rightarrow> Inr (if x \<noteq> None then Some ParticipationInherentRequired else None))"

definition note_processing ::
  "('l, 'p) block_source \<Rightarrow> bool \<Rightarrow> u64 \<Rightarrow> 'l participation_state
     \<Rightarrow> participation_error + 'l participation_state" where
  "note_processing S origin_is_none up_to_slot s =
     (if \<not> origin_is_none then Inl ParticipationBadOrigin
      else if up_to_slot \<le> processed_up_to_slot s then Inl UpToSlotNotIncreased
      else Inr (s\<lparr>production_source := discard_blocks_produced_up_to_slot S up_to_slot (production_source s),
                 processed_up_to_slot := up_to_slot\<rparr>))"

interpretation part: inherent_pallet "\<lambda>_. participation_create_inherent"
    "\<lambda>_ c d. Inr (participation_check_inherent c d)" "\<lambda>_ d. Inr (participation_is_inherent_required d)"
  by unfold_locales
    (auto simp: participation_create_inherent_def participation_check_inherent_def
      participation_is_inherent_required_def participation_decode_inherent_data_def
      split: sum.splits option.splits participation_call.splits if_splits)

subsection \<open>Block production data\<close>

type_synonym 'd delegator_participation = "'d \<times> u64"
type_synonym ('p, 'd) producer_participation = "'p \<times> u32 \<times> u64 \<times> 'd delegator_participation list"

record ('p, 'd) block_production_data =
  up_to_slot :: u64
  producer_participation :: "('p, 'd) producer_participation list"

definition sort_delegators ::
  "('p, 'd::linorder) producer_participation \<Rightarrow> ('p, 'd) producer_participation" where
  "sort_delegators b = (case b of (p, n, t, ds) \<Rightarrow> (p, n, t, sort ds))"

definition block_production_data_new ::
  "u64 \<Rightarrow> ('p::linorder, 'd::linorder) producer_participation list \<Rightarrow> ('p, 'd) block_production_data" where
  "block_production_data_new slot participation =
     \<lparr>up_to_slot = slot, producer_participation = sort (map sort_delegators participation)\<rparr>"

subsection \<open>The inherent data provider\<close>

record 'k pool_delegation =
  total_stake :: u64
  delegators :: "('k \<times> u64) list"

type_synonym ('pool, 'k) stake_distribution = "'pool \<rightharpoonup> 'k pool_delegation"

datatype ('api, 'ds, 'p) participation_creation_error =
    ParticipationApiError 'api
  | ParticipationDataSourceError 'ds
  | DataMissing u32 'p
  | McEpochBelowOffset u32 u32

datatype ('id, 'p, 'd) participation_provider =
    Active 'id "('p, 'd) block_production_data"
  | Inert

text \<open>The runtime API at the parent block.\<close>

record ('api, 'id, 'p) participation_api =
  has_participation_api :: "'api + bool"
  should_release_data :: "u64 \<Rightarrow> 'api + u64 option"
  api_blocks_produced :: "u64 \<Rightarrow> 'api + (u64 \<times> 'p) list"
  target_inherent_id :: "'api + 'id"

record ('dur, 'pool, 'k, 'p, 'd, 'ds) participation_env =
  slot_timestamp :: "u64 \<Rightarrow> 'dur \<Rightarrow> u64 option"
  slot_dur :: 'dur
  mc_config :: mainchain_epoch_config
  as_cardano_spo :: "'p \<Rightarrow> 'pool option"
  from_delegator_key :: "'k \<Rightarrow> 'd"
  delegation_distribution :: "u32 \<Rightarrow> 'pool list \<Rightarrow> 'ds + ('pool, 'k) stake_distribution"

record 'p hash_iteration =
  iter_epochs :: "(u32 \<rightharpoonup> ('p \<rightharpoonup> u32)) \<Rightarrow> (u32 \<times> ('p \<rightharpoonup> u32)) list"
  iter_producers :: "('p \<rightharpoonup> u32) \<Rightarrow> ('p \<times> u32) list"

text \<open>A loop that collects results and stops at the first error.\<close>

fun collect :: "('a \<Rightarrow> ('e, 'b) outcome) \<Rightarrow> 'a list \<Rightarrow> ('e, 'b list) outcome" where
  "collect f [] = Ok []"
| "collect f (x # xs) = and_then (f x) (\<lambda>y. and_then (collect f xs) (\<lambda>ys. Ok (y # ys)))"

definition data_mc_epoch_for_slot ::
  "('dur, 'pool, 'k, 'p, 'd, 'ds) participation_env \<Rightarrow> u64
     \<Rightarrow> (('api, 'ds, 'p) participation_creation_error, u32) outcome" where
  "data_mc_epoch_for_slot E slot =
     (case slot_timestamp E slot (slot_dur E) of
        None \<Rightarrow> Panic ExpectFailed
      | Some timestamp \<Rightarrow>
          (case timestamp_to_mainchain_epoch (mc_config E) timestamp of
             Panic p \<Rightarrow> Panic p
           | Err _ \<Rightarrow> Panic ExpectFailed
           | Ok mc_epoch \<Rightarrow>
               (case offset_data_epoch mc_epoch of
                  Inr e \<Rightarrow> Ok e
                | Inl offset \<Rightarrow> Err (McEpochBelowOffset mc_epoch offset))))"

definition count_block :: "u32 \<Rightarrow> 'p \<Rightarrow> (u32 \<rightharpoonup> ('p \<rightharpoonup> u32)) \<Rightarrow> (u32 \<rightharpoonup> ('p \<rightharpoonup> u32))" where
  "count_block mc_epoch producer epoch_producers =
     (let producers = (case epoch_producers mc_epoch of Some m \<Rightarrow> m | None \<Rightarrow> Map.empty);
          n = (case producers producer of Some n \<Rightarrow> n | None \<Rightarrow> 0)
      in epoch_producers(mc_epoch \<mapsto> producers(producer \<mapsto> n + 1)))"

fun count_blocks_loop ::
  "('dur, 'pool, 'k, 'p, 'd, 'ds) participation_env \<Rightarrow> (u64 \<times> 'p) list \<Rightarrow> (u32 \<rightharpoonup> ('p \<rightharpoonup> u32))
     \<Rightarrow> (('api, 'ds, 'p) participation_creation_error, u32 \<rightharpoonup> ('p \<rightharpoonup> u32)) outcome" where
  "count_blocks_loop E [] m = Ok m"
| "count_blocks_loop E ((slot, producer) # rest) m =
     and_then (data_mc_epoch_for_slot E slot) (\<lambda>e. count_blocks_loop E rest (count_block e producer m))"

definition count_blocks_by_epoch_and_producer ::
  "('dur, 'pool, 'k, 'p, 'd, 'ds) participation_env \<Rightarrow> (u64 \<times> 'p) list
     \<Rightarrow> (('api, 'ds, 'p) participation_creation_error, u32 \<rightharpoonup> ('p \<rightharpoonup> u32)) outcome" where
  "count_blocks_by_epoch_and_producer E slot_producers = count_blocks_loop E slot_producers Map.empty"

definition fetch_delegations ::
  "('dur, 'pool, 'k, 'p, 'd, 'ds) participation_env \<Rightarrow> u32 \<Rightarrow> 'p list
     \<Rightarrow> (('api, 'ds, 'p) participation_creation_error, ('pool, 'k) stake_distribution) outcome" where
  "fetch_delegations E mc_epoch producers =
     (let pools = List.map_filter (as_cardano_spo E) producers in
      (case delegation_distribution E mc_epoch pools of
         Inl e \<Rightarrow> Err (ParticipationDataSourceError e)
       | Inr d \<Rightarrow> Ok d))"

definition production_breakdown_for ::
  "('dur, 'pool, 'k, 'p, 'd, 'ds) participation_env \<Rightarrow> u32
     \<Rightarrow> ('pool, 'k) stake_distribution \<Rightarrow> 'p \<times> u32
     \<Rightarrow> (('api, 'ds, 'p) participation_creation_error, ('p, 'd) producer_participation) outcome" where
  "production_breakdown_for E mc_epoch distribution pc =
     (let (block_producer, block_count) = pc in
      (case as_cardano_spo E block_producer of
         None \<Rightarrow> Ok (block_producer, block_count, 0, [])
       | Some cardano_producer \<Rightarrow>
           (case distribution cardano_producer of
              None \<Rightarrow> Err (DataMissing mc_epoch block_producer)
            | Some pd \<Rightarrow> Ok (block_producer, block_count, total_stake pd,
                map (\<lambda>(key, stake). (from_delegator_key E key, stake)) (delegators pd)))))"

definition epoch_summaries ::
  "'p hash_iteration \<Rightarrow> ('dur, 'pool, 'k, 'p, 'd, 'ds) participation_env \<Rightarrow> u32 \<times> ('p \<rightharpoonup> u32)
     \<Rightarrow> (('api, 'ds, 'p) participation_creation_error, ('p, 'd) producer_participation list) outcome" where
  "epoch_summaries I E ep =
     (let (mc_epoch, producer_blocks) = ep in
      and_then (fetch_delegations E mc_epoch (map fst (iter_producers I producer_blocks)))
        (\<lambda>distribution. collect (production_breakdown_for E mc_epoch distribution)
           (iter_producers I producer_blocks)))"

definition participation_provider_new ::
  "'p::linorder hash_iteration \<Rightarrow> ('dur, 'pool, 'k, 'p, 'd::linorder, 'ds) participation_env
     \<Rightarrow> ('api, 'id, 'p) participation_api \<Rightarrow> u64
     \<Rightarrow> (('api, 'ds, 'p) participation_creation_error, ('id, 'p, 'd) participation_provider) outcome" where
  "participation_provider_new I E A current_slot =
     (case has_participation_api A of
        Inl e \<Rightarrow> Err (ParticipationApiError e)
      | Inr False \<Rightarrow> Ok Inert
      | Inr True \<Rightarrow>
          (case should_release_data A current_slot of
             Inl e \<Rightarrow> Err (ParticipationApiError e)
           | Inr None \<Rightarrow> Ok Inert
           | Inr (Some slot) \<Rightarrow>
               (case api_blocks_produced A slot of
                  Inl e \<Rightarrow> Err (ParticipationApiError e)
                | Inr blocks \<Rightarrow>
                    (case target_inherent_id A of
                       Inl e \<Rightarrow> Err (ParticipationApiError e)
                     | Inr inherent_id \<Rightarrow>
                         and_then (count_blocks_by_epoch_and_producer E blocks)
                         (\<lambda>counts. and_then (collect (epoch_summaries I E) (iter_epochs I counts))
                         (\<lambda>summaries. Ok (Active inherent_id
                            (block_production_data_new slot (concat summaries)))))))))"

text \<open>The two items the provider puts in the inherent data.\<close>

definition participation_provide_inherent_data ::
  "('id, 'p, 'd) participation_provider
     \<Rightarrow> ('id \<times> ('p, 'd) block_production_data) option \<times> u64 inherent_item" where
  "participation_provide_inherent_data provider = (case provider of
       Active inherent_id data \<Rightarrow> (Some (inherent_id, data), Inr (Some (up_to_slot data)))
     | Inert \<Rightarrow> (None, Inr None))"

subsection \<open>Counting\<close>

definition count_of :: "(u32 \<rightharpoonup> ('p \<rightharpoonup> u32)) \<Rightarrow> u32 \<Rightarrow> 'p \<Rightarrow> u32" where
  "count_of m e p = (case m e of None \<Rightarrow> 0 | Some pm \<Rightarrow> (case pm p of None \<Rightarrow> 0 | Some n \<Rightarrow> n))"

lemma count_of_count_block:
  "count_of (count_block e p m) e' p' = count_of m e' p' + (if e' = e \<and> p' = p then 1 else 0)"
  by (auto simp: count_of_def count_block_def Let_def split: option.splits)

definition epoch_of_slot :: "('dur, 'pool, 'k, 'p, 'd, 'ds) participation_env \<Rightarrow> u64 \<Rightarrow> u32 option" where
  "epoch_of_slot E s =
     (case (data_mc_epoch_for_slot E s :: ((unit, 'ds, 'p) participation_creation_error, u32) outcome) of
        Ok e \<Rightarrow> Some e | _ \<Rightarrow> None)"

lemma data_mc_epoch_Ok:
  "data_mc_epoch_for_slot E s = Ok e \<longleftrightarrow> epoch_of_slot E s = Some e"
  by (auto simp: epoch_of_slot_def data_mc_epoch_for_slot_def split: option.splits outcome.splits sum.splits)

text \<open>The loop without its error values.\<close>

fun count_map ::
  "('dur, 'pool, 'k, 'p, 'd, 'ds) participation_env \<Rightarrow> (u64 \<times> 'p) list \<Rightarrow> (u32 \<rightharpoonup> ('p \<rightharpoonup> u32))
     \<Rightarrow> (u32 \<rightharpoonup> ('p \<rightharpoonup> u32)) option" where
  "count_map E [] m = Some m"
| "count_map E ((s, p) # rest) m =
     (case epoch_of_slot E s of None \<Rightarrow> None | Some e \<Rightarrow> count_map E rest (count_block e p m))"

lemma count_blocks_loop_Ok: "count_blocks_loop E blocks m = Ok m' \<longleftrightarrow> count_map E blocks m = Some m'"
  by (induction E blocks m rule: count_map.induct) (auto simp: and_then_eq_Ok data_mc_epoch_Ok split: option.splits)

text \<open>The number of blocks of a producer in an epoch, and which counters exist.\<close>

definition blocks_in ::
  "('dur, 'pool, 'k, 'p, 'd, 'ds) participation_env \<Rightarrow> u32 \<Rightarrow> 'p \<Rightarrow> (u64 \<times> 'p) list \<Rightarrow> nat" where
  "blocks_in E e p blocks = length (filter (\<lambda>(s, q). epoch_of_slot E s = Some e \<and> q = p) blocks)"

lemma count_map_count:
  assumes "count_map E blocks m = Some m'"
  shows "count_of m' e p = count_of m e p + word_of_nat (blocks_in E e p blocks)"
  using assms
proof (induction blocks arbitrary: m)
  case Nil
  then show ?case by (simp add: blocks_in_def)
next
  case (Cons b blocks)
  obtain s q where b: "b = (s, q)" by (cases b)
  obtain e' where e': "epoch_of_slot E s = Some e'" "count_map E blocks (count_block e' q m) = Some m'"
    using Cons.prems by (auto simp: b split: option.splits)
  then show ?case using Cons.IH [OF e'(2)]
    by (auto simp: b blocks_in_def count_of_count_block)
qed

text \<open>Every counter in the map counts at least one block of the list or was there before.\<close>

definition counted :: "(u32 \<rightharpoonup> ('p \<rightharpoonup> u32)) \<Rightarrow> u32 \<Rightarrow> 'p \<Rightarrow> bool" where
  "counted m e p \<longleftrightarrow> (\<exists>pm n. m e = Some pm \<and> pm p = Some n)"

lemma counted_count_block: "counted (count_block e p m) e' p' \<longleftrightarrow> counted m e' p' \<or> e' = e \<and> p' = p"
  by (auto simp: counted_def count_block_def Let_def split: option.splits)

lemma count_map_counted:
  assumes "count_map E blocks m = Some m'"
  shows "counted m' e p \<longleftrightarrow> counted m e p \<or> (\<exists>s. (s, p) \<in> set blocks \<and> epoch_of_slot E s = Some e)"
  using assms
proof (induction blocks arbitrary: m)
  case Nil
  then show ?case by simp
next
  case (Cons b blocks)
  obtain s q where b: "b = (s, q)" by (cases b)
  obtain e' where e': "epoch_of_slot E s = Some e'" "count_map E blocks (count_block e' q m) = Some m'"
    using Cons.prems by (auto simp: b split: option.splits)
  then show ?case using Cons.IH [OF e'(2)] by (auto simp: b counted_count_block)
qed

lemma blocks_in_le: "blocks_in E e p blocks \<le> length blocks"
  by (simp add: blocks_in_def)

subsection \<open>Independence of the iteration order\<close>

text \<open>What iterating a \<open>HashMap\<close> guarantees: every entry exactly once, in some order.\<close>

definition iteration_ok :: "'p hash_iteration \<Rightarrow> bool" where
  "iteration_ok I \<longleftrightarrow>
     (\<forall>m. finite (dom m) \<longrightarrow> distinct (map fst (iter_epochs I m)) \<and> map_of (iter_epochs I m) = m)
   \<and> (\<forall>m. finite (dom m) \<longrightarrow> distinct (map fst (iter_producers I m)) \<and> map_of (iter_producers I m) = m)"

text \<open>A data source answers for the set of pools it is asked about.\<close>

definition data_source_ok :: "('dur, 'pool, 'k, 'p, 'd, 'ds) participation_env \<Rightarrow> bool" where
  "data_source_ok E \<longleftrightarrow> (\<forall>e ps qs. set ps = set qs
     \<longrightarrow> delegation_distribution E e ps = delegation_distribution E e qs)"

lemma map_of_mset:
  assumes "distinct (map fst xs)" "distinct (map fst ys)" "map_of xs = map_of ys"
  shows "mset xs = mset ys"
proof -
  have "set xs = set ys" using assms by (metis map_of_eq_Some_iff subrelI subset_antisym)
  moreover have "distinct xs" "distinct ys" using assms by (auto dest: distinct_map [THEN iffD1])
  ultimately show ?thesis by (simp add: set_eq_iff_mset_eq_distinct)
qed

lemma collect_Ok: "collect f xs = Ok ys \<longleftrightarrow> list_all2 (\<lambda>x y. f x = Ok y) xs ys"
  by (induction xs arbitrary: ys) (auto simp: and_then_eq_Ok list_all2_Cons1)

lemma list_all2_mset:
  assumes "list_all2 P xs ys" and "mset xs = mset xs'"
  shows "\<exists>ys'. list_all2 P xs' ys' \<and> mset ys' = mset ys"
  using assms(2) list_all2_reorder_left_invariance [OF assms(1)] by metis

lemma finite_counts:
  assumes "count_map E blocks m = Some m'" and "finite (dom m)" "\<forall>e pm. m e = Some pm \<longrightarrow> finite (dom pm)"
  shows "finite (dom m') \<and> (\<forall>e pm. m' e = Some pm \<longrightarrow> finite (dom pm))"
  using assms
proof (induction blocks arbitrary: m)
  case Nil
  then show ?case by simp
next
  case (Cons b blocks)
  obtain s q where b: "b = (s, q)" by (cases b)
  obtain e' where e': "count_map E blocks (count_block e' q m) = Some m'"
    using Cons.prems by (auto simp: b split: option.splits)
  have "finite (dom (count_block e' q m))"
    "\<forall>e pm. count_block e' q m e = Some pm \<longrightarrow> finite (dom pm)"
    using Cons.prems(2,3) by (auto simp: count_block_def Let_def split: option.splits if_splits)
  from Cons.IH [OF e' this] show ?case .
qed

lemma iteration_producers:
  assumes "iteration_ok I" "iteration_ok J" "finite (dom pm)"
  shows "mset (iter_producers I pm) = mset (iter_producers J pm)"
  using assms unfolding iteration_ok_def by (intro map_of_mset) simp_all

lemma iteration_epochs:
  assumes "iteration_ok I" "iteration_ok J" "finite (dom m)"
  shows "mset (iter_epochs I m) = mset (iter_epochs J m)"
  using assms unfolding iteration_ok_def by (intro map_of_mset) simp_all

lemma set_map_filter_cong:
  assumes "set xs = set ys"
  shows "set (List.map_filter f xs) = set (List.map_filter f ys)"
  using assms by (simp add: List.map_filter_def)

lemma fetch_delegations_cong:
  assumes "data_source_ok E" "set ps = set qs"
  shows "fetch_delegations E e ps = fetch_delegations E e qs"
proof -
  have "delegation_distribution E e (List.map_filter (as_cardano_spo E) ps)
      = delegation_distribution E e (List.map_filter (as_cardano_spo E) qs)"
    by (rule assms(1) [unfolded data_source_ok_def, rule_format, OF set_map_filter_cong [OF assms(2)]])
  then show ?thesis by (simp add: fetch_delegations_def)
qed

lemma epoch_summaries_mset:
  fixes E :: "('dur, 'pool, 'k, 'p, 'd, 'ds) participation_env"
  assumes "iteration_ok I" "iteration_ok J" "data_source_ok E" "finite (dom (snd ep))"
    and Ok: "epoch_summaries I E ep = (Ok ys :: (('api, 'ds, 'p) participation_creation_error, _) outcome)"
  shows "\<exists>zs. epoch_summaries J E ep = (Ok zs :: (('api, 'ds, 'p) participation_creation_error, _) outcome)
    \<and> mset zs = mset ys"
proof -
  obtain e pm where ep: "ep = (e, pm)" by (cases ep)
  let ?I = "iter_producers I pm" and ?J = "iter_producers J pm"
  have ms: "mset ?I = mset ?J" using assms(1,2,4) by (intro iteration_producers) (simp_all add: ep)
  have F: "fetch_delegations E e (map fst ?I)
      = (fetch_delegations E e (map fst ?J) :: (('api, 'ds, 'p) participation_creation_error, _) outcome)"
    using assms(3) mset_eq_setD [OF ms] by (intro fetch_delegations_cong) simp_all
  obtain d where d:
      "fetch_delegations E e (map fst ?I) = (Ok d :: (('api, 'ds, 'p) participation_creation_error, _) outcome)"
      "collect (production_breakdown_for E e d) ?I
         = (Ok ys :: (('api, 'ds, 'p) participation_creation_error, _) outcome)"
    using Ok by (auto simp: epoch_summaries_def ep and_then_eq_Ok)
  obtain zs where "list_all2 (\<lambda>x y. production_breakdown_for E e d x
        = (Ok y :: (('api, 'ds, 'p) participation_creation_error, _) outcome)) ?J zs" "mset zs = mset ys"
    using list_all2_mset [OF d(2) [unfolded collect_Ok] ms] by blast
  then show ?thesis using d(1) F by (auto simp: epoch_summaries_def ep and_then_eq_Ok collect_Ok)
qed

lemma list_all2_mset_rows:
  assumes "list_all2 P xs yss" and "mset xs = mset xs'"
    and "\<And>x ys. x \<in> set xs \<Longrightarrow> P x ys \<Longrightarrow> \<exists>zs. Q x zs \<and> mset zs = mset ys"
  shows "\<exists>zss. list_all2 Q xs' zss \<and> mset (concat zss) = mset (concat yss)"
proof -
  obtain yss' where y: "list_all2 P xs' yss'" "mset yss' = mset yss"
    using list_all2_mset [OF assms(1,2)] by blast
  have "x \<in> set xs' \<Longrightarrow> x \<in> set xs" for x using assms(2) by (metis mset_eq_setD)
  with y(1) have "\<exists>zss. list_all2 Q xs' zss \<and> map mset zss = map mset yss'"
  proof (induction xs' yss' rule: list_all2_induct)
    case Nil
    then show ?case by simp
  next
    case (Cons x xs ys yss)
    obtain zs where "Q x zs" "mset zs = mset ys" using assms(3) Cons.prems Cons.hyps(1) by force
    moreover obtain zss where "list_all2 Q xs zss" "map mset zss = map mset yss"
      using Cons.IH Cons.prems by auto
    ultimately have "list_all2 Q (x # xs) (zs # zss)" "map mset (zs # zss) = map mset (ys # yss)" by simp_all
    then show ?case by blast
  qed
  moreover have "sum_list (map mset yss') = sum_list (map mset yss)" using y(2) by (rule sum_list_map_mset)
  ultimately show ?thesis by (auto simp: mset_concat)
qed

lemma block_production_data_new_cong:
  assumes "mset xs = mset ys"
  shows "block_production_data_new s xs = block_production_data_new s ys"
proof -
  have "mset (map sort_delegators xs) = mset (map sort_delegators ys)" using assms by simp
  from sort_cong_mset [OF this] show ?thesis by (simp add: block_production_data_new_def)
qed

lemma summaries_order_independent:
  fixes E :: "('dur, 'pool, 'k, 'p, 'd, 'ds) participation_env"
  assumes "iteration_ok I" "iteration_ok J" "data_source_ok E"
    and counts: "count_map E blocks Map.empty = Some m"
    and ok: "collect (epoch_summaries I E) (iter_epochs I m)
      = (Ok yss :: (('api, 'ds, 'p) participation_creation_error, _) outcome)"
  shows "\<exists>zss. collect (epoch_summaries J E) (iter_epochs J m)
      = (Ok zss :: (('api, 'ds, 'p) participation_creation_error, _) outcome)
    \<and> mset (concat zss) = mset (concat yss)"
proof -
  have fin: "finite (dom m)" "\<And>e pm. m e = Some pm \<Longrightarrow> finite (dom pm)"
    using finite_counts [OF counts] by simp_all
  have row: "\<exists>zs. epoch_summaries J E ep = (Ok zs :: (('api, 'ds, 'p) participation_creation_error, _) outcome)
      \<and> mset zs = mset ys"
    if "ep \<in> set (iter_epochs I m)"
      "epoch_summaries I E ep = (Ok ys :: (('api, 'ds, 'p) participation_creation_error, _) outcome)" for ep ys
  proof (rule epoch_summaries_mset [OF assms(1-3) _ that(2)])
    have "map_of (iter_epochs I m) = m" "distinct (map fst (iter_epochs I m))"
      using assms(1) fin(1) unfolding iteration_ok_def by simp_all
    then have "m (fst ep) = Some (snd ep)" using that(1) by (metis map_of_eq_Some_iff prod.collapse)
    then show "finite (dom (snd ep))" by (rule fin(2))
  qed
  show ?thesis unfolding collect_Ok
    by (rule list_all2_mset_rows [OF ok [unfolded collect_Ok] iteration_epochs [OF assms(1,2) fin(1)] row])
qed

subsection \<open>Releasing data exactly once\<close>

text \<open>
  A chain interleaves blocks being produced with releases of block participation data. A release
  hands over what \<open>blocks_produced_up_to_slot\<close> returns and then runs \<open>note_processing\<close>; a release
  that \<open>note_processing\<close> refuses makes the block invalid and hands over nothing.
\<close>

datatype 'p participation_op = ProduceBlock u64 'p | ReleaseData u64

fun participation_step ::
  "('l, 'p) block_source \<Rightarrow> (u64 \<Rightarrow> 'p \<Rightarrow> 'l \<Rightarrow> 'l) \<Rightarrow> 'p participation_op
     \<Rightarrow> 'l participation_state \<times> (u64 \<times> 'p) list list \<Rightarrow> 'l participation_state \<times> (u64 \<times> 'p) list list" where
  "participation_step S rec (ProduceBlock slot p) (s, released) =
     (s\<lparr>production_source := rec slot p (production_source s)\<rparr>, released)"
| "participation_step S rec (ReleaseData slot) (s, released) =
     (case note_processing S True slot s of
        Inl _ \<Rightarrow> (s, released)
      | Inr s' \<Rightarrow> (s', released @ [blocks_produced_up_to_slot S slot (production_source s)]))"

fun produced_blocks :: "'p participation_op list \<Rightarrow> (u64 \<times> 'p) list" where
  "produced_blocks [] = []"
| "produced_blocks (ProduceBlock slot p # ops) = (slot, p) # produced_blocks ops"
| "produced_blocks (ReleaseData slot # ops) = produced_blocks ops"

definition participation_run ::
  "('l, 'p) block_source \<Rightarrow> (u64 \<Rightarrow> 'p \<Rightarrow> 'l \<Rightarrow> 'l) \<Rightarrow> 'p participation_op list
     \<Rightarrow> 'l participation_state \<times> (u64 \<times> 'p) list list \<Rightarrow> 'l participation_state \<times> (u64 \<times> 'p) list list" where
  "participation_run S rec ops st = fold (participation_step S rec) ops st"

context block_log
begin

lemma participation_step_release:
  assumes "wf (production_source s)"
    and "participation_step S record_block (ReleaseData slot) (s, released) = (s', released')"
  shows "\<exists>batch. concat released' = concat released @ batch
    \<and> entries (production_source s) = batch @ entries (production_source s')
    \<and> wf (production_source s')"
  using assms(2) discard_exact [OF assms(1), of slot] wf_discard [OF assms(1)] assms(1)
  by (auto simp: note_processing_def split: if_splits)

lemma participation_run_exact:
  assumes "wf (production_source s)"
    and "sorted_wrt (<) (map fst (entries (production_source s) @ produced_blocks ops))"
  shows "concat (snd (participation_run S record_block ops (s, released)))
      @ entries (production_source (fst (participation_run S record_block ops (s, released))))
    = concat released @ entries (production_source s) @ produced_blocks ops"
  using assms
proof (induction ops arbitrary: s released)
  case Nil
  then show ?case by (simp add: participation_run_def)
next
  case (Cons oper ops)
  show ?case
  proof (cases oper)
    case (ProduceBlock slot p)
    let ?s = "s\<lparr>production_source := record_block slot p (production_source s)\<rparr>"
    have "fst x < slot" if "x \<in> set (entries (production_source s))" for x
      using Cons.prems(2) that by (simp add: ProduceBlock sorted_wrt_append)
    then have "wf (production_source ?s)" using Cons.prems(1) by (simp add: wf_record)
    then show ?thesis using Cons.IH [of ?s released] Cons.prems(2)
      by (simp add: ProduceBlock participation_run_def entries_record)
  next
    case (ReleaseData slot)
    obtain s' released' where st: "participation_step S record_block oper (s, released) = (s', released')"
      by fastforce
    obtain batch where step: "concat released' = concat released @ batch"
        "entries (production_source s) = batch @ entries (production_source s')" "wf (production_source s')"
      using participation_step_release [OF Cons.prems(1) st [unfolded ReleaseData]] by blast
    have "sorted_wrt (<) (map fst (entries (production_source s') @ produced_blocks ops))"
      using Cons.prems(2) by (simp add: ReleaseData step(2) sorted_wrt_append)
    from Cons.IH [OF step(3) this, of released'] show ?thesis
      using st by (simp add: ReleaseData participation_run_def step(1,2))
  qed
qed

end

subsection \<open>A concrete node\<close>

text \<open>
  One second slots, Cardano epochs of ten seconds from epoch 10 on. Producer 0 is not a stake pool
  operator. Two nodes iterate their hash maps in ascending and in descending order of the keys.
\<close>

definition demo_participation_env :: "(unit, nat, nat, nat, nat, unit) participation_env" where
  "demo_participation_env = \<lparr>slot_timestamp = (\<lambda>s _. Some (s * 1000)), slot_dur = (),
     mc_config = \<lparr>mc_epoch_duration_millis = 10000, mc_slot_duration_millis = 1000,
       mc_first_epoch_timestamp_millis = 0, mc_first_epoch_number = 10, mc_first_slot_number = 0\<rparr>,
     as_cardano_spo = (\<lambda>p. if p = 0 then None else Some p), from_delegator_key = (\<lambda>k. k),
     delegation_distribution = (\<lambda>e ps. Inr (\<lambda>p. Some \<lparr>total_stake = 5, delegators = [(9, 2), (4, 3)]\<rparr>))\<rparr>"

definition demo_participation_api :: "(unit, string, nat) participation_api" where
  "demo_participation_api = \<lparr>has_participation_api = Inr True, should_release_data = (\<lambda>s. Inr (Some s)),
     api_blocks_produced = (\<lambda>_. Inr [(1, 7), (2, 0), (13, 7)]), target_inherent_id = Inr ''rewards''\<rparr>"

definition ascending :: "nat hash_iteration" where
  "ascending = \<lparr>iter_epochs = entries_of, iter_producers = entries_of\<rparr>"

definition descending :: "nat hash_iteration" where
  "descending = \<lparr>iter_epochs = (\<lambda>m. rev (entries_of m)), iter_producers = (\<lambda>m. rev (entries_of m))\<rparr>"

lemma ascending_ok: "iteration_ok ascending"
  by (simp add: iteration_ok_def ascending_def)

lemma descending_ok: "iteration_ok descending"
  by (simp add: iteration_ok_def descending_def rev_map [symmetric])

lemma demo_participation_epochs:
  "data_mc_epoch_for_slot demo_participation_env 1 = Ok 8"
  "data_mc_epoch_for_slot demo_participation_env 2 = Ok 8"
  "data_mc_epoch_for_slot demo_participation_env 13 = Ok 9"
  by (simp_all add: data_mc_epoch_for_slot_def demo_participation_env_def timestamp_to_mainchain_epoch_def
      epochs_passed_def checked_sub_def narrow_def saturating_add_def offset_data_epoch_def data_mc_epoch_offset_def)

lemma demo_participation_fields:
  "as_cardano_spo demo_participation_env p = (if p = 0 then None else Some p)"
  "from_delegator_key demo_participation_env k = k"
  "delegation_distribution demo_participation_env e ps
    = Inr (\<lambda>p. Some \<lparr>total_stake = 5, delegators = [(9, 2), (4, 3)]\<rparr>)"
  by (simp_all add: demo_participation_env_def)

lemma demo_participation_counts:
  "count_blocks_by_epoch_and_producer demo_participation_env [(1, 7), (2, 0), (13, 7)]
    = Ok [8 \<mapsto> [7 \<mapsto> 1, 0 \<mapsto> 1], 9 \<mapsto> [7 \<mapsto> 1]]"
  by (simp add: count_blocks_by_epoch_and_producer_def demo_participation_epochs count_block_def Let_def)

subsection \<open>Properties\<close>

lemma participation_provider_order:
  fixes E :: "('dur, 'pool, 'k, 'p::linorder, 'd::linorder, 'ds) participation_env"
    and A :: "('api, 'id, 'p) participation_api"
  assumes "iteration_ok I" "iteration_ok J" "data_source_ok E"
    and ok: "participation_provider_new I E A slot = Ok r"
  shows "participation_provider_new J E A slot = Ok r"
proof (cases "\<exists>up_to blocks i. has_participation_api A = Inr True \<and> should_release_data A slot = Inr (Some up_to)
    \<and> api_blocks_produced A up_to = Inr blocks \<and> target_inherent_id A = Inr i")
  case False
  then show ?thesis using ok
    by (auto simp: participation_provider_new_def split: sum.splits bool.splits option.splits)
next
  case True
  then obtain up_to blocks i where A: "has_participation_api A = Inr True"
      "should_release_data A slot = Inr (Some up_to)" "api_blocks_produced A up_to = Inr blocks"
      "target_inherent_id A = Inr i" by blast
  obtain counts summaries where c:
      "count_blocks_by_epoch_and_producer E blocks = (Ok counts :: (('api, 'ds, 'p) participation_creation_error, _) outcome)"
      "collect (epoch_summaries I E) (iter_epochs I counts)
         = (Ok summaries :: (('api, 'ds, 'p) participation_creation_error, _) outcome)"
      "r = Active i (block_production_data_new up_to (concat summaries))"
    using ok by (auto simp: participation_provider_new_def A and_then_eq_Ok)
  have m: "count_map E blocks Map.empty = Some counts"
    using c(1) by (simp add: count_blocks_by_epoch_and_producer_def count_blocks_loop_Ok)
  obtain zss where z: "collect (epoch_summaries J E) (iter_epochs J counts)
      = (Ok zss :: (('api, 'ds, 'p) participation_creation_error, _) outcome)"
      "mset (concat zss) = mset (concat summaries)"
    using summaries_order_independent [OF assms(1-3) m c(2)] by blast
  have "block_production_data_new up_to (concat zss) = block_production_data_new up_to (concat summaries)"
    using z(2) by (rule block_production_data_new_cong)
  then show ?thesis by (simp add: participation_provider_new_def A c(1,3) z(1))
qed

text \<open>
  C34: the block participation data a node computes does not depend on the order in which its
  hash maps are iterated: if one node gets a result, every node with the same runtime state and
  an equivalent data source gets the same result.
\<close>

theorem participation_data_deterministic:
  fixes E :: "('dur, 'pool, 'k, 'p::linorder, 'd::linorder, 'ds) participation_env"
    and A :: "('api, 'id, 'p) participation_api"
  assumes "iteration_ok I" "iteration_ok J" "data_source_ok E"
    and ok: "participation_provider_new I E A slot = Ok r"
  shows "participation_provider_new J E A slot = Ok r"
  by (rule participation_provider_order [OF assms])

theorem participation_data_deterministic_witness:
  "participation_provider_new descending demo_participation_env demo_participation_api 20
    = Ok (Active ''rewards'' \<lparr>up_to_slot = 20, producer_participation =
        [(0, 1, 0, []), (7, 1, 5, [(4, 3), (9, 2)]), (7, 1, 5, [(4, 3), (9, 2)])]\<rparr>)"
proof (rule participation_data_deterministic [OF ascending_ok descending_ok])
  show "data_source_ok demo_participation_env" by (simp add: data_source_ok_def demo_participation_env_def)
  show "participation_provider_new ascending demo_participation_env demo_participation_api 20
    = Ok (Active ''rewards'' \<lparr>up_to_slot = 20, producer_participation =
        [(0, 1, 0, []), (7, 1, 5, [(4, 3), (9, 2)]), (7, 1, 5, [(4, 3), (9, 2)])]\<rparr>)"
    by (simp add: participation_provider_new_def demo_participation_api_def demo_participation_counts
        ascending_def entries_of_def epoch_summaries_def fetch_delegations_def production_breakdown_for_def
        demo_participation_fields block_production_data_new_def sort_delegators_def)
qed

text \<open>
  fewer than 2^32 blocks are counted exactly: the counter of an epoch and a producer is the
  number of its blocks whose slot belongs to the epoch, and a counter exists exactly for those
  that have a block.
\<close>

lemma count_blocks_exact:
  assumes "count_blocks_by_epoch_and_producer E blocks = Ok m" and "length blocks < 2 ^ 32"
  shows "unat (count_of m e p) = blocks_in E e p blocks
    \<and> (counted m e p \<longleftrightarrow> 0 < blocks_in E e p blocks)"
proof -
  have m: "count_map E blocks Map.empty = Some m"
    using assms(1) by (simp add: count_blocks_by_epoch_and_producer_def count_blocks_loop_Ok)
  have "blocks_in E e p blocks < 2 ^ 32" using blocks_in_le [of E e p blocks] assms(2) by simp
  then have "unat (count_of m e p) = blocks_in E e p blocks"
    using count_map_count [OF m, of e p] by (simp add: count_of_def unat_word_of_nat_small)
  moreover have "counted m e p \<longleftrightarrow> 0 < blocks_in E e p blocks"
    using count_map_counted [OF m, of e p] by (auto simp: counted_def blocks_in_def length_greater_0_conv filter_empty_conv)
  ultimately show ?thesis ..
qed

lemma count_blocks_exact_example:
  "unat (count_of [8 \<mapsto> [7 \<mapsto> 1, 0 \<mapsto> 1], 9 \<mapsto> [7 \<mapsto> 1]] 8 (7 :: nat))
      = blocks_in demo_participation_env 8 7 [(1, 7), (2, 0), (13, 7)]
    \<and> (counted [8 \<mapsto> [7 \<mapsto> 1, 0 \<mapsto> 1], 9 \<mapsto> [7 \<mapsto> 1]] 8 (7 :: nat)
      \<longleftrightarrow> 0 < blocks_in demo_participation_env 8 7 [(1, 7), (2, 0), (13, 7)])"
  by (rule count_blocks_exact [OF demo_participation_counts]) simp



end
