(* ===== verification/Governed_Map.thy ===== *)
theory Governed_Map
  imports Collections Inherents
begin

text \<open>
  The governed map: the pallet, \<open>toolkit/governed-map/pallet/src/lib.rs\<close>, and the inherent data
  provider, \<open>toolkit/governed-map/primitives/src/lib.rs\<close>.

  Keys are the UTF-8 bytes of the source's \<open>String\<close>s, in whose order a \<open>BTreeMap\<close> keeps them.
  The calls to \<open>OnGovernedMappingChange\<close> are recorded in the order they are made. The data source
  that observes Cardano is a parameter.
\<close>

type_synonym map_key = bytes
type_synonym map_value = bytes
type_synonym gm_changes = "(map_key \<times> map_value option) list"

record gm_scripts =
  validator_address :: bytes
  asset_policy_id :: bytes

datatype gm_inherent_error =
    InherentMissing
  | InherentNotExpected
  | IncorrectInherent
  | KeyExceedsBounds map_key
  | ValueExceedsBounds map_key map_value
  | TooManyChanges

datatype gm_error = GmBadOrigin | InherentCalledTwice | MainChainScriptNotSet

record 'origin gm_config =
  gm_max_changes :: u32
  gm_max_key_length :: u32
  gm_max_value_length :: u32
  gm_governance_origin :: "'origin \<Rightarrow> bool"

record gm_state =
  gm_initialized :: bool
  gm_last_update_block :: "u32 option"
  gm_mapping :: "map_key \<rightharpoonup> map_value"
  gm_main_chain_scripts :: "gm_scripts option"
  gm_notifications :: "(map_key \<times> map_value option \<times> map_value option) list"

datatype gm_call = RegisterChanges gm_changes | GmSetMainChainScripts gm_scripts

definition gm_genesis_build :: "gm_scripts option \<Rightarrow> gm_state" where
  "gm_genesis_build scripts = \<lparr>gm_initialized = False, gm_last_update_block = None, gm_mapping = Map.empty,
     gm_main_chain_scripts = scripts, gm_notifications = []\<rparr>"

subsection \<open>The inherent\<close>

definition gm_decode_inherent_data :: "gm_changes inherent_item \<Rightarrow> panic + gm_changes option" where
  "gm_decode_inherent_data data = (case data of Inl _ \<Rightarrow> Inl ExpectFailed | Inr d \<Rightarrow> Inr d)"

definition bound_key :: "'origin gm_config \<Rightarrow> map_key \<Rightarrow> gm_inherent_error + map_key" where
  "bound_key C key = (if length key \<le> unat (gm_max_key_length C) then Inr key else Inl (KeyExceedsBounds key))"

definition bound_value :: "'origin gm_config \<Rightarrow> map_key \<Rightarrow> map_value \<Rightarrow> gm_inherent_error + map_value" where
  "bound_value C key val =
     (if length val \<le> unat (gm_max_value_length C) then Inr val else Inl (ValueExceedsBounds key val))"

text \<open>\<open>BoundedBTreeMap::try_insert\<close>\<close>

definition changes_try_insert ::
  "'origin gm_config \<Rightarrow> map_key \<Rightarrow> map_value option \<Rightarrow> gm_changes \<Rightarrow> gm_changes option" where
  "changes_try_insert C key val changes =
     (if length changes < unat (gm_max_changes C) \<or> key \<in> fst ` set changes
      then Some (btree_insert key val changes) else None)"

fun bound_changes ::
  "'origin gm_config \<Rightarrow> gm_changes \<Rightarrow> gm_changes \<Rightarrow> (gm_inherent_error, gm_changes) outcome" where
  "bound_changes C [] changes = Ok changes"
| "bound_changes C ((key, new_value) # raw) changes =
     (case (case new_value of
          Some v \<Rightarrow> (case bound_value C key v of Inl e \<Rightarrow> Inl e | Inr v' \<Rightarrow> Inr (Some v'))
        | None \<Rightarrow> Inr None) of
        Inl e \<Rightarrow> Err e
      | Inr val \<Rightarrow>
          (case bound_key C key of
             Inl e \<Rightarrow> Err e
           | Inr k \<Rightarrow>
               (case changes_try_insert C k val changes of
                  None \<Rightarrow> Panic ExpectFailed
                | Some changes' \<Rightarrow> bound_changes C raw changes')))"

definition gm_create_inherent_or_err ::
  "'origin gm_config \<Rightarrow> gm_state \<Rightarrow> gm_changes inherent_item \<Rightarrow> (gm_inherent_error, gm_call option) outcome" where
  "gm_create_inherent_or_err C s data =
     (case gm_decode_inherent_data data of
        Inl p \<Rightarrow> Panic p
      | Inr None \<Rightarrow> Ok None
      | Inr (Some raw_changes) \<Rightarrow>
          if raw_changes = [] \<and> gm_initialized s then Ok None
          else if length raw_changes > unat (gm_max_changes C) then Err TooManyChanges
          else and_then (bound_changes C raw_changes []) (\<lambda>changes. Ok (Some (RegisterChanges changes))))"

definition gm_create_inherent ::
  "'origin gm_config \<Rightarrow> gm_state \<Rightarrow> gm_changes inherent_item \<Rightarrow> panic + gm_call option" where
  "gm_create_inherent C s data = (case gm_create_inherent_or_err C s data of
       Ok c \<Rightarrow> Inr c | Err _ \<Rightarrow> Inl ExpectFailed | Panic p \<Rightarrow> Inl p)"

definition gm_check_inherent ::
  "'origin gm_config \<Rightarrow> gm_state \<Rightarrow> gm_call \<Rightarrow> gm_changes inherent_item \<Rightarrow> panic + gm_inherent_error option" where
  "gm_check_inherent C s call data = (case gm_create_inherent C s data of
       Inl p \<Rightarrow> Inl p
     | Inr None \<Rightarrow> Inr (Some InherentNotExpected)
     | Inr (Some expected) \<Rightarrow> Inr (if call \<noteq> expected then Some IncorrectInherent else None))"

definition gm_is_inherent :: "gm_call \<Rightarrow> bool" where
  "gm_is_inherent call = (case call of RegisterChanges _ \<Rightarrow> True | _ \<Rightarrow> False)"

definition gm_is_inherent_required ::
  "gm_state \<Rightarrow> gm_changes inherent_item \<Rightarrow> panic + (gm_inherent_error + gm_inherent_error option)" where
  "gm_is_inherent_required s data = (case gm_decode_inherent_data data of
       Inl p \<Rightarrow> Inl p
     | Inr None \<Rightarrow> Inr (Inr None)
     | Inr (Some changes) \<Rightarrow>
         if changes = [] \<and> gm_initialized s then Inr (Inr None) else Inr (Inr (Some InherentMissing)))"

subsection \<open>The calls\<close>

definition apply_change :: "map_key \<times> map_value option \<Rightarrow> gm_state \<Rightarrow> gm_state" where
  "apply_change kv s = (let (key, val) = kv; old_value = gm_mapping s key in
     s\<lparr>gm_mapping := (gm_mapping s)(key := val),
       gm_notifications := gm_notifications s @ [(key, val, old_value)]\<rparr>)"

definition register_changes :: "bool \<Rightarrow> u32 \<Rightarrow> gm_changes \<Rightarrow> gm_state \<Rightarrow> gm_error + gm_state" where
  "register_changes origin_is_none current_block changes s =
     (if \<not> origin_is_none then Inl GmBadOrigin
      else if \<not> (case gm_last_update_block s of None \<Rightarrow> True | Some b \<Rightarrow> b < current_block)
      then Inl InherentCalledTwice
      else let s = s\<lparr>gm_last_update_block := Some current_block\<rparr> in
        if gm_main_chain_scripts s = None then Inl MainChainScriptNotSet
        else let s = (if gm_initialized s then s else s\<lparr>gm_initialized := True\<rparr>) in
          Inr (fold apply_change changes s))"

definition gm_set_main_chain_scripts ::
  "'origin gm_config \<Rightarrow> 'origin \<Rightarrow> gm_scripts \<Rightarrow> gm_state \<Rightarrow> gm_error + gm_state" where
  "gm_set_main_chain_scripts C origin new_scripts s =
     (if \<not> gm_governance_origin C origin then Inl GmBadOrigin
      else Inr (s\<lparr>gm_main_chain_scripts := Some new_scripts, gm_initialized := False\<rparr>))"

definition get_key_value :: "map_key \<Rightarrow> gm_state \<Rightarrow> map_value option" where
  "get_key_value key s = gm_mapping s key"

definition get_all_key_value_pairs :: "gm_state \<Rightarrow> (map_key \<times> map_value) list" where
  "get_all_key_value_pairs s = entries_of (gm_mapping s)"

subsection \<open>The inherent data provider\<close>

datatype gm_provider = GmInert | GmActiveV1 gm_changes

datatype ('api, 'ds) gm_creation_error =
    GmApiError 'api
  | GmDataSourceError 'ds
  | GmUnsupportedPalletVersion u32 u32

text \<open>The runtime API at the parent block.\<close>

record 'api gm_api =
  gm_has_api :: "'api + bool"
  gm_api_pallet_version :: "'api + u32"
  gm_api_main_chain_scripts :: "'api + gm_scripts option"
  gm_api_is_initialized :: "'api + bool"
  gm_api_current_state :: "'api + (map_key \<times> map_value) list"

text \<open>The data source: the state of the map after a Cardano block, and the changes of a range of blocks.\<close>

record ('hash, 'ds) gm_data_source =
  get_state_at_block :: "'hash \<Rightarrow> gm_scripts \<Rightarrow> 'ds + (map_key \<times> map_value) list"
  get_mapping_changes :: "'hash option \<Rightarrow> 'hash \<Rightarrow> gm_scripts \<Rightarrow> 'ds + (map_key \<times> map_value option) list"

definition changes_since :: "(map_key \<times> map_value option) list \<Rightarrow> gm_changes" where
  "changes_since raw_changes = fold (\<lambda>(key, val). btree_insert key val) raw_changes []"

definition deleted_keys ::
  "(map_key \<times> map_value) list \<Rightarrow> (map_key \<times> map_value) list \<Rightarrow> gm_changes \<Rightarrow> gm_changes" where
  "deleted_keys current_state new_state changes =
     fold (\<lambda>key changes. if map_of new_state key = None then btree_insert key None changes else changes)
       (map fst current_state) changes"

definition changed_values ::
  "(map_key \<times> map_value) list \<Rightarrow> (map_key \<times> map_value) list \<Rightarrow> gm_changes \<Rightarrow> gm_changes" where
  "changed_values current_state new_state changes =
     fold (\<lambda>(key, val) changes.
         if map_of current_state key \<noteq> Some val then btree_insert key (Some val) changes else changes)
       new_state changes"

definition gm_provider_new_v1 ::
  "('hash, 'ds) gm_data_source \<Rightarrow> 'api gm_api \<Rightarrow> 'hash \<Rightarrow> 'hash option
     \<Rightarrow> ('api, 'ds) gm_creation_error + gm_provider" where
  "gm_provider_new_v1 D A mc_hash parent_mc_hash =
     (case gm_api_main_chain_scripts A of
        Inl e \<Rightarrow> Inl (GmApiError e)
      | Inr None \<Rightarrow> Inr GmInert
      | Inr (Some scripts) \<Rightarrow>
          (case gm_api_is_initialized A of
             Inl e \<Rightarrow> Inl (GmApiError e)
           | Inr True \<Rightarrow>
               (case get_mapping_changes D parent_mc_hash mc_hash scripts of
                  Inl e \<Rightarrow> Inl (GmDataSourceError e)
                | Inr raw_changes \<Rightarrow> Inr (GmActiveV1 (changes_since raw_changes)))
           | Inr False \<Rightarrow>
               (case get_state_at_block D mc_hash scripts of
                  Inl e \<Rightarrow> Inl (GmDataSourceError e)
                | Inr new_state \<Rightarrow>
                    (case gm_api_current_state A of
                       Inl e \<Rightarrow> Inl (GmApiError e)
                     | Inr current_state \<Rightarrow>
                         Inr (GmActiveV1 (changed_values current_state new_state
                           (deleted_keys current_state new_state [])))))))"

definition gm_provider_new ::
  "('hash, 'ds) gm_data_source \<Rightarrow> 'api gm_api \<Rightarrow> 'hash \<Rightarrow> 'hash option
     \<Rightarrow> ('api, 'ds) gm_creation_error + gm_provider" where
  "gm_provider_new D A mc_hash parent_mc_hash =
     (case gm_has_api A of
        Inl e \<Rightarrow> Inl (GmApiError e)
      | Inr False \<Rightarrow> Inr GmInert
      | Inr True \<Rightarrow>
          (case gm_api_pallet_version A of
             Inl e \<Rightarrow> Inl (GmApiError e)
           | Inr v \<Rightarrow> if v = 1 then gm_provider_new_v1 D A mc_hash parent_mc_hash
               else Inl (GmUnsupportedPalletVersion v 1)))"

definition gm_provide_inherent_data :: "gm_provider \<Rightarrow> gm_changes inherent_item" where
  "gm_provide_inherent_data provider = (case provider of
       GmActiveV1 data \<Rightarrow> Inr (Some data)
     | GmInert \<Rightarrow> Inr None)"

text \<open>The runtime API the demo runtime exports, on the state of the pallet.\<close>

definition gm_runtime_api :: "gm_state \<Rightarrow> unit gm_api" where
  "gm_runtime_api s = \<lparr>gm_has_api = Inr True, gm_api_pallet_version = Inr 1,
     gm_api_main_chain_scripts = Inr (gm_main_chain_scripts s), gm_api_is_initialized = Inr (gm_initialized s),
     gm_api_current_state = Inr (get_all_key_value_pairs s)\<rparr>"

subsection \<open>Applying changes\<close>

definition update :: "('k \<rightharpoonup> 'v) \<Rightarrow> ('k \<rightharpoonup> 'v option) \<Rightarrow> ('k \<rightharpoonup> 'v)" where
  "update m changes = (\<lambda>k. case changes k of None \<Rightarrow> m k | Some v \<Rightarrow> v)"

definition replay :: "('k \<times> 'v option) list \<Rightarrow> ('k \<rightharpoonup> 'v) \<Rightarrow> ('k \<rightharpoonup> 'v)" where
  "replay changes m = fold (\<lambda>(k, v) m. m(k := v)) changes m"

lemma update_empty [simp]: "update m Map.empty = m"
  by (simp add: update_def)

lemma update_upd [simp]: "update m (c(k \<mapsto> v)) = (update m c)(k := v)"
  by (auto simp: update_def fun_eq_iff)

lemma replay_simps [simp]: "replay [] m = m" "replay ((k, v) # cs) m = replay cs (m(k := v))"
  by (simp_all add: replay_def)

lemma replay_distinct:
  assumes "distinct (map fst cs)"
  shows "replay cs m = update m (map_of cs)"
  using assms
proof (induction cs arbitrary: m)
  case Nil
  then show ?case by simp
next
  case (Cons c cs)
  obtain k v where c: "c = (k, v)" by (cases c)
  have "map_of cs k = None" using Cons.prems by (auto simp: c map_of_eq_None_iff)
  then show ?case using Cons by (auto simp: c update_def fun_eq_iff split: option.splits)
qed

lemma replay_btree: "btree_wf cs \<Longrightarrow> replay cs m = update m (map_of cs)"
  by (intro replay_distinct btree_wf_distinct)

lemma apply_changes_mapping: "gm_mapping (fold apply_change cs s) = replay cs (gm_mapping s)"
  by (induction cs arbitrary: s) (auto simp: apply_change_def Let_def split_beta)

lemma apply_changes_frame [simp]:
  "gm_initialized (fold apply_change cs s) = gm_initialized s"
  "gm_last_update_block (fold apply_change cs s) = gm_last_update_block s"
  "gm_main_chain_scripts (fold apply_change cs s) = gm_main_chain_scripts s"
  by (induction cs arbitrary: s) (auto simp: apply_change_def Let_def split_beta)

lemma fold_btree_insert:
  assumes "btree_wf acc"
  shows "btree_wf (fold (\<lambda>(k, v). btree_insert k v) cs acc)
    \<and> update m (map_of (fold (\<lambda>(k, v). btree_insert k v) cs acc)) = replay cs (update m (map_of acc))"
  using assms by (induction cs arbitrary: acc) auto

lemma changes_since_wf: "btree_wf (changes_since cs)"
  using fold_btree_insert [of "[]" cs] by (simp add: changes_since_def)

lemma update_changes_since: "update m (map_of (changes_since cs)) = replay cs m"
  using fold_btree_insert [of "[]" cs m] by (simp add: changes_since_def)

subsection \<open>The difference of two states\<close>

lemma deleted_keys_map:
  assumes "btree_wf acc"
  shows "btree_wf (deleted_keys cur st acc)
    \<and> map_of (deleted_keys cur st acc) =
      (\<lambda>k. if k \<in> fst ` set cur \<and> map_of st k = None then Some None else map_of acc k)"
  using assms unfolding deleted_keys_def
  by (induction cur arbitrary: acc) (auto simp: fun_eq_iff)

lemma changed_values_map:
  assumes "btree_wf acc" and "distinct (map fst st)"
  shows "btree_wf (changed_values cur st acc)
    \<and> map_of (changed_values cur st acc) =
      (\<lambda>k. if map_of st k \<noteq> None \<and> map_of cur k \<noteq> map_of st k then Some (map_of st k) else map_of acc k)"
  using assms
proof (induction st arbitrary: acc)
  case Nil
  then show ?case by (simp add: changed_values_def)
next
  case (Cons c st)
  obtain k v where c: "c = (k, v)" by (cases c)
  let ?acc = "if map_of cur k \<noteq> Some v then btree_insert k (Some v) acc else acc"
  have k: "map_of st k = None" using Cons.prems(2) by (auto simp: c map_of_eq_None_iff)
  have step: "changed_values cur (c # st) acc = changed_values cur st ?acc"
    by (simp add: changed_values_def c)
  have "btree_wf ?acc" using Cons.prems(1) by simp
  note IH = Cons.IH [OF this]
  have d: "distinct (map fst st)" using Cons.prems(2) by simp
  show ?case unfolding step using IH [OF d] k Cons.prems(1) by (auto simp: c fun_eq_iff)
qed

lemma state_difference:
  fixes cur st :: "(map_key \<times> map_value) list"
  assumes "distinct (map fst st)"
  defines "d \<equiv> changed_values cur st (deleted_keys cur st [])"
  shows "btree_wf d \<and> update (map_of cur) (map_of d) = map_of st"
proof -
  have del: "btree_wf (deleted_keys cur st [])" "map_of (deleted_keys cur st [])
      = (\<lambda>k. if k \<in> fst ` set cur \<and> map_of st k = None then Some None else None)"
    using deleted_keys_map [of "[]" cur st] by (simp_all cong: if_cong)
  have d: "btree_wf d" "map_of d = (\<lambda>k. if map_of st k \<noteq> None \<and> map_of cur k \<noteq> map_of st k then Some (map_of st k)
      else if k \<in> fst ` set cur \<and> map_of st k = None then Some None else None)"
    using changed_values_map [OF del(1) assms(1), of cur] by (simp_all add: d_def del(2) cong: if_cong)
  have "update (map_of cur) (map_of d) k = map_of st k" for k
    using map_of_eq_None_iff [of cur k] by (auto simp: update_def d(2))
  then show ?thesis using d(1) by blast
qed

subsection \<open>Bounds\<close>

definition change_fits :: "'origin gm_config \<Rightarrow> map_key \<times> map_value option \<Rightarrow> bool" where
  "change_fits C kv \<longleftrightarrow> length (fst kv) \<le> unat (gm_max_key_length C)
     \<and> (case snd kv of None \<Rightarrow> True | Some v \<Rightarrow> length v \<le> unat (gm_max_value_length C))"

lemma btree_insert_last:
  "\<forall>k' \<in> fst ` set m. k' < k \<Longrightarrow> btree_insert k v m = m @ [(k, v)]"
  by (induction k v m rule: btree_insert.induct) auto

lemma bound_changes_exact:
  assumes "btree_wf (acc @ raw)" and "length (acc @ raw) \<le> unat (gm_max_changes C)"
  shows "if list_all (change_fits C) raw then bound_changes C raw acc = Ok (acc @ raw)
    else \<exists>e. bound_changes C raw acc = Err e"
  using assms
proof (induction raw arbitrary: acc)
  case Nil
  then show ?case by simp
next
  case (Cons r raw)
  obtain k v where r: "r = (k, v)" by (cases r)
  have "\<forall>k' \<in> fst ` set acc. k' < k"
    using Cons.prems(1) by (auto simp: r btree_wf_def sorted_wrt_append)
  then have ins: "btree_insert k v acc = acc @ [(k, v)]" by (rule btree_insert_last)
  have room: "length acc < unat (gm_max_changes C)" using Cons.prems(2) by simp
  have IH: "if list_all (change_fits C) raw then bound_changes C raw (acc @ [(k, v)]) = Ok ((acc @ [(k, v)]) @ raw)
      else \<exists>e. bound_changes C raw (acc @ [(k, v)]) = Err e"
    using Cons.prems by (intro Cons.IH) (simp_all add: r)
  show ?case
  proof (cases "change_fits C r")
    case True
    then have "bound_changes C (r # raw) acc = bound_changes C raw (acc @ [(k, v)])"
      using ins room by (auto simp: r change_fits_def bound_key_def bound_value_def changes_try_insert_def split: option.splits)
    then show ?thesis using IH True by (auto simp: r)
  next
    case False
    then show ?thesis
      by (auto simp: r change_fits_def bound_key_def bound_value_def split: option.splits)
  qed
qed

lemma gm_create_inherent_eq:
  assumes "btree_wf raw"
  shows "gm_create_inherent C s (Inr (Some raw)) =
    (if raw = [] \<and> gm_initialized s then Inr None
     else if length raw \<le> unat (gm_max_changes C) \<and> list_all (change_fits C) raw
     then Inr (Some (RegisterChanges raw)) else Inl ExpectFailed)"
  using bound_changes_exact [of "[]" raw C] assms
  by (auto simp: gm_create_inherent_def gm_create_inherent_or_err_def gm_decode_inherent_data_def)

interpretation gm: inherent_pallet "gm_create_inherent C" "gm_check_inherent C" "gm_is_inherent_required"
  by unfold_locales
    (auto simp: gm_check_inherent_def gm_is_inherent_required_def gm_create_inherent_def
      gm_create_inherent_or_err_def gm_decode_inherent_data_def and_then_eq_Ok
      split: sum.splits option.splits outcome.splits if_splits)

subsection \<open>Blocks\<close>

datatype ('api, 'ds) gm_block_error =
    GmProviderFailed "('api, 'ds) gm_creation_error"
  | GmInherentFailed gm_error

text \<open>
  A block that refers to the Cardano block \<open>mc_hash\<close>: the provider runs on the state of the parent,
  and the inherent it leads to is dispatched (a mandatory dispatch that fails makes the block
  invalid). Governance may then replace the main chain scripts.
\<close>

definition gm_author_block ::
  "'origin gm_config \<Rightarrow> ('hash, 'ds) gm_data_source \<Rightarrow> 'hash \<Rightarrow> 'hash option \<Rightarrow> u32 \<Rightarrow> gm_state
     \<Rightarrow> ((unit, 'ds) gm_block_error, gm_state) outcome" where
  "gm_author_block C D mc_hash parent_mc_hash block s =
     (case gm_provider_new D (gm_runtime_api s) mc_hash parent_mc_hash of
        Inl e \<Rightarrow> Err (GmProviderFailed e)
      | Inr provider \<Rightarrow>
          (case gm_create_inherent C s (gm_provide_inherent_data provider) of
             Inl p \<Rightarrow> Panic p
           | Inr (Some (RegisterChanges changes)) \<Rightarrow>
               (case register_changes True block changes s of
                  Inl e \<Rightarrow> Err (GmInherentFailed e)
                | Inr s' \<Rightarrow> Ok s')
           | Inr _ \<Rightarrow> Ok s))"

fun gm_governance :: "'origin gm_config \<Rightarrow> ('origin \<times> gm_scripts) list \<Rightarrow> gm_state \<Rightarrow> gm_state" where
  "gm_governance C [] s = s"
| "gm_governance C ((origin, scripts) # calls) s =
     (case gm_set_main_chain_scripts C origin scripts s of
        Inl _ \<Rightarrow> gm_governance C calls s
      | Inr s' \<Rightarrow> gm_governance C calls s')"

inductive gm_reachable ::
  "'origin gm_config \<Rightarrow> ('hash, 'ds) gm_data_source \<Rightarrow> gm_scripts option \<Rightarrow> gm_state \<Rightarrow> 'hash option \<Rightarrow> u32 \<Rightarrow> bool"
  for C D scripts where
  gm_genesis: "gm_reachable C D scripts (gm_genesis_build scripts) None 0"
| gm_block: "gm_reachable C D scripts s parent n \<Longrightarrow> n < n + 1
    \<Longrightarrow> gm_author_block C D mc_hash parent (n + 1) s = Ok s'
    \<Longrightarrow> gm_reachable C D scripts (gm_governance C calls s') (Some mc_hash) (n + 1)"

text \<open>
  What the data source documents: a state has one value per key, and the changes of a range of
  blocks, replayed from the oldest to the newest, lead from the state at its lower bound to the
  state at its upper bound.
\<close>

definition gm_source_ok :: "('hash, 'ds) gm_data_source \<Rightarrow> bool" where
  "gm_source_ok D \<longleftrightarrow>
     (\<forall>h scripts st. get_state_at_block D h scripts = Inr st \<longrightarrow> btree_wf st)
   \<and> (\<forall>p h scripts st cs. get_state_at_block D p scripts = Inr st \<longrightarrow> get_mapping_changes D (Some p) h scripts = Inr cs
        \<longrightarrow> (\<exists>st'. get_state_at_block D h scripts = Inr st' \<and> map_of st' = replay cs (map_of st)))"

text \<open>The pallet holds the state of Cardano at the block last referred to.\<close>

definition gm_synced :: "('hash, 'ds) gm_data_source \<Rightarrow> 'hash option \<Rightarrow> gm_state \<Rightarrow> bool" where
  "gm_synced D mc_last s \<longleftrightarrow> (\<exists>h scripts st. mc_last = Some h \<and> gm_main_chain_scripts s = Some scripts
     \<and> get_state_at_block D h scripts = Inr st \<and> gm_mapping s = map_of st)"

definition gm_inv :: "('hash, 'ds) gm_data_source \<Rightarrow> 'hash option \<Rightarrow> u32 \<Rightarrow> gm_state \<Rightarrow> bool" where
  "gm_inv D mc_last n s \<longleftrightarrow> finite (dom (gm_mapping s))
     \<and> (\<forall>b. gm_last_update_block s = Some b \<longrightarrow> b \<le> n)
     \<and> (gm_initialized s \<longrightarrow> gm_synced D mc_last s)"

lemma gm_provider_runtime:
  "gm_provider_new D (gm_runtime_api s) h p =
    (case gm_main_chain_scripts s of
       None \<Rightarrow> Inr GmInert
     | Some scripts \<Rightarrow>
         (if gm_initialized s
          then (case get_mapping_changes D p h scripts of
              Inl e \<Rightarrow> Inl (GmDataSourceError e)
            | Inr cs \<Rightarrow> Inr (GmActiveV1 (changes_since cs)))
          else (case get_state_at_block D h scripts of
              Inl e \<Rightarrow> Inl (GmDataSourceError e)
            | Inr st \<Rightarrow> Inr (GmActiveV1 (changed_values (entries_of (gm_mapping s)) st
                 (deleted_keys (entries_of (gm_mapping s)) st []))))))"
  by (auto simp: gm_provider_new_def gm_provider_new_v1_def gm_runtime_api_def get_all_key_value_pairs_def
      split: option.splits sum.splits)

text \<open>The changes provided are ordered, and lead to the state at the Cardano block of the new block.\<close>

lemma gm_provided_changes:
  assumes "gm_source_ok D" "gm_inv D mc_last n s"
    and "gm_provider_new D (gm_runtime_api s) h mc_last = Inr (GmActiveV1 cs)"
  shows "\<exists>scripts st. gm_main_chain_scripts s = Some scripts \<and> get_state_at_block D h scripts = Inr st
    \<and> btree_wf cs \<and> update (gm_mapping s) (map_of cs) = map_of st"
proof -
  have fin: "finite (dom (gm_mapping s))" using assms(2) by (simp add: gm_inv_def)
  obtain scripts where sc: "gm_main_chain_scripts s = Some scripts"
    using assms(3) by (auto simp: gm_provider_runtime split: option.splits)
  show ?thesis
  proof (cases "gm_initialized s")
    case True
    then obtain raw where raw: "get_mapping_changes D mc_last h scripts = Inr raw" "cs = changes_since raw"
      using assms(3) sc by (cases "get_mapping_changes D mc_last h scripts") (auto simp: gm_provider_runtime)
    obtain p st where p: "mc_last = Some p" "get_state_at_block D p scripts = Inr st" "gm_mapping s = map_of st"
      using assms(2) True sc by (auto simp: gm_inv_def gm_synced_def)
    obtain st' where "get_state_at_block D h scripts = Inr st'" "map_of st' = replay raw (map_of st)"
      using assms(1) p(1,2) raw(1) unfolding gm_source_ok_def by blast
    then show ?thesis using sc changes_since_wf by (simp add: raw(2) p(3) update_changes_since)
  next
    case False
    then obtain st where st: "get_state_at_block D h scripts = Inr st"
        "cs = changed_values (entries_of (gm_mapping s)) st (deleted_keys (entries_of (gm_mapping s)) st [])"
      using assms(3) sc by (cases "get_state_at_block D h scripts") (auto simp: gm_provider_runtime)
    have "distinct (map fst st)" using assms(1) st(1) unfolding gm_source_ok_def by (metis btree_wf_distinct)
    from state_difference [OF this, of "entries_of (gm_mapping s)"]
    show ?thesis using sc st fin by simp
  qed
qed

lemma gm_author_block_synced:
  assumes "gm_source_ok D" "gm_inv D mc_last n s" "n < n + 1"
    and block: "gm_author_block C D h mc_last (n + 1) s = Ok s'"
  shows "gm_main_chain_scripts s' = gm_main_chain_scripts s
    \<and> (if gm_main_chain_scripts s = None then s' = s else gm_initialized s' \<and> gm_synced D (Some h) s')
    \<and> finite (dom (gm_mapping s')) \<and> (\<forall>b. gm_last_update_block s' = Some b \<longrightarrow> b \<le> n + 1)"
proof (cases "gm_provider_new D (gm_runtime_api s) h mc_last")
  case (Inl e)
  then show ?thesis using block by (simp add: gm_author_block_def)
next
  case (Inr provider)
  have inv: "finite (dom (gm_mapping s))" "\<forall>b. gm_last_update_block s = Some b \<longrightarrow> b \<le> n + 1"
    using assms(2,3) by (auto simp: gm_inv_def)
  show ?thesis
  proof (cases provider)
    case GmInert
    then have "gm_main_chain_scripts s = None" "s' = s"
      using Inr block by (auto simp: gm_provider_runtime gm_author_block_def gm_provide_inherent_data_def
          gm_create_inherent_def gm_create_inherent_or_err_def gm_decode_inherent_data_def
          split: option.splits if_splits sum.splits)
    then show ?thesis using inv by simp
  next
    case (GmActiveV1 cs)
    obtain scripts st where st: "gm_main_chain_scripts s = Some scripts" "get_state_at_block D h scripts = Inr st"
        "btree_wf cs" "update (gm_mapping s) (map_of cs) = map_of st"
      using gm_provided_changes [OF assms(1,2)] Inr GmActiveV1 by blast
    note run = block [unfolded gm_author_block_def Inr sum.case GmActiveV1 gm_provide_inherent_data_def
        gm_provider.case gm_create_inherent_eq [OF st(3)]]
    show ?thesis
    proof (cases "cs = [] \<and> gm_initialized s")
      case True
      then have "s' = s" using run by simp
      then show ?thesis using True st inv by (auto simp: gm_synced_def)
    next
      case False
      then have reg: "register_changes True (n + 1) cs s = Inr s'"
        using run by (auto split: if_splits sum.splits)
      then have s': "gm_mapping s' = map_of st" "gm_initialized s'" "gm_main_chain_scripts s' = Some scripts"
          "gm_last_update_block s' = Some (n + 1)"
        using st(1) by (auto simp: register_changes_def apply_changes_mapping replay_btree [OF st(3)] st(4) Let_def
            split: if_splits)
      then show ?thesis using st(1,2) by (auto simp: gm_synced_def finite_dom_map_of)
    qed
  qed
qed

lemma gm_governance_inv:
  assumes "gm_inv D mc_last n s"
  shows "gm_inv D mc_last n (gm_governance C calls s)"
  using assms
proof (induction C calls s rule: gm_governance.induct)
  case (1 C s)
  then show ?case by simp
next
  case (2 C origin scripts calls s)
  show ?case
  proof (cases "gm_governance_origin C origin")
    case True
    let ?s = "s\<lparr>gm_main_chain_scripts := Some scripts, gm_initialized := False\<rparr>"
    have "gm_set_main_chain_scripts C origin scripts s = Inr ?s"
      using True by (simp add: gm_set_main_chain_scripts_def)
    moreover have "gm_inv D mc_last n ?s" using 2(3) by (auto simp: gm_inv_def)
    ultimately show ?thesis using 2(2) by simp
  next
    case False
    then show ?thesis using 2(1,3) by (simp add: gm_set_main_chain_scripts_def)
  qed
qed

lemma gm_reachable_inv:
  assumes "gm_source_ok D" "gm_reachable C D scripts s mc_last n"
  shows "gm_inv D mc_last n s"
  using assms(2)
proof (induction rule: gm_reachable.induct)
  case gm_genesis
  then show ?case by (simp add: gm_inv_def gm_genesis_build_def)
next
  case (gm_block s parent n mc_hash s' calls)
  have "gm_inv D (Some mc_hash) (n + 1) s'"
    using gm_author_block_synced [OF assms(1) gm_block.IH gm_block.hyps(2,3)] gm_block.IH
    by (auto simp: gm_inv_def gm_synced_def split: if_splits)
  then show ?case by (rule gm_governance_inv)
qed

subsection \<open>Properties\<close>

text \<open>
  After every block, the mapping in the pallet is the state of the governed map on Cardano at
  the Cardano block the block refers to, for the main chain scripts in force before the block:
  both when the pallet is initialized (only the changes since the parent's Cardano block are
  registered) and when it starts, or starts again after the scripts changed (the difference to
  what the pallet holds is registered).
\<close>

lemma governed_map_tracks_cardano:
  assumes "gm_source_ok D" and "gm_reachable C D genesis_scripts s mc_last n" and "n < n + 1"
    and "gm_author_block C D mc_hash mc_last (n + 1) s = Ok s'" and "gm_main_chain_scripts s = Some scripts"
  shows "\<exists>st. get_state_at_block D mc_hash scripts = Inr st \<and> gm_mapping s' = map_of st \<and> gm_initialized s'
    \<and> gm_main_chain_scripts s' = Some scripts"
  using gm_author_block_synced [OF assms(1) gm_reachable_inv [OF assms(1,2)] assms(3,4)] assms(5)
  by (auto simp: gm_synced_def)


text \<open>A governed map with one key, whose value is the number of the Cardano block.\<close>

definition demo_gm_source :: "(nat, unit) gm_data_source" where
  "demo_gm_source = \<lparr>get_state_at_block = (\<lambda>h _. Inr [([1], [word_of_nat h])]),
     get_mapping_changes = (\<lambda>_ h _. Inr [([1], Some [word_of_nat h])])\<rparr>"

definition demo_gm_config :: "bool gm_config" where
  "demo_gm_config = \<lparr>gm_max_changes = 16, gm_max_key_length = 64, gm_max_value_length = 512,
     gm_governance_origin = (\<lambda>root. root)\<rparr>"

definition demo_gm_scripts :: gm_scripts where
  "demo_gm_scripts = \<lparr>validator_address = [7], asset_policy_id = [8]\<rparr>"

definition demo_gm_synced :: "nat \<Rightarrow> gm_state" where
  "demo_gm_synced h = \<lparr>gm_initialized = True, gm_last_update_block = Some 1, gm_mapping = [[1] \<mapsto> [word_of_nat h]],
     gm_main_chain_scripts = Some demo_gm_scripts, gm_notifications = [([1], Some [word_of_nat h], None)]\<rparr>"

lemma demo_gm_source_ok: "gm_source_ok demo_gm_source"
  by (simp add: gm_source_ok_def demo_gm_source_def btree_wf_def)

lemma demo_gm_first_block:
  "gm_author_block demo_gm_config demo_gm_source 5 None 1 (gm_genesis_build (Some demo_gm_scripts))
    = Ok (demo_gm_synced 5)"
  by (simp add: gm_author_block_def gm_provider_runtime gm_genesis_build_def demo_gm_source_def entries_of_def
      changed_values_def deleted_keys_def gm_provide_inherent_data_def gm_create_inherent_eq btree_wf_def
      demo_gm_config_def change_fits_def register_changes_def apply_change_def demo_gm_synced_def)

lemma demo_gm_reachable:
  "gm_reachable demo_gm_config demo_gm_source (Some demo_gm_scripts) (demo_gm_synced 5) (Some 5) 1"
  using gm_block [OF gm_genesis, of demo_gm_config demo_gm_source 5 "Some demo_gm_scripts" "demo_gm_synced 5" "[]"]
    demo_gm_first_block by simp


end
