(* ===== verification/Db_Sync.thy ===== *)
theory Db_Sync
  imports Domain Collections
begin

text \<open>
  The queries of the Db-Sync data sources, \<open>toolkit/data-sources/db-sync/src/db_model.rs\<close>, on the
  tables of the Db-Sync database.

  A table is the list of its rows; a column that may be \<open>NULL\<close> is an option, and a comparison with
  \<open>NULL\<close> selects nothing. An inner join is a generator with its condition as a guard, an outer join is
  \<open>left_join\<close>, \<open>ORDER BY\<close> is a stable sort, and \<open>UNION\<close> removes duplicate rows. The JSON of the
  \<open>datum\<close> table is represented by the \<open>PlutusData\<close> it decodes to, of the type \<open>'pd\<close> of the library that
  decodes it. A pool that cannot be reached makes
  every query fail.
\<close>

subsection \<open>Tables\<close>

record block_row =
  block_id :: nat
  block_no_col :: "u32 option"
  block_hash_col :: bytes
  block_epoch_no_col :: "u32 option"
  block_slot_no_col :: "u64 option"
  block_time_col :: int

record tx_row =
  tx_id :: nat
  tx_hash_col :: bytes
  tx_block_id :: nat
  tx_block_index :: u32

record tx_out_row =
  out_id :: nat
  out_tx_id :: nat
  out_index :: u16
  out_address :: bytes
  out_data_hash :: "bytes option"
  out_consumed_by_tx_id :: "nat option"

record tx_in_row =
  in_id :: nat
  in_tx_in_id :: nat
  in_tx_out_id :: nat
  in_tx_out_index :: u16

record ma_tx_out_row =
  ma_ident :: nat
  ma_tx_out_id :: nat
  ma_quantity :: nat

record multi_asset_row =
  asset_row_id :: nat
  asset_policy_col :: bytes
  asset_name_col :: bytes

record 'pd datum_row =
  datum_hash_col :: bytes
  datum_value_col :: 'pd

record epoch_stake_row =
  es_epoch_no :: u32
  es_addr_id :: nat
  es_pool_id :: nat
  es_amount :: nat

record pool_hash_row =
  ph_id :: nat
  ph_hash_raw :: bytes

record stake_address_row =
  sa_id :: nat
  sa_hash_raw :: bytes
  sa_script_hash :: "bytes option"

record epoch_param_row =
  ep_epoch_no :: u32
  ep_nonce :: bytes

record 'pd db_tables =
  block_table :: "block_row list"
  tx_table :: "tx_row list"
  tx_out_table :: "tx_out_row list"
  tx_in_table :: "tx_in_row list"
  ma_tx_out_table :: "ma_tx_out_row list"
  multi_asset_table :: "multi_asset_row list"
  datum_table :: "'pd datum_row list"
  epoch_stake_table :: "epoch_stake_row list"
  pool_hash_table :: "pool_hash_row list"
  stake_address_table :: "stake_address_row list"
  epoch_param_table :: "epoch_param_row list"

datatype sqlx_error = PoolError | ColumnDecode

type_synonym 'pd pg_pool = "sqlx_error + 'pd db_tables"

subsection \<open>Fragments of SQL\<close>

definition left_join :: "'a list \<Rightarrow> ('a \<Rightarrow> bool) \<Rightarrow> 'a option list" where
  "left_join rows on_cond = (case filter on_cond rows of [] \<Rightarrow> [None] | rs \<Rightarrow> map Some rs)"

definition null_le :: "'a::linorder option \<Rightarrow> 'a \<Rightarrow> bool" where
  "null_le a b = (case a of None \<Rightarrow> False | Some x \<Rightarrow> x \<le> b)"

definition null_gt :: "'a::linorder option \<Rightarrow> 'a \<Rightarrow> bool" where
  "null_gt a b = (case a of None \<Rightarrow> False | Some x \<Rightarrow> x > b)"

definition order_by_desc :: "('a \<Rightarrow> 'k::linorder) \<Rightarrow> 'a list \<Rightarrow> 'a list" where
  "order_by_desc f rows = rev (sort_key f rows)"

definition group_by :: "('k \<times> 'v) list \<Rightarrow> ('k \<times> 'v list) list" where
  "group_by rows = map (\<lambda>k. (k, map snd (filter (\<lambda>r. fst r = k) rows))) (remdups (map fst rows))"

text \<open>Decoding the rows of a result, and taking its first row.\<close>

fun decode_rows :: "(sqlx_error + 'r) list \<Rightarrow> sqlx_error + 'r list" where
  "decode_rows [] = Inr []"
| "decode_rows (r # rs) = (case r of Inl e \<Rightarrow> Inl e | Inr x \<Rightarrow> map_sum id ((#) x) (decode_rows rs))"

definition fetch_all :: "'pd pg_pool \<Rightarrow> ('pd db_tables \<Rightarrow> (sqlx_error + 'r) list) \<Rightarrow> sqlx_error + 'r list" where
  "fetch_all pool query = (case pool of Inl e \<Rightarrow> Inl e | Inr db \<Rightarrow> decode_rows (query db))"

definition fetch_optional :: "'pd pg_pool \<Rightarrow> ('pd db_tables \<Rightarrow> (sqlx_error + 'r) list) \<Rightarrow> sqlx_error + 'r option" where
  "fetch_optional pool query = (case pool of
       Inl e \<Rightarrow> Inl e
     | Inr db \<Rightarrow> (case query db of [] \<Rightarrow> Inr None | r # _ \<Rightarrow> map_sum id Some r))"

subsection \<open>Blocks\<close>

record db_block =
  db_block_no :: u32
  db_block_hash :: bytes
  db_epoch_no :: u32
  db_slot_no :: u64
  db_time :: int

definition decode_block :: "block_row \<Rightarrow> sqlx_error + db_block" where
  "decode_block b = (case (block_no_col b, block_epoch_no_col b, block_slot_no_col b) of
       (Some n, Some e, Some s) \<Rightarrow> Inr \<lparr>db_block_no = n, db_block_hash = block_hash_col b,
          db_epoch_no = e, db_slot_no = s, db_time = block_time_col b\<rparr>
     | _ \<Rightarrow> Inl ColumnDecode)"

definition get_latest_block_info :: "'pd pg_pool \<Rightarrow> sqlx_error + db_block option" where
  "get_latest_block_info pool = fetch_optional pool (\<lambda>db.
     map (\<lambda>(n, b). decode_block b) (order_by_desc fst [(n, b). b \<leftarrow> block_table db, Some n \<leftarrow> [block_no_col b]]))"

definition get_blocks_by_numbers :: "'pd pg_pool \<Rightarrow> u32 \<Rightarrow> u32 \<Rightarrow> sqlx_error + db_block list" where
  "get_blocks_by_numbers pool from_no to_no = fetch_all pool (\<lambda>db.
     map (\<lambda>(n, b). decode_block b) (sort_key fst
       [(n, b). b \<leftarrow> block_table db, Some n \<leftarrow> [block_no_col b], n \<ge> from_no \<and> n \<le> to_no]))"

definition get_highest_block ::
  "'pd pg_pool \<Rightarrow> u32 \<Rightarrow> int \<Rightarrow> u64 \<Rightarrow> int \<Rightarrow> u64 \<Rightarrow> sqlx_error + db_block option" where
  "get_highest_block pool max_block_number min_time min_slot max_time max_slot = fetch_optional pool (\<lambda>db.
     map (\<lambda>(n, b). decode_block b) (order_by_desc fst
       [(n, b). b \<leftarrow> block_table db, Some n \<leftarrow> [block_no_col b], Some s \<leftarrow> [block_slot_no_col b],
          n \<le> max_block_number \<and> min_slot \<le> s \<and> s \<le> max_slot
          \<and> min_time \<le> block_time_col b \<and> block_time_col b \<le> max_time]))"

definition get_block_by_hash :: "'pd pg_pool \<Rightarrow> bytes \<Rightarrow> sqlx_error + db_block option" where
  "get_block_by_hash pool hash = fetch_optional pool (\<lambda>db.
     map decode_block (filter (\<lambda>b. block_hash_col b = hash) (block_table db)))"

definition get_latest_block_for_epoch :: "'pd pg_pool \<Rightarrow> u32 \<Rightarrow> sqlx_error + db_block option" where
  "get_latest_block_for_epoch pool epoch = fetch_optional pool (\<lambda>db.
     map (\<lambda>(s, b). decode_block b) (order_by_desc fst
       [(s, b). b \<leftarrow> block_table db, Some s \<leftarrow> [block_slot_no_col b], Some n \<leftarrow> [block_no_col b],
          null_le (block_epoch_no_col b) epoch]))"

text \<open>\<open>stable_block.epoch_no - 1\<close> is computed on signed integers; a negative number does not decode.\<close>

definition decode_epoch :: "int \<Rightarrow> sqlx_error + u32" where
  "decode_epoch e = (if 0 \<le> e \<and> e < 2 ^ 31 then Inr (word_of_int e) else Inl ColumnDecode)"

definition get_latest_stable_epoch :: "'pd pg_pool \<Rightarrow> u32 \<Rightarrow> sqlx_error + u32 option" where
  "get_latest_stable_epoch pool security_parameter = fetch_optional pool (\<lambda>db.
     map (\<lambda>(n, e). decode_epoch (uint e - 1)) (order_by_desc fst
       [(n, e). b \<leftarrow> block_table db, Some n \<leftarrow> [block_no_col b],
          sb \<leftarrow> block_table db, Some m \<leftarrow> [block_no_col sb], uint n - uint security_parameter = uint m,
          Some e \<leftarrow> [block_epoch_no_col sb]]))"

subsection \<open>Stake\<close>

text \<open>A sum of \<open>lovelace\<close> decodes when it fits 64 bits.\<close>

definition decode_lovelace :: "nat \<Rightarrow> sqlx_error + u64" where
  "decode_lovelace n = (if n < 2 ^ 64 then Inr (word_of_nat n) else Inl ColumnDecode)"

record stake_pool_entry =
  spe_pool_hash :: bytes
  spe_stake :: u64

definition get_stake_distribution :: "'pd pg_pool \<Rightarrow> u32 \<Rightarrow> sqlx_error + stake_pool_entry list" where
  "get_stake_distribution pool epoch = fetch_all pool (\<lambda>db.
     map (\<lambda>(h, amounts). map_sum id (\<lambda>stake. \<lparr>spe_pool_hash = h, spe_stake = stake\<rparr>) (decode_lovelace (sum_list amounts)))
       (group_by [(ph_hash_raw ph, es_amount es). es \<leftarrow> epoch_stake_table db, ph \<leftarrow> pool_hash_table db,
          es_pool_id es = ph_id ph, es_epoch_no es = epoch]))"

record stake_pool_delegation_output_row =
  epoch_stake_amount :: u64
  pool_hash_raw :: bytes
  stake_address_hash_raw :: bytes
  stake_address_script_hash :: "bytes option"

definition get_stake_pool_delegations_for_pools ::
  "'pd pg_pool \<Rightarrow> u32 \<Rightarrow> bytes list \<Rightarrow> sqlx_error + stake_pool_delegation_output_row list" where
  "get_stake_pool_delegations_for_pools pool epoch stake_pool_hashes = fetch_all pool (\<lambda>db.
     [map_sum id (\<lambda>amount. \<lparr>epoch_stake_amount = amount, pool_hash_raw = ph_hash_raw ph,
            stake_address_hash_raw = sa_hash_raw sa, stake_address_script_hash = sa_script_hash sa\<rparr>)
          (decode_lovelace (es_amount es)).
        es \<leftarrow> epoch_stake_table db,
        sa \<leftarrow> stake_address_table db, es_addr_id es = sa_id sa,
        ph \<leftarrow> pool_hash_table db, es_pool_id es = ph_id ph,
        es_epoch_no es = epoch \<and> es_amount es > 0 \<and> ph_hash_raw ph \<in> set stake_pool_hashes])"

definition db_get_epoch_nonce :: "'pd pg_pool \<Rightarrow> u32 \<Rightarrow> sqlx_error + bytes option" where
  "db_get_epoch_nonce pool epoch = fetch_optional pool (\<lambda>db.
     [Inr (ep_nonce ep). ep \<leftarrow> epoch_param_table db, ep_epoch_no ep = epoch])"

subsection \<open>Outputs\<close>

record asset =
  as_policy_id :: bytes
  as_asset_name :: bytes

definition asset_new :: "bytes \<Rightarrow> asset" where
  "asset_new policy_id = \<lparr>as_policy_id = policy_id, as_asset_name = []\<rparr>"

datatype tx_in_configuration = Enabled | Consumed

text \<open>The configuration is read from the database: is there a populated \<open>tx_in\<close> table?\<close>

definition tx_in_configuration_from_connection :: "bool \<Rightarrow> 'pd pg_pool \<Rightarrow> sqlx_error + tx_in_configuration" where
  "tx_in_configuration_from_connection tx_in_exists pool = (case pool of
       Inl e \<Rightarrow> Inl e
     | Inr db \<Rightarrow>
         if \<not> tx_in_exists then Inr Consumed
         else if tx_in_table db \<noteq> [] then Inr Enabled
         else Inr Consumed)"

text \<open>The condition that an output carries the asset, as the joins with \<open>ma_tx_out\<close> and \<open>multi_asset\<close> test it.\<close>

definition asset_rows :: "'pd db_tables \<Rightarrow> asset \<Rightarrow> tx_out_row \<Rightarrow> ma_tx_out_row list" where
  "asset_rows db a o' = [ma. ma \<leftarrow> ma_tx_out_table db, out_id o' = ma_tx_out_id ma,
     as \<leftarrow> multi_asset_table db, asset_row_id as = ma_ident ma,
     asset_policy_col as = as_policy_id a \<and> asset_name_col as = as_asset_name a]"

definition datum_rows :: "'pd db_tables \<Rightarrow> tx_out_row \<Rightarrow> 'pd datum_row list" where
  "datum_rows db o' = filter (\<lambda>d. out_data_hash o' = Some (datum_hash_col d)) (datum_table db)"

text \<open>The transaction and the block of an output, and those of the transaction that consumes it.\<close>

definition tx_and_block :: "'pd db_tables \<Rightarrow> nat \<Rightarrow> (tx_row \<times> block_row) list" where
  "tx_and_block db i = [(t, b). t \<leftarrow> tx_table db, tx_id t = i, b \<leftarrow> block_table db, tx_block_id t = block_id b]"

definition consuming_tx_ids_tx_in :: "'pd db_tables \<Rightarrow> tx_out_row \<Rightarrow> nat option list" where
  "consuming_tx_ids_tx_in db o' = map (map_option in_tx_in_id)
     (left_join (tx_in_table db) (\<lambda>i. out_tx_id o' = in_tx_out_id i \<and> out_index o' = in_tx_out_index i))"

definition consuming_tx_ids_consumed :: "tx_out_row \<Rightarrow> nat option list" where
  "consuming_tx_ids_consumed o' = [out_consumed_by_tx_id o']"

definition consuming_tx_and_block :: "'pd db_tables \<Rightarrow> nat option \<Rightarrow> (tx_row \<times> block_row option) option list" where
  "consuming_tx_and_block db c = (case c of
       None \<Rightarrow> [None]
     | Some i \<Rightarrow> [case t of None \<Rightarrow> None | Some t \<Rightarrow> Some (t, b).
         t \<leftarrow> left_join (tx_table db) (\<lambda>t. tx_id t = i),
         b \<leftarrow> (case t of None \<Rightarrow> [None] | Some t \<Rightarrow> left_join (block_table db) (\<lambda>b. tx_block_id t = block_id b))])"

definition consuming_block_no :: "(tx_row \<times> block_row option) option \<Rightarrow> u32 option" where
  "consuming_block_no cb = Option.bind cb (\<lambda>(t, b). Option.bind b block_no_col)"

record 'pd token_tx_output =
  tok_origin_tx_hash :: bytes
  tok_utxo_index :: u16
  tok_tx_epoch_no :: u32
  tok_tx_block_no :: u32
  tok_tx_slot_no :: u64
  tok_tx_block_index :: u32
  tok_datum :: "'pd option"

definition get_token_utxo_for_epoch :: "'pd pg_pool \<Rightarrow> asset \<Rightarrow> u32 \<Rightarrow> sqlx_error + 'pd token_tx_output option" where
  "get_token_utxo_for_epoch pool a epoch = fetch_optional pool (\<lambda>db.
     map snd (order_by_desc fst
       [((n, tx_block_index t),
         (case (block_epoch_no_col b, block_slot_no_col b) of
            (Some e, Some s) \<Rightarrow> Inr \<lparr>tok_origin_tx_hash = tx_hash_col t, tok_utxo_index = out_index o',
              tok_tx_epoch_no = e, tok_tx_block_no = n, tok_tx_slot_no = s, tok_tx_block_index = tx_block_index t,
              tok_datum = map_option datum_value_col d\<rparr>
          | _ \<Rightarrow> Inl ColumnDecode)).
        o' \<leftarrow> tx_out_table db, ma \<leftarrow> asset_rows db a o',
        (t, b) \<leftarrow> tx_and_block db (out_tx_id o'), Some n \<leftarrow> [block_no_col b],
        d \<leftarrow> left_join (datum_table db) (\<lambda>d. out_data_hash o' = Some (datum_hash_col d)),
        null_le (block_epoch_no_col b) epoch]))"

subsubsection \<open>The governed map\<close>

definition datums_at_address_query ::
  "(tx_out_row \<Rightarrow> nat option list) \<Rightarrow> bytes \<Rightarrow> u32 \<Rightarrow> asset \<Rightarrow> 'pd db_tables \<Rightarrow> 'pd list" where
  "datums_at_address_query consuming address block a db = map snd (sort_key fst
     [((n, tx_block_index t), datum_value_col d).
        o' \<leftarrow> tx_out_table db, (t, b) \<leftarrow> tx_and_block db (out_tx_id o'), Some n \<leftarrow> [block_no_col b],
        c \<leftarrow> consuming o', cb \<leftarrow> consuming_tx_and_block db c,
        d \<leftarrow> datum_rows db o', ma \<leftarrow> asset_rows db a o',
        out_address o' = address \<and> n \<le> block \<and> (c = None \<or> null_gt (consuming_block_no cb) block)])"

definition get_datums_at_address_with_token_tx_in_enabled ::
  "'pd pg_pool \<Rightarrow> bytes \<Rightarrow> u32 \<Rightarrow> asset \<Rightarrow> sqlx_error + 'pd list" where
  "get_datums_at_address_with_token_tx_in_enabled pool address block a = fetch_all pool (\<lambda>db.
     map Inr (datums_at_address_query (consuming_tx_ids_tx_in db) address block a db))"

definition get_datums_at_address_with_token_tx_in_consumed ::
  "'pd pg_pool \<Rightarrow> bytes \<Rightarrow> u32 \<Rightarrow> asset \<Rightarrow> sqlx_error + 'pd list" where
  "get_datums_at_address_with_token_tx_in_consumed pool address block a = fetch_all pool (\<lambda>db.
     map Inr (datums_at_address_query consuming_tx_ids_consumed address block a db))"

definition get_datums_at_address_with_token ::
  "'pd pg_pool \<Rightarrow> bytes \<Rightarrow> u32 \<Rightarrow> asset \<Rightarrow> tx_in_configuration \<Rightarrow> sqlx_error + 'pd list" where
  "get_datums_at_address_with_token pool address block a cfg = (case cfg of
       Enabled \<Rightarrow> get_datums_at_address_with_token_tx_in_enabled pool address block a
     | Consumed \<Rightarrow> get_datums_at_address_with_token_tx_in_consumed pool address block a)"

datatype governed_map_action = Spend | Create

record 'pd datum_change_output =
  ch_datum :: 'pd
  ch_block_no :: u32
  ch_block_index :: u32
  ch_action :: governed_map_action

text \<open>The rows of the two halves of the \<open>UNION\<close>, with the columns the result is ordered by first.\<close>

definition created_rows ::
  "bytes \<Rightarrow> u32 option \<Rightarrow> u32 \<Rightarrow> asset \<Rightarrow> 'pd db_tables \<Rightarrow> ((u32 \<times> u32 \<times> int) \<times> 'pd \<times> governed_map_action) list" where
  "created_rows address after_block to_block a db =
     [((n, tx_block_index t, 1), datum_value_col d, Create).
        o' \<leftarrow> tx_out_table db, (t, b) \<leftarrow> tx_and_block db (out_tx_id o'), Some n \<leftarrow> [block_no_col b],
        d \<leftarrow> datum_rows db o', ma \<leftarrow> asset_rows db a o',
        out_address o' = address \<and> (case after_block of None \<Rightarrow> True | Some k \<Rightarrow> n > k) \<and> n \<le> to_block]"

definition spent_rows ::
  "(tx_out_row \<Rightarrow> nat option list) \<Rightarrow> bytes \<Rightarrow> u32 option \<Rightarrow> u32 \<Rightarrow> asset \<Rightarrow> 'pd db_tables
     \<Rightarrow> ((u32 \<times> u32 \<times> int) \<times> 'pd \<times> governed_map_action) list" where
  "spent_rows consuming address after_block to_block a db =
     [((m, tx_block_index ct, - 1), datum_value_col d, Spend).
        o' \<leftarrow> tx_out_table db, c \<leftarrow> consuming o', cb \<leftarrow> consuming_tx_and_block db c,
        Some (ct, Some b) \<leftarrow> [cb], Some m \<leftarrow> [block_no_col b],
        d \<leftarrow> datum_rows db o', ma \<leftarrow> asset_rows db a o',
        out_address o' = address \<and> (case after_block of None \<Rightarrow> True | Some k \<Rightarrow> m > k) \<and> m \<le> to_block]"

definition governed_map_changes_query ::
  "(tx_out_row \<Rightarrow> nat option list) \<Rightarrow> bytes \<Rightarrow> u32 option \<Rightarrow> u32 \<Rightarrow> asset \<Rightarrow> 'pd db_tables \<Rightarrow> 'pd datum_change_output list" where
  "governed_map_changes_query consuming address after_block to_block a db =
     map (\<lambda>((n, i, _), d, act). \<lparr>ch_datum = d, ch_block_no = n, ch_block_index = i, ch_action = act\<rparr>)
       (sort_key fst (remdups (created_rows address after_block to_block a db
          @ spent_rows consuming address after_block to_block a db)))"

definition get_governed_map_changes_tx_in_enabled ::
  "'pd pg_pool \<Rightarrow> bytes \<Rightarrow> u32 option \<Rightarrow> u32 \<Rightarrow> asset \<Rightarrow> sqlx_error + 'pd datum_change_output list" where
  "get_governed_map_changes_tx_in_enabled pool address after_block to_block a = fetch_all pool (\<lambda>db.
     map Inr (governed_map_changes_query (consuming_tx_ids_tx_in db) address after_block to_block a db))"

definition get_governed_map_changes_tx_in_consumed ::
  "'pd pg_pool \<Rightarrow> bytes \<Rightarrow> u32 option \<Rightarrow> u32 \<Rightarrow> asset \<Rightarrow> sqlx_error + 'pd datum_change_output list" where
  "get_governed_map_changes_tx_in_consumed pool address after_block to_block a = fetch_all pool (\<lambda>db.
     map Inr (governed_map_changes_query consuming_tx_ids_consumed address after_block to_block a db))"

definition get_governed_map_changes ::
  "'pd pg_pool \<Rightarrow> bytes \<Rightarrow> u32 option \<Rightarrow> u32 \<Rightarrow> asset \<Rightarrow> tx_in_configuration \<Rightarrow> sqlx_error + 'pd datum_change_output list" where
  "get_governed_map_changes pool address after_block to_block a cfg = (case cfg of
       Enabled \<Rightarrow> get_governed_map_changes_tx_in_enabled pool address after_block to_block a
     | Consumed \<Rightarrow> get_governed_map_changes_tx_in_consumed pool address after_block to_block a)"

subsubsection \<open>Registrations\<close>

record 'pd mainchain_tx_output =
  mto_utxo_id :: utxo_id
  mto_tx_block_no :: u32
  mto_tx_slot_no :: u64
  mto_tx_epoch_no :: u32
  mto_tx_index_in_block :: u32
  mto_address :: bytes
  mto_datum :: "'pd option"
  mto_tx_inputs :: "utxo_id list"

text \<open>
  The text \<open>hash#index\<close> of an input is represented by its two parts; where the outer joins find no
  output, one part is missing and the text does not parse.
\<close>

definition input_texts_tx_in :: "'pd db_tables \<Rightarrow> nat \<Rightarrow> (bytes \<times> u16) option list" where
  "input_texts_tx_in db i = [case (ci, ct) of (Some ci, Some ct) \<Rightarrow> Some (tx_hash_col ct, in_tx_out_index ci) | _ \<Rightarrow> None.
     ci \<leftarrow> left_join (tx_in_table db) (\<lambda>ci. in_tx_in_id ci = i),
     co \<leftarrow> (case ci of None \<Rightarrow> [None]
         | Some ci \<Rightarrow> left_join (tx_out_table db) (\<lambda>co. out_tx_id co = in_tx_out_id ci \<and> in_tx_out_index ci = out_index co)),
     ct \<leftarrow> (case co of None \<Rightarrow> [None] | Some co \<Rightarrow> left_join (tx_table db) (\<lambda>t. tx_id t = out_tx_id co))]"

definition input_texts_consumed :: "'pd db_tables \<Rightarrow> nat \<Rightarrow> (bytes \<times> u16) option list" where
  "input_texts_consumed db i = [case (co, ct) of (Some co, Some ct) \<Rightarrow> Some (tx_hash_col ct, out_index co) | _ \<Rightarrow> None.
     co \<leftarrow> left_join (tx_out_table db) (\<lambda>co. out_consumed_by_tx_id co = Some i),
     ct \<leftarrow> (case co of None \<Rightarrow> [None] | Some co \<Rightarrow> left_join (tx_table db) (\<lambda>t. tx_id t = out_tx_id co))]"

fun parse_inputs :: "(bytes \<times> u16) option list \<Rightarrow> sqlx_error + utxo_id list" where
  "parse_inputs [] = Inr []"
| "parse_inputs (i # is) = (case i of
       None \<Rightarrow> Inl ColumnDecode
     | Some (h, ix) \<Rightarrow> map_sum id ((#) \<lparr>utxo_tx_hash = h, utxo_index = ix\<rparr>) (parse_inputs is))"

definition utxos_for_address_query ::
  "(tx_out_row \<Rightarrow> nat option list) \<Rightarrow> (nat \<Rightarrow> (bytes \<times> u16) option list) \<Rightarrow> bytes \<Rightarrow> u32 \<Rightarrow> 'pd db_tables
     \<Rightarrow> (sqlx_error + 'pd mainchain_tx_output) list" where
  "utxos_for_address_query consuming input_texts address block db =
     map (\<lambda>((h, ix, n, s, e, ti, ad, d), inputs).
         (case (s, e, parse_inputs inputs) of
            (Some s, Some e, Inr is) \<Rightarrow> Inr \<lparr>mto_utxo_id = \<lparr>utxo_tx_hash = h, utxo_index = ix\<rparr>, mto_tx_block_no = n,
              mto_tx_slot_no = s, mto_tx_epoch_no = e, mto_tx_index_in_block = ti, mto_address = ad,
              mto_datum = d, mto_tx_inputs = is\<rparr>
          | _ \<Rightarrow> Inl ColumnDecode))
       (group_by
         [((tx_hash_col t, out_index o', n, block_slot_no_col b, block_epoch_no_col b, tx_block_index t,
            out_address o', map_option datum_value_col d), text').
           o' \<leftarrow> tx_out_table db, (t, b) \<leftarrow> tx_and_block db (out_tx_id o'), Some n \<leftarrow> [block_no_col b],
           c \<leftarrow> consuming o', cb \<leftarrow> consuming_tx_and_block db c,
           text' \<leftarrow> input_texts (tx_id t),
           d \<leftarrow> left_join (datum_table db) (\<lambda>d. out_data_hash o' = Some (datum_hash_col d)),
           out_address o' = address \<and> n \<le> block \<and> (c = None \<or> null_gt (consuming_block_no cb) block)])"

definition get_utxos_for_address_tx_in_enabled ::
  "'pd pg_pool \<Rightarrow> bytes \<Rightarrow> u32 \<Rightarrow> sqlx_error + 'pd mainchain_tx_output list" where
  "get_utxos_for_address_tx_in_enabled pool address block = fetch_all pool (\<lambda>db.
     utxos_for_address_query (consuming_tx_ids_tx_in db) (input_texts_tx_in db) address block db)"

definition get_utxos_for_address_tx_in_consumed ::
  "'pd pg_pool \<Rightarrow> bytes \<Rightarrow> u32 \<Rightarrow> sqlx_error + 'pd mainchain_tx_output list" where
  "get_utxos_for_address_tx_in_consumed pool address block = fetch_all pool (\<lambda>db.
     utxos_for_address_query consuming_tx_ids_consumed (input_texts_consumed db) address block db)"

definition get_utxos_for_address ::
  "'pd pg_pool \<Rightarrow> bytes \<Rightarrow> u32 \<Rightarrow> tx_in_configuration \<Rightarrow> sqlx_error + 'pd mainchain_tx_output list" where
  "get_utxos_for_address pool address block cfg = (case cfg of
       Enabled \<Rightarrow> get_utxos_for_address_tx_in_enabled pool address block
     | Consumed \<Rightarrow> get_utxos_for_address_tx_in_consumed pool address block)"

subsubsection \<open>The token bridge\<close>

record 'pd bridge_utxo =
  bu_block_number :: u32
  bu_tx_ix :: u32
  bu_tx_hash :: bytes
  bu_utxo_ix :: u16
  bu_tokens_out :: u128
  bu_tokens_in :: u128
  bu_datum :: "'pd option"

definition bridge_utxo_id :: "'pd bridge_utxo \<Rightarrow> utxo_id" where
  "bridge_utxo_id u = \<lparr>utxo_tx_hash = bu_tx_hash u, utxo_index = bu_utxo_ix u\<rparr>"

type_synonym utxo_ordering_key = "u32 \<times> u32 \<times> u16"

definition bridge_ordering_key :: "'pd bridge_utxo \<Rightarrow> utxo_ordering_key" where
  "bridge_ordering_key u = (bu_block_number u, bu_tx_ix u, bu_utxo_ix u)"

datatype resolved_bridge_data_checkpoint =
    ResolvedUtxo u32 u32 u16
  | ResolvedBlock u32

definition get_block_number :: "resolved_bridge_data_checkpoint \<Rightarrow> u32" where
  "get_block_number c = (case c of ResolvedBlock number \<Rightarrow> number | ResolvedUtxo block_number _ _ \<Rightarrow> block_number)"

record tx_block_info =
  tbi_block_number :: u32
  tbi_tx_ix :: u32

definition get_block_info_for_utxo :: "'pd pg_pool \<Rightarrow> bytes \<Rightarrow> sqlx_error + tx_block_info option" where
  "get_block_info_for_utxo pool tx_hash = fetch_optional pool (\<lambda>db.
     [case block_no_col b of
        Some n \<Rightarrow> Inr \<lparr>tbi_block_number = n, tbi_tx_ix = tx_block_index t\<rparr>
      | None \<Rightarrow> Inl ColumnDecode.
      t \<leftarrow> tx_table db, b \<leftarrow> block_table db, block_id b = tx_block_id t, tx_hash_col t = tx_hash])"

text \<open>The inputs of a transaction at an address, found in the two ways the configuration names.\<close>

definition bridge_inputs_consumed :: "'pd db_tables \<Rightarrow> bytes \<Rightarrow> nat \<Rightarrow> tx_out_row option list" where
  "bridge_inputs_consumed db address i =
     left_join (tx_out_table db) (\<lambda>inp. out_consumed_by_tx_id inp = Some i \<and> out_address inp = address)"

definition bridge_inputs_tx_in :: "'pd db_tables \<Rightarrow> bytes \<Rightarrow> nat \<Rightarrow> tx_out_row option list" where
  "bridge_inputs_tx_in db address i =
     [inp. ij \<leftarrow> left_join (tx_in_table db) (\<lambda>ij. i = in_tx_in_id ij),
        inp \<leftarrow> (case ij of None \<Rightarrow> [None]
          | Some ij \<Rightarrow> left_join (tx_out_table db) (\<lambda>inp. in_tx_out_id ij = out_tx_id inp
              \<and> in_tx_out_index ij = out_index inp \<and> out_address inp = address))]"

definition input_quantities :: "'pd db_tables \<Rightarrow> nat \<Rightarrow> tx_out_row option list \<Rightarrow> nat option list" where
  "input_quantities db ident inputs =
     [map_option ma_quantity q. inp \<leftarrow> inputs,
        q \<leftarrow> (case inp of None \<Rightarrow> [None]
          | Some inp \<Rightarrow> left_join (ma_tx_out_table db) (\<lambda>m. ma_tx_out_id m = out_id inp \<and> ma_ident m = ident))]"

definition sql_sum :: "nat option list \<Rightarrow> nat" where
  "sql_sum qs = sum_list (List.map_filter id qs)"

definition decode_amount :: "nat \<Rightarrow> u128 option" where
  "decode_amount n = (if n < 2 ^ 128 then Some (word_of_nat n) else None)"

definition after_checkpoint :: "resolved_bridge_data_checkpoint \<Rightarrow> utxo_ordering_key \<Rightarrow> bool" where
  "after_checkpoint c k = (case c of
       ResolvedBlock number \<Rightarrow> fst k > number
     | ResolvedUtxo block_number tx_ix tx_out_ix \<Rightarrow> k > (block_number, tx_ix, tx_out_ix))"

definition bridge_sources ::
  "bytes \<Rightarrow> asset \<Rightarrow> resolved_bridge_data_checkpoint \<Rightarrow> u32 \<Rightarrow> 'pd db_tables
     \<Rightarrow> (tx_out_row \<times> tx_row \<times> u32 \<times> ma_tx_out_row \<times> 'pd option) list" where
  "bridge_sources icp_address native_token checkpoint to_block db =
     [(o', t, n, ma, map_option datum_value_col d).
        o' \<leftarrow> tx_out_table db, (t, b) \<leftarrow> tx_and_block db (out_tx_id o'), Some n \<leftarrow> [block_no_col b],
        ma \<leftarrow> asset_rows db native_token o',
        d \<leftarrow> left_join (datum_table db) (\<lambda>d. Some (datum_hash_col d) = out_data_hash o'),
        out_address o' = icp_address \<and> n \<le> to_block
        \<and> after_checkpoint checkpoint (n, tx_block_index t, out_index o')]"

definition bridge_utxos_query ::
  "(nat \<Rightarrow> tx_out_row option list) \<Rightarrow> bytes \<Rightarrow> asset \<Rightarrow> resolved_bridge_data_checkpoint \<Rightarrow> u32 \<Rightarrow> u32 option
     \<Rightarrow> 'pd db_tables \<Rightarrow> (sqlx_error + 'pd bridge_utxo) list" where
  "bridge_utxos_query inputs icp_address native_token checkpoint to_block max_utxos db =
     (let rows = [((tx_hash_col t, out_id o', ma_quantity ma, d, n, tx_block_index t, out_index o'), q).
            (o', t, n, ma, d) \<leftarrow> bridge_sources icp_address native_token checkpoint to_block db,
            q \<leftarrow> input_quantities db (ma_ident ma) (inputs (tx_id t))];
          ordered = sort_key (\<lambda>((_, _, _, _, n, ti, ix), _). (n, ti, ix)) (group_by rows);
          limited = (case max_utxos of None \<Rightarrow> ordered | Some m \<Rightarrow> take (unat m) ordered)
      in map (\<lambda>((h, _, quantity, d, n, ti, ix), qs).
           (case (decode_amount quantity, decode_amount (sql_sum qs)) of
              (Some out, Some inp) \<Rightarrow> Inr \<lparr>bu_block_number = n, bu_tx_ix = ti, bu_tx_hash = h, bu_utxo_ix = ix,
                bu_tokens_out = out, bu_tokens_in = inp, bu_datum = d\<rparr>
            | _ \<Rightarrow> Inl ColumnDecode)) limited)"

definition get_bridge_utxos_tx ::
  "tx_in_configuration \<Rightarrow> 'pd pg_pool \<Rightarrow> bytes \<Rightarrow> asset \<Rightarrow> resolved_bridge_data_checkpoint \<Rightarrow> u32 \<Rightarrow> u32 option
     \<Rightarrow> sqlx_error + 'pd bridge_utxo list" where
  "get_bridge_utxos_tx cfg pool icp_address native_token checkpoint to_block max_utxos = fetch_all pool (\<lambda>db.
     bridge_utxos_query
       (case cfg of Consumed \<Rightarrow> bridge_inputs_consumed db icp_address | Enabled \<Rightarrow> bridge_inputs_tx_in db icp_address)
       icp_address native_token checkpoint to_block max_utxos db)"

subsection \<open>The two ways to find the inputs of a transaction\<close>

text \<open>
  In a database that has both, the table \<open>tx_in\<close> and the column \<open>consumed_by_tx_id\<close> record the same
  spending: an output is spent by one row of \<open>tx_in\<close> exactly when the column names that row's
  transaction.
\<close>

definition db_consistent :: "'pd db_tables \<Rightarrow> bool" where
  "db_consistent db \<longleftrightarrow> (\<forall>o' \<in> set (tx_out_table db).
     map in_tx_in_id (filter (\<lambda>i. out_tx_id o' = in_tx_out_id i \<and> out_index o' = in_tx_out_index i) (tx_in_table db))
       = (case out_consumed_by_tx_id o' of None \<Rightarrow> [] | Some i \<Rightarrow> [i]))"

lemma consuming_tx_ids_agree:
  assumes "db_consistent db" and "o' \<in> set (tx_out_table db)"
  shows "consuming_tx_ids_tx_in db o' = consuming_tx_ids_consumed o'"
proof -
  let ?rows = "filter (\<lambda>i. out_tx_id o' = in_tx_out_id i \<and> out_index o' = in_tx_out_index i) (tx_in_table db)"
  have "map in_tx_in_id ?rows = (case out_consumed_by_tx_id o' of None \<Rightarrow> [] | Some i \<Rightarrow> [i])"
    using assms unfolding db_consistent_def by blast
  then show ?thesis
    by (cases "out_consumed_by_tx_id o'"; cases ?rows)
      (auto simp: consuming_tx_ids_tx_in_def consuming_tx_ids_consumed_def left_join_def)
qed

lemma concat_map_cong: "(\<And>x. x \<in> set xs \<Longrightarrow> f x = g x) \<Longrightarrow> concat (map f xs) = concat (map g xs)"
  by (simp cong: map_cong)

lemma datums_query_agree:
  assumes "db_consistent db"
  shows "datums_at_address_query (consuming_tx_ids_tx_in db) address block a db
    = datums_at_address_query consuming_tx_ids_consumed address block a db"
  unfolding datums_at_address_query_def
proof (intro arg_cong [of _ _ "\<lambda>xs. map snd (sort_key fst xs)"], rule concat_map_cong, goal_cases)
  case (1 o')
  show ?case unfolding consuming_tx_ids_agree [OF assms 1] by (rule refl)
qed

lemma changes_query_agree:
  assumes "db_consistent db"
  shows "governed_map_changes_query (consuming_tx_ids_tx_in db) address after to a db
    = governed_map_changes_query consuming_tx_ids_consumed address after to a db"
proof -
  have "spent_rows (consuming_tx_ids_tx_in db) address after to a db
      = spent_rows consuming_tx_ids_consumed address after to a db"
    unfolding spent_rows_def
  proof (rule concat_map_cong, goal_cases)
    case (1 o')
    show ?case unfolding consuming_tx_ids_agree [OF assms 1] by (rule refl)
  qed
  then show ?thesis by (simp add: governed_map_changes_query_def)
qed

text \<open>The sums of the bridge query: grouping rows that differ only in how often a group is repeated.\<close>

lemma sql_sum_append [simp]: "sql_sum (xs @ ys) = sql_sum xs + sql_sum ys"
  by (simp add: sql_sum_def List.map_filter_def)

lemma sql_sum_Nil [simp]: "sql_sum [] = 0"
  by (simp add: sql_sum_def List.map_filter_def)

lemma sql_sum_Cons [simp]: "sql_sum (q # qs) = (case q of None \<Rightarrow> 0 | Some n \<Rightarrow> n) + sql_sum qs"
  by (simp add: sql_sum_def List.map_filter_def split: option.splits)

lemma sql_sum_concat: "sql_sum (concat xss) = sum_list (map sql_sum xss)"
  by (induction xss) simp_all

lemma remdups_repeated:
  assumes "\<And>x. x \<in> set xs \<Longrightarrow> n x > 0"
  shows "remdups (concat (map (\<lambda>x. replicate (n x) (k x)) xs)) = remdups (map k xs)"
  using assms
proof (induction xs)
  case Nil
  then show ?case by simp
next
  case (Cons x xs)
  have rep: "remdups (replicate m y @ ys) = (if m = 0 \<or> y \<in> set ys then remdups ys else y # remdups ys)" for m y ys
    by (induction m) auto
  have "n x \<noteq> 0" using Cons.prems [of x] by simp
  moreover have "remdups (concat (map (\<lambda>x. replicate (n x) (k x)) xs)) = remdups (map k xs)"
    by (rule Cons.IH) (simp add: Cons.prems)
  moreover have "set (concat (map (\<lambda>x. replicate (n x) (k x)) xs)) = set (map k xs)"
    using Cons.prems by force
  ultimately show ?case by (simp add: rep del: set_concat)
qed

definition group_sums :: "('s \<Rightarrow> 'k) \<Rightarrow> ('s \<Rightarrow> nat option list) \<Rightarrow> 's list \<Rightarrow> ('k \<times> nat) list" where
  "group_sums key qs srcs = map (\<lambda>(k, xs). (k, sql_sum xs)) (group_by (concat (map (\<lambda>s. map (Pair (key s)) (qs s)) srcs)))"

lemma group_sums_eq:
  assumes "\<And>s. s \<in> set srcs \<Longrightarrow> qs s \<noteq> []"
  shows "group_sums key qs srcs
    = map (\<lambda>k. (k, sum_list (map (\<lambda>s. sql_sum (qs s)) (filter (\<lambda>s. key s = k) srcs)))) (remdups (map key srcs))"
proof -
  have "map fst (concat (map (\<lambda>s. map (Pair (key s)) (qs s)) srcs))
      = concat (map (\<lambda>s. replicate (length (qs s)) (key s)) srcs)"
    by (induction srcs) (simp_all add: comp_def map_replicate_const)
  then have keys: "remdups (map fst (concat (map (\<lambda>s. map (Pair (key s)) (qs s)) srcs))) = remdups (map key srcs)"
    using assms by (simp add: remdups_repeated)
  have "sql_sum (map snd (filter (\<lambda>r. fst r = k) (concat (map (\<lambda>s. map (Pair (key s)) (qs s)) srcs))))
      = sum_list (map (\<lambda>s. sql_sum (qs s)) (filter (\<lambda>s. key s = k) srcs))" for k
    by (induction srcs) (simp_all add: comp_def filter_map)
  then show ?thesis by (simp add: group_sums_def group_by_def keys)
qed

text \<open>The tokens of the inputs of a transaction.\<close>

definition input_sum :: "'pd db_tables \<Rightarrow> nat \<Rightarrow> tx_out_row \<Rightarrow> nat" where
  "input_sum db ident inp = sql_sum (map (map_option ma_quantity)
     (left_join (ma_tx_out_table db) (\<lambda>m. ma_tx_out_id m = out_id inp \<and> ma_ident m = ident)))"

definition some_sum :: "('a \<Rightarrow> nat) \<Rightarrow> 'a option list \<Rightarrow> nat" where
  "some_sum f xs = (\<Sum>x\<leftarrow>xs. case x of None \<Rightarrow> 0 | Some y \<Rightarrow> f y)"

lemma sum_input_quantities: "sql_sum (input_quantities db ident inputs) = some_sum (input_sum db ident) inputs"
  by (induction inputs) (auto simp: input_quantities_def some_sum_def input_sum_def comp_def split: option.splits)

lemma some_sum_left_join: "some_sum f (left_join xs P) = (\<Sum>x\<leftarrow>xs. if P x then f x else 0)"
proof -
  have "some_sum f (left_join xs P) = (\<Sum>x\<leftarrow>filter P xs. f x)"
    by (cases "filter P xs") (simp_all add: left_join_def some_sum_def comp_def)
  then show ?thesis by (simp add: sum_list_map_filter')
qed

lemma sum_list_swap:
  fixes f :: "'a \<Rightarrow> 'b \<Rightarrow> nat"
  shows "(\<Sum>x\<leftarrow>xs. \<Sum>y\<leftarrow>ys. f x y) = (\<Sum>y\<leftarrow>ys. \<Sum>x\<leftarrow>xs. f x y)"
  by (induction xs) (simp_all add: sum_list_addf)

lemma some_sum_tx_in:
  "some_sum f (bridge_inputs_tx_in db address i)
    = (\<Sum>ij\<leftarrow>tx_in_table db. if i = in_tx_in_id ij
        then \<Sum>inp\<leftarrow>tx_out_table db. if in_tx_out_id ij = out_tx_id inp \<and> in_tx_out_index ij = out_index inp
          \<and> out_address inp = address then f inp else 0
        else 0)"
proof -
  let ?inner = "\<lambda>ij. left_join (tx_out_table db) (\<lambda>inp. in_tx_out_id ij = out_tx_id inp
      \<and> in_tx_out_index ij = out_index inp \<and> out_address inp = address)"
  have "some_sum f (concat (map (case_option [None] ?inner) ijs)) = some_sum (\<lambda>ij. some_sum f (?inner ij)) ijs" for ijs
    by (induction ijs) (auto simp: some_sum_def split: option.splits)
  then have "some_sum f (concat (map (case_option [None] ?inner) (left_join (tx_in_table db) (\<lambda>ij. i = in_tx_in_id ij))))
      = some_sum (\<lambda>ij. some_sum f (?inner ij)) (left_join (tx_in_table db) (\<lambda>ij. i = in_tx_in_id ij))"
    by this
  moreover have "bridge_inputs_tx_in db address i
      = concat (map (case_option [None] ?inner) (left_join (tx_in_table db) (\<lambda>ij. i = in_tx_in_id ij)))"
    unfolding bridge_inputs_tx_in_def by (intro concat_map_cong) (auto split: option.splits)
  ultimately show ?thesis by (simp only: some_sum_left_join)
qed

lemma bridge_inputs_agree:
  assumes "db_consistent db"
  shows "some_sum f (bridge_inputs_tx_in db address i) = some_sum f (bridge_inputs_consumed db address i)"
proof -
  have spent: "(\<Sum>ij\<leftarrow>tx_in_table db. if i = in_tx_in_id ij \<and> in_tx_out_id ij = out_tx_id inp
        \<and> in_tx_out_index ij = out_index inp \<and> out_address inp = address then f inp else 0)
      = (if out_consumed_by_tx_id inp = Some i \<and> out_address inp = address then f inp else 0)"
    if "inp \<in> set (tx_out_table db)" for inp
  proof -
    let ?m = "\<lambda>ij. out_tx_id inp = in_tx_out_id ij \<and> out_index inp = in_tx_out_index ij"
    have m: "map in_tx_in_id (filter ?m (tx_in_table db)) = (case out_consumed_by_tx_id inp of None \<Rightarrow> [] | Some i \<Rightarrow> [i])"
      using assms that unfolding db_consistent_def by blast
    have "(\<Sum>ij\<leftarrow>tx_in_table db. if i = in_tx_in_id ij \<and> in_tx_out_id ij = out_tx_id inp
        \<and> in_tx_out_index ij = out_index inp \<and> out_address inp = address then f inp else 0)
      = (\<Sum>ij\<leftarrow>tx_in_table db. if ?m ij then (if i = in_tx_in_id ij \<and> out_address inp = address then f inp else 0) else 0)"
      by (intro arg_cong [of _ _ sum_list] map_cong refl) auto
    also have "\<dots> = (\<Sum>j\<leftarrow>map in_tx_in_id (filter ?m (tx_in_table db)). if i = j \<and> out_address inp = address then f inp else 0)"
      by (simp add: sum_list_map_filter' comp_def)
    also have "\<dots> = (if out_consumed_by_tx_id inp = Some i \<and> out_address inp = address then f inp else 0)"
      unfolding m by (auto split: option.splits)
    finally show ?thesis .
  qed
  have "some_sum f (bridge_inputs_tx_in db address i) = (\<Sum>ij\<leftarrow>tx_in_table db. \<Sum>inp\<leftarrow>tx_out_table db.
      if i = in_tx_in_id ij \<and> in_tx_out_id ij = out_tx_id inp
        \<and> in_tx_out_index ij = out_index inp \<and> out_address inp = address then f inp else 0)"
    unfolding some_sum_tx_in by (intro arg_cong [of _ _ sum_list] map_cong refl) (auto simp: sum_list_0)
  also have "\<dots> = (\<Sum>inp\<leftarrow>tx_out_table db. if out_consumed_by_tx_id inp = Some i \<and> out_address inp = address then f inp else 0)"
    unfolding sum_list_swap [of _ "tx_out_table db"] using spent by (simp cong: map_cong)
  finally show ?thesis by (simp add: bridge_inputs_consumed_def some_sum_left_join)
qed

lemma left_join_ne [simp]: "left_join xs P \<noteq> []"
  by (simp add: left_join_def split: list.splits)

lemma input_quantities_ne: "inputs \<noteq> [] \<Longrightarrow> input_quantities db ident inputs \<noteq> []"
  by (cases inputs) (auto simp: input_quantities_def split: option.splits)

lemma bridge_inputs_ne: "bridge_inputs_consumed db address i \<noteq> []" "bridge_inputs_tx_in db address i \<noteq> []"
proof -
  show "bridge_inputs_consumed db address i \<noteq> []" by (simp add: bridge_inputs_consumed_def)
  obtain x xs where "left_join (tx_in_table db) (\<lambda>ij. i = in_tx_in_id ij) = x # xs"
    by (meson left_join_ne neq_Nil_conv)
  then show "bridge_inputs_tx_in db address i \<noteq> []"
    by (cases x) (simp_all add: bridge_inputs_tx_in_def)
qed

text \<open>The bridge query over the sums of its groups.\<close>

lemma insort_key_map: "insort_key f (g x) (map g xs) = map g (insort_key (f \<circ> g) x xs)"
  by (induction xs) simp_all

lemma sort_key_map: "sort_key f (map g xs) = map g (sort_key (f \<circ> g) xs)"
  by (induction xs) (simp_all add: insort_key_map [unfolded comp_def] comp_def)

definition bridge_key :: "tx_out_row \<times> tx_row \<times> u32 \<times> ma_tx_out_row \<times> 'pd option
    \<Rightarrow> bytes \<times> nat \<times> nat \<times> 'pd option \<times> u32 \<times> u32 \<times> u16" where
  "bridge_key = (\<lambda>(o', t, n, ma, d). (tx_hash_col t, out_id o', ma_quantity ma, d, n, tx_block_index t, out_index o'))"

lemma bridge_query_sums:
  "bridge_utxos_query inputs icp_address native_token checkpoint to_block max_utxos db =
     (let ordered = sort_key (\<lambda>((_, _, _, _, n, ti, ix), _). (n, ti, ix))
            (group_sums bridge_key (\<lambda>(o', t, n, ma, d). input_quantities db (ma_ident ma) (inputs (tx_id t)))
              (bridge_sources icp_address native_token checkpoint to_block db));
          limited = (case max_utxos of None \<Rightarrow> ordered | Some m \<Rightarrow> take (unat m) ordered)
      in map (\<lambda>((h, _, quantity, d, n, ti, ix), q).
           (case (decode_amount quantity, decode_amount q) of
              (Some out, Some inp) \<Rightarrow> Inr \<lparr>bu_block_number = n, bu_tx_ix = ti, bu_tx_hash = h, bu_utxo_ix = ix,
                bu_tokens_out = out, bu_tokens_in = inp, bu_datum = d\<rparr>
            | _ \<Rightarrow> Inl ColumnDecode)) limited)"
proof -
  have rows: "concat (map (\<lambda>(o', t, n, ma, d). map (Pair (tx_hash_col t, out_id o', ma_quantity ma, d, n, tx_block_index t, out_index o'))
        (input_quantities db (ma_ident ma) (inputs (tx_id t)))) srcs)
      = concat (map (\<lambda>s. map (Pair (bridge_key s)) ((\<lambda>(o', t, n, ma, d). input_quantities db (ma_ident ma) (inputs (tx_id t))) s)) srcs)"
    for srcs by (intro concat_map_cong) (auto simp: bridge_key_def)
  have key: "(\<lambda>((_, _, _, _, n, ti, ix), _). (n, ti, ix)) \<circ> (\<lambda>(k, xs). (k, sql_sum xs))
      = (\<lambda>((_, _, _, _, n, ti, ix), _). (n, ti, ix))" by (auto simp: fun_eq_iff)
  show ?thesis
    unfolding bridge_utxos_query_def group_sums_def Let_def sort_key_map key rows
    by (cases max_utxos) (simp_all add: take_map split: prod.split)
qed

lemma bridge_query_agree:
  fixes db :: "'pd db_tables"
  assumes "db_consistent db"
  shows "bridge_utxos_query (bridge_inputs_tx_in db icp_address) icp_address native_token checkpoint to_block max_utxos db
    = bridge_utxos_query (bridge_inputs_consumed db icp_address) icp_address native_token checkpoint to_block max_utxos db"
proof -
  have "group_sums bridge_key (\<lambda>(o', t, n, ma, d). input_quantities db (ma_ident ma) (bridge_inputs_tx_in db icp_address (tx_id t))) srcs
      = group_sums bridge_key (\<lambda>(o', t, n, ma, d). input_quantities db (ma_ident ma) (bridge_inputs_consumed db icp_address (tx_id t))) srcs"
    for srcs :: "(tx_out_row \<times> tx_row \<times> u32 \<times> ma_tx_out_row \<times> 'pd option) list"
    by (subst (1 2) group_sums_eq)
      (auto simp: input_quantities_ne bridge_inputs_ne sum_input_quantities bridge_inputs_agree [OF assms] split_def)
  then show ?thesis unfolding bridge_query_sums by simp
qed

text \<open>
  C29: The \<open>tx_in\<close> queries and the \<open>consumed_by_tx_id\<close> queries are interchangeable. On a database in
  which the table and the column record the same spending, the two configurations return the same
  datums at an address, the same changes of the governed map and the same bridge transfers, amounts
  and order included.
\<close>

theorem tx_in_configurations_agree:
  assumes "db_consistent db"
  shows "get_datums_at_address_with_token (Inr db) address block a Enabled
      = get_datums_at_address_with_token (Inr db) address block a Consumed
    \<and> get_governed_map_changes (Inr db) address after_block block a Enabled
      = get_governed_map_changes (Inr db) address after_block block a Consumed
    \<and> get_bridge_utxos_tx Enabled (Inr db) address a checkpoint block max_utxos
      = get_bridge_utxos_tx Consumed (Inr db) address a checkpoint block max_utxos"
proof (intro conjI)
  show "get_datums_at_address_with_token (Inr db) address block a Enabled
      = get_datums_at_address_with_token (Inr db) address block a Consumed"
    unfolding get_datums_at_address_with_token_def get_datums_at_address_with_token_tx_in_enabled_def
      get_datums_at_address_with_token_tx_in_consumed_def fetch_all_def
    by (simp add: datums_query_agree [OF assms])
  show "get_governed_map_changes (Inr db) address after_block block a Enabled
      = get_governed_map_changes (Inr db) address after_block block a Consumed"
    unfolding get_governed_map_changes_def get_governed_map_changes_tx_in_enabled_def
      get_governed_map_changes_tx_in_consumed_def fetch_all_def
    by (simp add: changes_query_agree [OF assms])
  show "get_bridge_utxos_tx Enabled (Inr db) address a checkpoint block max_utxos
      = get_bridge_utxos_tx Consumed (Inr db) address a checkpoint block max_utxos"
    unfolding get_bridge_utxos_tx_def fetch_all_def
    by (simp add: bridge_query_agree [OF assms])
qed

text \<open>
  A database of two blocks: the transaction of the first puts seven tokens at the address, and the
  transaction of the second spends them and leaves ten.
\<close>

definition demo_db :: "datum db_tables" where
  "demo_db = \<lparr>block_table = [
       \<lparr>block_id = 1, block_no_col = Some 10, block_hash_col = [1], block_epoch_no_col = Some 3, block_slot_no_col = Some 100, block_time_col = 1000\<rparr>,
       \<lparr>block_id = 2, block_no_col = Some 11, block_hash_col = [2], block_epoch_no_col = Some 3, block_slot_no_col = Some 120, block_time_col = 1020\<rparr>],
     tx_table = [\<lparr>tx_id = 1, tx_hash_col = [11], tx_block_id = 1, tx_block_index = 0\<rparr>,
       \<lparr>tx_id = 2, tx_hash_col = [12], tx_block_id = 2, tx_block_index = 4\<rparr>],
     tx_out_table = [
       \<lparr>out_id = 1, out_tx_id = 1, out_index = 0, out_address = [7], out_data_hash = Some [21], out_consumed_by_tx_id = Some 2\<rparr>,
       \<lparr>out_id = 2, out_tx_id = 2, out_index = 1, out_address = [7], out_data_hash = Some [22], out_consumed_by_tx_id = None\<rparr>],
     tx_in_table = [\<lparr>in_id = 1, in_tx_in_id = 2, in_tx_out_id = 1, in_tx_out_index = 0\<rparr>],
     ma_tx_out_table = [\<lparr>ma_ident = 5, ma_tx_out_id = 1, ma_quantity = 7\<rparr>, \<lparr>ma_ident = 5, ma_tx_out_id = 2, ma_quantity = 10\<rparr>],
     multi_asset_table = [\<lparr>asset_row_id = 5, asset_policy_col = [9], asset_name_col = []\<rparr>],
     datum_table = [\<lparr>datum_hash_col = [21], datum_value_col = IntegerDatum 1\<rparr>, \<lparr>datum_hash_col = [22], datum_value_col = IntegerDatum 2\<rparr>],
     epoch_stake_table = [], pool_hash_table = [], stake_address_table = [], epoch_param_table = []\<rparr>"

lemma demo_db_consistent: "db_consistent demo_db"
  by (simp add: db_consistent_def demo_db_def)

lemma demo_db_bridge:
  "get_bridge_utxos_tx Consumed (Inr demo_db) [7] (asset_new [9]) (ResolvedBlock 10) 11 None
    = Inr [\<lparr>bu_block_number = 11, bu_tx_ix = 4, bu_tx_hash = [12], bu_utxo_ix = 1,
        bu_tokens_out = 10, bu_tokens_in = 7, bu_datum = Some (IntegerDatum 2)\<rparr>]"
  by (simp add: get_bridge_utxos_tx_def fetch_all_def bridge_utxos_query_def bridge_sources_def tx_and_block_def
      asset_rows_def asset_new_def left_join_def after_checkpoint_def input_quantities_def bridge_inputs_consumed_def
      group_by_def decode_amount_def sql_sum_def demo_db_def List.map_filter_def)

lemma demo_db_changes:
  "get_governed_map_changes (Inr demo_db) [7] None 11 (asset_new [9]) Consumed
    = Inr [\<lparr>ch_datum = IntegerDatum 1, ch_block_no = 10, ch_block_index = 0, ch_action = Create\<rparr>,
        \<lparr>ch_datum = IntegerDatum 1, ch_block_no = 11, ch_block_index = 4, ch_action = Spend\<rparr>,
        \<lparr>ch_datum = IntegerDatum 2, ch_block_no = 11, ch_block_index = 4, ch_action = Create\<rparr>]"
  by (simp add: get_governed_map_changes_def get_governed_map_changes_tx_in_consumed_def fetch_all_def
      governed_map_changes_query_def created_rows_def spent_rows_def tx_and_block_def consuming_tx_ids_consumed_def
      consuming_tx_and_block_def datum_rows_def asset_rows_def asset_new_def left_join_def demo_db_def)

theorem tx_in_configurations_agree_witness:
  "db_consistent demo_db
    \<and> get_bridge_utxos_tx Enabled (Inr demo_db) [7] (asset_new [9]) (ResolvedBlock 10) 11 None
      = Inr [\<lparr>bu_block_number = 11, bu_tx_ix = 4, bu_tx_hash = [12], bu_utxo_ix = 1,
          bu_tokens_out = 10, bu_tokens_in = 7, bu_datum = Some (IntegerDatum 2)\<rparr>]
    \<and> map_sum id length (get_governed_map_changes (Inr demo_db) [7] None 11 (asset_new [9]) Enabled) = Inr 3"
  using tx_in_configurations_agree [OF demo_db_consistent] demo_db_consistent by (simp add: demo_db_bridge demo_db_changes)

end
