(* ===== verification/Plutus_Codecs.thy ===== *)
theory Plutus_Codecs
  imports Candidates "HOL-Library.Monad_Syntax"
begin

text \<open>
  The datum types of the smart contracts, \<open>toolkit/smart-contracts/plutus-data/src\<close>, with their
  encoders and decoders.

  The \<open>PlutusData\<close> of \<open>cardano_serialization_lib\<close> is the type parameter \<open>'pd\<close>, and the functions of
  that library are the record \<open>csl\<close>; \<open>csl_ok\<close> states that its views undo its constructors and exclude each other. A
  \<open>PlutusList\<close> is the list of its elements and a \<open>BigInt\<close> an \<open>int\<close>. A fixed-size array is a byte list,
  and a conversion to an array of another length fails. A message that the code formats is a value of
  \<open>decoding_msg\<close>.
\<close>

subsection \<open>The library\<close>

record 'pd csl =
  as_bytes :: "'pd \<Rightarrow> bytes option"
  as_integer :: "'pd \<Rightarrow> int option"
  as_list :: "'pd \<Rightarrow> 'pd list option"
  as_constr :: "'pd \<Rightarrow> (u64 \<times> 'pd list) option"
  new_bytes :: "bytes \<Rightarrow> 'pd"
  new_integer :: "int \<Rightarrow> 'pd"
  new_list :: "'pd list \<Rightarrow> 'pd"
  new_constr :: "u64 \<Rightarrow> 'pd list \<Rightarrow> 'pd"

definition csl_ok :: "'pd csl \<Rightarrow> bool" where
  "csl_ok c \<longleftrightarrow>
     (\<forall>b. as_bytes c (new_bytes c b) = Some b \<and> as_integer c (new_bytes c b) = None
        \<and> as_list c (new_bytes c b) = None \<and> as_constr c (new_bytes c b) = None)
   \<and> (\<forall>i. as_bytes c (new_integer c i) = None \<and> as_integer c (new_integer c i) = Some i
        \<and> as_list c (new_integer c i) = None \<and> as_constr c (new_integer c i) = None)
   \<and> (\<forall>l. as_bytes c (new_list c l) = None \<and> as_integer c (new_list c l) = None
        \<and> as_list c (new_list c l) = Some l \<and> as_constr c (new_list c l) = None)
   \<and> (\<forall>a l. as_bytes c (new_constr c a l) = None \<and> as_integer c (new_constr c a l) = None
        \<and> as_list c (new_constr c a l) = None \<and> as_constr c (new_constr c a l) = Some (a, l))
   \<and> (\<forall>d. as_list c d \<noteq> None \<longrightarrow> as_integer c d = None)
   \<and> (\<forall>d. as_constr c d \<noteq> None \<longrightarrow> as_list c d = None)"

text \<open>Conversion to an array of \<open>n\<close> bytes, and \<open>PlutusList::get\<close>, which panics out of range.\<close>

definition to_array :: "nat \<Rightarrow> bytes \<Rightarrow> bytes option" where
  "to_array n b = (if length b = n then Some b else None)"

definition list_get :: "'pd list \<Rightarrow> nat \<Rightarrow> ('e, 'pd) outcome" where
  "list_get l i = (if i < length l then Ok (l ! i) else Panic IndexOutOfBounds)"

subsection \<open>\<open>lib.rs\<close>\<close>

datatype decoding_msg = Text string | CannotParseAppendix string | UnknownVersion u64

record 'pd data_decoding_error =
  err_datum :: 'pd
  err_to :: string
  err_msg :: decoding_msg

definition as_u64 :: "'pd csl \<Rightarrow> 'pd \<Rightarrow> u64 option" where
  "as_u64 c d = do { i \<leftarrow> as_integer c d; if 0 \<le> i \<and> i < 2 ^ 64 then Some (word_of_int i) else None }"

definition as_u32 :: "'pd csl \<Rightarrow> 'pd \<Rightarrow> u32 option" where
  "as_u32 c d = do { n \<leftarrow> as_u64 c d; if n < 2 ^ 32 then Some (ucast n) else None }"

definition as_u16 :: "'pd csl \<Rightarrow> 'pd \<Rightarrow> u16 option" where
  "as_u16 c d = do { n \<leftarrow> as_u32 c d; if n < 2 ^ 16 then Some (ucast n) else None }"

record 'pd versioned_generic_datum =
  vgd_datum :: 'pd
  vgd_appendix :: 'pd
  vgd_version :: u64

definition versioned_generic_datum_to_plutus :: "'pd csl \<Rightarrow> 'pd versioned_generic_datum \<Rightarrow> 'pd" where
  "versioned_generic_datum_to_plutus c v =
     new_list c [vgd_datum v, vgd_appendix v, new_integer c (uint (vgd_version v))]"

definition plutus_data_version_and_payload :: "'pd csl \<Rightarrow> 'pd \<Rightarrow> 'pd versioned_generic_datum option" where
  "plutus_data_version_and_payload c d = do {
     fields \<leftarrow> as_list c d;
     if length fields = 3 then do {
       version \<leftarrow> as_u64 c (fields ! 2);
       Some \<lparr>vgd_datum = fields ! 0, vgd_appendix = fields ! 1, vgd_version = version\<rparr> }
     else None }"

text \<open>The implementation of \<open>VersionedDatum\<close> for every \<open>VersionedDatumWithLegacy\<close>.\<close>

definition versioned_decode ::
  "'pd csl \<Rightarrow> string \<Rightarrow> ('pd \<Rightarrow> decoding_msg + 'a) \<Rightarrow> (u64 \<Rightarrow> 'pd \<Rightarrow> 'pd \<Rightarrow> decoding_msg + 'a) \<Rightarrow> 'pd
     \<Rightarrow> 'pd data_decoding_error + 'a" where
  "versioned_decode c name decode_legacy decode_versioned d =
     map_sum (\<lambda>msg. \<lparr>err_datum = d, err_to = name, err_msg = msg\<rparr>) id
       (case plutus_data_version_and_payload c d of
          None \<Rightarrow> decode_legacy d
        | Some v \<Rightarrow> decode_versioned (vgd_version v) (vgd_datum v) (vgd_appendix v))"

definition script_hash_try_from :: "'pd csl \<Rightarrow> 'pd \<Rightarrow> 'pd data_decoding_error + bytes" where
  "script_hash_try_from c d = ok_or \<lparr>err_datum = d, err_to = ''ScriptHash'', err_msg = Text ''Expected [u8;32]''\<rparr>
     (Option.bind (as_bytes c d) (to_array 28))"

definition script_hash_to_plutus :: "'pd csl \<Rightarrow> bytes \<Rightarrow> 'pd" where
  "script_hash_to_plutus c h = new_bytes c h"

subsection \<open>\<open>governed_map.rs\<close>\<close>

text \<open>
  \<open>String::from_utf8\<close> accepts the well-formed UTF-8 sequences: one byte below \<open>0x80\<close>, or a leading
  byte and its continuation bytes, without overlong forms, surrogates and code points above
  \<open>0x10FFFF\<close>.
\<close>

definition continuation :: "u8 \<Rightarrow> bool" where
  "continuation b \<longleftrightarrow> 0x80 \<le> b \<and> b \<le> 0xBF"

fun utf8_valid :: "bytes \<Rightarrow> bool" where
  "utf8_valid [] = True"
| "utf8_valid (b # bs) =
     (if b < 0x80 then utf8_valid bs
      else (case bs of
          [] \<Rightarrow> False
        | b1 # bs1 \<Rightarrow>
            if 0xC2 \<le> b \<and> b \<le> 0xDF then continuation b1 \<and> utf8_valid bs1
            else (case bs1 of
                [] \<Rightarrow> False
              | b2 # bs2 \<Rightarrow>
                  if 0xE0 \<le> b \<and> b \<le> 0xEF
                  then continuation b1 \<and> (b = 0xE0 \<longrightarrow> 0xA0 \<le> b1) \<and> (b = 0xED \<longrightarrow> b1 \<le> 0x9F)
                    \<and> continuation b2 \<and> utf8_valid bs2
                  else (case bs2 of
                      [] \<Rightarrow> False
                    | b3 # bs3 \<Rightarrow>
                        0xF0 \<le> b \<and> b \<le> 0xF4 \<and> continuation b1 \<and> (b = 0xF0 \<longrightarrow> 0x90 \<le> b1) \<and> (b = 0xF4 \<longrightarrow> b1 \<le> 0x8F)
                        \<and> continuation b2 \<and> continuation b3 \<and> utf8_valid bs3))))"

record governed_map_datum =
  gmd_key :: bytes
  gmd_value :: bytes

text \<open>The elements of the list are read without a test of its length.\<close>

definition governed_map_datum_try_from ::
  "'pd csl \<Rightarrow> 'pd \<Rightarrow> ('pd data_decoding_error, governed_map_datum) outcome" where
  "governed_map_datum_try_from c d =
     (let error = Err \<lparr>err_datum = d, err_to = ''GovernedMapDatum'', err_msg = Text ''Expected List([UTF8String, Bytes])''\<rparr>
      in case as_list c d of
           None \<Rightarrow> error
         | Some l \<Rightarrow> and_then (list_get l 0) (\<lambda>k.
             case Option.bind (as_bytes c k) (\<lambda>b. if utf8_valid b then Some b else None) of
               None \<Rightarrow> error
             | Some key \<Rightarrow> and_then (list_get l 1) (\<lambda>v.
                 case as_bytes c v of
                   None \<Rightarrow> error
                 | Some value \<Rightarrow> Ok \<lparr>gmd_key = key, gmd_value = value\<rparr>)))"

definition governed_map_datum_to_plutus_data :: "'pd csl \<Rightarrow> governed_map_datum \<Rightarrow> 'pd" where
  "governed_map_datum_to_plutus_data c g = new_list c [new_bytes c (gmd_key g), new_bytes c (gmd_value g)]"

subsection \<open>\<open>bridge.rs\<close>\<close>

datatype token_transfer_datum_v1 = UserTransferDatum bytes | ReserveTransferDatum

datatype token_transfer_datum = TokenTransferV1 token_transfer_datum_v1

definition token_transfer_datum_v1_to_plutus :: "'pd csl \<Rightarrow> token_transfer_datum_v1 \<Rightarrow> 'pd" where
  "token_transfer_datum_v1_to_plutus c t = versioned_generic_datum_to_plutus c
     \<lparr>vgd_datum = new_constr c 0 [],
      vgd_appendix = (case t of
          UserTransferDatum receiver \<Rightarrow> new_constr c 0 [new_bytes c receiver]
        | ReserveTransferDatum \<Rightarrow> new_constr c 1 []),
      vgd_version = 1\<rparr>"

definition token_transfer_datum_to_plutus :: "'pd csl \<Rightarrow> token_transfer_datum \<Rightarrow> 'pd" where
  "token_transfer_datum_to_plutus c t = (case t of TokenTransferV1 d \<Rightarrow> token_transfer_datum_v1_to_plutus c d)"

definition decode_v1_token_transfer_datum :: "'pd csl \<Rightarrow> 'pd \<Rightarrow> token_transfer_datum option" where
  "decode_v1_token_transfer_datum c appendix = do {
     (alternative, data) \<leftarrow> as_constr c appendix;
     if alternative = 0 \<and> length data = 1 then do {
       receiver \<leftarrow> as_bytes c (data ! 0);
       Some (TokenTransferV1 (UserTransferDatum receiver)) }
     else if alternative = 1 \<and> data = [] then Some (TokenTransferV1 ReserveTransferDatum)
     else None }"

definition token_transfer_datum_decode :: "'pd csl \<Rightarrow> 'pd \<Rightarrow> 'pd data_decoding_error + token_transfer_datum" where
  "token_transfer_datum_decode c d = (case plutus_data_version_and_payload c d of
       None \<Rightarrow> Inl \<lparr>err_datum = d, err_to = ''TokenTransferDatum'', err_msg = Text ''unversioned datum''\<rparr>
     | Some v \<Rightarrow>
         if vgd_version v = 1
         then ok_or \<lparr>err_datum = vgd_appendix v, err_to = ''TokenTransferDatum'', err_msg = Text ''malformed appendix''\<rparr>
           (decode_v1_token_transfer_datum c (vgd_appendix v))
         else Inl \<lparr>err_datum = d, err_to = ''TokenTransferDatum'', err_msg = Text ''invalid version''\<rparr>)"

subsection \<open>\<open>candidate_keys.rs\<close>\<close>

definition decode_candidate_key :: "'pd csl \<Rightarrow> 'pd \<Rightarrow> candidate_key option" where
  "decode_candidate_key c d = do {
     l \<leftarrow> as_list c d;
     if length l = 2 then do {
       i \<leftarrow> as_bytes c (l ! 0);
       i \<leftarrow> to_array 4 i;
       b \<leftarrow> as_bytes c (l ! 1);
       Some \<lparr>key_id = i, key_bytes = b\<rparr> }
     else None }"

definition decode_candidate_keys :: "'pd csl \<Rightarrow> 'pd \<Rightarrow> candidate_keys option" where
  "decode_candidate_keys c d = do { l \<leftarrow> as_list c d; those (map (decode_candidate_key c) l) }"

definition candidate_key_to_plutus :: "'pd csl \<Rightarrow> candidate_key \<Rightarrow> 'pd" where
  "candidate_key_to_plutus c k = new_list c [new_bytes c (key_id k), new_bytes c (key_bytes k)]"

definition candidate_keys_to_plutus :: "'pd csl \<Rightarrow> candidate_keys \<Rightarrow> 'pd" where
  "candidate_keys_to_plutus c keys = new_list c (map (candidate_key_to_plutus c) keys)"

subsection \<open>\<open>d_param.rs\<close>\<close>

datatype d_param_datum = DParamV0 u16 u16

definition d_param_datum_into :: "d_param_datum \<Rightarrow> d_parameter" where
  "d_param_datum_into d = (case d of DParamV0 p r \<Rightarrow> \<lparr>num_permissioned_candidates = p, num_registered_candidates = r\<rparr>)"

definition d_parameter_to_plutus_data :: "'pd csl \<Rightarrow> d_parameter \<Rightarrow> 'pd" where
  "d_parameter_to_plutus_data c d = versioned_generic_datum_to_plutus c
     \<lparr>vgd_datum = new_constr c 0 [],
      vgd_appendix = new_list c [new_integer c (uint (num_permissioned_candidates d)),
        new_integer c (uint (num_registered_candidates d))],
      vgd_version = 0\<rparr>"

definition d_param_decode_legacy :: "'pd csl \<Rightarrow> 'pd \<Rightarrow> string + d_param_datum" where
  "d_param_decode_legacy c d = ok_or ''Expected [u16, u16]'' (do {
     items \<leftarrow> as_list c d;
     if length items = 2 then do {
       p \<leftarrow> as_u16 c (items ! 0);
       r \<leftarrow> as_u16 c (items ! 1);
       Some (DParamV0 p r) }
     else None })"

definition d_param_decode_versioned :: "'pd csl \<Rightarrow> u64 \<Rightarrow> 'pd \<Rightarrow> 'pd \<Rightarrow> decoding_msg + d_param_datum" where
  "d_param_decode_versioned c version d appendix =
     (if version = 0 then map_sum CannotParseAppendix id (d_param_decode_legacy c appendix)
      else Inl (UnknownVersion version))"

definition d_param_decode :: "'pd csl \<Rightarrow> 'pd \<Rightarrow> 'pd data_decoding_error + d_param_datum" where
  "d_param_decode c = versioned_decode c ''DParamDatum''
     (\<lambda>d. map_sum Text id (d_param_decode_legacy c d)) (d_param_decode_versioned c)"

subsection \<open>\<open>permissioned_candidates.rs\<close>\<close>

record permissioned_candidate_datum_v0 =
  pv0_sidechain_public_key :: bytes
  pv0_aura_public_key :: bytes
  pv0_grandpa_public_key :: bytes

record permissioned_candidate_datum_v1 =
  pv1_partner_chains_key :: bytes
  pv1_keys :: candidate_keys

datatype permissioned_candidate_datums =
    PermissionedV0 "permissioned_candidate_datum_v0 list"
  | PermissionedV1 "permissioned_candidate_datum_v1 list"

definition permissioned_v0_into :: "permissioned_candidate_datum_v0 \<Rightarrow> permissioned_candidate_data" where
  "permissioned_v0_into v = \<lparr>perm_sidechain_public_key = pv0_sidechain_public_key v,
     perm_keys = [\<lparr>key_id = aura_id, key_bytes = pv0_aura_public_key v\<rparr>,
       \<lparr>key_id = grandpa_id, key_bytes = pv0_grandpa_public_key v\<rparr>]\<rparr>"

definition permissioned_v1_into :: "permissioned_candidate_datum_v1 \<Rightarrow> permissioned_candidate_data" where
  "permissioned_v1_into v = \<lparr>perm_sidechain_public_key = pv1_partner_chains_key v, perm_keys = pv1_keys v\<rparr>"

definition permissioned_candidate_datums_into :: "permissioned_candidate_datums \<Rightarrow> permissioned_candidate_data list" where
  "permissioned_candidate_datums_into d = (case d of
       PermissionedV0 v \<Rightarrow> map permissioned_v0_into v
     | PermissionedV1 v \<Rightarrow> map permissioned_v1_into v)"

definition candidates_to_plutus_data_v0 :: "'pd csl \<Rightarrow> permissioned_candidate_data list \<Rightarrow> 'pd" where
  "candidates_to_plutus_data_v0 c candidates = versioned_generic_datum_to_plutus c
     \<lparr>vgd_datum = new_constr c 0 [],
      vgd_appendix = new_list c (map (\<lambda>p. new_list c
        (new_bytes c (perm_sidechain_public_key p) # map (\<lambda>k. new_bytes c (key_bytes k)) (perm_keys p))) candidates),
      vgd_version = 0\<rparr>"

definition candidates_to_plutus_data_v1 :: "'pd csl \<Rightarrow> permissioned_candidate_data list \<Rightarrow> 'pd" where
  "candidates_to_plutus_data_v1 c candidates = versioned_generic_datum_to_plutus c
     \<lparr>vgd_datum = new_constr c 0 [],
      vgd_appendix = new_list c (map (\<lambda>p. new_list c
        [new_bytes c (perm_sidechain_public_key p), candidate_keys_to_plutus c (perm_keys p)]) candidates),
      vgd_version = 1\<rparr>"

definition permissioned_candidates_to_plutus_data :: "'pd csl \<Rightarrow> permissioned_candidate_data list \<Rightarrow> 'pd" where
  "permissioned_candidates_to_plutus_data c candidates =
     (if list_all (\<lambda>p. has_only_aura_and_grandpa_keys (perm_keys p)) candidates
      then candidates_to_plutus_data_v0 c candidates
      else candidates_to_plutus_data_v1 c candidates)"

definition decode_legacy_candidate_datum :: "'pd csl \<Rightarrow> 'pd \<Rightarrow> permissioned_candidate_datum_v0 option" where
  "decode_legacy_candidate_datum c d = do {
     datums \<leftarrow> as_list c d;
     if length datums = 3 then do {
       sc \<leftarrow> as_bytes c (datums ! 0);
       aura \<leftarrow> as_bytes c (datums ! 1);
       grandpa \<leftarrow> as_bytes c (datums ! 2);
       Some \<lparr>pv0_sidechain_public_key = sc, pv0_aura_public_key = aura, pv0_grandpa_public_key = grandpa\<rparr> }
     else None }"

definition decode_v1_candidate_datum :: "'pd csl \<Rightarrow> 'pd \<Rightarrow> permissioned_candidate_datum_v1 option" where
  "decode_v1_candidate_datum c d = do {
     outer \<leftarrow> as_list c d;
     if length outer = 2 then do {
       k \<leftarrow> as_bytes c (outer ! 0);
       keys \<leftarrow> decode_candidate_keys c (outer ! 1);
       Some \<lparr>pv1_partner_chains_key = k, pv1_keys = keys\<rparr> }
     else None }"

definition permissioned_decode_legacy :: "'pd csl \<Rightarrow> 'pd \<Rightarrow> string + permissioned_candidate_datums" where
  "permissioned_decode_legacy c d = map_sum id PermissionedV0
     (ok_or ''Expected [[ByteString, ByteString, ByteString]]'' (do {
        l \<leftarrow> as_list c d; those (map (decode_legacy_candidate_datum c) l) }))"

definition permissioned_decode_v1_appendix :: "'pd csl \<Rightarrow> 'pd \<Rightarrow> string + permissioned_candidate_datums" where
  "permissioned_decode_v1_appendix c d = map_sum id PermissionedV1
     (ok_or ''Expected [[ByteString, ByteString], [[ByteString, ByteString], ... ]]'' (do {
        l \<leftarrow> as_list c d; those (map (decode_v1_candidate_datum c) l) }))"

definition permissioned_decode_versioned ::
  "'pd csl \<Rightarrow> u64 \<Rightarrow> 'pd \<Rightarrow> 'pd \<Rightarrow> decoding_msg + permissioned_candidate_datums" where
  "permissioned_decode_versioned c version d appendix =
     (if version = 0 then map_sum CannotParseAppendix id (permissioned_decode_legacy c appendix)
      else if version = 1 then map_sum CannotParseAppendix id (permissioned_decode_v1_appendix c appendix)
      else Inl (UnknownVersion version))"

definition permissioned_decode :: "'pd csl \<Rightarrow> 'pd \<Rightarrow> 'pd data_decoding_error + permissioned_candidate_datums" where
  "permissioned_decode c = versioned_decode c ''PermissionedCandidateDatums''
     (\<lambda>d. map_sum Text id (permissioned_decode_legacy c d)) (permissioned_decode_versioned c)"

subsection \<open>\<open>registered_candidates.rs\<close>\<close>

record ada_based_staking =
  abs_pub_key :: bytes
  abs_signature :: bytes

text \<open>The fields are, in order: stake ownership, partner chain key, its signature, the registration UTXO, \<open>own_pkh\<close>, and the keys.\<close>

datatype register_validator_datum =
    RegisterV0 ada_based_staking bytes bytes utxo_id bytes bytes bytes
  | RegisterV1 ada_based_staking bytes bytes utxo_id bytes candidate_keys

record candidate_registration =
  cr_stake_ownership :: ada_based_staking
  cr_partner_chain_pub_key :: bytes
  cr_partner_chain_signature :: bytes
  cr_own_pkh :: bytes
  cr_registration_utxo :: utxo_id
  cr_keys :: candidate_keys

definition stake_ownership_to_plutus_data :: "'pd csl \<Rightarrow> ada_based_staking \<Rightarrow> 'pd" where
  "stake_ownership_to_plutus_data c v = new_constr c 0 [new_bytes c (abs_pub_key v), new_bytes c (abs_signature v)]"

definition tx_hash_to_plutus_data :: "'pd csl \<Rightarrow> bytes \<Rightarrow> 'pd" where
  "tx_hash_to_plutus_data c h = new_constr c 0 [new_bytes c h]"

definition utxo_id_to_plutus_data :: "'pd csl \<Rightarrow> utxo_id \<Rightarrow> 'pd" where
  "utxo_id_to_plutus_data c u = new_constr c 0
     [tx_hash_to_plutus_data c (utxo_tx_hash u), new_integer c (uint (utxo_index u))]"

definition register_validator_datum_to_plutus :: "'pd csl \<Rightarrow> register_validator_datum \<Rightarrow> 'pd" where
  "register_validator_datum_to_plutus c r = (case r of
       RegisterV0 so key sig u pkh aura grandpa \<Rightarrow> versioned_generic_datum_to_plutus c
         \<lparr>vgd_datum = new_bytes c pkh,
          vgd_appendix = new_constr c 0 [stake_ownership_to_plutus_data c so, new_bytes c key, new_bytes c sig,
            utxo_id_to_plutus_data c u, new_bytes c aura, new_bytes c grandpa],
          vgd_version = 0\<rparr>
     | RegisterV1 so key sig u pkh keys \<Rightarrow> versioned_generic_datum_to_plutus c
         \<lparr>vgd_datum = new_bytes c pkh,
          vgd_appendix = new_constr c 0 [stake_ownership_to_plutus_data c so, new_bytes c key, new_bytes c sig,
            utxo_id_to_plutus_data c u, candidate_keys_to_plutus c keys],
          vgd_version = 1\<rparr>)"

definition candidate_registration_to_plutus_data :: "'pd csl \<Rightarrow> candidate_registration \<Rightarrow> 'pd" where
  "candidate_registration_to_plutus_data c r = register_validator_datum_to_plutus c
     (if has_only_aura_and_grandpa_keys (cr_keys r)
      then RegisterV0 (cr_stake_ownership r) (cr_partner_chain_pub_key r) (cr_partner_chain_signature r)
        (cr_registration_utxo r) (cr_own_pkh r) (find_or_empty (cr_keys r) aura_id) (find_or_empty (cr_keys r) grandpa_id)
      else RegisterV1 (cr_stake_ownership r) (cr_partner_chain_pub_key r) (cr_partner_chain_signature r)
        (cr_registration_utxo r) (cr_own_pkh r) (cr_keys r))"

definition register_validator_datum_into :: "register_validator_datum \<Rightarrow> candidate_registration" where
  "register_validator_datum_into d = (case d of
       RegisterV0 so key sig u pkh aura grandpa \<Rightarrow> \<lparr>cr_stake_ownership = so, cr_partner_chain_pub_key = key,
         cr_partner_chain_signature = sig, cr_own_pkh = pkh, cr_registration_utxo = u,
         cr_keys = [\<lparr>key_id = aura_id, key_bytes = aura\<rparr>, \<lparr>key_id = grandpa_id, key_bytes = grandpa\<rparr>]\<rparr>
     | RegisterV1 so key sig u pkh keys \<Rightarrow> \<lparr>cr_stake_ownership = so, cr_partner_chain_pub_key = key,
         cr_partner_chain_signature = sig, cr_own_pkh = pkh, cr_registration_utxo = u, cr_keys = keys\<rparr>)"

text \<open>The fields of a constructor with alternative zero whose number satisfies a test.\<close>

definition zero_constr_fields :: "'pd csl \<Rightarrow> (nat \<Rightarrow> bool) \<Rightarrow> 'pd \<Rightarrow> 'pd list option" where
  "zero_constr_fields c n_ok d = do {
     (alternative, data) \<leftarrow> as_constr c d;
     if alternative = 0 \<and> n_ok (length data) then Some data else None }"

definition decode_tx_hash_datum :: "'pd csl \<Rightarrow> 'pd \<Rightarrow> bytes option" where
  "decode_tx_hash_datum c d = do {
     fields \<leftarrow> zero_constr_fields c (\<lambda>n. n \<ge> 1) d;
     b \<leftarrow> as_bytes c (fields ! 0);
     to_array 32 b }"

definition decode_utxo_id_datum :: "'pd csl \<Rightarrow> 'pd \<Rightarrow> utxo_id option" where
  "decode_utxo_id_datum c d = do {
     fields \<leftarrow> zero_constr_fields c (\<lambda>n. n \<ge> 2) d;
     tx_hash \<leftarrow> decode_tx_hash_datum c (fields ! 0);
     index \<leftarrow> as_u16 c (fields ! 1);
     Some \<lparr>utxo_tx_hash = tx_hash, utxo_index = index\<rparr> }"

definition decode_ada_based_staking_datum :: "'pd csl \<Rightarrow> 'pd \<Rightarrow> ada_based_staking option" where
  "decode_ada_based_staking_datum c d = do {
     fields \<leftarrow> zero_constr_fields c (\<lambda>n. n \<ge> 2) d;
     pk \<leftarrow> as_bytes c (fields ! 0);
     pk \<leftarrow> to_array 32 pk;
     sig \<leftarrow> as_bytes c (fields ! 1);
     sig \<leftarrow> to_array 64 sig;
     Some \<lparr>abs_pub_key = pk, abs_signature = sig\<rparr> }"

definition decode_v0_register_validator_datum :: "'pd csl \<Rightarrow> 'pd \<Rightarrow> 'pd \<Rightarrow> register_validator_datum option" where
  "decode_v0_register_validator_datum c d appendix = do {
     fields \<leftarrow> zero_constr_fields c (\<lambda>n. n \<ge> 6) appendix;
     so \<leftarrow> decode_ada_based_staking_datum c (fields ! 0);
     key \<leftarrow> as_bytes c (fields ! 1);
     sig \<leftarrow> as_bytes c (fields ! 2);
     u \<leftarrow> decode_utxo_id_datum c (fields ! 3);
     aura \<leftarrow> as_bytes c (fields ! 4);
     grandpa \<leftarrow> as_bytes c (fields ! 5);
     pkh \<leftarrow> as_bytes c d;
     pkh \<leftarrow> to_array 28 pkh;
     Some (RegisterV0 so key sig u pkh aura grandpa) }"

definition decode_v1_register_validator_datum :: "'pd csl \<Rightarrow> 'pd \<Rightarrow> 'pd \<Rightarrow> register_validator_datum option" where
  "decode_v1_register_validator_datum c d appendix = do {
     fields \<leftarrow> zero_constr_fields c (\<lambda>n. n = 5) appendix;
     so \<leftarrow> decode_ada_based_staking_datum c (fields ! 0);
     key \<leftarrow> as_bytes c (fields ! 1);
     sig \<leftarrow> as_bytes c (fields ! 2);
     u \<leftarrow> decode_utxo_id_datum c (fields ! 3);
     keys \<leftarrow> decode_candidate_keys c (fields ! 4);
     pkh \<leftarrow> as_bytes c d;
     pkh \<leftarrow> to_array 28 pkh;
     Some (RegisterV1 so key sig u pkh keys) }"

definition decode_legacy_register_validator_datum :: "'pd csl \<Rightarrow> 'pd \<Rightarrow> register_validator_datum option" where
  "decode_legacy_register_validator_datum c d = do {
     fields \<leftarrow> zero_constr_fields c (\<lambda>n. n \<ge> 7) d;
     so \<leftarrow> decode_ada_based_staking_datum c (fields ! 0);
     key \<leftarrow> as_bytes c (fields ! 1);
     sig \<leftarrow> as_bytes c (fields ! 2);
     u \<leftarrow> decode_utxo_id_datum c (fields ! 3);
     pkh \<leftarrow> as_bytes c (fields ! 4);
     pkh \<leftarrow> to_array 28 pkh;
     aura \<leftarrow> as_bytes c (fields ! 5);
     grandpa \<leftarrow> as_bytes c (fields ! 6);
     Some (RegisterV0 so key sig u pkh aura grandpa) }"

definition register_validator_decode_versioned ::
  "'pd csl \<Rightarrow> u64 \<Rightarrow> 'pd \<Rightarrow> 'pd \<Rightarrow> decoding_msg + register_validator_datum" where
  "register_validator_decode_versioned c version d appendix =
     (if version = 0 then ok_or (Text ''Can not parse appendix'') (decode_v0_register_validator_datum c d appendix)
      else if version = 1 then ok_or (Text ''Can not parse appendix'') (decode_v1_register_validator_datum c d appendix)
      else Inl (UnknownVersion version))"

definition register_validator_decode :: "'pd csl \<Rightarrow> 'pd \<Rightarrow> 'pd data_decoding_error + register_validator_datum" where
  "register_validator_decode c = versioned_decode c ''RegisterValidatorDatum''
     (\<lambda>d. ok_or (Text ''Invalid data'') (decode_legacy_register_validator_datum c d)) (register_validator_decode_versioned c)"

subsection \<open>\<open>reserve.rs\<close>\<close>

datatype reserve_redeemer = DepositToReserve | ReleaseFromReserve | UpdateReserve | Handover

fun reserve_redeemer_index :: "reserve_redeemer \<Rightarrow> u64" where
  "reserve_redeemer_index DepositToReserve = 0"
| "reserve_redeemer_index ReleaseFromReserve = 1"
| "reserve_redeemer_index UpdateReserve = 2"
| "reserve_redeemer_index Handover = 3"

definition reserve_redeemer_to_plutus :: "'pd csl \<Rightarrow> reserve_redeemer \<Rightarrow> 'pd" where
  "reserve_redeemer_to_plutus c r = new_constr c (reserve_redeemer_index r) []"

record asset_id =
  aid_policy_id :: bytes
  aid_asset_name :: bytes

text \<open>The immutable settings are the token, the mutable ones the asset name of the accrual function and the incentive.\<close>

record reserve_datum =
  rd_token :: asset_id
  rd_total_accrued_function_asset_name :: bytes
  rd_initial_incentive :: u64
  rd_token_total_amount_transferred :: u64

definition reserve_datum_to_plutus :: "'pd csl \<Rightarrow> reserve_datum \<Rightarrow> 'pd" where
  "reserve_datum_to_plutus c r = versioned_generic_datum_to_plutus c
     \<lparr>vgd_datum = new_list c [
        new_constr c 0 [new_bytes c (aid_policy_id (rd_token r)), new_bytes c (aid_asset_name (rd_token r))],
        new_list c [new_bytes c (rd_total_accrued_function_asset_name r), new_integer c (uint (rd_initial_incentive r))],
        new_integer c (uint (rd_token_total_amount_transferred r))],
      vgd_appendix = new_constr c 0 [],
      vgd_version = 0\<rparr>"

text \<open>\<open>next()\<close> of the iterator over a list, and the rest of the iteration.\<close>

definition iter_next :: "'a list \<Rightarrow> ('a \<times> 'a list) option" where
  "iter_next l = (case l of [] \<Rightarrow> None | x # xs \<Rightarrow> Some (x, xs))"

definition decode_token_id_datum :: "'pd csl \<Rightarrow> 'pd \<Rightarrow> asset_id option" where
  "decode_token_id_datum c d = do {
     (alternative, data) \<leftarrow> as_constr c d;
     if alternative = 0 then do {
       (p, data) \<leftarrow> iter_next data;
       p \<leftarrow> as_bytes c p;
       (n, data) \<leftarrow> iter_next data;
       n \<leftarrow> as_bytes c n;
       p \<leftarrow> to_array 28 p;
       if length n \<le> 32 then Some \<lparr>aid_policy_id = p, aid_asset_name = n\<rparr> else None }
     else None }"

definition decode_v0_reserve_datum :: "'pd csl \<Rightarrow> 'pd \<Rightarrow> reserve_datum option" where
  "decode_v0_reserve_datum c d = do {
     outer \<leftarrow> as_list c d;
     (t, outer) \<leftarrow> iter_next outer;
     token \<leftarrow> decode_token_id_datum c t;
     (ms, outer) \<leftarrow> iter_next outer;
     ms \<leftarrow> as_list c ms;
     (h, ms) \<leftarrow> iter_next ms;
     h \<leftarrow> as_bytes c h;
     h \<leftarrow> to_array 28 h;
     (i, ms) \<leftarrow> iter_next ms;
     incentive \<leftarrow> as_u64 c i;
     (a, outer) \<leftarrow> iter_next outer;
     amount \<leftarrow> as_u64 c a;
     Some \<lparr>rd_token = token, rd_total_accrued_function_asset_name = h, rd_initial_incentive = incentive,
       rd_token_total_amount_transferred = amount\<rparr> }"

definition reserve_datum_decode :: "'pd csl \<Rightarrow> 'pd \<Rightarrow> 'pd data_decoding_error + reserve_datum" where
  "reserve_datum_decode c d =
     (let unversioned = Inl \<lparr>err_datum = d, err_to = ''ReserveDatum'', err_msg = Text ''unversioned datum''\<rparr>
      in case plutus_data_version_and_payload c d of
           None \<Rightarrow> unversioned
         | Some v \<Rightarrow>
             if vgd_version v = 0
             then ok_or \<lparr>err_datum = vgd_datum v, err_to = ''ReserveDatum'', err_msg = Text ''invalid data''\<rparr>
               (decode_v0_reserve_datum c (vgd_datum v))
             else unversioned)"

definition after_withdrawal :: "reserve_datum \<Rightarrow> u64 \<Rightarrow> reserve_datum" where
  "after_withdrawal r amount =
     r\<lparr>rd_token_total_amount_transferred := rd_token_total_amount_transferred r + amount\<rparr>"

datatype illiquid_circulation_supply_redeemer = DepositMoreToSupply | WithdrawFromSupply

definition illiquid_redeemer_to_plutus :: "'pd csl \<Rightarrow> illiquid_circulation_supply_redeemer \<Rightarrow> 'pd" where
  "illiquid_redeemer_to_plutus c r = new_integer c (case r of DepositMoreToSupply \<Rightarrow> 0 | WithdrawFromSupply \<Rightarrow> 1)"

subsection \<open>\<open>version_oracle.rs\<close>\<close>

text \<open>A \<open>VersionOracle\<close> is its \<open>script_id\<close>.\<close>

type_synonym version_oracle = u32

record version_oracle_datum =
  vod_version_oracle :: version_oracle
  vod_currency_symbol :: bytes

definition version_oracle_try_from :: "'pd csl \<Rightarrow> 'pd \<Rightarrow> 'pd data_decoding_error + version_oracle" where
  "version_oracle_try_from c d =
     ok_or \<lparr>err_datum = d, err_to = ''VersionOracle'', err_msg = Text ''Expected u32''\<rparr> (as_u32 c d)"

definition version_oracle_to_plutus :: "'pd csl \<Rightarrow> version_oracle \<Rightarrow> 'pd" where
  "version_oracle_to_plutus c v = new_integer c (uint v)"

definition result_ok :: "'e + 'a \<Rightarrow> 'a option" where
  "result_ok r = (case r of Inl _ \<Rightarrow> None | Inr a \<Rightarrow> Some a)"

definition version_oracle_datum_try_from :: "'pd csl \<Rightarrow> 'pd \<Rightarrow> 'pd data_decoding_error + version_oracle_datum" where
  "version_oracle_datum_try_from c d =
     ok_or \<lparr>err_datum = d, err_to = ''VersionOracleDatum'', err_msg = Text ''Expected [u32, [u8;32]]''\<rparr> (do {
       items \<leftarrow> as_list c d;
       if length items = 2 then do {
         v \<leftarrow> result_ok (version_oracle_try_from c (items ! 0));
         h \<leftarrow> result_ok (script_hash_try_from c (items ! 1));
         Some \<lparr>vod_version_oracle = v, vod_currency_symbol = h\<rparr> }
       else None })"

definition version_oracle_datum_to_plutus :: "'pd csl \<Rightarrow> version_oracle_datum \<Rightarrow> 'pd" where
  "version_oracle_datum_to_plutus c v = new_list c
     [version_oracle_to_plutus c (vod_version_oracle v), script_hash_to_plutus c (vod_currency_symbol v)]"

datatype version_oracle_policy_redeemer =
    InitializeVersionOracle version_oracle bytes
  | MintVersionOracle version_oracle bytes
  | BurnVersionOracle version_oracle

definition version_oracle_policy_redeemer_try_from ::
  "'pd csl \<Rightarrow> 'pd \<Rightarrow> 'pd data_decoding_error + version_oracle_policy_redeemer" where
  "version_oracle_policy_redeemer_try_from c d =
     ok_or \<lparr>err_datum = d, err_to = ''VersionOraclePolicyRedeemer'',
         err_msg = Text ''Expected one of Constr 0 [u32, [u8;32]], Constr 1 [u32, [u8;32]], or Constr 2 [u32]''\<rparr> (do {
       (alternative, data) \<leftarrow> as_constr c d;
       if alternative = 0 \<and> length data = 2 then do {
         v \<leftarrow> result_ok (version_oracle_try_from c (data ! 0));
         h \<leftarrow> result_ok (script_hash_try_from c (data ! 1));
         Some (InitializeVersionOracle v h) }
       else if alternative = 1 \<and> length data = 2 then do {
         v \<leftarrow> result_ok (version_oracle_try_from c (data ! 0));
         h \<leftarrow> result_ok (script_hash_try_from c (data ! 1));
         Some (MintVersionOracle v h) }
       else if alternative = 2 \<and> length data = 1 then do {
         v \<leftarrow> result_ok (version_oracle_try_from c (data ! 0));
         Some (BurnVersionOracle v) }
       else None })"

definition version_oracle_policy_redeemer_to_plutus :: "'pd csl \<Rightarrow> version_oracle_policy_redeemer \<Rightarrow> 'pd" where
  "version_oracle_policy_redeemer_to_plutus c r = (case r of
       InitializeVersionOracle v h \<Rightarrow> new_constr c 0 [version_oracle_to_plutus c v, script_hash_to_plutus c h]
     | MintVersionOracle v h \<Rightarrow> new_constr c 1 [version_oracle_to_plutus c v, script_hash_to_plutus c h]
     | BurnVersionOracle v \<Rightarrow> new_constr c 2 [version_oracle_to_plutus c v])"

subsection \<open>Round trips\<close>

lemma csl_simps [codec_simps]:
  assumes "csl_ok c"
  shows "as_bytes c (new_bytes c b) = Some b" "as_integer c (new_bytes c b) = None"
    "as_list c (new_bytes c b) = None" "as_constr c (new_bytes c b) = None"
    "as_bytes c (new_integer c i) = None" "as_integer c (new_integer c i) = Some i"
    "as_list c (new_integer c i) = None" "as_constr c (new_integer c i) = None"
    "as_bytes c (new_list c l) = None" "as_integer c (new_list c l) = None"
    "as_list c (new_list c l) = Some l" "as_constr c (new_list c l) = None"
    "as_bytes c (new_constr c a l) = None" "as_integer c (new_constr c a l) = None"
    "as_list c (new_constr c a l) = None" "as_constr c (new_constr c a l) = Some (a, l)"
  using assms unfolding csl_ok_def by simp_all

lemma as_u64_new_integer [codec_simps]: "csl_ok c \<Longrightarrow> as_u64 c (new_integer c (uint (n :: u64))) = Some n"
  using uint_lt2p [of n] by (simp add: as_u64_def csl_simps)

lemma narrow_of_int:
  "(ucast (word_of_int i :: u64) :: u32) = word_of_int i" "(ucast (word_of_int i :: u32) :: u16) = word_of_int i"
  by (transfer, simp add: take_bit_take_bit)+

lemma word_of_int_less:
  assumes "0 \<le> i" "i < 2 ^ LENGTH('a::len)" "0 \<le> j" "j < 2 ^ LENGTH('a)"
  shows "(word_of_int i :: 'a word) < word_of_int j \<longleftrightarrow> i < j"
  using assms by (simp add: word_less_def uint_word_of_int take_bit_eq_mod)

lemma as_u32_in_range: "as_integer c d = Some i \<Longrightarrow> 0 \<le> i \<Longrightarrow> i < 2 ^ 32 \<Longrightarrow> as_u32 c d = Some (word_of_int i)"
  using word_of_int_less [where 'a = 64, of i "2 ^ 32"] by (simp add: as_u32_def as_u64_def narrow_of_int)

lemma as_u16_in_range: "as_integer c d = Some i \<Longrightarrow> 0 \<le> i \<Longrightarrow> i < 2 ^ 16 \<Longrightarrow> as_u16 c d = Some (word_of_int i)"
  using word_of_int_less [where 'a = 32, of i "2 ^ 16"] by (simp add: as_u16_def as_u32_in_range narrow_of_int)

lemma as_u32_new_integer [codec_simps]: "csl_ok c \<Longrightarrow> as_u32 c (new_integer c (uint (n :: u32))) = Some n"
  using uint_lt2p [of n] by (subst as_u32_in_range [where i = "uint n"]) (simp_all add: csl_simps)

lemma as_u16_new_integer [codec_simps]: "csl_ok c \<Longrightarrow> as_u16 c (new_integer c (uint (n :: u16))) = Some n"
  using uint_lt2p [of n] by (subst as_u16_in_range [where i = "uint n"]) (simp_all add: csl_simps)

lemma version_payload [codec_simps]:
  "csl_ok c \<Longrightarrow> plutus_data_version_and_payload c (versioned_generic_datum_to_plutus c v) = Some v"
  by (simp add: plutus_data_version_and_payload_def versioned_generic_datum_to_plutus_def codec_simps numeral_2_eq_2)

lemma those_map_Some: "(\<And>x. x \<in> set xs \<Longrightarrow> f (g x) = Some (h x)) \<Longrightarrow> those (map f (map g xs)) = Some (map h xs)"
  by (induction xs) simp_all

lemma candidate_keys_plutus [codec_simps]:
  assumes "csl_ok c" and "\<And>k. k \<in> set keys \<Longrightarrow> length (key_id k) = 4"
  shows "decode_candidate_keys c (candidate_keys_to_plutus c keys) = Some keys"
proof -
  have "those (map (decode_candidate_key c) (map (candidate_key_to_plutus c) keys)) = Some (map id keys)"
    using assms by (intro those_map_Some)
      (simp add: decode_candidate_key_def candidate_key_to_plutus_def codec_simps to_array_def)
  then show ?thesis using assms by (simp add: decode_candidate_keys_def candidate_keys_to_plutus_def codec_simps)
qed

lemma script_hash_plutus [codec_simps]:
  "csl_ok c \<Longrightarrow> length h = 28 \<Longrightarrow> script_hash_try_from c (script_hash_to_plutus c h) = Inr h"
  by (simp add: script_hash_try_from_def script_hash_to_plutus_def codec_simps to_array_def)

lemma version_oracle_plutus [codec_simps]:
  "csl_ok c \<Longrightarrow> version_oracle_try_from c (version_oracle_to_plutus c v) = Inr v"
  by (simp add: version_oracle_try_from_def version_oracle_to_plutus_def codec_simps)

lemma utxo_id_plutus [codec_simps]:
  "csl_ok c \<Longrightarrow> length (utxo_tx_hash u) = 32 \<Longrightarrow> decode_utxo_id_datum c (utxo_id_to_plutus_data c u) = Some u"
  by (simp add: decode_utxo_id_datum_def utxo_id_to_plutus_data_def zero_constr_fields_def decode_tx_hash_datum_def
      tx_hash_to_plutus_data_def codec_simps to_array_def)

lemma stake_ownership_plutus [codec_simps]:
  "csl_ok c \<Longrightarrow> length (abs_pub_key s) = 32 \<Longrightarrow> length (abs_signature s) = 64
    \<Longrightarrow> decode_ada_based_staking_datum c (stake_ownership_to_plutus_data c s) = Some s"
  by (simp add: decode_ada_based_staking_datum_def stake_ownership_to_plutus_data_def zero_constr_fields_def
      codec_simps to_array_def)

lemma d_parameter_plutus:
  "csl_ok c \<Longrightarrow> map_sum id d_param_datum_into (d_param_decode c (d_parameter_to_plutus_data c d)) = Inr d"
  by (simp add: d_param_decode_def versioned_decode_def d_parameter_to_plutus_data_def d_param_decode_versioned_def
      d_param_decode_legacy_def d_param_datum_into_def codec_simps)

lemma governed_map_datum_plutus:
  "csl_ok c \<Longrightarrow> utf8_valid (gmd_key g) \<Longrightarrow> governed_map_datum_try_from c (governed_map_datum_to_plutus_data c g) = Ok g"
  by (simp add: governed_map_datum_try_from_def governed_map_datum_to_plutus_data_def list_get_def codec_simps)

lemma token_transfer_plutus:
  "csl_ok c \<Longrightarrow> token_transfer_datum_decode c (token_transfer_datum_to_plutus c t) = Inr t"
  by (cases t; rename_tac d; case_tac d)
    (simp_all add: token_transfer_datum_decode_def token_transfer_datum_to_plutus_def
      token_transfer_datum_v1_to_plutus_def decode_v1_token_transfer_datum_def codec_simps)

text \<open>The values of the Rust types: the lengths of the arrays and the bounds of the vectors.\<close>

definition registration_typed :: "candidate_registration \<Rightarrow> bool" where
  "registration_typed r \<longleftrightarrow> length (abs_pub_key (cr_stake_ownership r)) = 32 \<and> length (abs_signature (cr_stake_ownership r)) = 64
     \<and> length (cr_own_pkh r) = 28 \<and> length (utxo_tx_hash (cr_registration_utxo r)) = 32
     \<and> list_all (\<lambda>k. length (key_id k) = 4) (cr_keys r)"

definition reserve_typed :: "reserve_datum \<Rightarrow> bool" where
  "reserve_typed r \<longleftrightarrow> length (aid_policy_id (rd_token r)) = 28 \<and> length (aid_asset_name (rd_token r)) \<le> 32
     \<and> length (rd_total_accrued_function_asset_name r) = 28"

fun redeemer_typed :: "version_oracle_policy_redeemer \<Rightarrow> bool" where
  "redeemer_typed (InitializeVersionOracle v h) = (length h = 28)"
| "redeemer_typed (MintVersionOracle v h) = (length h = 28)"
| "redeemer_typed (BurnVersionOracle v) = True"

lemma registration_plutus:
  assumes "csl_ok c" and "registration_typed r"
  shows "map_sum id register_validator_datum_into (register_validator_decode c (candidate_registration_to_plutus_data c r))
    = Inr (r\<lparr>cr_keys := normal_keys (cr_keys r)\<rparr>)"
  using assms unfolding registration_typed_def list_all_iff
  by (simp add: register_validator_decode_def versioned_decode_def candidate_registration_to_plutus_data_def
      register_validator_datum_to_plutus_def register_validator_decode_versioned_def decode_v0_register_validator_datum_def
      decode_v1_register_validator_datum_def zero_constr_fields_def register_validator_datum_into_def normal_keys_def
      codec_simps to_array_def)

lemma reserve_plutus:
  "csl_ok c \<Longrightarrow> reserve_typed r \<Longrightarrow> reserve_datum_decode c (reserve_datum_to_plutus c r) = Inr r"
  by (simp add: reserve_typed_def reserve_datum_decode_def reserve_datum_to_plutus_def decode_v0_reserve_datum_def
      decode_token_id_datum_def iter_next_def codec_simps to_array_def)

lemma version_oracle_datum_plutus:
  "csl_ok c \<Longrightarrow> length (vod_currency_symbol v) = 28
    \<Longrightarrow> version_oracle_datum_try_from c (version_oracle_datum_to_plutus c v) = Inr v"
  by (simp add: version_oracle_datum_try_from_def version_oracle_datum_to_plutus_def result_ok_def codec_simps)

lemma version_oracle_redeemer_plutus:
  "csl_ok c \<Longrightarrow> redeemer_typed r
    \<Longrightarrow> version_oracle_policy_redeemer_try_from c (version_oracle_policy_redeemer_to_plutus c r) = Inr r"
  by (cases r) (simp_all add: version_oracle_policy_redeemer_try_from_def version_oracle_policy_redeemer_to_plutus_def
      result_ok_def codec_simps)

subsubsection \<open>Permissioned candidates\<close>

text \<open>The keys that version zero gives back: the first key is read as the Aura key, the second as the Grandpa key.\<close>

definition relabelled_keys :: "candidate_keys \<Rightarrow> candidate_keys" where
  "relabelled_keys keys = [\<lparr>key_id = aura_id, key_bytes = key_bytes (keys ! 0)\<rparr>, \<lparr>key_id = grandpa_id, key_bytes = key_bytes (keys ! 1)\<rparr>]"

lemma permissioned_plutus_v0:
  assumes "csl_ok c" and "list_all (\<lambda>p. length (perm_keys p) = 2) cs"
  shows "map_sum id permissioned_candidate_datums_into (permissioned_decode c (candidates_to_plutus_data_v0 c cs))
    = Inr (map (\<lambda>p. p\<lparr>perm_keys := relabelled_keys (perm_keys p)\<rparr>) cs)"
proof -
  let ?enc = "\<lambda>p. new_list c (new_bytes c (perm_sidechain_public_key p) # map (\<lambda>k. new_bytes c (key_bytes k)) (perm_keys p))"
  let ?v0 = "\<lambda>p. \<lparr>pv0_sidechain_public_key = perm_sidechain_public_key p,
      pv0_aura_public_key = key_bytes (perm_keys p ! 0), pv0_grandpa_public_key = key_bytes (perm_keys p ! 1)\<rparr>"
  have "those (map (decode_legacy_candidate_datum c) (map ?enc cs)) = Some (map ?v0 cs)"
    using assms by (intro those_map_Some)
      (simp add: decode_legacy_candidate_datum_def codec_simps list_all_iff numeral_2_eq_2)
  then show ?thesis using assms
    by (simp add: permissioned_decode_def versioned_decode_def candidates_to_plutus_data_v0_def
        permissioned_decode_versioned_def permissioned_decode_legacy_def permissioned_candidate_datums_into_def
        permissioned_v0_into_def relabelled_keys_def codec_simps)
qed

lemma permissioned_plutus_v1:
  assumes "csl_ok c" and "list_all (\<lambda>p. list_all (\<lambda>k. length (key_id k) = 4) (perm_keys p)) cs"
  shows "map_sum id permissioned_candidate_datums_into (permissioned_decode c (candidates_to_plutus_data_v1 c cs)) = Inr cs"
proof -
  let ?enc = "\<lambda>p. new_list c [new_bytes c (perm_sidechain_public_key p), candidate_keys_to_plutus c (perm_keys p)]"
  let ?v1 = "\<lambda>p. \<lparr>pv1_partner_chains_key = perm_sidechain_public_key p, pv1_keys = perm_keys p\<rparr>"
  have "those (map (decode_v1_candidate_datum c) (map ?enc cs)) = Some (map ?v1 cs)"
    using assms by (intro those_map_Some) (simp add: decode_v1_candidate_datum_def codec_simps list_all_iff)
  moreover have "map (permissioned_v1_into \<circ> ?v1) cs = cs"
    by (intro map_idI) (simp add: permissioned_v1_into_def)
  ultimately show ?thesis using assms
    by (simp add: permissioned_decode_def versioned_decode_def candidates_to_plutus_data_v1_def
        permissioned_decode_versioned_def permissioned_decode_v1_appendix_def permissioned_candidate_datums_into_def
        codec_simps)
qed

lemma only_length: "has_only_aura_and_grandpa_keys keys \<Longrightarrow> length keys = 2"
  by (simp add: has_only_aura_and_grandpa_keys_def)

lemma relabelled_keys_id:
  assumes "length keys = 2"
  shows "relabelled_keys keys = keys \<longleftrightarrow> map key_id keys = [aura_id, grandpa_id]"
proof -
  obtain k l where "keys = [k, l]" using assms by (auto simp: numeral_2_eq_2 length_Suc_conv)
  then show ?thesis by (cases k; cases l) (auto simp: relabelled_keys_def)
qed

lemma map_relabelled_id:
  assumes "list_all (\<lambda>p. length (perm_keys p) = 2) cs"
  shows "map (\<lambda>p. p\<lparr>perm_keys := relabelled_keys (perm_keys p)\<rparr>) cs = cs
    \<longleftrightarrow> list_all (\<lambda>p. map key_id (perm_keys p) = [aura_id, grandpa_id]) cs"
  using assms
proof (induction cs)
  case (Cons p cs)
  have "p\<lparr>perm_keys := relabelled_keys (perm_keys p)\<rparr> = p \<longleftrightarrow> relabelled_keys (perm_keys p) = perm_keys p"
    by (cases p) simp
  then show ?case using Cons by (simp add: relabelled_keys_id)
qed simp

text \<open>
  C40: Reading back the datum of a list of permissioned candidates. The list is returned as it was
  exactly when some candidate has keys other than one Aura and one Grandpa key, so that version one is
  written, or every candidate lists its Aura key first. Otherwise version zero is written in the order
  of the key list and read back as Aura, Grandpa: a candidate that lists its Grandpa key first gets its
  two keys exchanged.
\<close>

theorem permissioned_candidates_roundtrip:
  assumes "csl_ok c" and "list_all (\<lambda>p. list_all (\<lambda>k. length (key_id k) = 4) (perm_keys p)) cs"
  shows "map_sum id permissioned_candidate_datums_into (permissioned_decode c (permissioned_candidates_to_plutus_data c cs))
      = Inr (if list_all (\<lambda>p. has_only_aura_and_grandpa_keys (perm_keys p)) cs
          then map (\<lambda>p. p\<lparr>perm_keys := relabelled_keys (perm_keys p)\<rparr>) cs else cs)
    \<and> (map_sum id permissioned_candidate_datums_into (permissioned_decode c (permissioned_candidates_to_plutus_data c cs)) = Inr cs
      \<longleftrightarrow> list_ex (\<lambda>p. \<not> has_only_aura_and_grandpa_keys (perm_keys p)) cs
        \<or> list_all (\<lambda>p. map key_id (perm_keys p) = [aura_id, grandpa_id]) cs)"
proof (cases "list_all (\<lambda>p. has_only_aura_and_grandpa_keys (perm_keys p)) cs")
  case True
  then have two: "list_all (\<lambda>p. length (perm_keys p) = 2) cs" by (auto simp: list_all_iff only_length)
  have "\<not> list_ex (\<lambda>p. \<not> has_only_aura_and_grandpa_keys (perm_keys p)) cs"
    using True by (auto simp: list_all_iff list_ex_iff)
  then show ?thesis using True assms
    by (simp add: permissioned_candidates_to_plutus_data_def permissioned_plutus_v0 [OF _ two] map_relabelled_id [OF two])
next
  case False
  then have "list_ex (\<lambda>p. \<not> has_only_aura_and_grandpa_keys (perm_keys p)) cs"
    by (auto simp: list_all_iff list_ex_iff)
  then show ?thesis using False assms
    by (simp add: permissioned_candidates_to_plutus_data_def permissioned_plutus_v1)
qed

subsubsection \<open>Legacy datums\<close>

lemma versioned_decode_v0:
  "csl_ok c \<Longrightarrow> versioned_decode c name leg ver (versioned_generic_datum_to_plutus c v)
    = map_sum (\<lambda>msg. \<lparr>err_datum = versioned_generic_datum_to_plutus c v, err_to = name, err_msg = msg\<rparr>) id
        (ver (vgd_version v) (vgd_datum v) (vgd_appendix v))"
  by (simp add: versioned_decode_def codec_simps)

lemma d_param_legacy_unversioned:
  "d_param_decode_legacy c d = Inr x \<Longrightarrow> plutus_data_version_and_payload c d = None"
  by (auto simp: d_param_decode_legacy_def plutus_data_version_and_payload_def split: bind_splits if_splits)

lemma those_nth: "those xs = Some ys \<Longrightarrow> i < length xs \<Longrightarrow> xs ! i \<noteq> None"
proof (induction xs arbitrary: ys i)
  case (Cons x xs)
  then show ?case by (cases i) (auto split: option.splits)
qed simp

lemma permissioned_legacy_unversioned:
  assumes "csl_ok c" and "permissioned_decode_legacy c d = Inr x"
  shows "plutus_data_version_and_payload c d = None"
proof -
  obtain l ys where l: "as_list c d = Some l" "those (map (decode_legacy_candidate_datum c) l) = Some ys"
    using assms(2) by (auto simp: permissioned_decode_legacy_def ok_or_def split: bind_splits option.splits)
  have "as_u64 c (l ! 2) = None" if "length l = 3"
  proof -
    have "decode_legacy_candidate_datum c (l ! 2) \<noteq> None"
      using those_nth [OF l(2), of 2] that by simp
    then have "as_list c (l ! 2) \<noteq> None" by (cases "as_list c (l ! 2)") (simp_all add: decode_legacy_candidate_datum_def)
    then show ?thesis using assms(1) by (simp add: as_u64_def csl_ok_def)
  qed
  then show ?thesis using l by (simp add: plutus_data_version_and_payload_def)
qed

lemma register_legacy_unversioned:
  assumes "csl_ok c" and "decode_legacy_register_validator_datum c d = Some x"
  shows "plutus_data_version_and_payload c d = None"
proof -
  have "as_constr c d \<noteq> None"
    using assms(2) by (auto simp: decode_legacy_register_validator_datum_def zero_constr_fields_def split: bind_splits)
  then have "as_list c d = None" using assms(1) by (simp add: csl_ok_def)
  then show ?thesis by (simp add: plutus_data_version_and_payload_def)
qed

lemma inner_error [simp]: "map_sum f id (map_sum g h x) = Inr y \<longleftrightarrow> (\<exists>z. x = Inr z \<and> y = h z)"
  by (cases x) auto

text \<open>
  Datums written before versioning are read as their version zero. A datum that the legacy
  decoder accepts is never taken for a versioned one, even when it is a list of three candidates,
  and it decodes to the value that a version zero datum with the same content decodes to.
\<close>

lemma legacy_datums_are_version_zero:
  assumes "csl_ok c"
  shows "(d_param_decode_legacy c d = Inr x \<longrightarrow> d_param_decode c d = Inr x
      \<and> d_param_decode c (versioned_generic_datum_to_plutus c \<lparr>vgd_datum = u, vgd_appendix = d, vgd_version = 0\<rparr>) = Inr x)
    \<and> (permissioned_decode_legacy c d = Inr y \<longrightarrow> permissioned_decode c d = Inr y
      \<and> permissioned_decode c (versioned_generic_datum_to_plutus c \<lparr>vgd_datum = u, vgd_appendix = d, vgd_version = 0\<rparr>) = Inr y)
    \<and> (decode_legacy_register_validator_datum c d = Some z \<longrightarrow> register_validator_decode c d = Inr z)"
  using assms
  by (auto simp: d_param_decode_def d_param_legacy_unversioned permissioned_decode_def permissioned_legacy_unversioned
      register_validator_decode_def register_legacy_unversioned versioned_decode_def codec_simps
      d_param_decode_versioned_def permissioned_decode_versioned_def)

text \<open>
  C30: The other datums of the smart contracts are read back as they were written, for values of their
  Rust types: the D-parameter, governed map entries with a UTF-8 key, bridge transfers, the
  reserve, the version oracle and its redeemers, and candidate registrations, whose Aura and Grandpa
  keys come back in that order.
\<close>

theorem plutus_datums_roundtrip:
  assumes "csl_ok c" and "registration_typed r" and "reserve_typed rd" and "redeemer_typed red"
    and "utf8_valid (gmd_key g)" and "length (vod_currency_symbol v) = 28"
  shows "map_sum id d_param_datum_into (d_param_decode c (d_parameter_to_plutus_data c d)) = Inr d
    \<and> governed_map_datum_try_from c (governed_map_datum_to_plutus_data c g) = Ok g
    \<and> token_transfer_datum_decode c (token_transfer_datum_to_plutus c t) = Inr t
    \<and> map_sum id register_validator_datum_into (register_validator_decode c (candidate_registration_to_plutus_data c r))
        = Inr (r\<lparr>cr_keys := normal_keys (cr_keys r)\<rparr>)
    \<and> reserve_datum_decode c (reserve_datum_to_plutus c rd) = Inr rd
    \<and> version_oracle_datum_try_from c (version_oracle_datum_to_plutus c v) = Inr v
    \<and> version_oracle_policy_redeemer_try_from c (version_oracle_policy_redeemer_to_plutus c red) = Inr red"
  using assms by (simp add: d_parameter_plutus governed_map_datum_plutus token_transfer_plutus registration_plutus
      reserve_plutus version_oracle_datum_plutus version_oracle_redeemer_plutus)

text \<open>The library on the data type of the encoder.\<close>

definition datum_csl :: "datum csl" where
  "datum_csl = \<lparr>
     as_bytes = (\<lambda>d. case d of ByteStringDatum b \<Rightarrow> Some b | _ \<Rightarrow> None),
     as_integer = (\<lambda>d. case d of IntegerDatum i \<Rightarrow> Some i | _ \<Rightarrow> None),
     as_list = (\<lambda>d. case d of ListDatum l \<Rightarrow> Some l | _ \<Rightarrow> None),
     as_constr = (\<lambda>d. case d of ConstructorDatum a l \<Rightarrow> Some (a, l) | _ \<Rightarrow> None),
     new_bytes = ByteStringDatum, new_integer = IntegerDatum, new_list = ListDatum, new_constr = ConstructorDatum\<rparr>"

lemma datum_csl_ok: "csl_ok datum_csl"
  by (auto simp: csl_ok_def datum_csl_def split: datum.splits)

definition swapped_candidate :: permissioned_candidate_data where
  "swapped_candidate = \<lparr>perm_sidechain_public_key = [1],
     perm_keys = [\<lparr>key_id = grandpa_id, key_bytes = [3]\<rparr>, \<lparr>key_id = aura_id, key_bytes = [2]\<rparr>]\<rparr>"

theorem permissioned_candidates_roundtrip_witness:
  "map_sum id permissioned_candidate_datums_into
      (permissioned_decode datum_csl (permissioned_candidates_to_plutus_data datum_csl [swapped_candidate]))
    = Inr [\<lparr>perm_sidechain_public_key = [1],
        perm_keys = [\<lparr>key_id = aura_id, key_bytes = [3]\<rparr>, \<lparr>key_id = grandpa_id, key_bytes = [2]\<rparr>]\<rparr>]"
  using permissioned_candidates_roundtrip [OF datum_csl_ok, of "[swapped_candidate]"]
  by (simp add: swapped_candidate_def relabelled_keys_def has_only_aura_and_grandpa_keys_def find_key_def
      aura_id_def grandpa_id_def)

definition three_legacy_candidates :: datum where
  "three_legacy_candidates = ListDatum (replicate 3 (ListDatum [ByteStringDatum [1], ByteStringDatum [2], ByteStringDatum [3]]))"

lemma legacy_datums_are_version_zero_example:
  "permissioned_decode datum_csl three_legacy_candidates
      = Inr (PermissionedV0 (replicate 3 \<lparr>pv0_sidechain_public_key = [1], pv0_aura_public_key = [2], pv0_grandpa_public_key = [3]\<rparr>))
    \<and> d_param_decode datum_csl (ListDatum [IntegerDatum 3, IntegerDatum 5]) = Inr (DParamV0 3 5)"
proof -
  have "permissioned_decode_legacy datum_csl three_legacy_candidates
      = Inr (PermissionedV0 (replicate 3 \<lparr>pv0_sidechain_public_key = [1], pv0_aura_public_key = [2], pv0_grandpa_public_key = [3]\<rparr>))"
    by (simp add: three_legacy_candidates_def permissioned_decode_legacy_def decode_legacy_candidate_datum_def
        datum_csl_def numeral_2_eq_2 numeral_3_eq_3)
  moreover have "d_param_decode_legacy datum_csl (ListDatum [IntegerDatum 3, IntegerDatum 5]) = Inr (DParamV0 3 5)"
    by (simp add: d_param_decode_legacy_def as_u16_def as_u32_def as_u64_def datum_csl_def)
  ultimately show ?thesis
    using legacy_datums_are_version_zero [OF datum_csl_ok, where d = three_legacy_candidates]
      legacy_datums_are_version_zero [OF datum_csl_ok, where d = "ListDatum [IntegerDatum 3, IntegerDatum 5]"]
    by blast
qed

definition demo_registration :: candidate_registration where
  "demo_registration = \<lparr>cr_stake_ownership = \<lparr>abs_pub_key = replicate 32 1, abs_signature = replicate 64 2\<rparr>,
     cr_partner_chain_pub_key = [4], cr_partner_chain_signature = [5], cr_own_pkh = replicate 28 3,
     cr_registration_utxo = \<lparr>utxo_tx_hash = replicate 32 6, utxo_index = 7\<rparr>,
     cr_keys = [\<lparr>key_id = [1, 2, 3, 4], key_bytes = [8]\<rparr>]\<rparr>"

definition demo_reserve :: reserve_datum where
  "demo_reserve = \<lparr>rd_token = \<lparr>aid_policy_id = replicate 28 1, aid_asset_name = [2]\<rparr>,
     rd_total_accrued_function_asset_name = replicate 28 3, rd_initial_incentive = 100, rd_token_total_amount_transferred = 200\<rparr>"

theorem plutus_datums_roundtrip_witness:
  "map_sum id register_validator_datum_into
      (register_validator_decode datum_csl (candidate_registration_to_plutus_data datum_csl demo_registration))
    = Inr demo_registration
   \<and> reserve_datum_decode datum_csl (reserve_datum_to_plutus datum_csl demo_reserve) = Inr demo_reserve"
proof -
  have typed: "registration_typed demo_registration" "reserve_typed demo_reserve" "redeemer_typed (BurnVersionOracle 1)"
    "utf8_valid (gmd_key \<lparr>gmd_key = [0x6b, 0xc3, 0xa9], gmd_value = [1]\<rparr>)"
    "length (vod_currency_symbol \<lparr>vod_version_oracle = 1, vod_currency_symbol = replicate 28 0\<rparr>) = 28"
    by (simp_all add: registration_typed_def demo_registration_def reserve_typed_def demo_reserve_def continuation_def)
  have "normal_keys (cr_keys demo_registration) = cr_keys demo_registration"
    by (simp add: normal_keys_def demo_registration_def has_only_aura_and_grandpa_keys_def)
  then show ?thesis using plutus_datums_roundtrip [OF datum_csl_ok typed] by simp
qed

end
