(* ===== verification/Block_Source.thy ===== *)
theory Block_Source
  imports Db_Sync Mainchain_Epoch
begin

text \<open>
  The block data source, \<open>toolkit/data-sources/db-sync/src/block/mod.rs\<close>: the latest stable Cardano
  block for a time, and the stable block with a given hash, with the cache of stable blocks.

  Times are milliseconds since the Unix epoch, as integers. \<open>chrono_range\<close> tells which of them
  \<open>chrono\<close> can represent: a conversion from outside the range fails, a subtraction that leaves it
  panics. The cache is behind a lock; \<open>None\<close> is a poisoned lock. A method that may fill the cache
  returns it with its result, and leaves it alone when it fails.
\<close>

subsection \<open>Data\<close>

record mainchain_block =
  mb_number :: u32
  mb_hash :: bytes
  mb_epoch :: u32
  mb_slot :: u64
  mb_timestamp :: u64

datatype ds_error =
    SqlError sqlx_error
  | BadRequest
  | InternalDataSourceError string
  | ExpectedDataNotFound string
  | BlockHashNotFound bytes
  | InvalidData string

text \<open>\<open>From<Block> for MainchainBlock\<close>: the time in seconds.\<close>

definition mainchain_block_from :: "db_block \<Rightarrow> ('e, mainchain_block) outcome" where
  "mainchain_block_from b =
     (if 0 \<le> db_time b div 1000
      then Ok \<lparr>mb_number = db_block_no b, mb_hash = db_block_hash b, mb_epoch = db_epoch_no b, mb_slot = db_slot_no b,
        mb_timestamp = word_of_int (db_time b div 1000)\<rparr>
      else Panic ExpectFailed)"

record block_data_source =
  security_parameter :: u32
  min_slot_boundary :: int
  max_slot_boundary :: int
  bds_epoch_config :: mainchain_epoch_config
  block_stability_margin :: u32
  bds_cache_size :: u16
  chrono_range :: "int \<Rightarrow> bool"

type_synonym blocks_cache = "db_block list option"

definition query :: "sqlx_error + 'a \<Rightarrow> (ds_error, 'a) outcome" where
  "query r = (case r of Inl e \<Rightarrow> Err (SqlError e) | Inr a \<Rightarrow> Ok a)"

lemma query_eq_Ok [simp]: "query r = Ok a \<longleftrightarrow> r = Inr a"
  by (simp add: query_def split: sum.split)

definition into_mainchain_block :: "db_block option \<Rightarrow> ('e, mainchain_block option) outcome" where
  "into_mainchain_block b = (case b of None \<Rightarrow> Ok None | Some b \<Rightarrow> and_then (mainchain_block_from b) (\<lambda>m. Ok (Some m)))"

subsection \<open>The cache\<close>

definition find_by_hash :: "db_block list \<Rightarrow> bytes \<Rightarrow> db_block option" where
  "find_by_hash cache hash = List.find (\<lambda>b. db_block_hash b = hash) cache"

definition cache_find :: "blocks_cache \<Rightarrow> bytes \<Rightarrow> db_block option" where
  "cache_find cache hash = (case cache of None \<Rightarrow> None | Some bs \<Rightarrow> find_by_hash bs hash)"

definition cache_update :: "db_block list \<Rightarrow> blocks_cache \<Rightarrow> blocks_cache" where
  "cache_update blocks cache = map_option (\<lambda>_. blocks) cache"

subsection \<open>Times\<close>

definition timestamp_to_db_type :: "block_data_source \<Rightarrow> u64 \<Rightarrow> (ds_error, int) outcome" where
  "timestamp_to_db_type S ts =
     (if uint ts < 2 ^ 63 \<and> chrono_range S (uint ts) then Ok (uint ts) else Err BadRequest)"

definition date_time_sub :: "block_data_source \<Rightarrow> int \<Rightarrow> int \<Rightarrow> (ds_error, int) outcome" where
  "date_time_sub S t d = (if chrono_range S (t - d) then Ok (t - d) else Panic ArithmeticOverflow)"

definition min_block_allowed_time :: "block_data_source \<Rightarrow> int \<Rightarrow> (ds_error, int) outcome" where
  "min_block_allowed_time S t = date_time_sub S t (max_slot_boundary S)"

definition max_allowed_block_time :: "block_data_source \<Rightarrow> int \<Rightarrow> (ds_error, int) outcome" where
  "max_allowed_block_time S t = date_time_sub S t (min_slot_boundary S)"

definition is_block_time_valid :: "block_data_source \<Rightarrow> db_block \<Rightarrow> int \<Rightarrow> (ds_error, bool) outcome" where
  "is_block_time_valid S block t = and_then (min_block_allowed_time S t) (\<lambda>lo.
     if lo \<le> db_time block then and_then (max_allowed_block_time S t) (\<lambda>hi. Ok (db_time block \<le> hi))
     else Ok False)"

definition date_time_to_slot :: "block_data_source \<Rightarrow> int \<Rightarrow> (ds_error, u64) outcome" where
  "date_time_to_slot S t =
     (if t < 0 then Err BadRequest
      else (case timestamp_to_mainchain_slot_number (bds_epoch_config S) (word_of_int t) of
          Ok slot \<Rightarrow> Ok slot
        | Err e \<Rightarrow> Ok (mc_first_slot_number (bds_epoch_config S))
        | Panic p \<Rightarrow> Panic p))"

subsection \<open>Queries\<close>

definition bds_get_latest_block_info :: "'pd pg_pool \<Rightarrow> (ds_error, mainchain_block) outcome" where
  "bds_get_latest_block_info pool = and_then (query (get_latest_block_info pool)) (\<lambda>b. case b of
       None \<Rightarrow> Err (ExpectedDataNotFound ''No latest block on chain.'')
     | Some b \<Rightarrow> mainchain_block_from b)"

definition get_latest_block ::
  "block_data_source \<Rightarrow> 'pd pg_pool \<Rightarrow> u32 \<Rightarrow> int \<Rightarrow> (ds_error, db_block option) outcome" where
  "get_latest_block S pool max_block t =
     and_then (min_block_allowed_time S t) (\<lambda>min_time.
     and_then (date_time_to_slot S min_time) (\<lambda>min_slot.
     and_then (max_allowed_block_time S t) (\<lambda>max_time.
     and_then (date_time_to_slot S max_time) (\<lambda>max_slot.
     query (get_highest_block pool max_block min_time min_slot max_time max_slot)))))"

definition bds_get_latest_stable_block_for ::
  "block_data_source \<Rightarrow> 'pd pg_pool \<Rightarrow> u64 \<Rightarrow> (ds_error, mainchain_block option) outcome" where
  "bds_get_latest_stable_block_for S pool ts =
     and_then (timestamp_to_db_type S ts) (\<lambda>t.
     and_then (bds_get_latest_block_info pool) (\<lambda>latest.
       let offset = security_parameter S + block_stability_margin S;
           stable = saturating_sub (mb_number latest) offset
       in and_then (get_latest_block S pool stable t) into_mainchain_block))"

definition get_stable_block_by_hash_from_cache ::
  "block_data_source \<Rightarrow> blocks_cache \<Rightarrow> bytes \<Rightarrow> int \<Rightarrow> (ds_error, db_block option) outcome" where
  "get_stable_block_by_hash_from_cache S cache hash t = (case cache_find cache hash of
       None \<Rightarrow> Ok None
     | Some block \<Rightarrow> and_then (is_block_time_valid S block t) (\<lambda>ok. Ok (if ok then Some block else None)))"

definition get_stable_block_by_hash_from_db ::
  "block_data_source \<Rightarrow> 'pd pg_pool \<Rightarrow> bytes \<Rightarrow> int \<Rightarrow> (ds_error, db_block option) outcome" where
  "get_stable_block_by_hash_from_db S pool hash t =
     and_then (query (get_block_by_hash pool hash)) (\<lambda>block.
     and_then (query (get_latest_block_info pool)) (\<lambda>latest.
       case (block, latest) of
         (Some block, Some latest) \<Rightarrow>
           if saturating_add (db_block_no block) (security_parameter S) \<le> db_block_no latest
           then and_then (is_block_time_valid S block t) (\<lambda>ok. Ok (if ok then Some block else None))
           else Ok None
       | _ \<Rightarrow> Ok None))"

definition fill_cache ::
  "block_data_source \<Rightarrow> 'pd pg_pool \<Rightarrow> db_block \<Rightarrow> blocks_cache \<Rightarrow> (ds_error, blocks_cache) outcome" where
  "fill_cache S pool from_block cache =
     and_then (query (get_latest_block_info pool)) (\<lambda>latest. case latest of
         None \<Rightarrow> Err (InternalDataSourceError ''No latest block when filling the caches.'')
       | Some latest \<Rightarrow>
           (let from_block_no = db_block_no from_block;
                size = ucast (bds_cache_size S);
                stable_block_num = saturating_sub (db_block_no latest) (security_parameter S);
                to_block_no = min (saturating_add from_block_no size) stable_block_num
            in and_then (if to_block_no > from_block_no then query (get_blocks_by_numbers pool from_block_no to_block_no)
                 else Ok [from_block]) (\<lambda>blocks.
               Ok (cache_update blocks cache))))"

definition get_stable_block_by_hash ::
  "block_data_source \<Rightarrow> 'pd pg_pool \<Rightarrow> bytes \<Rightarrow> int \<Rightarrow> blocks_cache
     \<Rightarrow> (ds_error, mainchain_block option \<times> blocks_cache) outcome" where
  "get_stable_block_by_hash S pool hash t cache =
     and_then (get_stable_block_by_hash_from_cache S cache hash t) (\<lambda>cached. case cached of
         Some block \<Rightarrow> and_then (mainchain_block_from block) (\<lambda>m. Ok (Some m, cache))
       | None \<Rightarrow>
           and_then (get_stable_block_by_hash_from_db S pool hash t) (\<lambda>found. case found of
               Some block \<Rightarrow>
                 and_then (fill_cache S pool block cache) (\<lambda>cache.
                 and_then (mainchain_block_from block) (\<lambda>m. Ok (Some m, cache)))
             | None \<Rightarrow> Ok (None, cache)))"

definition bds_get_stable_block_for ::
  "block_data_source \<Rightarrow> 'pd pg_pool \<Rightarrow> bytes \<Rightarrow> u64 \<Rightarrow> blocks_cache
     \<Rightarrow> (ds_error, mainchain_block option \<times> blocks_cache) outcome" where
  "bds_get_stable_block_for S pool hash ts cache =
     and_then (timestamp_to_db_type S ts) (\<lambda>t. get_stable_block_by_hash S pool hash t cache)"

definition bds_get_block_by_hash ::
  "'pd pg_pool \<Rightarrow> bytes \<Rightarrow> blocks_cache \<Rightarrow> (ds_error, mainchain_block option) outcome" where
  "bds_get_block_by_hash pool hash cache =
     and_then (case cache_find cache hash of
         Some block \<Rightarrow> Ok (Some block)
       | None \<Rightarrow> query (get_block_by_hash pool hash)) into_mainchain_block"

subsection \<open>The blocks of a database\<close>

definition db_blocks :: "'pd db_tables \<Rightarrow> db_block set" where
  "db_blocks db = {b. \<exists>r \<in> set (block_table db). decode_block r = Inr b}"

text \<open>
  The blocks form a chain: hashes identify them, a block with a number has an epoch and a slot, times
  are after 1970 and do not decrease with the number.
\<close>

definition chain_ok :: "'pd db_tables \<Rightarrow> bool" where
  "chain_ok db \<longleftrightarrow> distinct (map block_hash_col (block_table db))
     \<and> (\<forall>r \<in> set (block_table db). block_no_col r \<noteq> None \<longrightarrow> block_epoch_no_col r \<noteq> None \<and> block_slot_no_col r \<noteq> None)
     \<and> (\<forall>b \<in> db_blocks db. 0 \<le> db_time b)
     \<and> (\<forall>b \<in> db_blocks db. \<forall>b' \<in> db_blocks db. db_block_no b \<le> db_block_no b' \<longrightarrow> db_time b \<le> db_time b')"

lemma decode_block_Inr:
  "decode_block r = Inr b \<longleftrightarrow> block_no_col r = Some (db_block_no b) \<and> block_epoch_no_col r = Some (db_epoch_no b)
    \<and> block_slot_no_col r = Some (db_slot_no b) \<and> block_hash_col r = db_block_hash b \<and> block_time_col r = db_time b"
  by (cases b) (auto simp: decode_block_def split: option.splits)

lemma chain_ok_decode:
  assumes "chain_ok db" and "r \<in> set (block_table db)" and "block_no_col r = Some n"
  obtains b where "decode_block r = Inr b" "b \<in> db_blocks db" "db_block_no b = n"
proof -
  obtain e s where "block_epoch_no_col r = Some e" "block_slot_no_col r = Some s"
    using assms by (fastforce simp: chain_ok_def)
  then have "decode_block r = Inr \<lparr>db_block_no = n, db_block_hash = block_hash_col r, db_epoch_no = e, db_slot_no = s,
      db_time = block_time_col r\<rparr>" using assms(3) by (simp add: decode_block_def)
  then show thesis using that assms(2) by (auto simp: db_blocks_def)
qed

lemma order_by_desc_Cons:
  assumes "order_by_desc f xs = x # ys"
  shows "x \<in> set xs \<and> (\<forall>y \<in> set xs. f y \<le> f x)"
proof -
  have rev: "sort_key f xs = rev ys @ [x]" using assms by (simp add: order_by_desc_def rev_swap)
  then have "set xs = insert x (set ys)"
    by (metis Un_commute insert_is_Un list.simps(15) set_append set_rev set_sort set_empty2 sup_bot.right_neutral)
  moreover have "sorted (map f (rev ys @ [x]))" by (metis rev sorted_sort_key)
  ultimately show ?thesis by (auto simp: sorted_append)
qed

lemma set_order_by_desc [simp]: "set (order_by_desc f xs) = set xs"
  by (simp add: order_by_desc_def)

lemma fetch_optional_ordered:
  assumes "fetch_optional (Inr db) (\<lambda>db. map (\<lambda>(k, r). decode_block r) (order_by_desc fst (rows db))) = Inr (Some b)"
  obtains k r where "(k, r) \<in> set (rows db)" "decode_block r = Inr b" "\<forall>(k', r') \<in> set (rows db). k' \<le> k"
proof -
  obtain k r rest where ord: "order_by_desc fst (rows db) = (k, r) # rest" "decode_block r = Inr b"
    using assms by (cases "order_by_desc fst (rows db)"; cases "decode_block (snd (hd (order_by_desc fst (rows db))))")
      (auto simp: fetch_optional_def)
  then show thesis using order_by_desc_Cons [OF ord(1)] that [of k r] by fastforce
qed

lemma latest_block:
  assumes "chain_ok db" and "get_latest_block_info (Inr db) = Inr (Some l)"
  shows "l \<in> db_blocks db \<and> (\<forall>b \<in> db_blocks db. db_block_no b \<le> db_block_no l)"
proof -
  let ?rows = "\<lambda>db. [(n, b). b \<leftarrow> block_table db, Some n \<leftarrow> [block_no_col b]]"
  obtain n r where r: "(n, r) \<in> set (?rows db)" "decode_block r = Inr l" "\<forall>(n', r') \<in> set (?rows db). n' \<le> n"
    using assms(2) unfolding get_latest_block_info_def by (rule fetch_optional_ordered)
  then have "r \<in> set (block_table db)" "block_no_col r = Some n" by (auto split: option.splits)
  then have "l \<in> db_blocks db" "db_block_no l = n" using r(2) by (auto simp: db_blocks_def decode_block_Inr)
  moreover have "db_block_no b \<le> n" if b: "b \<in> db_blocks db" for b
  proof -
    obtain r' where "r' \<in> set (block_table db)" "block_no_col r' = Some (db_block_no b)"
      using b by (auto simp: db_blocks_def decode_block_Inr)
    then have "(db_block_no b, r') \<in> set (?rows db)" by force
    then show ?thesis using r(3) by blast
  qed
  ultimately show ?thesis by blast
qed

lemma latest_block_exists:
  assumes "chain_ok db" and "db_blocks db \<noteq> {}"
  obtains l where "get_latest_block_info (Inr db) = Inr (Some l)"
proof -
  let ?rows = "[(n, b). b \<leftarrow> block_table db, Some n \<leftarrow> [block_no_col b]]"
  obtain b where "b \<in> db_blocks db" using assms(2) by blast
  then obtain r' where "r' \<in> set (block_table db)" "block_no_col r' = Some (db_block_no b)"
    by (auto simp: db_blocks_def decode_block_Inr)
  then have "(db_block_no b, r') \<in> set ?rows" by force
  then have mem: "(db_block_no b, r') \<in> set (order_by_desc fst ?rows)" by (simp only: set_order_by_desc)
  have "order_by_desc fst ?rows \<noteq> []"
  proof
    assume "order_by_desc fst ?rows = []"
    then show False using mem by (simp only: list.set(1) empty_iff)
  qed
  then obtain nr rest where "order_by_desc fst ?rows = nr # rest" unfolding neq_Nil_conv by blast
  then obtain n r where ord: "order_by_desc fst ?rows = (n, r) # rest" by (cases nr) simp
  have "(n, r) \<in> set ?rows" by (rule order_by_desc_Cons [OF ord, THEN conjunct1])
  then have "r \<in> set (block_table db)" "block_no_col r = Some n" by (auto split: option.splits)
  then obtain l where "decode_block r = Inr l" using chain_ok_decode [OF assms(1)] by blast
  then show thesis using that [of l] ord by (simp add: get_latest_block_info_def fetch_optional_def)
qed

lemma highest_block:
  assumes "get_highest_block (Inr db) max_no min_t min_s max_t max_s = Inr (Some b)"
  shows "b \<in> db_blocks db \<and> db_block_no b \<le> max_no \<and> min_t \<le> db_time b \<and> db_time b \<le> max_t"
proof -
  let ?rows = "\<lambda>db. [(n, b). b \<leftarrow> block_table db, Some n \<leftarrow> [block_no_col b], Some s \<leftarrow> [block_slot_no_col b],
          n \<le> max_no \<and> min_s \<le> s \<and> s \<le> max_s \<and> min_t \<le> block_time_col b \<and> block_time_col b \<le> max_t]"
  obtain n r where r: "(n, r) \<in> set (?rows db)" "decode_block r = Inr b"
    using assms unfolding get_highest_block_def by (rule fetch_optional_ordered)
  then have "r \<in> set (block_table db)" "block_no_col r = Some n" "n \<le> max_no" "min_t \<le> block_time_col r" "block_time_col r \<le> max_t"
    by (auto split: option.splits if_splits)
  then show ?thesis using r(2) by (auto simp: db_blocks_def decode_block_Inr)
qed

lemma block_by_hash_Some:
  assumes "get_block_by_hash (Inr db) h = Inr (Some b)"
  shows "b \<in> db_blocks db \<and> db_block_hash b = h"
proof -
  obtain r rest where r: "filter (\<lambda>r. block_hash_col r = h) (block_table db) = r # rest"
    using assms by (cases "filter (\<lambda>r. block_hash_col r = h) (block_table db)") (auto simp: get_block_by_hash_def fetch_optional_def)
  then have "decode_block r = Inr b"
    using assms by (cases "decode_block r") (auto simp: get_block_by_hash_def fetch_optional_def)
  moreover have "r \<in> set (filter (\<lambda>r. block_hash_col r = h) (block_table db))" unfolding r by simp
  ultimately show ?thesis by (auto simp: db_blocks_def decode_block_Inr)
qed

lemma filter_distinct_key:
  assumes "distinct (map f xs)" and "x \<in> set xs"
  shows "filter (\<lambda>y. f y = f x) xs = [x]"
  using assms
proof (induction xs)
  case (Cons y ys)
  show ?case
  proof (cases "y = x")
    case True
    then have "\<forall>z \<in> set ys. f z \<noteq> f x" using Cons.prems by (auto simp: image_iff)
    then show ?thesis using True by (simp add: filter_empty_conv)
  next
    case False
    then have "x \<in> set ys" "f y \<noteq> f x" using Cons.prems by auto
    then show ?thesis using Cons by simp
  qed
qed simp

lemma block_by_hash:
  assumes "chain_ok db" and "b \<in> db_blocks db"
  shows "get_block_by_hash (Inr db) (db_block_hash b) = Inr (Some b)"
proof -
  obtain r where r: "r \<in> set (block_table db)" "decode_block r = Inr b" using assms(2) by (auto simp: db_blocks_def)
  then have "block_hash_col r = db_block_hash b" by (simp add: decode_block_Inr)
  then have "filter (\<lambda>r. block_hash_col r = db_block_hash b) (block_table db) = [r]"
    using filter_distinct_key [of block_hash_col "block_table db" r] r(1) assms(1) by (simp add: chain_ok_def)
  then show ?thesis using r(2) by (simp add: get_block_by_hash_def fetch_optional_def)
qed

lemma hash_identifies:
  assumes "chain_ok db" "b \<in> db_blocks db" "b' \<in> db_blocks db" "db_block_hash b = db_block_hash b'"
  shows "b = b'"
  using trans [OF block_by_hash [OF assms(1,2), unfolded assms(4), symmetric] block_by_hash [OF assms(1,3)]] by simp

lemma decode_rows_map:
  assumes "\<And>x. x \<in> set xs \<Longrightarrow> f x = Inr (g x)"
  shows "decode_rows (map f xs) = Inr (map g xs)"
  using assms by (induction xs) simp_all

lemma blocks_by_numbers:
  assumes "chain_ok db"
  obtains bs where "get_blocks_by_numbers (Inr db) lo hi = Inr bs"
    "set bs = {b \<in> db_blocks db. lo \<le> db_block_no b \<and> db_block_no b \<le> hi}"
proof -
  let ?rows = "[(n, b). b \<leftarrow> block_table db, Some n \<leftarrow> [block_no_col b], n \<ge> lo \<and> n \<le> hi]"
  let ?b = "\<lambda>(n :: u32, r). projr (decode_block r)"
  have mem: "(n, r) \<in> set ?rows \<longleftrightarrow> r \<in> set (block_table db) \<and> block_no_col r = Some n \<and> lo \<le> n \<and> n \<le> hi" for n r
    by (auto split: option.splits if_splits)
  have dec: "decode_block r = Inr (projr (decode_block r)) \<and> projr (decode_block r) \<in> db_blocks db
      \<and> db_block_no (projr (decode_block r)) = n" if "(n, r) \<in> set ?rows" for n r
  proof -
    have "r \<in> set (block_table db)" "block_no_col r = Some n" using that unfolding mem by auto
    then show ?thesis by (metis assms chain_ok_decode sum.sel(2))
  qed
  have "decode_rows (map (\<lambda>(n, r). decode_block r) (sort_key fst ?rows)) = Inr (map ?b (sort_key fst ?rows))"
    by (intro decode_rows_map) (use dec in \<open>auto simp only: set_sort split: prod.split\<close>)
  then have q: "get_blocks_by_numbers (Inr db) lo hi = Inr (map ?b (sort_key fst ?rows))"
    by (simp add: get_blocks_by_numbers_def fetch_all_def)
  have "set (map ?b (sort_key fst ?rows)) = {b \<in> db_blocks db. lo \<le> db_block_no b \<and> db_block_no b \<le> hi}" (is "?L = ?R")
  proof
    show "?L \<subseteq> ?R"
    proof
      fix b assume "b \<in> ?L"
      then obtain n r where nr: "(n, r) \<in> set ?rows" "b = projr (decode_block r)" by (auto simp only: set_map set_sort split: prod.split)
      then show "b \<in> ?R" using dec [OF nr(1)] nr mem by auto
    qed
    show "?R \<subseteq> ?L"
    proof
      fix b assume b: "b \<in> ?R"
      then obtain r where r: "r \<in> set (block_table db)" "decode_block r = Inr b" by (auto simp: db_blocks_def)
      then have "(db_block_no b, r) \<in> set ?rows" using b mem by (simp add: decode_block_Inr)
      then have "?b (db_block_no b, r) \<in> ?L" by (simp only: set_map set_sort) (rule imageI)
      then show "b \<in> ?L" using r(2) by simp
    qed
  qed
  then show thesis using that q by blast
qed

subsection \<open>Stable blocks\<close>

text \<open>
  A block of the database is stable when a block at least \<open>security_parameter\<close> higher exists. The cache
  is sound when it holds stable blocks only, and \<open>in_window\<close> is the range of times allowed for a block
  that is referred to at time \<open>t\<close>.
\<close>

definition stable_in :: "block_data_source \<Rightarrow> 'pd db_tables \<Rightarrow> db_block \<Rightarrow> bool" where
  "stable_in S db b \<longleftrightarrow> b \<in> db_blocks db
     \<and> (\<exists>l \<in> db_blocks db. saturating_add (db_block_no b) (security_parameter S) \<le> db_block_no l)"

definition cache_sound :: "block_data_source \<Rightarrow> 'pd db_tables \<Rightarrow> blocks_cache \<Rightarrow> bool" where
  "cache_sound S db cache \<longleftrightarrow> (\<forall>bs. cache = Some bs \<longrightarrow> (\<forall>b \<in> set bs. stable_in S db b))"

definition in_window :: "block_data_source \<Rightarrow> int \<Rightarrow> db_block \<Rightarrow> bool" where
  "in_window S t b \<longleftrightarrow> t - max_slot_boundary S \<le> db_time b \<and> db_time b \<le> t - min_slot_boundary S"

definition time_ok :: "block_data_source \<Rightarrow> int \<Rightarrow> bool" where
  "time_ok S t \<longleftrightarrow> chrono_range S (t - max_slot_boundary S) \<and> chrono_range S (t - min_slot_boundary S)"

lemma is_block_time_valid_Ok: "time_ok S t \<Longrightarrow> is_block_time_valid S b t = Ok (in_window S t b)"
  by (auto simp: is_block_time_valid_def min_block_allowed_time_def max_allowed_block_time_def date_time_sub_def
      time_ok_def in_window_def)

definition the_mainchain_block :: "db_block \<Rightarrow> mainchain_block" where
  "the_mainchain_block b = \<lparr>mb_number = db_block_no b, mb_hash = db_block_hash b, mb_epoch = db_epoch_no b,
     mb_slot = db_slot_no b, mb_timestamp = word_of_int (db_time b div 1000)\<rparr>"

lemma mainchain_block_Ok: "0 \<le> db_time b \<Longrightarrow> mainchain_block_from b = Ok (the_mainchain_block b)"
  by (simp add: mainchain_block_from_def the_mainchain_block_def)

lemma mainchain_block_db: "chain_ok db \<Longrightarrow> b \<in> db_blocks db \<Longrightarrow> mainchain_block_from b = Ok (the_mainchain_block b)"
  by (simp add: mainchain_block_Ok chain_ok_def)

lemma cache_find_Some:
  assumes "cache_sound S db cache" and "cache_find cache hash = Some b"
  shows "stable_in S db b \<and> db_block_hash b = hash"
  using assms by (auto simp: cache_find_def find_by_hash_def cache_sound_def find_Some_iff split: option.splits)

lemma stable_in_hash:
  assumes "chain_ok db" and "stable_in S db b" and "stable_in S db b'" and "db_block_hash b = db_block_hash b'"
  shows "b = b'"
  using assms hash_identifies unfolding stable_in_def by blast

lemma from_db_exact:
  assumes "chain_ok db" and "time_ok S t" and "db_blocks db \<noteq> {}" and that: "get_block_by_hash (Inr db) hash = Inr ob"
  shows "\<exists>r. get_stable_block_by_hash_from_db S (Inr db) hash t = Ok r
    \<and> (\<forall>b. r = Some b \<longleftrightarrow> stable_in S db b \<and> db_block_hash b = hash \<and> in_window S t b)"
proof -
  obtain l where l: "get_latest_block_info (Inr db) = Inr (Some l)" using latest_block_exists [OF assms(1,3)] .
  note latest = latest_block [OF assms(1) l]
  have stable: "stable_in S db b \<longleftrightarrow> b \<in> db_blocks db \<and> saturating_add (db_block_no b) (security_parameter S) \<le> db_block_no l" for b
    using latest by (auto simp: stable_in_def intro: order_trans)
  show ?thesis
  proof (cases ob)
    case None
    have "\<not> (stable_in S db b \<and> db_block_hash b = hash)" for b
    proof
      assume "stable_in S db b \<and> db_block_hash b = hash"
      then have "get_block_by_hash (Inr db) hash = Inr (Some b)" using block_by_hash [OF assms(1)] by (auto simp: stable_in_def)
      then show False using that None by simp
    qed
    then show ?thesis using that None l by (auto simp: get_stable_block_by_hash_from_db_def query_def)
  next
    case (Some b)
    then have b: "b \<in> db_blocks db" "db_block_hash b = hash" using block_by_hash_Some that by blast+
    have uniq: "stable_in S db b' \<and> db_block_hash b' = hash \<longrightarrow> b' = b" for b'
      using hash_identifies [OF assms(1) _ b(1)] b(2) by (auto simp: stable_in_def)
    have "get_stable_block_by_hash_from_db S (Inr db) hash t = Ok (if stable_in S db b \<and> in_window S t b then Some b else None)"
      unfolding get_stable_block_by_hash_from_db_def query_def that Some l stable is_block_time_valid_Ok [OF assms(2)]
      by (simp add: b)
    moreover have "(if stable_in S db b \<and> in_window S t b then Some b else None) = Some b'
        \<longleftrightarrow> stable_in S db b' \<and> db_block_hash b' = hash \<and> in_window S t b'" for b'
      using uniq [of b'] b(2) by (cases "b' = b") auto
    ultimately show ?thesis by blast
  qed
qed

lemma block_by_hash_total:
  assumes "chain_ok db" and "\<And>r. r \<in> set (block_table db) \<Longrightarrow> block_hash_col r = hash \<Longrightarrow> block_no_col r \<noteq> None"
  obtains ob where "get_block_by_hash (Inr db) hash = Inr ob"
proof (cases "filter (\<lambda>r. block_hash_col r = hash) (block_table db)")
  case Nil
  then show thesis using that [of None] by (simp add: get_block_by_hash_def fetch_optional_def)
next
  case (Cons r rest)
  then have "r \<in> set (filter (\<lambda>r. block_hash_col r = hash) (block_table db))" by simp
  then have r: "r \<in> set (block_table db)" "block_hash_col r = hash" by simp_all
  then obtain n where "block_no_col r = Some n" using assms(2) by fastforce
  then obtain b where "decode_block r = Inr b" using chain_ok_decode [OF assms(1) r(1)] by blast
  then show thesis using that [of "Some b"] Cons by (simp add: get_block_by_hash_def fetch_optional_def)
qed

lemma fill_cache_sound:
  assumes "chain_ok db" and "cache_sound S db cache" and "stable_in S db b"
  shows "\<exists>c. fill_cache S (Inr db) b cache = Ok c \<and> cache_sound S db c"
proof -
  have ne: "db_blocks db \<noteq> {}" using assms(3) by (auto simp: stable_in_def)
  obtain l where l: "get_latest_block_info (Inr db) = Inr (Some l)" using latest_block_exists [OF assms(1) ne] .
  note latest = latest_block [OF assms(1) l]
  let ?k = "security_parameter S"
  define to_no where "to_no = min (saturating_add (db_block_no b) (ucast (bds_cache_size S))) (saturating_sub (db_block_no l) ?k)"
  obtain bs where bs: "get_blocks_by_numbers (Inr db) (db_block_no b) to_no = Inr bs"
    "set bs = {b' \<in> db_blocks db. db_block_no b \<le> db_block_no b' \<and> db_block_no b' \<le> to_no}"
    using blocks_by_numbers [OF assms(1)] .
  have "stable_in S db b'" if b': "b' \<in> set bs" "to_no > db_block_no b" for b'
  proof -
    have "db_block_no b' \<le> saturating_sub (db_block_no l) ?k" "db_block_no b < saturating_sub (db_block_no l) ?k"
      using b' bs(2) by (auto simp: to_no_def)
    then have "unat (db_block_no b') \<le> unat (db_block_no l) - unat ?k" "unat (db_block_no b) < unat (db_block_no l) - unat ?k"
      by (simp_all add: word_le_nat_alt word_less_nat_alt)
    then have "unat (saturating_add (db_block_no b') ?k) \<le> unat (db_block_no l)"
      by (simp add: unat_saturating_add)
    then show ?thesis using b' bs(2) latest by (auto simp: stable_in_def word_le_nat_alt)
  qed
  then have "cache_sound S db (cache_update bs cache)" if "to_no > db_block_no b"
    using that by (simp add: cache_sound_def cache_update_def split: option.splits)
  moreover have "cache_sound S db (cache_update [b] cache)"
    using assms(3) by (simp add: cache_sound_def cache_update_def split: option.splits)
  moreover have "fill_cache S (Inr db) b cache = Ok (cache_update (if to_no > db_block_no b then bs else [b]) cache)"
    unfolding fill_cache_def query_def l Let_def sum.case option.case and_then.simps to_no_def [symmetric]
    by (simp add: bs(1))
  ultimately show ?thesis by (cases "to_no > db_block_no b") simp_all
qed

lemma stable_block_by_hash_exact:
  assumes chain: "chain_ok db" and sound: "cache_sound S db cache" and t: "time_ok S t" and ne: "db_blocks db \<noteq> {}"
    and ob: "get_block_by_hash (Inr db) hash = Inr ob"
  shows "\<exists>r c. get_stable_block_by_hash S (Inr db) hash t cache = Ok (r, c) \<and> cache_sound S db c
    \<and> (\<forall>m. r = Some m \<longleftrightarrow> (\<exists>b. stable_in S db b \<and> db_block_hash b = hash \<and> in_window S t b \<and> m = the_mainchain_block b))"
proof -
  let ?spec = "\<lambda>b. stable_in S db b \<and> db_block_hash b = hash \<and> in_window S t b"
  have uniq: "b = b'" if "?spec b" "?spec b'" for b b' using that by (intro stable_in_hash [OF chain, of S]) simp_all
  have iff: "(Some (the_mainchain_block b) = Some m)
      \<longleftrightarrow> (\<exists>b. stable_in S db b \<and> db_block_hash b = hash \<and> in_window S t b \<and> m = the_mainchain_block b)" if "?spec b" for b m
  proof
    assume "Some (the_mainchain_block b) = Some m"
    then show "\<exists>b. stable_in S db b \<and> db_block_hash b = hash \<and> in_window S t b \<and> m = the_mainchain_block b" using that by auto
  next
    assume "\<exists>b. stable_in S db b \<and> db_block_hash b = hash \<and> in_window S t b \<and> m = the_mainchain_block b"
    then obtain b' where "?spec b'" "m = the_mainchain_block b'" by auto
    then show "Some (the_mainchain_block b) = Some m" using uniq [OF that] by simp
  qed
  have conv: "mainchain_block_from b = Ok (the_mainchain_block b)" if "?spec b" for b
    using that by (auto simp: stable_in_def mainchain_block_db [OF chain])
  obtain f where f: "get_stable_block_by_hash_from_cache S cache hash t = Ok f" "\<And>b. f = Some b \<Longrightarrow> ?spec b"
  proof (cases "cache_find cache hash")
    case None
    then show thesis using that [of None] by (simp add: get_stable_block_by_hash_from_cache_def)
  next
    case (Some b)
    show thesis
    proof (rule that)
      show "get_stable_block_by_hash_from_cache S cache hash t = Ok (if in_window S t b then Some b else None)"
        by (simp add: get_stable_block_by_hash_from_cache_def Some is_block_time_valid_Ok [OF t])
      show "?spec b'" if "(if in_window S t b then Some b else None) = Some b'" for b'
        using that cache_find_Some [OF sound Some] by (cases "in_window S t b") auto
    qed
  qed
  obtain r where r: "get_stable_block_by_hash_from_db S (Inr db) hash t = Ok r" and spec: "\<forall>b. r = Some b \<longleftrightarrow> ?spec b"
    using from_db_exact [OF chain t ne ob] by (elim exE conjE)
  show ?thesis
  proof (cases f)
    case (Some b)
    have "get_stable_block_by_hash S (Inr db) hash t cache = Ok (Some (the_mainchain_block b), cache)"
      by (simp add: get_stable_block_by_hash_def f(1) Some conv [OF f(2) [OF Some]])
    then show ?thesis using sound iff [OF f(2) [OF Some]] by simp
  next
    case f_None: None
    show ?thesis
    proof (cases r)
      case None
      then have "get_stable_block_by_hash S (Inr db) hash t cache = Ok (None, cache)"
        by (simp add: get_stable_block_by_hash_def f(1) f_None r)
      moreover have "\<not> ?spec b" for b using spec [rule_format, of b] None by simp
      ultimately show ?thesis using sound by (intro exI [where x = "None :: mainchain_block option"] exI [where x = cache]) auto
    next
      case (Some b)
      then have b: "?spec b" using spec [rule_format, of b] by simp
      then obtain c where c: "fill_cache S (Inr db) b cache = Ok c" "cache_sound S db c"
        using fill_cache_sound [OF chain sound, of b] by auto
      then have "get_stable_block_by_hash S (Inr db) hash t cache = Ok (Some (the_mainchain_block b), c)"
        by (simp add: get_stable_block_by_hash_def f(1) f_None r Some conv [OF b])
      then show ?thesis using c(2) iff [OF b] by simp
    qed
  qed
qed

text \<open>
  C24: Looking up a stable block by its hash. With any cache of stable blocks, the source returns the
  block exactly when the database has a stable block with that hash whose time is in the window of
  the reference time, so the cache never changes an answer; the cache it leaves behind again holds
  stable blocks only.
\<close>

theorem stable_block_exact:
  assumes "chain_ok db" and "cache_sound S db cache" and "db_blocks db \<noteq> {}"
    and "timestamp_to_db_type S ts = Ok t" and "time_ok S t" and "get_block_by_hash (Inr db) hash = Inr ob"
  shows "\<exists>r c. bds_get_stable_block_for S (Inr db) hash ts cache = Ok (r, c) \<and> cache_sound S db c
    \<and> (\<forall>m. r = Some m \<longleftrightarrow> (\<exists>b. stable_in S db b \<and> db_block_hash b = hash \<and> in_window S t b \<and> m = the_mainchain_block b))"
  using stable_block_by_hash_exact [OF assms(1,2,5,3,6)] by (simp add: bds_get_stable_block_for_def assms(4))

text \<open>The database is deeper than the stability offset.\<close>

definition deep :: "block_data_source \<Rightarrow> 'pd db_tables \<Rightarrow> bool" where
  "deep S db \<longleftrightarrow> (\<exists>l \<in> db_blocks db. unat (security_parameter S) + unat (block_stability_margin S) \<le> unat (db_block_no l))"

lemma get_latest_block_Some:
  assumes "get_latest_block S (Inr db) max_no t = Ok (Some b)"
  shows "time_ok S t \<and> b \<in> db_blocks db \<and> db_block_no b \<le> max_no \<and> in_window S t b"
proof -
  have t: "time_ok S t"
    using assms by (auto simp: get_latest_block_def and_then_eq_Ok min_block_allowed_time_def max_allowed_block_time_def
        date_time_sub_def time_ok_def split: if_splits)
  obtain lo hi where h: "get_highest_block (Inr db) max_no (t - max_slot_boundary S) lo (t - min_slot_boundary S) hi = Inr (Some b)"
    using assms t by (auto simp: get_latest_block_def and_then_eq_Ok min_block_allowed_time_def max_allowed_block_time_def
        date_time_sub_def time_ok_def split: if_splits)
  show ?thesis using highest_block [OF h] t by (simp add: in_window_def)
qed

lemma latest_stable_block:
  assumes chain: "chain_ok db" and deep: "deep S db"
    and res: "bds_get_latest_stable_block_for S (Inr db) ts = Ok (Some m)"
  obtains t b where "timestamp_to_db_type S ts = Ok t" "time_ok S t" "stable_in S db b" "in_window S t b" "m = the_mainchain_block b"
proof -
  have "db_blocks db \<noteq> {}" using deep by (auto simp: deep_def)
  then obtain l where l: "get_latest_block_info (Inr db) = Inr (Some l)" using latest_block_exists [OF chain] by blast
  note latest = latest_block [OF chain l]
  let ?max = "saturating_sub (db_block_no l) (security_parameter S + block_stability_margin S)"
  have info: "bds_get_latest_block_info (Inr db) = Ok (the_mainchain_block l)"
    using l latest by (simp add: bds_get_latest_block_info_def query_def mainchain_block_db [OF chain])
  obtain t ob where t: "timestamp_to_db_type S ts = Ok t" "get_latest_block S (Inr db) ?max t = Ok ob" "(into_mainchain_block ob :: (ds_error, _) outcome) = Ok (Some m)"
    using res unfolding bds_get_latest_stable_block_for_def and_then_eq_Ok info Let_def
    by (auto simp: the_mainchain_block_def)
  obtain b where b: "ob = Some b" "(mainchain_block_from b :: (ds_error, _) outcome) = Ok m"
    using t(3) by (auto simp: into_mainchain_block_def and_then_eq_Ok split: option.splits)
  have w: "time_ok S t" "b \<in> db_blocks db" "db_block_no b \<le> ?max" "in_window S t b"
    using get_latest_block_Some t(2) b(1) by blast+
  obtain l' where "l' \<in> db_blocks db" "unat (security_parameter S) + unat (block_stability_margin S) \<le> unat (db_block_no l')"
    using deep by (auto simp: deep_def)
  then have d: "unat (security_parameter S) + unat (block_stability_margin S) \<le> unat (db_block_no l)"
    using latest by (meson le_trans word_le_nat_alt)
  then have "unat (security_parameter S + block_stability_margin S) = unat (security_parameter S) + unat (block_stability_margin S)"
    using unat_bound [of "db_block_no l"] by (intro unat_add_nowrap) simp
  then have "unat (db_block_no b) + unat (security_parameter S) \<le> unat (db_block_no l)"
    using w(3) d by (simp add: word_le_nat_alt)
  then have "saturating_add (db_block_no b) (security_parameter S) \<le> db_block_no l"
    by (simp add: word_le_nat_alt unat_saturating_add)
  then have "stable_in S db b" using w(2) latest by (auto simp: stable_in_def)
  moreover have "m = the_mainchain_block b" using b(2) by (simp add: mainchain_block_db [OF chain w(2)])
  ultimately show thesis using that t(1) w by blast
qed

lemma up_to_block_found:
  assumes "chain_ok db" and "cache_sound S db blocks" and "get_block_by_hash (Inr db) h = Inr (Some b)"
  shows "bds_get_block_by_hash (Inr db) h blocks = Ok (Some (the_mainchain_block b))"
proof -
  note b = block_by_hash_Some [OF assms(3)]
  have "cache_find blocks h = Some b' \<Longrightarrow> b' = b" for b'
    using cache_find_Some [OF assms(2), of h b'] hash_identifies [OF assms(1), of b' b] b by (auto simp: stable_in_def)
  then show ?thesis using assms(3) mainchain_block_db [OF assms(1), of b] b
    by (cases "cache_find blocks h") (simp_all add: bds_get_block_by_hash_def query_def into_mainchain_block_def
        mainchain_block_db [OF assms(1), of b])
qed

definition demo_epoch_config :: mainchain_epoch_config where
  "demo_epoch_config = \<lparr>mc_epoch_duration_millis = 1000, mc_slot_duration_millis = 10,
     mc_first_epoch_timestamp_millis = 0, mc_first_epoch_number = 0, mc_first_slot_number = 0\<rparr>"

definition demo_block_source :: block_data_source where
  "demo_block_source = \<lparr>security_parameter = 1, min_slot_boundary = 100, max_slot_boundary = 1000,
     bds_epoch_config = demo_epoch_config, block_stability_margin = 0, bds_cache_size = 5, chrono_range = (\<lambda>_. True)\<rparr>"

definition demo_block :: db_block where
  "demo_block = \<lparr>db_block_no = 10, db_block_hash = [1], db_epoch_no = 3, db_slot_no = 100, db_time = 1000\<rparr>"

lemma demo_db_blocks:
  "db_blocks demo_db = {demo_block, \<lparr>db_block_no = 11, db_block_hash = [2], db_epoch_no = 3, db_slot_no = 120, db_time = 1020\<rparr>}"
  by (auto simp: db_blocks_def demo_db_def decode_block_def demo_block_def)

lemma demo_chain_ok: "chain_ok demo_db"
  unfolding chain_ok_def demo_db_blocks by (simp add: demo_db_def demo_block_def)

lemma demo_stable: "stable_in demo_block_source demo_db b \<longleftrightarrow> b = demo_block"
  by (auto simp: stable_in_def demo_db_blocks demo_block_source_def demo_block_def saturating_add_def)

lemma demo_window: "db_block_hash demo_block = [1]" "in_window demo_block_source 1500 demo_block"
  by (simp_all add: demo_block_def in_window_def demo_block_source_def)

theorem stable_block_exact_witness:
  "\<exists>c. bds_get_stable_block_for demo_block_source (Inr demo_db) [1] 1500 (Some []) = Ok (Some (the_mainchain_block demo_block), c)"
proof -
  have "get_block_by_hash (Inr demo_db) [1] = Inr (Some demo_block)"
    using block_by_hash [OF demo_chain_ok, of demo_block] by (simp add: demo_db_blocks demo_block_def)
  note exact = stable_block_exact [OF demo_chain_ok, of demo_block_source "Some []" 1500 1500, OF _ _ _ _ this]
  obtain r c where "bds_get_stable_block_for demo_block_source (Inr demo_db) [1] 1500 (Some []) = Ok (r, c)"
    "\<forall>m. r = Some m \<longleftrightarrow> (\<exists>b. stable_in demo_block_source demo_db b \<and> db_block_hash b = [1]
        \<and> in_window demo_block_source 1500 b \<and> m = the_mainchain_block b)"
    using exact by (auto simp: cache_sound_def demo_db_blocks timestamp_to_db_type_def time_ok_def demo_block_source_def)
  then show ?thesis by (simp add: demo_stable demo_window)
qed

end
