(* ===== verification/Mc_Hash.thy ===== *)
theory Mc_Hash
  imports Block_Source Slots
begin

text \<open>
  The main chain reference of a Partner Chain block, \<open>toolkit/sidechain/sidechain-mc-hash/src/lib.rs\<close>:
  the author of a block refers to the latest stable Cardano block, an importing node checks the
  reference.

  The data source is a record of functions on its state \<open>'s\<close>; the only method that changes the state
  returns the new one. The locale \<open>mc_hash_contract\<close> states what the provider relies on, and the block
  data source with its cache is shown to satisfy it. \<open>Slot::timestamp\<close> of \<open>sp_consensus_slots\<close> is a
  parameter. A header is the list of its digest items.
\<close>

subsection \<open>The digest\<close>

datatype digest_item = PreRuntime bytes bytes | OtherDigestItem bytes

definition mc_hash_digest_id :: bytes where
  "mc_hash_digest_id = [0x6d, 0x63, 0x73, 0x68]"

datatype digest_error = InvalidMcHash bytes | McHashMissing

definition from_mc_block_hash :: "bytes \<Rightarrow> digest_item list" where
  "from_mc_block_hash h = [PreRuntime mc_hash_digest_id h]"

fun value_from_digest :: "digest_item list \<Rightarrow> digest_error + bytes" where
  "value_from_digest [] = Inl McHashMissing"
| "value_from_digest (PreRuntime i d # rest) =
     (if i = mc_hash_digest_id then if length d = 32 then Inr d else Inl (InvalidMcHash d)
      else value_from_digest rest)"
| "value_from_digest (OtherDigestItem d # rest) = value_from_digest rest"

datatype inherent_digest_error = McHashUndecodable | McHashNotProvided

definition from_inherent_data :: "bytes inherent_item \<Rightarrow> inherent_digest_error + digest_item list" where
  "from_inherent_data d = (case d of
       Inl _ \<Rightarrow> Inl McHashUndecodable
     | Inr None \<Rightarrow> Inl McHashNotProvided
     | Inr (Some h) \<Rightarrow> Inr (from_mc_block_hash h))"

text \<open>The reference of a stored block; the genesis block has none.\<close>

record block_header =
  header_number :: u32
  header_digest :: "digest_item list"

datatype 'e header_error = HeaderUnavailable 'e | HeaderMissing | HeaderDigestError digest_error

definition get_mc_hash_for_block ::
  "('hash \<Rightarrow> 'e + block_header option) \<Rightarrow> 'hash \<Rightarrow> 'e header_error + bytes option" where
  "get_mc_hash_for_block client_header block_hash = (case client_header block_hash of
       Inl e \<Rightarrow> Inl (HeaderUnavailable e)
     | Inr None \<Rightarrow> Inl HeaderMissing
     | Inr (Some header) \<Rightarrow>
         if header_number header = 0 then Inr None
         else (case value_from_digest (header_digest header) of
             Inl e \<Rightarrow> Inl (HeaderDigestError e)
           | Inr h \<Rightarrow> Inr (Some h)))"

subsection \<open>The inherent data provider\<close>

record ('s, 'e) mc_hash_data_source =
  get_latest_stable_block_for :: "'s \<Rightarrow> u64 \<Rightarrow> ('e, mainchain_block option) outcome"
  get_stable_block_for :: "'s \<Rightarrow> bytes \<Rightarrow> u64 \<Rightarrow> ('e, mainchain_block option \<times> 's) outcome"
  source_block_by_hash :: "'s \<Rightarrow> bytes \<Rightarrow> ('e, mainchain_block option) outcome"

record mc_hash_provider =
  mc_block :: mainchain_block
  previous_mc_block :: "mainchain_block option"

datatype 'e mc_hash_inherent_error =
    DataSourceError 'e
  | StableBlockNotFound u64
  | SlotTooBig
  | McStateReferenceInvalid bytes slot u64
  | McStateReferenceRegressed bytes slot u32 u32
  | DigestError digest_error
  | StableBlockNotFoundByHash bytes

definition mc_reference_epoch :: "mc_hash_provider \<Rightarrow> u32" where
  "mc_reference_epoch p = mb_epoch (mc_block p)"

definition mc_block_number :: "mc_hash_provider \<Rightarrow> u32" where
  "mc_block_number p = mb_number (mc_block p)"

definition mc_hash :: "mc_hash_provider \<Rightarrow> bytes" where
  "mc_hash p = mb_hash (mc_block p)"

definition previous_mc_hash :: "mc_hash_provider \<Rightarrow> bytes option" where
  "previous_mc_hash p = map_option mb_hash (previous_mc_block p)"

definition mc_hash_provide_inherent_data :: "mc_hash_provider \<Rightarrow> bytes inherent_item" where
  "mc_hash_provide_inherent_data p = Inr (Some (mb_hash (mc_block p)))"

definition new_proposal ::
  "(slot \<Rightarrow> 'dur \<Rightarrow> u64 option) \<Rightarrow> digest_item list \<Rightarrow> ('s, 'e) mc_hash_data_source \<Rightarrow> 's \<Rightarrow> slot \<Rightarrow> 'dur
     \<Rightarrow> ('e mc_hash_inherent_error, mc_hash_provider) outcome" where
  "new_proposal slot_timestamp parent_digest D s slot duration =
     and_then (checked SlotTooBig (slot_timestamp slot duration)) (\<lambda>ts.
     and_then (map_err DataSourceError (get_latest_stable_block_for D s ts)) (\<lambda>latest.
     and_then (checked (StableBlockNotFound ts) latest) (\<lambda>block.
       case value_from_digest parent_digest of
         Inr parent_mc_hash \<Rightarrow>
           and_then (map_err DataSourceError (source_block_by_hash D s parent_mc_hash)) (\<lambda>parent.
           and_then (checked (StableBlockNotFoundByHash parent_mc_hash) parent) (\<lambda>parent_block.
             if mb_number block \<ge> mb_number parent_block
             then Ok \<lparr>mc_block = block, previous_mc_block = Some parent_block\<rparr>
             else Ok \<lparr>mc_block = parent_block, previous_mc_block = Some parent_block\<rparr>))
       | Inl _ \<Rightarrow> Ok \<lparr>mc_block = block, previous_mc_block = None\<rparr>)))"

definition get_mc_state_reference ::
  "(slot \<Rightarrow> 'dur \<Rightarrow> u64 option) \<Rightarrow> slot \<Rightarrow> bytes \<Rightarrow> 'dur \<Rightarrow> ('s, 'e) mc_hash_data_source \<Rightarrow> 's
     \<Rightarrow> ('e mc_hash_inherent_error, mainchain_block \<times> 's) outcome" where
  "get_mc_state_reference slot_timestamp slot hash duration D s =
     and_then (checked SlotTooBig (slot_timestamp slot duration)) (\<lambda>ts.
     and_then (map_err DataSourceError (get_stable_block_for D s hash ts)) (\<lambda>(found, s).
     and_then (checked (McStateReferenceInvalid hash slot ts) found) (\<lambda>block. Ok (block, s))))"

definition new_verification ::
  "(slot \<Rightarrow> 'dur \<Rightarrow> u64 option) \<Rightarrow> digest_item list \<Rightarrow> slot option \<Rightarrow> slot \<Rightarrow> bytes \<Rightarrow> 'dur \<Rightarrow> ('s, 'e) mc_hash_data_source \<Rightarrow> 's
     \<Rightarrow> ('e mc_hash_inherent_error, mc_hash_provider \<times> 's) outcome" where
  "new_verification slot_timestamp parent_digest parent_slot slot hash duration D s =
     and_then (get_mc_state_reference slot_timestamp slot hash duration D s) (\<lambda>(block, s).
       case parent_slot of
         None \<Rightarrow> Ok (\<lparr>mc_block = block, previous_mc_block = None\<rparr>, s)
       | Some parent_slot \<Rightarrow>
           (case value_from_digest parent_digest of
              Inl e \<Rightarrow> Err (DigestError e)
            | Inr parent_mc_hash \<Rightarrow>
                and_then (get_mc_state_reference slot_timestamp parent_slot parent_mc_hash duration D s) (\<lambda>(parent_block, s).
                  if mb_number block < mb_number parent_block
                  then Err (McStateReferenceRegressed hash slot (mb_number block) (mb_number parent_block))
                  else Ok (\<lparr>mc_block = block, previous_mc_block = Some parent_block\<rparr>, s))))"

subsection \<open>What the provider relies on\<close>

text \<open>
  \<open>ext a v\<close>: the node in state \<open>v\<close> has every stable block that the node in state \<open>a\<close> has, and the two
  agree on the block a hash stands for.
\<close>

definition parent_referenced ::
  "(slot \<Rightarrow> 'dur \<Rightarrow> u64 option) \<Rightarrow> digest_item list \<Rightarrow> slot option \<Rightarrow> slot \<Rightarrow> 'dur \<Rightarrow> ('s, 'e) mc_hash_data_source \<Rightarrow> 's \<Rightarrow> bool" where
  "parent_referenced slot_timestamp digest parent_slot slot duration D v = (case parent_slot of
       None \<Rightarrow> (\<exists>e. value_from_digest digest = Inl e)
     | Some ps \<Rightarrow> (\<exists>h b v'. value_from_digest digest = Inr h
          \<and> get_mc_state_reference slot_timestamp ps h duration D v = Ok (b, v'))
        \<and> (\<forall>ts ts'. slot_timestamp slot duration = Some ts \<longrightarrow> slot_timestamp ps duration = Some ts' \<longrightarrow> ts' \<le> ts))"

locale mc_hash_contract =
  fixes D :: "('s, 'e) mc_hash_data_source" and inv :: "'s \<Rightarrow> bool" and ext :: "'s \<Rightarrow> 's \<Rightarrow> bool"
  assumes stable_state: "inv s \<Longrightarrow> get_stable_block_for D s h ts = Ok (r, s') \<Longrightarrow> inv s' \<and> ext s s' \<and> (\<forall>a. ext a s \<longrightarrow> ext a s')"
    and latest_is_stable: "inv a \<Longrightarrow> inv v \<Longrightarrow> ext a v \<Longrightarrow> get_latest_stable_block_for D a ts = Ok (Some b)
      \<Longrightarrow> \<exists>v'. get_stable_block_for D v (mb_hash b) ts = Ok (Some b, v')"
    and stable_persists: "inv a \<Longrightarrow> inv v \<Longrightarrow> ext a v \<Longrightarrow> get_stable_block_for D a h ts = Ok (Some b, a')
      \<Longrightarrow> \<exists>v'. get_stable_block_for D v h ts = Ok (Some b, v')"
    and hash_agrees: "inv a \<Longrightarrow> inv v \<Longrightarrow> ext a v \<Longrightarrow> source_block_by_hash D a h = Ok (Some b)
      \<Longrightarrow> get_stable_block_for D v h ts = Ok (Some b', v') \<Longrightarrow> b = b' \<and> mb_hash b = h"
    and window: "inv a \<Longrightarrow> inv v \<Longrightarrow> ext a v \<Longrightarrow> get_latest_stable_block_for D a ts = Ok (Some b)
      \<Longrightarrow> get_stable_block_for D v h ts' = Ok (Some b', v') \<Longrightarrow> ts' \<le> ts \<Longrightarrow> mb_number b < mb_number b'
      \<Longrightarrow> \<exists>v''. get_stable_block_for D v h ts = Ok (Some b', v'')"
begin

lemma reference_Ok:
  "get_mc_state_reference st slot h dur D s = Ok (b, s')
    \<longleftrightarrow> (\<exists>ts. st slot dur = Some ts \<and> get_stable_block_for D s h ts = Ok (Some b, s'))"
  by (auto simp: get_mc_state_reference_def and_then_eq_Ok checked_def  split: option.splits)

lemma reference_after:
  assumes "inv v" and "get_mc_state_reference st slot h dur D v = Ok (b, v1)"
    and "get_mc_state_reference st slot' h' dur D v = Ok (b', v2)"
  shows "\<exists>v3. get_mc_state_reference st slot' h' dur D v1 = Ok (b', v3)"
  using assms stable_state stable_persists unfolding reference_Ok by blast

text \<open>
  \<open>parent_referenced\<close>: the parent is the genesis block, without a reference, or its reference is valid at
  its slot, which is not later than the new one.
\<close>

lemma proposal_verified:
  assumes a: "inv a" and v: "inv v" and av: "ext a v"
    and proposed: "new_proposal st digest D a slot dur = Ok p"
    and parent: "parent_referenced st digest parent_slot slot dur D v"
  shows "\<exists>v'. new_verification st digest parent_slot slot (mc_hash p) dur D v = Ok (p, v')"
proof -
  obtain ts b where ts: "st slot dur = Some ts" "get_latest_stable_block_for D a ts = Ok (Some b)"
    using proposed by (auto simp: new_proposal_def and_then_eq_Ok checked_def split: option.splits)
  obtain v1 where b: "get_mc_state_reference st slot (mb_hash b) dur D v = Ok (b, v1)"
    using latest_is_stable [OF a v av ts(2)] ts(1) unfolding reference_Ok by blast
  show ?thesis
  proof (cases parent_slot)
    case None
    then obtain e where "value_from_digest digest = Inl e" using parent by (auto simp: parent_referenced_def)
    then have "p = \<lparr>mc_block = b, previous_mc_block = None\<rparr>" using proposed ts by (simp add: new_proposal_def)
    then show ?thesis using b None by (simp add: new_verification_def mc_hash_def)
  next
    case (Some ps)
    then obtain h pb v2 where h: "value_from_digest digest = Inr h"
      and pb: "get_mc_state_reference st ps h dur D v = Ok (pb, v2)"
      and le: "\<And>ts'. st ps dur = Some ts' \<Longrightarrow> ts' \<le> ts"
      using parent ts(1) by (auto simp: parent_referenced_def)
    obtain ts' where ts': "st ps dur = Some ts'" "get_stable_block_for D v h ts' = Ok (Some pb, v2)"
      using pb unfolding reference_Ok by blast
    obtain x where x: "source_block_by_hash D a h = Ok (Some x)"
      using proposed ts h by (auto simp: new_proposal_def and_then_eq_Ok checked_def split: option.splits)
    then have x_pb: "x = pb" "mb_hash pb = h" using hash_agrees [OF a v av x ts'(2)] by auto
    have p: "p = \<lparr>mc_block = (if mb_number pb \<le> mb_number b then b else pb), previous_mc_block = Some pb\<rparr>"
      using proposed ts h x by (simp add: new_proposal_def x_pb split: if_splits)
    have "\<exists>v1. get_mc_state_reference st slot (mc_hash p) dur D v = Ok (mc_block p, v1)"
    proof (cases "mb_number pb \<le> mb_number b")
      case True
      then show ?thesis using b by (simp add: p mc_hash_def)
    next
      case False
      then obtain v3 where "get_stable_block_for D v h ts = Ok (Some pb, v3)"
        using window [OF a v av ts(2) ts'(2) le [OF ts'(1)]] by (meson not_le)
      then have "get_mc_state_reference st slot h dur D v = Ok (pb, v3)" using ts(1) unfolding reference_Ok by blast
      then show ?thesis using False by (simp add: p mc_hash_def x_pb(2))
    qed
    then obtain v1 where v1: "get_mc_state_reference st slot (mc_hash p) dur D v = Ok (mc_block p, v1)" ..
    obtain v3 where v3: "get_mc_state_reference st ps h dur D v1 = Ok (pb, v3)"
      using reference_after [OF v v1 pb] ..
    have "\<not> mb_number (mc_block p) < mb_number pb" by (auto simp: p)
    then show ?thesis using v1 v3 h Some by (simp add: new_verification_def p)
  qed
qed

lemma verified_no_regress:
  assumes "new_verification st digest (Some ps) slot h dur D v = Ok (p, v')"
  shows "\<exists>pb. previous_mc_block p = Some pb \<and> mb_number pb \<le> mb_number (mc_block p)"
  using assms by (cases "value_from_digest digest") (auto simp: new_verification_def and_then_eq_Ok split: if_splits)

end

subsection \<open>The Db-Sync source\<close>

definition db_mc_hash_source :: "block_data_source \<Rightarrow> ('pd pg_pool \<times> blocks_cache, ds_error) mc_hash_data_source" where
  "db_mc_hash_source S = \<lparr>
     get_latest_stable_block_for = (\<lambda>(pool, cache) ts. bds_get_latest_stable_block_for S pool ts),
     get_stable_block_for = (\<lambda>(pool, cache) h ts.
       and_then (bds_get_stable_block_for S pool h ts cache) (\<lambda>(r, cache). Ok (r, (pool, cache)))),
     source_block_by_hash = (\<lambda>(pool, cache) h. bds_get_block_by_hash pool h cache)\<rparr>"

text \<open>
  A node with a chain deeper than the stability offset and a cache of stable blocks. Another node
  extends it when it has all its stable blocks, even if the two disagree on the last blocks.
\<close>

fun node_inv :: "block_data_source \<Rightarrow> 'pd pg_pool \<times> blocks_cache \<Rightarrow> bool" where
  "node_inv S (Inl e, cache) = False"
| "node_inv S (Inr db, cache) = (chain_ok db \<and> deep S db \<and> cache_sound S db cache)"

fun node_ext :: "block_data_source \<Rightarrow> 'pd pg_pool \<times> blocks_cache \<Rightarrow> 'pd pg_pool \<times> blocks_cache \<Rightarrow> bool" where
  "node_ext S (Inr db, _) (Inr db', _) = ((\<forall>b. stable_in S db b \<longrightarrow> stable_in S db' b)
     \<and> (\<forall>b \<in> db_blocks db. \<forall>b' \<in> db_blocks db'. db_block_hash b = db_block_hash b' \<longrightarrow> b = b'))"
| "node_ext S _ _ = False"

lemma node_inv_cases:
  assumes "node_inv S s"
  obtains db cache where "s = (Inr db, cache)" "chain_ok db" "deep S db" "cache_sound S db cache" "db_blocks db \<noteq> {}"
proof -
  obtain db cache where "s = (Inr db, cache)" using assms by (cases s rule: node_inv.cases [of "(S, s)" for s]) auto
  then show thesis using that assms by (auto simp: deep_def)
qed

lemma valid_True: "is_block_time_valid S b t = Ok True \<longleftrightarrow> time_ok S t \<and> in_window S t b"
  by (auto simp: is_block_time_valid_def min_block_allowed_time_def max_allowed_block_time_def date_time_sub_def
      time_ok_def in_window_def)

lemma from_db_Some:
  assumes "chain_ok db" and "get_stable_block_by_hash_from_db S (Inr db) h t = Ok (Some b)"
  shows "stable_in S db b \<and> db_block_hash b = h \<and> time_ok S t \<and> in_window S t b"
proof -
  obtain l where q: "get_block_by_hash (Inr db) h = Inr (Some b)" "get_latest_block_info (Inr db) = Inr (Some l)"
    "saturating_add (db_block_no b) (security_parameter S) \<le> db_block_no l" "is_block_time_valid S b t = Ok True"
    using assms(2) by (auto simp: get_stable_block_by_hash_from_db_def and_then_eq_Ok split: option.splits if_splits)
  then show ?thesis using block_by_hash_Some [OF q(1)] latest_block [OF assms(1) q(2)] valid_True
    by (auto simp: stable_in_def)
qed

lemma stable_for_Ok:
  assumes chain: "chain_ok db" and sound: "cache_sound S db cache"
    and res: "bds_get_stable_block_for S (Inr db) h ts cache = Ok (r, c)"
  shows "cache_sound S db c \<and> (\<forall>m. r = Some m \<longrightarrow> (\<exists>b t. timestamp_to_db_type S ts = Ok t \<and> time_ok S t
    \<and> stable_in S db b \<and> db_block_hash b = h \<and> in_window S t b \<and> m = the_mainchain_block b))"
proof -
  obtain t f where t: "timestamp_to_db_type S ts = Ok t" "get_stable_block_by_hash_from_cache S cache h t = Ok f"
    "get_stable_block_by_hash S (Inr db) h t cache = Ok (r, c)"
    using res by (auto simp: bds_get_stable_block_for_def get_stable_block_by_hash_def and_then_eq_Ok)
  show ?thesis
  proof (cases f)
    case (Some b)
    then have "cache_find cache h = Some b" "is_block_time_valid S b t = Ok True"
      using t(2) by (auto simp: get_stable_block_by_hash_from_cache_def and_then_eq_Ok split: option.splits if_splits)
    then have b: "stable_in S db b" "db_block_hash b = h" "time_ok S t" "in_window S t b"
      using cache_find_Some [OF sound] valid_True by blast+
    then have "mainchain_block_from b = (Ok (the_mainchain_block b) :: (ds_error, _) outcome)"
      by (simp add: stable_in_def mainchain_block_db [OF chain])
    then have "r = Some (the_mainchain_block b)" "c = cache"
      using t Some by (auto simp: get_stable_block_by_hash_def)
    then show ?thesis using t(1) b sound by auto
  next
    case None
    then obtain g where g: "get_stable_block_by_hash_from_db S (Inr db) h t = Ok g"
      using t by (auto simp: get_stable_block_by_hash_def and_then_eq_Ok)
    show ?thesis
    proof (cases g)
      case g_None: None
      then have "r = None" "c = cache" using t None g by (auto simp: get_stable_block_by_hash_def)
      then show ?thesis using sound by simp
    next
      case (Some b)
      then have b: "stable_in S db b" "db_block_hash b = h" "time_ok S t" "in_window S t b"
        using from_db_Some [OF chain] g by blast+
      then have m: "mainchain_block_from b = (Ok (the_mainchain_block b) :: (ds_error, _) outcome)"
        by (simp add: stable_in_def mainchain_block_db [OF chain])
      obtain c' where c': "fill_cache S (Inr db) b cache = Ok c'" "cache_sound S db c'"
        using fill_cache_sound [OF chain sound b(1)] by auto
      then have "r = Some (the_mainchain_block b)" "c = c'"
        using t None g Some m by (auto simp: get_stable_block_by_hash_def)
      then show ?thesis using t(1) b c'(2) by auto
    qed
  qed
qed

lemma stable_for_intro:
  assumes "chain_ok db" and "cache_sound S db cache" and "timestamp_to_db_type S ts = Ok t" and "time_ok S t"
    and "stable_in S db b" and "in_window S t b" and "db_block_hash b = h"
  shows "\<exists>c. bds_get_stable_block_for S (Inr db) h ts cache = Ok (Some (the_mainchain_block b), c)"
proof -
  have b: "b \<in> db_blocks db" using assms(5) by (simp add: stable_in_def)
  then have "get_block_by_hash (Inr db) h = Inr (Some b)" using block_by_hash [OF assms(1)] assms(7) by blast
  moreover have "db_blocks db \<noteq> {}" using b by blast
  ultimately obtain r c where rc: "get_stable_block_by_hash S (Inr db) h t cache = Ok (r, c)"
    "\<forall>m. r = Some m \<longleftrightarrow> (\<exists>b. stable_in S db b \<and> db_block_hash b = h \<and> in_window S t b \<and> m = the_mainchain_block b)"
    using stable_block_by_hash_exact [OF assms(1,2,4)] by blast
  then have "r = Some (the_mainchain_block b)" using assms(5-7) by blast
  then show ?thesis using rc(1) assms(3) by (simp add: bds_get_stable_block_for_def)
qed

lemma source_simps [simp]:
  "get_latest_stable_block_for (db_mc_hash_source S) (pool, cache) ts = bds_get_latest_stable_block_for S pool ts"
  "source_block_by_hash (db_mc_hash_source S) (pool, cache) h = bds_get_block_by_hash pool h cache"
  by (simp_all add: db_mc_hash_source_def)

lemma timestamp_mono:
  assumes "timestamp_to_db_type S ts = Ok t" "timestamp_to_db_type S ts' = Ok t'" "ts' \<le> ts"
  shows "t' \<le> t"
  using assms by (auto simp: timestamp_to_db_type_def word_le_def split: if_splits)

lemma the_mainchain_block_simps [simp]:
  "mb_hash (the_mainchain_block b) = db_block_hash b" "mb_number (the_mainchain_block b) = db_block_no b"
  by (simp_all add: the_mainchain_block_def)

lemma block_by_hash_of:
  assumes "chain_ok db" and "cache_sound S db cache" and "bds_get_block_by_hash (Inr db) h cache = Ok (Some m)"
  shows "\<exists>b \<in> db_blocks db. db_block_hash b = h \<and> m = the_mainchain_block b"
proof -
  have conv: "m = the_mainchain_block b" if "into_mainchain_block (Some b) = (Ok (Some m) :: (ds_error, _) outcome)" "b \<in> db_blocks db" for b
    using that by (simp add: into_mainchain_block_def mainchain_block_db [OF assms(1)])
  show ?thesis
  proof (cases "cache_find cache h")
    case (Some b)
    then have "b \<in> db_blocks db" "db_block_hash b = h" using cache_find_Some [OF assms(2)] by (auto simp: stable_in_def)
    then show ?thesis using conv [of b] assms(3) Some by (auto simp: bds_get_block_by_hash_def)
  next
    case None
    then obtain b where "get_block_by_hash (Inr db) h = Inr (Some b)" "into_mainchain_block (Some b) = (Ok (Some m) :: (ds_error, _) outcome)"
      using assms(3) by (auto simp: bds_get_block_by_hash_def and_then_eq_Ok into_mainchain_block_def split: option.splits)
    then show ?thesis using conv block_by_hash_Some by blast
  qed
qed

text \<open>The laws of the contract, for two databases.\<close>

lemma db_latest_is_stable:
  assumes "chain_ok db" "deep S db" and v: "chain_ok db'" "cache_sound S db' cache'"
    and "\<forall>b. stable_in S db b \<longrightarrow> stable_in S db' b" and "bds_get_latest_stable_block_for S (Inr db) ts = Ok (Some m)"
  shows "\<exists>c. bds_get_stable_block_for S (Inr db') (mb_hash m) ts cache' = Ok (Some m, c)"
proof -
  obtain t b where "timestamp_to_db_type S ts = Ok t" "time_ok S t" "stable_in S db b" "in_window S t b" "m = the_mainchain_block b"
    using assms(1,2,6) by (rule latest_stable_block)
  then show ?thesis using stable_for_intro [OF v, of ts t b] assms(5) by simp
qed

lemma db_stable_persists:
  assumes "chain_ok db" "cache_sound S db cache" and v: "chain_ok db'" "cache_sound S db' cache'"
    and "\<forall>b. stable_in S db b \<longrightarrow> stable_in S db' b" and "bds_get_stable_block_for S (Inr db) h ts cache = Ok (Some m, c)"
  shows "\<exists>c'. bds_get_stable_block_for S (Inr db') h ts cache' = Ok (Some m, c')"
proof -
  obtain t b where "timestamp_to_db_type S ts = Ok t" "time_ok S t" "stable_in S db b" "in_window S t b" "db_block_hash b = h" "m = the_mainchain_block b"
    using stable_for_Ok [OF assms(1,2,6)] by blast
  then show ?thesis using stable_for_intro [OF v, of ts t b h] assms(5) by simp
qed

lemma db_hash_agrees:
  assumes "chain_ok db" "cache_sound S db cache" "chain_ok db'" "cache_sound S db' cache'"
    and same: "\<forall>b \<in> db_blocks db. \<forall>b' \<in> db_blocks db'. db_block_hash b = db_block_hash b' \<longrightarrow> b = b'"
    and "bds_get_block_by_hash (Inr db) h cache = Ok (Some m)" and "bds_get_stable_block_for S (Inr db') h ts cache' = Ok (Some m', c)"
  shows "m = m' \<and> mb_hash m = h"
proof -
  obtain b where b: "b \<in> db_blocks db" "db_block_hash b = h" "m = the_mainchain_block b"
    using block_by_hash_of [OF assms(1,2,6)] by blast
  obtain b' where "b' \<in> db_blocks db'" "db_block_hash b' = h" "m' = the_mainchain_block b'"
    using stable_for_Ok [OF assms(3,4,7)] by (auto simp: stable_in_def)
  then show ?thesis using b same by auto
qed

lemma db_window:
  assumes "chain_ok db" "deep S db" and v: "chain_ok db'" "cache_sound S db' cache'"
    and sub: "\<forall>b. stable_in S db b \<longrightarrow> stable_in S db' b" and "bds_get_latest_stable_block_for S (Inr db) ts = Ok (Some m)"
    and "bds_get_stable_block_for S (Inr db') h ts' cache' = Ok (Some m', c)" and "ts' \<le> ts" and "mb_number m < mb_number m'"
  shows "\<exists>c. bds_get_stable_block_for S (Inr db') h ts cache' = Ok (Some m', c)"
proof -
  obtain t x where x: "timestamp_to_db_type S ts = Ok t" "time_ok S t" "stable_in S db x" "in_window S t x" "m = the_mainchain_block x"
    using assms(1,2,6) by (rule latest_stable_block)
  obtain y t' where y: "timestamp_to_db_type S ts' = Ok t'" "stable_in S db' y" "db_block_hash y = h" "in_window S t' y" "m' = the_mainchain_block y"
    using stable_for_Ok [OF v assms(7)] by blast
  have "stable_in S db' x" using sub x(3) by blast
  then have "db_time x \<le> db_time y" using v(1) y(2,5) x(5) assms(9) by (auto simp: chain_ok_def stable_in_def)
  then have "in_window S t y" using x(4) y(4) timestamp_mono [OF x(1) y(1) assms(8)] by (simp add: in_window_def)
  then show ?thesis using stable_for_intro [OF v x(1,2) y(2) _ y(3)] y(5) by simp
qed

lemma stable_for_pool:
  "get_stable_block_for (db_mc_hash_source S) (pool, cache) h ts = Ok (r, s')
    \<longleftrightarrow> (\<exists>c. bds_get_stable_block_for S pool h ts cache = Ok (r, c) \<and> s' = (pool, c))"
  by (auto simp: db_mc_hash_source_def and_then_eq_Ok)

interpretation db: mc_hash_contract "db_mc_hash_source S" "node_inv S" "node_ext S"
proof (unfold_locales, goal_cases)
  case (1 s h ts r s')
  obtain db cache where s: "s = (Inr db, cache)" "chain_ok db" "deep S db" "cache_sound S db cache"
    using 1(1) by (rule node_inv_cases)
  obtain c where c: "bds_get_stable_block_for S (Inr db) h ts cache = Ok (r, c)" "s' = (Inr db, c)"
    using 1(2) unfolding s stable_for_pool by blast
  have "node_ext S a s \<longrightarrow> node_ext S a s'" for a by (cases a rule: prod.exhaust; cases "fst a") (simp_all add: s c)
  then show ?case using stable_for_Ok [OF s(2,4) c(1)] hash_identifies [OF s(2)] by (simp add: s c)
next
  case (2 a v ts b)
  then show ?case by (elim node_inv_cases) (simp add: stable_for_pool db_latest_is_stable)
next
  case (3 a v h ts b a')
  then show ?case by (elim node_inv_cases) (auto simp: stable_for_pool intro: db_stable_persists)
next
  case (4 a v h b ts b' v')
  then show ?case by (elim node_inv_cases) (simp add: stable_for_pool, elim exE conjE, rule db_hash_agrees)
next
  case (5 a v ts b h ts' b' v')
  then show ?case by (elim node_inv_cases) (auto simp: stable_for_pool intro: db_window)
qed

text \<open>
  C9: The main chain reference of an honest author is accepted. A node that proposes a block, with its
  own cache and its own view of Cardano, refers to a Cardano block that every node that has the same
  stable blocks, with any cache of stable blocks, verifies, and both obtain the same
  reference and the same previous reference. This holds also when the latest stable block is older
  than the block its parent refers to and the author repeats the parent's reference.
\<close>

theorem proposed_reference_verifies:
  assumes "node_inv S author" and "node_inv S importer" and "node_ext S author importer"
    and "new_proposal slot_timestamp digest (db_mc_hash_source S) author slot duration = Ok p"
    and "parent_referenced slot_timestamp digest parent_slot slot duration (db_mc_hash_source S) importer"
  shows "\<exists>importer'. new_verification slot_timestamp digest parent_slot slot (mc_hash p) duration (db_mc_hash_source S) importer
    = Ok (p, importer')"
  using assms by (rule db.proposal_verified)

lemma demo_node_inv: "node_inv demo_block_source (Inr demo_db, Some [])"
  by (auto simp: demo_chain_ok cache_sound_def deep_def demo_db_blocks demo_block_def demo_block_source_def)

lemma demo_latest_stable:
  "bds_get_latest_stable_block_for demo_block_source (Inr demo_db) 1500 = Ok (Some (the_mainchain_block demo_block))"
  by (simp add: bds_get_latest_stable_block_for_def timestamp_to_db_type_def demo_block_source_def
      bds_get_latest_block_info_def get_latest_block_info_def fetch_optional_def order_by_desc_def demo_db_def decode_block_def
      mainchain_block_from_def query_def get_latest_block_def min_block_allowed_time_def max_allowed_block_time_def date_time_sub_def
      date_time_to_slot_def timestamp_to_mainchain_slot_number_def demo_epoch_config_def checked_sub_def get_highest_block_def
      into_mainchain_block_def the_mainchain_block_def demo_block_def Let_def saturating_sub_def div_or_panic_def)

theorem proposed_reference_verifies_witness:
  "\<exists>importer'. new_verification (\<lambda>slot d. Some (slot * d)) [] None 15 [1] 100 (db_mc_hash_source demo_block_source) (Inr demo_db, Some [])
    = Ok (\<lparr>mc_block = the_mainchain_block demo_block, previous_mc_block = None\<rparr>, importer')"
proof -
  have ext: "node_ext demo_block_source (Inr demo_db, Some []) (Inr demo_db, Some [])"
    using hash_identifies [OF demo_chain_ok] by simp
  have proposal: "new_proposal (\<lambda>slot d. Some (slot * d)) [] (db_mc_hash_source demo_block_source) (Inr demo_db, Some []) 15 100
      = Ok \<lparr>mc_block = the_mainchain_block demo_block, previous_mc_block = None\<rparr>"
    by (simp add: new_proposal_def demo_latest_stable)
  have genesis: "parent_referenced (\<lambda>slot d. Some (slot * d)) [] None 15 100 (db_mc_hash_source demo_block_source) (Inr demo_db, Some [])"
    by (simp add: parent_referenced_def)
  show ?thesis
    using proposed_reference_verifies [OF demo_node_inv demo_node_inv ext proposal genesis] by (simp add: mc_hash_def demo_window)
qed

end
