(* ===== verification/Governed_Map_Source.thy ===== *)
theory Governed_Map_Source
  imports Governed_Map Plutus_Codecs Block_Source
begin

text \<open>
  The governed map data sources, \<open>toolkit/data-sources/db-sync/src/governed_map/mod.rs\<close>: the source that
  reads the state of the map at a block and compares two states, and the source that reads the
  created and spent outputs of a range of blocks and caches them.

  The library that decodes the datums is the parameter \<open>csl\<close>, the configuration of the \<open>tx_in\<close> table is
  the result \<open>cfg\<close> of \<open>get_tx_in_config\<close>. The cache is behind a lock that may be poisoned (\<open>None\<close>); the
  cached source returns the cache with its result, since a failing call may already have reset it.
\<close>

subsection \<open>The configuration of the database\<close>

text \<open>\<open>DbSyncConfigurationProvider\<close>: the configuration is read once and kept in a cell.\<close>

definition get_tx_in_config ::
  "bool \<Rightarrow> 'pd pg_pool \<Rightarrow> tx_in_configuration option \<Rightarrow> (ds_error, tx_in_configuration \<times> tx_in_configuration option) outcome" where
  "get_tx_in_config tx_in_exists pool cell = (case cell of
       Some cfg \<Rightarrow> Ok (cfg, cell)
     | None \<Rightarrow> and_then (query (tx_in_configuration_from_connection tx_in_exists pool)) (\<lambda>cfg. Ok (cfg, Some cfg)))"

subsection \<open>Reading the state\<close>

fun collect_entries :: "'pd csl \<Rightarrow> 'pd list \<Rightarrow> (map_key \<times> map_value) list \<Rightarrow> (ds_error, (map_key \<times> map_value) list) outcome" where
  "collect_entries c [] mappings = Ok mappings"
| "collect_entries c (d # ds) mappings = (case governed_map_datum_try_from c d of
       Ok g \<Rightarrow> collect_entries c ds (btree_insert (gmd_key g) (gmd_value g) mappings)
     | Err _ \<Rightarrow> collect_entries c ds mappings
     | Panic p \<Rightarrow> Panic p)"

definition get_mappings_entries ::
  "'pd csl \<Rightarrow> 'pd pg_pool \<Rightarrow> bytes \<Rightarrow> gm_scripts \<Rightarrow> tx_in_configuration \<Rightarrow> (ds_error, (map_key \<times> map_value) list) outcome" where
  "get_mappings_entries c pool hash scripts cfg =
     and_then (query (get_block_by_hash pool hash)) (\<lambda>block. case block of
         None \<Rightarrow> Err (BlockHashNotFound hash)
       | Some block \<Rightarrow>
           and_then (query (get_datums_at_address_with_token pool (validator_address scripts) (db_block_no block)
             (asset_new (asset_policy_id scripts)) cfg)) (\<lambda>entries. collect_entries c entries []))"

definition db_get_state_at_block ::
  "'pd csl \<Rightarrow> (ds_error, tx_in_configuration) outcome \<Rightarrow> 'pd pg_pool \<Rightarrow> bytes \<Rightarrow> gm_scripts
     \<Rightarrow> (ds_error, (map_key \<times> map_value) list) outcome" where
  "db_get_state_at_block c cfg pool mc_block scripts = and_then cfg (\<lambda>cfg. get_mappings_entries c pool mc_block scripts cfg)"

definition db_get_mapping_changes ::
  "'pd csl \<Rightarrow> (ds_error, tx_in_configuration) outcome \<Rightarrow> 'pd pg_pool \<Rightarrow> bytes option \<Rightarrow> bytes \<Rightarrow> gm_scripts
     \<Rightarrow> (ds_error, (map_key \<times> map_value option) list) outcome" where
  "db_get_mapping_changes c cfg pool since up_to scripts =
     and_then (db_get_state_at_block c cfg pool up_to scripts) (\<lambda>current_mappings. case since of
         None \<Rightarrow> Ok (map (\<lambda>(key, val). (key, Some val)) current_mappings)
       | Some since \<Rightarrow>
           and_then (db_get_state_at_block c cfg pool since scripts) (\<lambda>previous_mappings.
             Ok ([(key, Some val). (key, val) \<leftarrow> current_mappings, map_of previous_mappings key \<noteq> Some val]
               @ [(key, None). key \<leftarrow> map fst previous_mappings, map_of current_mappings key = None])))"

subsection \<open>The cached source\<close>

record gm_change =
  change_block_no :: u32
  change_key :: map_key
  change_value :: "map_value option"

record gm_cache =
  highest_block_number :: "u32 option"
  lowest_block_number :: "u32 option"
  cached_changes :: "gm_change list"
  cache_address :: "bytes option"
  cache_policy_id :: "bytes option"

definition empty_gm_cache :: gm_cache where
  "empty_gm_cache = \<lparr>highest_block_number = None, lowest_block_number = None, cached_changes = [],
     cache_address = None, cache_policy_id = None\<rparr>"

definition in_range :: "u32 option \<Rightarrow> u32 \<Rightarrow> u32 \<Rightarrow> bool" where
  "in_range since up_to n \<longleftrightarrow> n \<le> up_to \<and> (case since of None \<Rightarrow> True | Some b \<Rightarrow> n > b)"

lemma in_range_Some [simp]: "in_range (Some p) h n \<longleftrightarrow> p < n \<and> n \<le> h"
  by (auto simp: in_range_def)

definition filter_changes_in_range :: "gm_change list \<Rightarrow> u32 option \<Rightarrow> u32 \<Rightarrow> (map_key \<times> map_value option) list" where
  "filter_changes_in_range changes since up_to =
     map (\<lambda>ch. (change_key ch, change_value ch)) (filter (\<lambda>ch. in_range since up_to (change_block_no ch)) changes)"

definition get_changes_in_range :: "gm_cache \<Rightarrow> u32 option \<Rightarrow> u32 \<Rightarrow> (map_key \<times> map_value option) list option" where
  "get_changes_in_range cache since up_to =
     (case (highest_block_number cache, lowest_block_number cache) of
        (Some highest, Some lowest) \<Rightarrow>
          if highest < up_to \<or> (case since of None \<Rightarrow> False | Some b \<Rightarrow> b < lowest) then None
          else Some (filter_changes_in_range (cached_changes cache) since up_to)
      | _ \<Rightarrow> None)"

definition gm_cache_update :: "gm_change list \<Rightarrow> gm_cache \<Rightarrow> gm_cache" where
  "gm_cache_update changes cache =
     (let (lowest, highest) = (if changes = [] then (0, 0)
        else (Min (change_block_no ` set changes), Max (change_block_no ` set changes)))
      in cache\<lparr>cached_changes := changes, lowest_block_number := Some lowest, highest_block_number := Some highest\<rparr>)"

definition gm_cache_set_main_chain_scripts :: "gm_scripts \<Rightarrow> gm_cache \<Rightarrow> gm_cache" where
  "gm_cache_set_main_chain_scripts scripts cache =
     (if cache_address cache \<noteq> Some (validator_address scripts) \<or> cache_policy_id cache \<noteq> Some (asset_policy_id scripts)
      then \<lparr>highest_block_number = None, lowest_block_number = None, cached_changes = [],
        cache_address = Some (validator_address scripts), cache_policy_id = Some (asset_policy_id scripts)\<rparr>
      else cache)"

fun collect_changes :: "'pd csl \<Rightarrow> 'pd datum_change_output list \<Rightarrow> (ds_error, gm_change list) outcome" where
  "collect_changes c [] = Ok []"
| "collect_changes c (ch # chs) = (case governed_map_datum_try_from c (ch_datum ch) of
       Ok g \<Rightarrow> and_then (collect_changes c chs) (\<lambda>rest. Ok (\<lparr>change_block_no = ch_block_no ch, change_key = gmd_key g,
          change_value = (case ch_action ch of Spend \<Rightarrow> None | Create \<Rightarrow> Some (gmd_value g))\<rparr> # rest))
     | Err _ \<Rightarrow> collect_changes c chs
     | Panic p \<Rightarrow> Panic p)"

definition get_changes_in_range_to_cache ::
  "'pd csl \<Rightarrow> (ds_error, tx_in_configuration) outcome \<Rightarrow> 'pd pg_pool \<Rightarrow> u32 option \<Rightarrow> u32 \<Rightarrow> gm_scripts
     \<Rightarrow> (ds_error, gm_change list) outcome" where
  "get_changes_in_range_to_cache c cfg pool since up_to scripts =
     and_then cfg (\<lambda>cfg.
     and_then (query (get_governed_map_changes pool (validator_address scripts) since up_to
       (asset_new (asset_policy_id scripts)) cfg)) (collect_changes c))"

definition since_block_number :: "'pd pg_pool \<Rightarrow> bytes option \<Rightarrow> (ds_error, u32 option) outcome" where
  "since_block_number pool since = (case since of
       None \<Rightarrow> Ok None
     | Some hash \<Rightarrow> and_then (query (get_block_by_hash pool hash)) (\<lambda>block. case block of
           None \<Rightarrow> Err (BlockHashNotFound hash)
         | Some block \<Rightarrow> Ok (Some (db_block_no block))))"

text \<open>
  The time of the latest block is in seconds, and is passed on as the milliseconds of the reference
  time.
\<close>

definition latest_stable_block_or :: "block_data_source \<Rightarrow> 'pd pg_pool \<Rightarrow> u32 \<Rightarrow> (ds_error, u32) outcome" where
  "latest_stable_block_or S pool up_to =
     and_then (bds_get_latest_block_info pool) (\<lambda>latest.
     and_then (bds_get_latest_stable_block_for S pool (mb_timestamp latest)) (\<lambda>stable.
       Ok (case stable of Some block \<Rightarrow> mb_number block | None \<Rightarrow> up_to)))"

definition cached_get_mapping_changes ::
  "'pd csl \<Rightarrow> (ds_error, tx_in_configuration) outcome \<Rightarrow> block_data_source \<Rightarrow> u16 \<Rightarrow> 'pd pg_pool \<Rightarrow> blocks_cache
     \<Rightarrow> bytes option \<Rightarrow> bytes \<Rightarrow> gm_scripts \<Rightarrow> gm_cache option
     \<Rightarrow> (ds_error, (map_key \<times> map_value option) list) outcome \<times> gm_cache option" where
  "cached_get_mapping_changes c cfg S cache_size pool blocks_cache since up_to scripts cache0 =
     (let cache = map_option (gm_cache_set_main_chain_scripts scripts) cache0 in
      case since_block_number pool since of
        Err e \<Rightarrow> (Err e, cache) | Panic p \<Rightarrow> (Panic p, cache)
      | Ok since_no \<Rightarrow>
      (case bds_get_block_by_hash pool up_to blocks_cache of
        Err e \<Rightarrow> (Err e, cache) | Panic p \<Rightarrow> (Panic p, cache)
      | Ok None \<Rightarrow> (Err (BlockHashNotFound up_to), cache)
      | Ok (Some up_to_block) \<Rightarrow>
      (let up_to_no = mb_number up_to_block in
       case Option.bind cache (\<lambda>cache. get_changes_in_range cache since_no up_to_no) of
        Some changes \<Rightarrow> (Ok changes, cache)
      | None \<Rightarrow>
      (case latest_stable_block_or S pool up_to_no of
        Err e \<Rightarrow> (Err e, cache) | Panic p \<Rightarrow> (Panic p, cache)
      | Ok latest_stable \<Rightarrow>
      (let since_block_plus = saturating_add (case since_no of None \<Rightarrow> 0 | Some n \<Rightarrow> n) (ucast cache_size);
           max_search_block = min latest_stable (max up_to_no since_block_plus)
       in case get_changes_in_range_to_cache c cfg pool since_no max_search_block scripts of
        Err e \<Rightarrow> (Err e, cache) | Panic p \<Rightarrow> (Panic p, cache)
      | Ok changes \<Rightarrow>
          (Ok (filter_changes_in_range changes since_no up_to_no), map_option (gm_cache_update changes) cache))))))"

subsection \<open>Outputs and their lifetimes\<close>

text \<open>
  A map entry as an output: where in the chain (block number, index of the transaction) it is
  created, its key and value, and where it is spent.
\<close>

record map_output =
  mo_created :: "u32 \<times> u32"
  mo_key :: map_key
  mo_value :: map_value
  mo_spent :: "(u32 \<times> u32) option"

definition live_at :: "u32 \<Rightarrow> map_output \<Rightarrow> bool" where
  "live_at n x \<longleftrightarrow> fst (mo_created x) \<le> n \<and> (case mo_spent x of None \<Rightarrow> True | Some s \<Rightarrow> n < fst s)"

definition ends_before :: "map_output \<Rightarrow> map_output \<Rightarrow> bool" where
  "ends_before x y \<longleftrightarrow> (\<exists>s. mo_spent x = Some s \<and> s \<le> mo_created y)"

text \<open>At no point of the chain do two outputs hold the same key, and an output is spent after it is created.\<close>

definition one_output_per_key :: "map_output set \<Rightarrow> bool" where
  "one_output_per_key outs \<longleftrightarrow>
     (\<forall>x \<in> outs. \<forall>y \<in> outs. mo_key x = mo_key y \<and> x \<noteq> y \<longrightarrow> ends_before x y \<or> ends_before y x)
   \<and> (\<forall>x \<in> outs. \<forall>s. mo_spent x = Some s \<longrightarrow> mo_created x < s)"

definition is_state :: "map_output set \<Rightarrow> u32 \<Rightarrow> (map_key \<rightharpoonup> map_value) \<Rightarrow> bool" where
  "is_state outs n m \<longleftrightarrow> (\<forall>k v. m k = Some v \<longleftrightarrow> (\<exists>x \<in> outs. live_at n x \<and> mo_key x = k \<and> mo_value x = v))"

lemma is_state_unique:
  assumes "is_state outs n m" and "is_state outs n m'"
  shows "m = m'"
proof
  fix k
  have "m k = Some v \<longleftrightarrow> m' k = Some v" for v using assms by (simp add: is_state_def)
  then show "m k = m' k" by (metis option.exhaust)
qed

lemma spent_after_created: "one_output_per_key outs \<Longrightarrow> x \<in> outs \<Longrightarrow> mo_spent x = Some s \<Longrightarrow> mo_created x < s"
  unfolding one_output_per_key_def by blast

lemma live_unique:
  assumes "one_output_per_key outs" "x \<in> outs" "y \<in> outs" "live_at n x" "live_at n y" "mo_key x = mo_key y"
  shows "x = y"
proof (rule ccontr)
  assume "x \<noteq> y"
  then have "ends_before x y \<or> ends_before y x" using assms by (auto simp: one_output_per_key_def)
  then show False using assms(4,5) by (auto simp: ends_before_def live_at_def less_eq_prod_def split: option.splits)
qed

type_synonym map_event = "(u32 \<times> u32 \<times> int) \<times> map_key \<times> map_value option"

definition create_event :: "map_output \<Rightarrow> map_event" where
  "create_event x = ((fst (mo_created x), snd (mo_created x), 1), mo_key x, Some (mo_value x))"

definition spend_event :: "map_output \<Rightarrow> (u32 \<times> u32) \<Rightarrow> map_event" where
  "spend_event x s = ((fst s, snd s, - 1), mo_key x, None)"

definition events :: "map_output set \<Rightarrow> u32 option \<Rightarrow> u32 \<Rightarrow> map_event set" where
  "events outs since up_to = {create_event x |x. x \<in> outs \<and> in_range since up_to (fst (mo_created x))}
     \<union> {spend_event x s |x s. x \<in> outs \<and> mo_spent x = Some s \<and> in_range since up_to (fst s)}"

lemma event_key [simp]: "fst (snd (create_event x)) = mo_key x" "fst (snd (spend_event x s)) = mo_key x"
  by (simp_all add: create_event_def spend_event_def)

lemma create_in_events:
  "x \<in> outs \<Longrightarrow> in_range since h (fst (mo_created x)) \<Longrightarrow> create_event x \<in> events outs since h"
  unfolding events_def by blast

lemma spend_in_events:
  "x \<in> outs \<Longrightarrow> mo_spent x = Some s \<Longrightarrow> in_range since h (fst s) \<Longrightarrow> spend_event x s \<in> events outs since h"
  unfolding events_def by blast

lemma replay_last:
  "replay cs m k = (case filter (\<lambda>e. fst e = k) cs of [] \<Rightarrow> m k | es \<Rightarrow> snd (last es))"
proof (induction cs rule: rev_induct)
  case (snoc e cs)
  have "replay (cs @ [e]) m = (replay cs m)(fst e := snd e)" by (simp add: replay_def split_def)
  then show ?case using snoc by (auto split: list.splits)
qed simp

lemma last_maximal:
  assumes "sorted (map f es)" and "e \<in> set es"
  shows "f e \<le> f (last es)"
  using assms by (induction es) auto

lemma live_without_events:
  assumes none: "\<And>e. e \<in> events outs (Some p) h \<Longrightarrow> fst (snd e) \<noteq> mo_key x" and x: "x \<in> outs" and ph: "p \<le> h"
  shows "live_at h x \<longleftrightarrow> live_at p x"
proof -
  have "\<not> (p < fst (mo_created x) \<and> fst (mo_created x) \<le> h)"
    using none [of "create_event x"] x create_in_events by auto
  moreover have "\<not> (p < fst s \<and> fst s \<le> h)" if "mo_spent x = Some s" for s
    using none [of "spend_event x s"] spend_in_events [OF x that] by auto
  ultimately show ?thesis using ph by (auto simp: live_at_def split: option.splits)
qed

lemma live_after_create:
  assumes one: "one_output_per_key outs" and x: "x \<in> outs" "p < fst (mo_created x)" "fst (mo_created x) \<le> h"
    and max: "\<And>e. e \<in> events outs (Some p) h \<Longrightarrow> fst (snd e) = mo_key x \<Longrightarrow> fst e \<le> fst (create_event x)"
  shows "live_at h x"
proof -
  have "h < fst s" if s: "mo_spent x = Some s" for s
  proof (rule ccontr)
    assume h: "\<not> h < fst s"
    have lt: "mo_created x < s" using spent_after_created [OF one x(1) s] .
    then have "p < fst s" using x(2) by (auto simp: less_prod_def)
    then have "spend_event x s \<in> events outs (Some p) h" using x s h by (intro spend_in_events) (auto simp: not_less)
    then have "fst (spend_event x s) \<le> fst (create_event x)" by (rule max) simp
    then show False using lt by (auto simp: spend_event_def create_event_def less_eq_prod_def less_prod_def)
  qed
  then show ?thesis using x(3) by (simp add: live_at_def split: option.splits)
qed

lemma dead_after_spend:
  assumes one: "one_output_per_key outs" and x: "x \<in> outs" "mo_spent x = Some s" "p < fst s" "fst s \<le> h"
    and max: "\<And>e. e \<in> events outs (Some p) h \<Longrightarrow> fst (snd e) = mo_key x \<Longrightarrow> fst e \<le> fst (spend_event x s)"
    and y: "y \<in> outs" "mo_key y = mo_key x"
  shows "\<not> live_at h y"
proof
  assume live: "live_at h y"
  then have "y \<noteq> x" using x(2,4) by (auto simp: live_at_def)
  then consider "ends_before x y" | "ends_before y x" using one y x(1) by (auto simp: one_output_per_key_def)
  then show False
  proof cases
    case 1
    then have sy: "s \<le> mo_created y" using x(2) by (simp add: ends_before_def)
    then have "create_event y \<in> events outs (Some p) h"
      using y live x(3) by (intro create_in_events) (auto simp: live_at_def less_eq_prod_def)
    then have "fst (create_event y) \<le> fst (spend_event x s)" by (rule max) (simp add: y(2))
    then show False using sy by (auto simp: spend_event_def create_event_def less_eq_prod_def)
  next
    case 2
    then show False using live spent_after_created [OF one x(1,2)] x(4)
      by (auto simp: ends_before_def live_at_def less_eq_prod_def less_prod_def)
  qed
qed

text \<open>Replaying the events of a range, in order, leads from the state before it to the state after it.\<close>

lemma replay_events:
  assumes one: "one_output_per_key outs" and cs: "sorted (map fst cs)" "set cs = events outs (Some p) h" and ph: "p \<le> h"
    and m: "is_state outs p m"
  shows "is_state outs h (replay (map snd cs) m)"
  unfolding is_state_def
proof (intro allI)
  fix k v
  define es where "es = filter (\<lambda>e. fst (snd e) = k) cs"
  have es: "set es = {e \<in> events outs (Some p) h. fst (snd e) = k}" "sorted (map fst es)"
    using cs by (auto simp: es_def sorted_filter)
  have val: "replay (map snd cs) m k = (if es = [] then m k else snd (snd (last es)))"
    by (auto simp: replay_last filter_map comp_def es_def [symmetric] last_map split: list.splits)
  show "replay (map snd cs) m k = Some v \<longleftrightarrow> (\<exists>x \<in> outs. live_at h x \<and> mo_key x = k \<and> mo_value x = v)"
  proof (cases "es = []")
    case True
    have none: "e \<in> events outs (Some p) h \<Longrightarrow> fst (snd e) \<noteq> k" for e using es(1) unfolding True list.set(1) by blast
    have "live_at h x \<longleftrightarrow> live_at p x" if "x \<in> outs" "mo_key x = k" for x
      using live_without_events [of outs p h x] none that ph by blast
    then show ?thesis using m True val by (auto simp: is_state_def)
  next
    case False
    then have l: "last es \<in> events outs (Some p) h" "fst (snd (last es)) = k" using es(1) last_in_set by blast+
    have max: "fst e \<le> fst (last es)" if "e \<in> events outs (Some p) h" "fst (snd e) = k" for e
      using last_maximal [OF es(2)] that es(1) by blast
    from l(1) consider x where "last es = create_event x" "x \<in> outs" "p < fst (mo_created x)" "fst (mo_created x) \<le> h"
      | x s where "last es = spend_event x s" "x \<in> outs" "mo_spent x = Some s" "p < fst s" "fst s \<le> h"
      by (auto simp: events_def)
    then show ?thesis
    proof cases
      case 1
      then have k: "mo_key x = k" using l(2) by (simp add: create_event_def)
      have "live_at h x" using max 1 k by (intro live_after_create [OF one]) auto
      then show ?thesis using val False 1 k live_unique [OF one _ 1(2)] by (auto simp: create_event_def)
    next
      case 2
      then have k: "mo_key x = k" using l(2) by (simp add: spend_event_def)
      have "\<not> live_at h y" if "y \<in> outs" "mo_key y = k" for y
        using dead_after_spend [OF one 2(2-5)] max 2(1) k that by auto
      then show ?thesis using val False 2(1) by (auto simp: spend_event_def)
    qed
  qed
qed

subsection \<open>The outputs of a database\<close>

text \<open>
  The outputs at the address that carry the token and a datum, with the positions of the
  transactions that create and spend them. In \<open>rows_ok\<close> every output has its transaction and its
  block, and so has every transaction that spends one.
\<close>

definition spent_position :: "'pd db_tables \<Rightarrow> tx_out_row \<Rightarrow> (u32 \<times> u32) option" where
  "spent_position db o' = (case out_consumed_by_tx_id o' of
       None \<Rightarrow> None
     | Some i \<Rightarrow> (case consuming_tx_and_block db (Some i) of
           [Some (ct, Some b)] \<Rightarrow> map_option (\<lambda>m. (m, tx_block_index ct)) (block_no_col b)
         | _ \<Rightarrow> None))"

definition rows_ok :: "'pd db_tables \<Rightarrow> bool" where
  "rows_ok db \<longleftrightarrow> (\<forall>o' \<in> set (tx_out_table db).
     (\<exists>t b n. tx_and_block db (out_tx_id o') = [(t, b)] \<and> block_no_col b = Some n)
   \<and> (\<forall>i. out_consumed_by_tx_id o' = Some i
       \<longrightarrow> (\<exists>ct b m. consuming_tx_and_block db (Some i) = [Some (ct, Some b)] \<and> block_no_col b = Some m)))"

definition output_rows :: "'pd db_tables \<Rightarrow> bytes \<Rightarrow> asset \<Rightarrow> ((u32 \<times> u32) \<times> 'pd \<times> (u32 \<times> u32) option) set" where
  "output_rows db address a = {((n, tx_block_index t), datum_value_col d, spent_position db o') | o' t b n d.
     o' \<in> set (tx_out_table db) \<and> out_address o' = address \<and> (t, b) \<in> set (tx_and_block db (out_tx_id o'))
     \<and> block_no_col b = Some n \<and> d \<in> set (datum_rows db o') \<and> asset_rows db a o' \<noteq> []}"

lemma output_cases:
  assumes "rows_ok db" and "o' \<in> set (tx_out_table db)"
  obtains t b n where "tx_and_block db (out_tx_id o') = [(t, b)]" "block_no_col b = Some n"
  using assms unfolding rows_ok_def by blast

lemma consuming_cases:
  assumes "rows_ok db" and "o' \<in> set (tx_out_table db)"
  obtains "out_consumed_by_tx_id o' = None" "spent_position db o' = None"
  | i ct b m where "out_consumed_by_tx_id o' = Some i" "consuming_tx_and_block db (Some i) = [Some (ct, Some b)]"
      "block_no_col b = Some m" "spent_position db o' = Some (m, tx_block_index ct)"
proof (cases "out_consumed_by_tx_id o'")
  case None
  then show thesis using that(1) by (simp add: spent_position_def)
next
  case (Some i)
  then obtain ct b m where "consuming_tx_and_block db (Some i) = [Some (ct, Some b)]" "block_no_col b = Some m"
    using assms unfolding rows_ok_def by blast
  then show thesis using that(2) Some by (simp add: spent_position_def)
qed

definition live_row :: "u32 \<Rightarrow> (u32 \<times> u32) \<times> 'pd \<times> (u32 \<times> u32) option \<Rightarrow> bool" where
  "live_row block r \<longleftrightarrow> fst (fst r) \<le> block \<and> (case snd (snd r) of None \<Rightarrow> True | Some s \<Rightarrow> block < fst s)"

lemma comprehension_output:
  assumes "rows_ok db" and "o' \<in> set (tx_out_table db)"
  shows "set [((n, tx_block_index t), datum_value_col d). (t, b) \<leftarrow> tx_and_block db (out_tx_id o'), Some n \<leftarrow> [block_no_col b],
        c \<leftarrow> consuming_tx_ids_consumed o', cb \<leftarrow> consuming_tx_and_block db c, d \<leftarrow> datum_rows db o', ma \<leftarrow> asset_rows db a o',
        out_address o' = address \<and> n \<le> block \<and> (c = None \<or> null_gt (consuming_block_no cb) block)]
    = {(pos, d). \<exists>t b n d'. (t, b) \<in> set (tx_and_block db (out_tx_id o')) \<and> block_no_col b = Some n \<and> pos = (n, tx_block_index t)
        \<and> d' \<in> set (datum_rows db o') \<and> d = datum_value_col d' \<and> asset_rows db a o' \<noteq> [] \<and> out_address o' = address
        \<and> n \<le> block \<and> (case spent_position db o' of None \<Rightarrow> True | Some s \<Rightarrow> block < fst s)}"
proof -
  obtain t b n where tb: "tx_and_block db (out_tx_id o') = [(t, b)]" "block_no_col b = Some n"
    using assms by (rule output_cases)
  have ne: "asset_rows db a o' \<noteq> [] \<longleftrightarrow> (\<exists>ma. ma \<in> set (asset_rows db a o'))" by (cases "asset_rows db a o'") auto
  show ?thesis
    using assms
  proof (cases rule: consuming_cases)
    case 1
    then show ?thesis using tb ne
      by (auto simp: consuming_tx_ids_consumed_def consuming_tx_and_block_def)
  next
    case (2 i ct b' m)
    then show ?thesis using tb ne
      by (auto simp: consuming_tx_ids_consumed_def consuming_block_no_def null_gt_def)
  qed
qed

lemma set_datums_query:
  assumes "rows_ok db"
  shows "set (datums_at_address_query consuming_tx_ids_consumed address block a db)
    = (fst \<circ> snd) ` {r \<in> output_rows db address a. live_row block r}"
proof -
  have "set (datums_at_address_query consuming_tx_ids_consumed address block a db)
      = snd ` (\<Union>o' \<in> set (tx_out_table db). {(pos, d). \<exists>t b n d'. (t, b) \<in> set (tx_and_block db (out_tx_id o')) \<and> block_no_col b = Some n \<and> pos = (n, tx_block_index t)
        \<and> d' \<in> set (datum_rows db o') \<and> d = datum_value_col d' \<and> asset_rows db a o' \<noteq> [] \<and> out_address o' = address
        \<and> n \<le> block \<and> (case spent_position db o' of None \<Rightarrow> True | Some s \<Rightarrow> block < fst s)})"
    unfolding datums_at_address_query_def set_map set_sort set_concat image_image
    using comprehension_output [OF assms, where a = a and address = address and block = block] by (simp cong: SUP_cong)
  also have "\<dots> = (fst \<circ> snd) ` {r \<in> output_rows db address a. live_row block r}" (is "?L = ?R")
  proof
    show "?L \<subseteq> ?R" by (force simp: output_rows_def live_row_def)
    show "?R \<subseteq> ?L" by (force simp: output_rows_def live_row_def)
  qed
  finally show ?thesis .
qed

text \<open>The rows of the two halves of the query for the changes of a range of blocks.\<close>

definition created_set :: "((u32 \<times> u32) \<times> 'pd \<times> (u32 \<times> u32) option) set \<Rightarrow> u32 option \<Rightarrow> u32 \<Rightarrow> ((u32 \<times> u32 \<times> int) \<times> 'pd \<times> governed_map_action) set" where
  "created_set rows since h = {((n, ti, 1), d, Create) |n ti d sp. ((n, ti), d, sp) \<in> rows \<and> in_range since h n}"

definition spent_set :: "((u32 \<times> u32) \<times> 'pd \<times> (u32 \<times> u32) option) set \<Rightarrow> u32 option \<Rightarrow> u32 \<Rightarrow> ((u32 \<times> u32 \<times> int) \<times> 'pd \<times> governed_map_action) set" where
  "spent_set rows since h = {((m, ti, - 1), d, Spend) |m ti d pos. (pos, d, Some (m, ti)) \<in> rows \<and> in_range since h m}"

lemma created_setI: "((n, ti), d, sp) \<in> rows \<Longrightarrow> in_range since h n \<Longrightarrow> ((n, ti, 1), d, Create) \<in> created_set rows since h"
  unfolding created_set_def by blast

lemma spent_setI: "(pos, d, Some (m, ti)) \<in> rows \<Longrightarrow> in_range since h m \<Longrightarrow> ((m, ti, - 1), d, Spend) \<in> spent_set rows since h"
  unfolding spent_set_def by blast

lemma asset_rows_nonempty: "asset_rows db a o' \<noteq> [] \<longleftrightarrow> (\<exists>ma. ma \<in> set (asset_rows db a o'))"
  by (cases "asset_rows db a o'") auto

lemma set_concat_map: "set (concat (map f xs)) = (\<Union>x \<in> set xs. set (f x))"
  by simp

lemma set_created_rows:
  "set (created_rows address since h a db) = created_set (output_rows db address a) since h" (is "?L = ?R")
proof
  show "?L \<subseteq> ?R"
    by (cases since; auto simp: created_rows_def created_set_def output_rows_def in_range_def asset_rows_nonempty split: option.splits if_splits; blast)
  show "?R \<subseteq> ?L"
    by (force simp: created_rows_def created_set_def output_rows_def in_range_def asset_rows_nonempty)
qed

lemma spent_rows_output:
  assumes "rows_ok db" and "o' \<in> set (tx_out_table db)"
  shows "set [((m, tx_block_index ct, - 1 :: int), datum_value_col d, Spend). c \<leftarrow> consuming_tx_ids_consumed o', cb \<leftarrow> consuming_tx_and_block db c,
        Some (ct, Some b) \<leftarrow> [cb], Some m \<leftarrow> [block_no_col b], d \<leftarrow> datum_rows db o', ma \<leftarrow> asset_rows db a o',
        out_address o' = address \<and> (case since of None \<Rightarrow> True | Some k \<Rightarrow> m > k) \<and> m \<le> h]
    = {((m, ti, - 1), datum_value_col d, Spend) |m ti d. spent_position db o' = Some (m, ti) \<and> d \<in> set (datum_rows db o')
        \<and> asset_rows db a o' \<noteq> [] \<and> out_address o' = address \<and> in_range since h m}"
  using assms
proof (cases rule: consuming_cases)
  case 1
  then show ?thesis by (simp add: consuming_tx_ids_consumed_def consuming_tx_and_block_def)
next
  case (2 i ct b' m)
  then show ?thesis by (auto simp: consuming_tx_ids_consumed_def asset_rows_nonempty in_range_def)
qed

lemma set_spent_rows:
  assumes "rows_ok db"
  shows "set (spent_rows consuming_tx_ids_consumed address since h a db) = spent_set (output_rows db address a) since h"
proof -
  have "set (spent_rows consuming_tx_ids_consumed address since h a db) = (\<Union>o' \<in> set (tx_out_table db).
      {((m, ti, - 1), datum_value_col d, Spend) |m ti d. spent_position db o' = Some (m, ti) \<and> d \<in> set (datum_rows db o')
        \<and> asset_rows db a o' \<noteq> [] \<and> out_address o' = address \<and> in_range since h m})"
    unfolding spent_rows_def by (subst set_concat_map, rule SUP_cong [OF refl], rule spent_rows_output [OF assms])
  also have "\<dots> = spent_set (output_rows db address a) since h" (is "?L = ?R")
  proof
    show "?L \<subseteq> ?R"
    proof
      fix e assume "e \<in> ?L"
      then obtain o' m ti d where o': "o' \<in> set (tx_out_table db)" "spent_position db o' = Some (m, ti)" "d \<in> set (datum_rows db o')"
        "asset_rows db a o' \<noteq> []" "out_address o' = address" "in_range since h m" "e = ((m, ti, - 1), datum_value_col d, Spend)" by auto
      obtain t b n where "tx_and_block db (out_tx_id o') = [(t, b)]" "block_no_col b = Some n" using assms o'(1) by (rule output_cases)
      then have "((n, tx_block_index t), datum_value_col d, Some (m, ti)) \<in> output_rows db address a"
        using o' by (force simp: output_rows_def)
      then show "e \<in> ?R" using o'(6,7) unfolding spent_set_def by blast
    qed
    show "?R \<subseteq> ?L" by (force simp: spent_set_def output_rows_def)
  qed
  finally show ?thesis .
qed

subsection \<open>Decoded outputs\<close>

definition map_outputs :: "'pd csl \<Rightarrow> ((u32 \<times> u32) \<times> 'pd \<times> (u32 \<times> u32) option) set \<Rightarrow> map_output set" where
  "map_outputs c rows = {\<lparr>mo_created = pos, mo_key = gmd_key g, mo_value = gmd_value g, mo_spent = sp\<rparr> |pos d sp g.
     (pos, d, sp) \<in> rows \<and> governed_map_datum_try_from c d = Ok g}"

lemma map_outputsI:
  "(pos, d, sp) \<in> rows \<Longrightarrow> governed_map_datum_try_from c d = Ok g
    \<Longrightarrow> \<lparr>mo_created = pos, mo_key = gmd_key g, mo_value = gmd_value g, mo_spent = sp\<rparr> \<in> map_outputs c rows"
  unfolding map_outputs_def by blast

text \<open>No datum of the map is a list of fewer than two elements, on which the decoder panics.\<close>

definition no_panic :: "'pd csl \<Rightarrow> ((u32 \<times> u32) \<times> 'pd \<times> (u32 \<times> u32) option) set \<Rightarrow> bool" where
  "no_panic c rows \<longleftrightarrow> (\<forall>(pos, d, sp) \<in> rows. \<forall>p. governed_map_datum_try_from c d \<noteq> Panic p)"

definition decoded :: "'pd csl \<Rightarrow> 'pd \<Rightarrow> governed_map_datum option" where
  "decoded c d = (case governed_map_datum_try_from c d of Ok g \<Rightarrow> Some g | _ \<Rightarrow> None)"

lemma decoded_Some [simp]: "decoded c d = Some g \<longleftrightarrow> governed_map_datum_try_from c d = Ok g"
  by (simp add: decoded_def split: outcome.splits)

lemma collect_entries_eq:
  assumes "\<And>d p. d \<in> set ds \<Longrightarrow> governed_map_datum_try_from c d \<noteq> Panic p"
  shows "collect_entries c ds m
    = Ok (fold (\<lambda>(k, v). btree_insert k v) (List.map_filter (\<lambda>d. map_option (\<lambda>g. (gmd_key g, gmd_value g)) (decoded c d)) ds) m)"
  using assms
proof (induction ds arbitrary: m)
  case (Cons d ds)
  then show ?case
    by (cases "governed_map_datum_try_from c d") (auto simp: decoded_def List.map_filter_simps)
qed (simp add: List.map_filter_simps)

lemma set_map_filter_iff: "y \<in> set (List.map_filter f xs) \<longleftrightarrow> (\<exists>x \<in> set xs. f x = Some y)"
  by (force simp: List.map_filter_def)

lemma map_of_fold_insert:
  assumes "\<forall>k v v'. (k, v) \<in> set kvs \<longrightarrow> (k, v') \<in> set kvs \<longrightarrow> v = v'"
  shows "btree_wf (fold (\<lambda>(k, v). btree_insert k v) kvs [])
    \<and> (\<forall>k v. map_of (fold (\<lambda>(k, v). btree_insert k v) kvs []) k = Some v \<longleftrightarrow> (k, v) \<in> set kvs)"
  using assms
proof (induction kvs rule: rev_induct)
  case Nil
  then show ?case by simp
next
  case (snoc kv kvs)
  obtain k' v' where kv: "kv = (k', v')" by (cases kv)
  have IH: "btree_wf (fold (\<lambda>(k, v). btree_insert k v) kvs [])"
    "\<And>k v. map_of (fold (\<lambda>(k, v). btree_insert k v) kvs []) k = Some v \<longleftrightarrow> (k, v) \<in> set kvs"
    using snoc.IH snoc.prems by auto
  have "(k', v) \<in> set kvs \<Longrightarrow> v = v'" for v using snoc.prems by (auto simp: kv)
  then show ?case using IH by (auto simp: kv)
qed

lemma state_of_datums:
  assumes "one_output_per_key (map_outputs c rows)" and "no_panic c rows" and "set ds = (fst \<circ> snd) ` {r \<in> rows. live_row block r}"
  obtains st where "collect_entries c ds [] = Ok st" "btree_wf st" "is_state (map_outputs c rows) block (map_of st)"
proof -
  let ?kvs = "List.map_filter (\<lambda>d. map_option (\<lambda>g. (gmd_key g, gmd_value g)) (decoded c d)) ds"
  have "governed_map_datum_try_from c d \<noteq> Panic p" if "d \<in> set ds" for d p
    using that assms(2,3) by (fastforce simp: no_panic_def)
  note eq = collect_entries_eq [OF this, of ds "[]"]
  have mem: "(k, v) \<in> set ?kvs \<longleftrightarrow> (\<exists>x \<in> map_outputs c rows. live_at block x \<and> mo_key x = k \<and> mo_value x = v)" for k v
  proof
    assume "(k, v) \<in> set ?kvs"
    then obtain d g where d: "d \<in> set ds" "governed_map_datum_try_from c d = Ok g" "k = gmd_key g" "v = gmd_value g"
      by (auto simp: set_map_filter_iff)
    then obtain pos sp where "(pos, d, sp) \<in> rows" "live_row block (pos, d, sp)" using assms(3) by auto
    then show "\<exists>x \<in> map_outputs c rows. live_at block x \<and> mo_key x = k \<and> mo_value x = v"
      using d by (intro bexI [OF _ map_outputsI]) (auto simp: live_at_def live_row_def)
  next
    assume "\<exists>x \<in> map_outputs c rows. live_at block x \<and> mo_key x = k \<and> mo_value x = v"
    then obtain pos d sp g where r: "(pos, d, sp) \<in> rows" "governed_map_datum_try_from c d = Ok g" "k = gmd_key g" "v = gmd_value g"
      "live_row block (pos, d, sp)" by (auto simp: map_outputs_def live_at_def live_row_def)
    then have "d \<in> set ds" using assms(3) by force
    then show "(k, v) \<in> set ?kvs" using r by (force simp: set_map_filter_iff)
  qed
  then have "\<forall>k v v'. (k, v) \<in> set ?kvs \<longrightarrow> (k, v') \<in> set ?kvs \<longrightarrow> v = v'"
    using live_unique [OF assms(1)] by fastforce
  from map_of_fold_insert [OF this] show thesis
    using that [OF eq] mem by (simp add: is_state_def)
qed

subsection \<open>The changes of a database\<close>

definition event_of_row :: "'pd csl \<Rightarrow> (u32 \<times> u32 \<times> int) \<times> 'pd \<times> governed_map_action \<Rightarrow> map_event option" where
  "event_of_row c = (\<lambda>(pos, d, act). map_option (\<lambda>g. (pos, gmd_key g, case act of Spend \<Rightarrow> None | Create \<Rightarrow> Some (gmd_value g))) (decoded c d))"

definition change_of_event :: "map_event \<Rightarrow> gm_change" where
  "change_of_event = (\<lambda>((n, _, _), k, v). \<lparr>change_block_no = n, change_key = k, change_value = v\<rparr>)"

lemma collect_changes_eq:
  assumes "\<And>pos d act p. (pos, d, act) \<in> set rs \<Longrightarrow> governed_map_datum_try_from c d \<noteq> Panic p"
  shows "collect_changes c (map (\<lambda>((n, i, _), d, act). \<lparr>ch_datum = d, ch_block_no = n, ch_block_index = i, ch_action = act\<rparr>) rs)
    = Ok (map change_of_event (List.map_filter (event_of_row c) rs))"
  using assms
proof (induction rs)
  case (Cons r rs)
  obtain n i sg d act where r: "r = ((n, i, sg), d, act)" by (cases r) auto
  have IH: "collect_changes c (map (\<lambda>((n, i, _), d, act). \<lparr>ch_datum = d, ch_block_no = n, ch_block_index = i, ch_action = act\<rparr>) rs)
    = Ok (map change_of_event (List.map_filter (event_of_row c) rs))"
    using Cons.prems by (intro Cons.IH) (meson list.set_intros(2))
  show ?case using Cons.prems [of "(n, i, sg)" d act] IH
    by (cases "governed_map_datum_try_from c d")
      (auto simp: r event_of_row_def decoded_def change_of_event_def List.map_filter_simps split: governed_map_action.splits)
qed (simp add: List.map_filter_simps)

lemma filter_change_events:
  "filter_changes_in_range (map change_of_event evs) since up_to
    = map snd (filter (\<lambda>e. in_range since up_to (fst (fst e))) evs)"
  by (induction evs) (auto simp: filter_changes_in_range_def change_of_event_def)

lemma sorted_map_filter_fst:
  assumes "sorted (map fst rs)" and "\<And>r e. f r = Some e \<Longrightarrow> fst e = fst r"
  shows "sorted (map fst (List.map_filter f rs))"
  using assms(1)
proof (induction rs)
  case (Cons r rs)
  have "\<forall>e \<in> set (List.map_filter f rs). fst r \<le> fst e"
  proof
    fix e assume "e \<in> set (List.map_filter f rs)"
    then obtain x where x: "x \<in> set rs" "f x = Some e" unfolding set_map_filter_iff by blast
    then show "fst r \<le> fst e" using Cons.prems assms(2) [OF x(2)] by simp
  qed
  then show ?case using Cons assms(2) by (cases "f r") (auto simp: List.map_filter_simps)
qed (simp add: List.map_filter_simps)

lemma events_of_rows:
  assumes "set rs = created_set rows since h \<union> spent_set rows since h"
  shows "set (List.map_filter (event_of_row c) rs) = events (map_outputs c rows) since h" (is "?L = ?R")
proof
  show "?L \<subseteq> ?R"
  proof
    fix e assume "e \<in> ?L"
    then obtain pos d act g where r: "(pos, d, act) \<in> set rs" "governed_map_datum_try_from c d = Ok g"
      "e = (pos, gmd_key g, case act of Spend \<Rightarrow> None | Create \<Rightarrow> Some (gmd_value g))"
      by (auto simp: set_map_filter_iff event_of_row_def)
    from r(1) assms consider n ti sp where "pos = (n, ti, 1)" "act = Create" "((n, ti), d, sp) \<in> rows" "in_range since h n"
      | m ti po where "pos = (m, ti, - 1)" "act = Spend" "(po, d, Some (m, ti)) \<in> rows" "in_range since h m"
      by (auto simp: created_set_def spent_set_def)
    then show "e \<in> ?R"
    proof cases
      case 1
      then show ?thesis using create_in_events [OF map_outputsI [OF 1(3) r(2)], of since h] r(3) by (simp add: create_event_def)
    next
      case 2
      then show ?thesis using spend_in_events [OF map_outputsI [OF 2(3) r(2)], of "(m, ti)" since h] r(3) by (simp add: spend_event_def)
    qed
  qed
  show "?R \<subseteq> ?L"
  proof
    fix e assume "e \<in> ?R"
    then consider x where "e = create_event x" "x \<in> map_outputs c rows" "in_range since h (fst (mo_created x))"
      | x s where "e = spend_event x s" "x \<in> map_outputs c rows" "mo_spent x = Some s" "in_range since h (fst s)"
      unfolding events_def by blast
    then show "e \<in> ?L"
    proof cases
      case 1
      then obtain n ti d sp g where "x = \<lparr>mo_created = (n, ti), mo_key = gmd_key g, mo_value = gmd_value g, mo_spent = sp\<rparr>"
        "((n, ti), d, sp) \<in> rows" "governed_map_datum_try_from c d = Ok g" by (auto simp: map_outputs_def)
      moreover from this have "((n, ti, 1), d, Create) \<in> set rs" using 1 assms created_setI by auto
      ultimately show ?thesis using 1(1) unfolding set_map_filter_iff
        by (intro bexI [of _ "((n, ti, 1), d, Create)"]) (simp_all add: event_of_row_def create_event_def decoded_def)
    next
      case 2
      obtain m ti where s: "s = (m, ti)" by (cases s)
      obtain pos d g where "x = \<lparr>mo_created = pos, mo_key = gmd_key g, mo_value = gmd_value g, mo_spent = Some (m, ti)\<rparr>"
        "(pos, d, Some (m, ti)) \<in> rows" "governed_map_datum_try_from c d = Ok g" using 2(2,3) s by (auto simp: map_outputs_def)
      moreover from this have "((m, ti, - 1), d, Spend) \<in> set rs" using 2(4) s assms spent_setI [of pos d m ti rows since h] by simp
      ultimately show ?thesis using 2(1) s unfolding set_map_filter_iff
        by (intro bexI [of _ "((m, ti, - 1), d, Spend)"]) (simp_all add: event_of_row_def spend_event_def decoded_def)
    qed
  qed
qed

subsection \<open>What the sources return\<close>

definition script_rows :: "'pd db_tables \<Rightarrow> gm_scripts \<Rightarrow> ((u32 \<times> u32) \<times> 'pd \<times> (u32 \<times> u32) option) set" where
  "script_rows db scripts = output_rows db (validator_address scripts) (asset_new (asset_policy_id scripts))"

definition script_outputs :: "'pd csl \<Rightarrow> 'pd db_tables \<Rightarrow> gm_scripts \<Rightarrow> map_output set" where
  "script_outputs c db scripts = map_outputs c (script_rows db scripts)"

text \<open>
  A database on which the sources can be relied on: its rows refer to each other, its two records of
  spending agree when the \<open>tx_in\<close> table is used, the datums of the map do not make the decoder panic and
  no two outputs hold the same key at the same time.
\<close>

definition gm_db_ok :: "'pd csl \<Rightarrow> tx_in_configuration \<Rightarrow> 'pd db_tables \<Rightarrow> gm_scripts \<Rightarrow> bool" where
  "gm_db_ok c cfg db scripts \<longleftrightarrow> (cfg = Enabled \<longrightarrow> db_consistent db) \<and> rows_ok db
     \<and> no_panic c (script_rows db scripts) \<and> one_output_per_key (script_outputs c db scripts)"

lemma decode_rows_Inr [simp]: "decode_rows (map Inr xs) = Inr xs"
  by (induction xs) simp_all

lemma datums_of_config:
  assumes "cfg = Enabled \<longrightarrow> db_consistent db"
  shows "get_datums_at_address_with_token (Inr db) address block a cfg
    = Inr (datums_at_address_query consuming_tx_ids_consumed address block a db)"
  using assms by (cases cfg) (simp_all add: get_datums_at_address_with_token_def fetch_all_def datums_query_agree
      get_datums_at_address_with_token_tx_in_enabled_def get_datums_at_address_with_token_tx_in_consumed_def)

lemma changes_of_config:
  assumes "cfg = Enabled \<longrightarrow> db_consistent db"
  shows "get_governed_map_changes (Inr db) address since up_to a cfg
    = Inr (governed_map_changes_query consuming_tx_ids_consumed address since up_to a db)"
  using assms by (cases cfg) (simp_all add: get_governed_map_changes_def fetch_all_def changes_query_agree
      get_governed_map_changes_tx_in_enabled_def get_governed_map_changes_tx_in_consumed_def)

lemma state_at_block:
  assumes ok: "gm_db_ok c cfg db scripts" and block: "get_block_by_hash (Inr db) h = Inr (Some b)"
  obtains st where "db_get_state_at_block c (Ok cfg) (Inr db) h scripts = Ok st" "btree_wf st"
    "is_state (script_outputs c db scripts) (db_block_no b) (map_of st)"
proof -
  have ok': "cfg = Enabled \<longrightarrow> db_consistent db" "rows_ok db" "no_panic c (script_rows db scripts)"
    "one_output_per_key (map_outputs c (script_rows db scripts))"
    using ok by (simp_all add: gm_db_ok_def script_outputs_def)
  let ?ds = "datums_at_address_query consuming_tx_ids_consumed (validator_address scripts) (db_block_no b)
      (asset_new (asset_policy_id scripts)) db"
  obtain st where "collect_entries c ?ds [] = Ok st" "btree_wf st" "is_state (map_outputs c (script_rows db scripts)) (db_block_no b) (map_of st)"
    using ok'(4,3) set_datums_query [OF ok'(2)] unfolding script_rows_def by (rule state_of_datums)
  then show thesis using that
    by (simp add: db_get_state_at_block_def get_mappings_entries_def query_def block datums_of_config [OF ok'(1)] script_outputs_def)
qed

lemma changes_to_cache:
  assumes ok: "gm_db_ok c cfg db scripts"
  obtains evs where "get_changes_in_range_to_cache c (Ok cfg) (Inr db) since up_to scripts = Ok (map change_of_event evs)"
    "sorted (map fst evs)" "set evs = events (script_outputs c db scripts) since up_to"
proof -
  have ok': "cfg = Enabled \<longrightarrow> db_consistent db" "rows_ok db" "no_panic c (script_rows db scripts)"
    using ok by (simp_all add: gm_db_ok_def)
  let ?address = "validator_address scripts" and ?a = "asset_new (asset_policy_id scripts)"
  define rs where "rs = sort_key fst (remdups (created_rows ?address since up_to ?a db
      @ spent_rows consuming_tx_ids_consumed ?address since up_to ?a db))"
  have rs: "set rs = created_set (script_rows db scripts) since up_to \<union> spent_set (script_rows db scripts) since up_to"
    by (simp add: rs_def set_created_rows set_spent_rows [OF ok'(2)] script_rows_def)
  have "governed_map_datum_try_from c d \<noteq> Panic p" if "(pos, d, act) \<in> set rs" for pos d act p
    using that ok'(3) unfolding rs no_panic_def created_set_def spent_set_def by fast
  note collected = collect_changes_eq [OF this]
  have "sorted (map fst (List.map_filter (event_of_row c) rs))"
    by (intro sorted_map_filter_fst) (auto simp: rs_def event_of_row_def)
  then show thesis
    using that [of "List.map_filter (event_of_row c) rs"] collected events_of_rows [OF rs]
    by (simp add: get_changes_in_range_to_cache_def query_def changes_of_config [OF ok'(1)] governed_map_changes_query_def
        rs_def [symmetric] script_outputs_def)
qed

subsubsection \<open>The source without a cache\<close>

definition db_gm_source ::
  "'pd csl \<Rightarrow> (ds_error, tx_in_configuration) outcome \<Rightarrow> 'pd pg_pool \<Rightarrow> (bytes, ds_error + panic) gm_data_source" where
  "db_gm_source c cfg pool = \<lparr>
     get_state_at_block = (\<lambda>h scripts. to_result (db_get_state_at_block c cfg pool h scripts)),
     get_mapping_changes = (\<lambda>since h scripts. to_result (db_get_mapping_changes c cfg pool since h scripts))\<rparr>"

lemma collect_entries_wf: "btree_wf m \<Longrightarrow> collect_entries c ds m = Ok st \<Longrightarrow> btree_wf st"
  by (induction c ds m rule: collect_entries.induct) (auto split: outcome.splits)

lemma state_wf: "db_get_state_at_block c cfg pool h scripts = Ok st \<Longrightarrow> btree_wf st"
  by (auto simp: db_get_state_at_block_def get_mappings_entries_def and_then_eq_Ok split: option.splits
      dest: collect_entries_wf [OF btree_wf_Nil])

lemma replay_eqI:
  assumes "distinct (map fst cs)" and "\<And>k v. (k, v) \<in> set cs \<Longrightarrow> m' k = v" and "\<And>k. k \<notin> fst ` set cs \<Longrightarrow> m' k = m k"
  shows "replay cs m = m'"
proof
  fix k
  show "replay cs m k = m' k"
    using assms(2) [of k, OF map_of_SomeD [of cs k]] assms(3) [of k] map_of_eq_None_iff [of cs k]
    by (cases "map_of cs k") (simp_all add: replay_distinct [OF assms(1)] update_def)
qed

lemma absent_key:
  assumes "k \<notin> fst ` set (xs @ ys)"
  shows "(k, v) \<notin> set xs" "(k, v) \<notin> set ys"
  using assms by force+

lemma replay_difference:
  fixes cur prev :: "(map_key \<times> map_value) list"
  assumes "distinct (map fst cur)" and "distinct (map fst prev)"
  shows "replay ([(key, Some val). (key, val) \<leftarrow> cur, map_of prev key \<noteq> Some val]
    @ [(key, None). key \<leftarrow> map fst prev, map_of cur key = None]) (map_of prev) = map_of cur" (is "replay (?ins @ ?del) _ = _")
proof -
  have ins: "?ins = map (\<lambda>e. (fst e, Some (snd e))) (filter (\<lambda>e. map_of prev (fst e) \<noteq> Some (snd e)) cur)"
    by (induction cur) auto
  have del: "?del = map (\<lambda>key. (key, None)) (filter (\<lambda>key. map_of cur key = None) (map fst prev))"
    by (induction prev) auto
  show ?thesis
  proof (rule replay_eqI)
    show "distinct (map fst (?ins @ ?del))"
      unfolding ins del using assms by (auto simp: comp_def distinct_map_filter map_of_eq_None_iff distinct_filter)
    show "map_of cur k = v" if "(k, v) \<in> set (?ins @ ?del)" for k v
      using that assms(1) unfolding ins del by auto
    show "map_of cur k = map_of prev k" if "k \<notin> fst ` set (?ins @ ?del)" for k
    proof (cases "map_of cur k")
      case None
      have "k \<notin> set (map fst prev)"
      proof
        assume "k \<in> set (map fst prev)"
        with None have "(k, None) \<in> set ?del" unfolding del by simp
        then show False using absent_key(2) [OF that] by contradiction
      qed
      then show ?thesis using None by (simp add: map_of_eq_None_iff [THEN iffD2])
    next
      case (Some v)
      then have "(k, v) \<in> set cur" by (rule map_of_SomeD)
      then have "(k, Some v) \<in> set ?ins" if "map_of prev k \<noteq> Some v" using that unfolding ins by force
      then have "map_of prev k = Some v" using absent_key(1) [OF that] by blast
      then show ?thesis using Some by simp
    qed
  qed
qed

lemma db_gm_source_ok: "gm_source_ok (db_gm_source c cfg pool)"
  unfolding gm_source_ok_def
proof (intro conjI allI impI)
  show "btree_wf st" if "get_state_at_block (db_gm_source c cfg pool) h scripts = Inr st" for h scripts st
    using that by (simp add: db_gm_source_def state_wf)
  fix p h scripts st cs
  assume "get_state_at_block (db_gm_source c cfg pool) p scripts = Inr st"
    and "get_mapping_changes (db_gm_source c cfg pool) (Some p) h scripts = Inr cs"
  then obtain cur where st: "db_get_state_at_block c cfg pool p scripts = Ok st"
    and cur: "db_get_state_at_block c cfg pool h scripts = Ok cur"
    and cs: "cs = [(key, Some val). (key, val) \<leftarrow> cur, map_of st key \<noteq> Some val]
      @ [(key, None). key \<leftarrow> map fst st, map_of cur key = None]"
    by (auto simp: db_gm_source_def db_get_mapping_changes_def and_then_eq_Ok)
  have "replay cs (map_of st) = map_of cur"
    unfolding cs by (intro replay_difference btree_wf_distinct state_wf [OF cur] state_wf [OF st])
  then show "\<exists>st'. get_state_at_block (db_gm_source c cfg pool) h scripts = Inr st' \<and> map_of st' = replay cs (map_of st)"
    using cur by (simp add: db_gm_source_def)
qed

subsubsection \<open>The cached source\<close>

text \<open>
  A cache that has been filled holds, oldest first, all the changes of a range of blocks, and its
  bounds are blocks of that range.
\<close>

definition gm_cache_ok :: "map_output set \<Rightarrow> gm_cache \<Rightarrow> bool" where
  "gm_cache_ok outs cache \<longleftrightarrow> (highest_block_number cache = None \<and> lowest_block_number cache = None)
     \<or> (\<exists>since h evs. cached_changes cache = map change_of_event evs \<and> sorted (map fst evs) \<and> set evs = events outs since h
         \<and> (if evs = [] then lowest_block_number cache = Some 0 \<and> highest_block_number cache = Some 0
            else \<exists>lo hi. lowest_block_number cache = Some lo \<and> highest_block_number cache = Some hi
              \<and> (\<forall>n. since = Some n \<longrightarrow> n < lo) \<and> hi \<le> h))"

definition gm_cache_inv :: "'pd csl \<Rightarrow> 'pd db_tables \<Rightarrow> gm_cache option \<Rightarrow> bool" where
  "gm_cache_inv c db cache \<longleftrightarrow> (\<forall>cache'. cache = Some cache' \<longrightarrow>
     (\<forall>scripts. cache_address cache' = Some (validator_address scripts) \<longrightarrow> cache_policy_id cache' = Some (asset_policy_id scripts)
        \<longrightarrow> gm_cache_ok (script_outputs c db scripts) cache'))"

lemma events_restrict:
  assumes "\<And>n. in_range since' h' n \<Longrightarrow> in_range since h n"
  shows "{e \<in> events outs since h. in_range since' h' (fst (fst e))} = events outs since' h'"
  using assms unfolding events_def create_event_def spend_event_def by fastforce

lemma event_in_range: "e \<in> events outs since h \<Longrightarrow> in_range since h (fst (fst e))"
  by (auto simp: events_def create_event_def spend_event_def)

lemma change_of_event_no [simp]: "change_block_no (change_of_event e) = fst (fst e)"
  by (simp add: change_of_event_def split: prod.splits)

lemma filtered_changes_events:
  assumes "sorted (map fst evs)" and "set evs = events outs since h" and "\<And>n. in_range since' h' n \<Longrightarrow> in_range since h n"
  obtains evs' where "filter_changes_in_range (map change_of_event evs) since' h' = map snd evs'"
    "sorted (map fst evs')" "set evs' = events outs since' h'"
  using that [of "filter (\<lambda>e. in_range since' h' (fst (fst e))) evs"] assms events_restrict [of since' h' since h outs]
  by (simp add: filter_change_events sorted_filter)

lemma cache_update_ok:
  assumes "sorted (map fst evs)" and evs: "set evs = events outs since h"
  shows "gm_cache_ok outs (gm_cache_update (map change_of_event evs) cache)"
proof (cases "evs = []")
  case True
  then show ?thesis using assms by (auto simp: gm_cache_ok_def gm_cache_update_def)
next
  case False
  let ?ns = "change_block_no ` set (map change_of_event evs)"
  have fin: "finite ?ns" "?ns \<noteq> {}" using False by simp_all
  have range: "in_range since h n" if "n \<in> ?ns" for n using that event_in_range [of _ outs since h] by (auto simp: evs)
  note lo = range [OF Min_in [OF fin]] and hi = range [OF Max_in [OF fin]]
  have "\<exists>lo hi. Some (Min ?ns) = Some lo \<and> Some (Max ?ns) = Some hi \<and> (\<forall>n. since = Some n \<longrightarrow> n < lo) \<and> hi \<le> h"
    using lo hi by (auto simp: in_range_def)
  then show ?thesis unfolding gm_cache_ok_def
    by (intro disjI2 exI [of _ since] exI [of _ h] exI [of _ evs] conjI)
      (use False assms in \<open>simp_all add: gm_cache_update_def\<close>)
qed

lemma cache_serves_events:
  assumes ok: "gm_cache_ok outs cache" and hit: "get_changes_in_range cache (Some p) h = Some cs"
  obtains evs where "cs = map snd evs" "sorted (map fst evs)" "set evs = events outs (Some p) h"
proof -
  obtain hi lo where b: "highest_block_number cache = Some hi" "lowest_block_number cache = Some lo" "h \<le> hi" "lo \<le> p"
    "cs = filter_changes_in_range (cached_changes cache) (Some p) h"
    using hit by (auto simp: get_changes_in_range_def not_less split: option.splits if_splits)
  then obtain since h0 evs where evs: "cached_changes cache = map change_of_event evs" "sorted (map fst evs)" "set evs = events outs since h0"
    and bounds: "if evs = [] then lo = 0 \<and> hi = 0 else (\<forall>n. since = Some n \<longrightarrow> n < lo) \<and> hi \<le> h0"
    using ok by (auto simp: gm_cache_ok_def split: if_splits)
  show thesis
  proof (cases "evs = []")
    case True
    then have "h = 0" using bounds b(3) by simp
    then have "events outs (Some p) h = {}" by (auto simp: events_def)
    then show thesis using that [of "[]"] True b(5) evs(1) by (simp add: filter_changes_in_range_def)
  next
    case False
    then have "in_range since h0 n" if "in_range (Some p) h n" for n
      using that bounds b(3,4) by (auto simp: in_range_def split: option.splits)
    from filtered_changes_events [OF evs(2,3) this] that show thesis using b(5) evs(1) by metis
  qed
qed

lemma script_outputs_cong:
  "validator_address s = validator_address s' \<Longrightarrow> asset_policy_id s = asset_policy_id s'
    \<Longrightarrow> script_outputs c db s = script_outputs c db s'"
  by (simp add: script_outputs_def script_rows_def)

lemma cache_inv_for:
  assumes "gm_cache_inv c db cache0" and "map_option (gm_cache_set_main_chain_scripts scripts) cache0 = Some cache"
  shows "cache_address cache = Some (validator_address scripts)" "cache_policy_id cache = Some (asset_policy_id scripts)"
    "gm_cache_ok (script_outputs c db scripts) cache"
proof -
  have empty: "gm_cache_ok outs \<lparr>highest_block_number = None, lowest_block_number = None, cached_changes = [],
      cache_address = a, cache_policy_id = i\<rparr>" for outs a i by (simp add: gm_cache_ok_def)
  show "cache_address cache = Some (validator_address scripts)" "cache_policy_id cache = Some (asset_policy_id scripts)"
    "gm_cache_ok (script_outputs c db scripts) cache"
    using assms empty by (auto simp: gm_cache_inv_def gm_cache_set_main_chain_scripts_def split: if_splits)
qed

lemma cache_invI:
  assumes "cache_address cache = Some (validator_address scripts)" "cache_policy_id cache = Some (asset_policy_id scripts)"
    "gm_cache_ok (script_outputs c db scripts) cache"
  shows "gm_cache_inv c db (Some cache)"
proof -
  have "gm_cache_ok (script_outputs c db scripts') cache" if "cache_address cache = Some (validator_address scripts')"
    "cache_policy_id cache = Some (asset_policy_id scripts')" for scripts'
    using assms(3) script_outputs_cong [of scripts scripts' c db] assms(1,2) that by simp
  then show ?thesis by (simp add: gm_cache_inv_def)
qed

lemma cached_changes_events:
  assumes ok: "gm_db_ok c cfg db scripts" and chain: "chain_ok db" and blocks: "cache_sound S db blocks"
    and inv: "gm_cache_inv c db cache0"
    and p: "get_block_by_hash (Inr db) since = Inr (Some p)" and h: "get_block_by_hash (Inr db) up_to = Inr (Some h)"
    and l: "latest_stable_block_or S (Inr db) (db_block_no h) = Ok l" "db_block_no h \<le> l"
  shows "\<exists>evs cache'. cached_get_mapping_changes c (Ok cfg) S csize (Inr db) blocks (Some since) up_to scripts cache0 = (Ok (map snd evs), cache')
    \<and> gm_cache_inv c db cache' \<and> sorted (map fst evs) \<and> set evs = events (script_outputs c db scripts) (Some (db_block_no p)) (db_block_no h)"
proof -
  define cache where "cache = map_option (gm_cache_set_main_chain_scripts scripts) cache0"
  have inv': "gm_cache_inv c db cache"
    using cache_invI [OF cache_inv_for [OF inv]] unfolding cache_def by (cases cache0) (auto simp: gm_cache_inv_def)
  have up_to: "bds_get_block_by_hash (Inr db) up_to blocks = Ok (Some (the_mainchain_block h))"
    using up_to_block_found [OF chain blocks h] .
  have since: "since_block_number (Inr db) (Some since) = Ok (Some (db_block_no p))" using p by (simp add: since_block_number_def query_def)
  note run = cached_get_mapping_changes_def cache_def [symmetric] Let_def up_to since the_mainchain_block_def
  show ?thesis
  proof (cases "Option.bind cache (\<lambda>cache. get_changes_in_range cache (Some (db_block_no p)) (db_block_no h))")
    case (Some cs)
    then obtain k where k: "cache = Some k" "get_changes_in_range k (Some (db_block_no p)) (db_block_no h) = Some cs" by (cases cache) auto
    obtain evs where "cs = map snd evs" "sorted (map fst evs)" "set evs = events (script_outputs c db scripts) (Some (db_block_no p)) (db_block_no h)"
      using cache_inv_for(3) [OF inv, of scripts k] k cache_serves_events unfolding cache_def by metis
    then show ?thesis using Some inv' by (auto simp: run)
  next
    case None
    define m where "m = min l (max (db_block_no h) (saturating_add (db_block_no p) (ucast csize)))"
    have m: "db_block_no h \<le> m" using l(2) by (simp add: m_def)
    obtain evs where evs: "get_changes_in_range_to_cache c (Ok cfg) (Inr db) (Some (db_block_no p)) m scripts = Ok (map change_of_event evs)"
      "sorted (map fst evs)" "set evs = events (script_outputs c db scripts) (Some (db_block_no p)) m"
      using changes_to_cache [OF ok] .
    have sub: "in_range (Some (db_block_no p)) (db_block_no h) n \<Longrightarrow> in_range (Some (db_block_no p)) m n" for n
      using m by auto
    obtain evs' where evs': "filter_changes_in_range (map change_of_event evs) (Some (db_block_no p)) (db_block_no h) = map snd evs'"
      "sorted (map fst evs')" "set evs' = events (script_outputs c db scripts) (Some (db_block_no p)) (db_block_no h)"
      using filtered_changes_events [OF evs(2,3) sub] .
    have "gm_cache_inv c db (map_option (gm_cache_update (map change_of_event evs)) cache)"
    proof (cases cache)
      case (Some k)
      then show ?thesis using cache_inv_for(1,2) [OF inv, of scripts k] cache_update_ok [OF evs(2,3), of k]
        by (auto simp: cache_def [symmetric] gm_cache_update_def Let_def split_def intro!: cache_invI [of _ scripts])
    qed (simp add: gm_cache_inv_def)
    then show ?thesis using None evs evs' l(1) by (auto simp: run m_def [symmetric])
  qed
qed

lemma latest_stable_is_up_to:
  assumes chain: "chain_ok db" and old: "\<forall>b \<in> db_blocks db. \<forall>l \<in> db_blocks db. db_time l div 1000 < db_time b"
    and boundary: "0 \<le> min_slot_boundary S" and res: "latest_stable_block_or S (Inr db) up_to = Ok n"
  shows "n = up_to"
proof -
  obtain latest stable where latest: "bds_get_latest_block_info (Inr db) = Ok latest"
    and stable: "bds_get_latest_stable_block_for S (Inr db) (mb_timestamp latest) = Ok stable"
    and n: "n = (case stable of Some block \<Rightarrow> mb_number block | None \<Rightarrow> up_to)"
    using res by (auto simp: latest_stable_block_or_def and_then_eq_Ok)
  obtain l where info: "get_latest_block_info (Inr db) = Inr (Some l)" and conv: "(mainchain_block_from l :: (ds_error, _) outcome) = Ok latest"
    using latest by (auto simp: bds_get_latest_block_info_def and_then_eq_Ok split: option.splits)
  have l: "l \<in> db_blocks db" using latest_block [OF chain info] by blast
  have l_block: "latest = the_mainchain_block l" using conv by (simp add: mainchain_block_db [OF chain l])
  have t0: "0 \<le> db_time l div 1000" using chain l by (auto simp: chain_ok_def pos_imp_zdiv_nonneg_iff)
  have "stable = None"
  proof (rule ccontr)
    assume "stable \<noteq> None"
    then obtain t m b where t: "timestamp_to_db_type S (mb_timestamp latest) = Ok t" and b: "get_latest_block S (Inr db) m t = Ok (Some b)"
      using stable by (auto simp: bds_get_latest_stable_block_for_def and_then_eq_Ok Let_def into_mainchain_block_def split: option.splits)
    have "t \<le> db_time l div 1000"
      using t t0 zmod_le_nonneg_dividend [OF t0, of "2 ^ 64"]
      by (auto simp: timestamp_to_db_type_def l_block the_mainchain_block_def uint_word_of_int split: if_splits)
    moreover have "db_time b \<le> t" "b \<in> db_blocks db" using get_latest_block_Some [OF b] boundary by (auto simp: in_window_def)
    ultimately show False using old l by fastforce
  qed
  then show ?thesis using n by simp
qed

subsection \<open>Properties\<close>

text \<open>
  C8: the governed map of the Partner Chain is the governed map of Cardano: after every block, authored
  with the Db-Sync source on any chain, the stored mapping holds a key with a value exactly when an
  unspent output with that key and value is at the validator address at the Cardano block referred to.
\<close>

theorem governed_map_is_cardano_state:
  assumes "gm_db_ok c cfg db scripts"
    and "gm_reachable C (db_gm_source c (Ok cfg) (Inr db)) genesis_scripts s mc_last n" and "n < n + 1"
    and "gm_author_block C (db_gm_source c (Ok cfg) (Inr db)) mc_hash mc_last (n + 1) s = Ok s'"
    and "gm_main_chain_scripts s = Some scripts"
  shows "\<exists>b. get_block_by_hash (Inr db) mc_hash = Inr (Some b)
    \<and> is_state (script_outputs c db scripts) (db_block_no b) (gm_mapping s')"
proof -
  have "gm_synced (db_gm_source c (Ok cfg) (Inr db)) (Some mc_hash) s'" "gm_main_chain_scripts s' = Some scripts"
    using gm_author_block_synced [OF db_gm_source_ok gm_reachable_inv [OF db_gm_source_ok assms(2)] assms(3,4)] assms(5) by auto
  then obtain st where st: "db_get_state_at_block c (Ok cfg) (Inr db) mc_hash scripts = Ok st" "gm_mapping s' = map_of st"
    by (auto simp: gm_synced_def db_gm_source_def)
  then obtain b where b: "get_block_by_hash (Inr db) mc_hash = Inr (Some b)"
    by (auto simp: db_get_state_at_block_def get_mappings_entries_def and_then_eq_Ok split: option.splits)
  obtain st' where "db_get_state_at_block c (Ok cfg) (Inr db) mc_hash scripts = Ok st'"
    "is_state (script_outputs c db scripts) (db_block_no b) (map_of st')" using state_at_block [OF assms(1) b] by blast
  then show ?thesis using st b by simp
qed

text \<open>
  C16: the cached source is correct between two blocks: whatever it has cached, the changes it returns lead
  from the state of the map at the lower block to its state at the upper one, and the cache it leaves
  is again one that it can rely on.
\<close>

theorem cached_changes_replay:
  assumes "gm_db_ok c cfg db scripts" "chain_ok db" "cache_sound S db blocks" "gm_cache_inv c db cache"
    and "get_block_by_hash (Inr db) since = Inr (Some p)" "get_block_by_hash (Inr db) up_to = Inr (Some h)" "db_block_no p \<le> db_block_no h"
    and "latest_stable_block_or S (Inr db) (db_block_no h) = Ok l" "db_block_no h \<le> l"
  shows "\<exists>cs cache' st st'.
    cached_get_mapping_changes c (Ok cfg) S csize (Inr db) blocks (Some since) up_to scripts cache = (Ok cs, cache')
    \<and> gm_cache_inv c db cache'
    \<and> db_get_state_at_block c (Ok cfg) (Inr db) since scripts = Ok st
    \<and> db_get_state_at_block c (Ok cfg) (Inr db) up_to scripts = Ok st'
    \<and> replay cs (map_of st) = map_of st'"
proof -
  let ?outs = "script_outputs c db scripts"
  have one: "one_output_per_key ?outs" using assms(1) by (simp add: gm_db_ok_def)
  obtain st where st: "db_get_state_at_block c (Ok cfg) (Inr db) since scripts = Ok st" "is_state ?outs (db_block_no p) (map_of st)"
    using state_at_block [OF assms(1,5)] by blast
  obtain st' where st': "db_get_state_at_block c (Ok cfg) (Inr db) up_to scripts = Ok st'" "is_state ?outs (db_block_no h) (map_of st')"
    using state_at_block [OF assms(1,6)] by blast
  obtain evs cache' where run: "cached_get_mapping_changes c (Ok cfg) S csize (Inr db) blocks (Some since) up_to scripts cache = (Ok (map snd evs), cache')"
      "gm_cache_inv c db cache'" and evs: "sorted (map fst evs)" "set evs = events ?outs (Some (db_block_no p)) (db_block_no h)"
    using cached_changes_events [OF assms(1-6,8,9)] by blast
  have "replay (map snd evs) (map_of st) = map_of st'"
    by (rule is_state_unique [OF replay_events [OF one evs assms(7) st(2)] st'(2)])
  then show ?thesis using run st(1) st'(1) by blast
qed

text \<open>
  C37: the cache never reads ahead. The latest stable block is asked for with the time of the latest block in
  seconds where milliseconds are expected, so on a chain on which no block is that old none is found, and
  the query ends at the block asked for: what the cache holds afterwards is bounded by it, whatever the
  configured size of the cache.
\<close>

theorem cache_never_reads_ahead:
  assumes "chain_ok db" "\<forall>b \<in> db_blocks db. \<forall>l \<in> db_blocks db. db_time l div 1000 < db_time b" "0 \<le> min_slot_boundary S"
    and "gm_db_ok c cfg db scripts" "cache_sound S db blocks" "get_block_by_hash (Inr db) up_to = Inr (Some h)"
    and "cached_get_mapping_changes c (Ok cfg) S csize (Inr db) blocks since up_to scripts cache = (Ok cs, Some cache')"
    and "Some cache' \<noteq> map_option (gm_cache_set_main_chain_scripts scripts) cache"
  shows "\<exists>hi. highest_block_number cache' = Some hi \<and> hi \<le> db_block_no h"
proof -
  have up_to: "bds_get_block_by_hash (Inr db) up_to blocks = Ok (Some (the_mainchain_block h))"
    using up_to_block_found [OF assms(1,5,6)] .
  obtain since_no l x changes k where l: "latest_stable_block_or S (Inr db) (db_block_no h) = Ok l"
    and changes: "get_changes_in_range_to_cache c (Ok cfg) (Inr db) since_no (min l x) scripts = Ok changes" "cache' = gm_cache_update changes k"
    using assms(7,8) by (auto simp: cached_get_mapping_changes_def Let_def up_to the_mainchain_block_def split: outcome.splits option.splits)
  obtain evs where evs: "changes = map change_of_event evs" "set evs = events (script_outputs c db scripts) since_no (min l x)"
    by (rule changes_to_cache [OF assms(4), of since_no "min l x"]) (simp add: changes(1))
  have "change_block_no ch \<le> db_block_no h" if ch: "ch \<in> set changes" for ch
  proof -
    obtain e where e: "e \<in> events (script_outputs c db scripts) since_no (min l x)" "ch = change_of_event e"
      using ch unfolding evs(1) set_map evs(2) by blast
    show ?thesis using event_in_range [OF e(1)] latest_stable_is_up_to [OF assms(1,2,3) l] by (simp add: e(2) in_range_def)
  qed
  then show ?thesis by (auto simp: changes(2) gm_cache_update_def Let_def)
qed

subsection \<open>A map of two keys\<close>

text \<open>Key \<open>a\<close> is created in block 10 and replaced in block 11, key \<open>b\<close> is created in block 10.\<close>

definition map_db :: "datum db_tables" where
  "map_db = demo_db\<lparr>
     tx_out_table := tx_out_table demo_db @
       [\<lparr>out_id = 3, out_tx_id = 1, out_index = 1, out_address = [7], out_data_hash = Some [23], out_consumed_by_tx_id = None\<rparr>],
     ma_tx_out_table := ma_tx_out_table demo_db @ [\<lparr>ma_ident = 5, ma_tx_out_id = 3, ma_quantity = 1\<rparr>],
     datum_table := [\<lparr>datum_hash_col = [21], datum_value_col = ListDatum [ByteStringDatum [97], ByteStringDatum [1]]\<rparr>,
       \<lparr>datum_hash_col = [22], datum_value_col = ListDatum [ByteStringDatum [97], ByteStringDatum [2]]\<rparr>,
       \<lparr>datum_hash_col = [23], datum_value_col = ListDatum [ByteStringDatum [98], ByteStringDatum [3]]\<rparr>]\<rparr>"

definition map_scripts :: gm_scripts where
  "map_scripts = \<lparr>validator_address = [7], asset_policy_id = [9]\<rparr>"

definition map_block_source :: block_data_source where
  "map_block_source = demo_block_source\<lparr>min_slot_boundary := 0, max_slot_boundary := 1\<rparr>"

lemmas map_db_simps = map_db_def demo_db_def map_scripts_def tx_and_block_def consuming_tx_and_block_def left_join_def
  datum_rows_def asset_rows_def asset_new_def

lemma map_db_rows: "script_rows map_db map_scripts = {
    ((10, 0), ListDatum [ByteStringDatum [97], ByteStringDatum [1]], Some (11, 4)),
    ((11, 4), ListDatum [ByteStringDatum [97], ByteStringDatum [2]], None),
    ((10, 0), ListDatum [ByteStringDatum [98], ByteStringDatum [3]], None)}"
proof -
  have outs: "set (tx_out_table map_db) = {
      \<lparr>out_id = 1, out_tx_id = 1, out_index = 0, out_address = [7], out_data_hash = Some [21], out_consumed_by_tx_id = Some 2\<rparr>,
      \<lparr>out_id = 2, out_tx_id = 2, out_index = 1, out_address = [7], out_data_hash = Some [22], out_consumed_by_tx_id = None\<rparr>,
      \<lparr>out_id = 3, out_tx_id = 1, out_index = 1, out_address = [7], out_data_hash = Some [23], out_consumed_by_tx_id = None\<rparr>}"
    by (simp add: map_db_def demo_db_def)
  have as: "asset_rows map_db (asset_new [9]) o' \<noteq> []" if "out_id o' \<in> {1, 2, 3}" for o' using that by (auto simp: map_db_simps)
  let ?f = "\<lambda>o'. {((n, tx_block_index t), datum_value_col d, spent_position map_db o') |t b n d.
     out_address o' = [7] \<and> (t, b) \<in> set (tx_and_block map_db (out_tx_id o')) \<and> block_no_col b = Some n
     \<and> d \<in> set (datum_rows map_db o') \<and> asset_rows map_db (asset_new [9]) o' \<noteq> []}"
  have "script_rows map_db map_scripts = (\<Union>o' \<in> set (tx_out_table map_db). ?f o')"
    unfolding script_rows_def output_rows_def map_scripts_def gm_scripts.simps by blast
  also have "\<dots> = {((10, 0), ListDatum [ByteStringDatum [97], ByteStringDatum [1]], Some (11, 4)),
      ((11, 4), ListDatum [ByteStringDatum [97], ByteStringDatum [2]], None),
      ((10, 0), ListDatum [ByteStringDatum [98], ByteStringDatum [3]], None)}"
    unfolding outs by (simp add: as) (simp add: map_db_def demo_db_def tx_and_block_def datum_rows_def spent_position_def
        consuming_tx_and_block_def left_join_def insert_commute)
  finally show ?thesis .
qed

lemma map_datum: "utf8_valid k \<Longrightarrow>
    governed_map_datum_try_from datum_csl (ListDatum [ByteStringDatum k, ByteStringDatum v]) = Ok \<lparr>gmd_key = k, gmd_value = v\<rparr>"
  using governed_map_datum_plutus [OF datum_csl_ok, of "\<lparr>gmd_key = k, gmd_value = v\<rparr>"]
  by (simp add: governed_map_datum_to_plutus_data_def datum_csl_def)

lemma map_keys_valid: "utf8_valid [97]" "utf8_valid [98]"
  by code_simp+

lemma map_db_ok: "gm_db_ok datum_csl Consumed map_db map_scripts"
proof -
  have rows: "rows_ok map_db" by (simp add: rows_ok_def map_db_simps)
  have "no_panic datum_csl (script_rows map_db map_scripts)"
    by (simp add: no_panic_def map_db_rows map_datum map_keys_valid)
  moreover have "one_output_per_key (script_outputs datum_csl map_db map_scripts)"
    by (auto simp: one_output_per_key_def script_outputs_def map_outputs_def map_db_rows map_datum map_keys_valid ends_before_def)
  ultimately show ?thesis using rows by (simp add: gm_db_ok_def)
qed

lemma map_db_blocks: "db_blocks map_db = db_blocks demo_db" "chain_ok map_db"
proof -
  show b: "db_blocks map_db = db_blocks demo_db" by (simp add: db_blocks_def map_db_def)
  show "chain_ok map_db" using demo_chain_ok unfolding chain_ok_def b by (simp add: map_db_def)
qed

lemma map_db_by_hash:
  "get_block_by_hash (Inr map_db) [1] = Inr (Some demo_block)"
  "get_block_by_hash (Inr map_db) [2] = Inr (Some \<lparr>db_block_no = 11, db_block_hash = [2], db_epoch_no = 3, db_slot_no = 120, db_time = 1020\<rparr>)"
  by (simp_all add: get_block_by_hash_def fetch_optional_def decode_block_def map_db_def demo_db_def demo_block_def)

lemma map_db_latest: "latest_stable_block_or map_block_source (Inr map_db) 11 = Ok 11"
proof -
  have latest: "get_latest_block_info (Inr map_db) = Inr (Some \<lparr>db_block_no = 11, db_block_hash = [2], db_epoch_no = 3, db_slot_no = 120, db_time = 1020\<rparr>)"
    by (simp add: get_latest_block_info_def fetch_optional_def decode_block_def map_db_def demo_db_def order_by_desc_def)
  have "get_highest_block (Inr map_db) n 0 lo 1 hi = Inr None" for n lo hi
    by (simp add: get_highest_block_def fetch_optional_def map_db_def demo_db_def order_by_desc_def)
  then show ?thesis
    by (simp add: latest_stable_block_or_def bds_get_latest_block_info_def bds_get_latest_stable_block_for_def query_def latest
        mainchain_block_from_def timestamp_to_db_type_def map_block_source_def demo_block_source_def get_latest_block_def
        min_block_allowed_time_def max_allowed_block_time_def date_time_sub_def date_time_to_slot_def demo_epoch_config_def
        timestamp_to_mainchain_slot_number_def into_mainchain_block_def checked_def checked_sub_def)
qed

lemma map_db_state:
  "db_get_state_at_block datum_csl (Ok Consumed) (Inr map_db) [2] map_scripts = Ok [([97], [2]), ([98], [3])]"
proof -
  have "datums_at_address_query consuming_tx_ids_consumed [7] 11 (asset_new [9]) map_db
      = [ListDatum [ByteStringDatum [98], ByteStringDatum [3]], ListDatum [ByteStringDatum [97], ByteStringDatum [2]]]"
    by (simp add: datums_at_address_query_def consuming_tx_ids_consumed_def map_db_simps consuming_block_no_def null_gt_def)
  then show ?thesis
    by (simp add: db_get_state_at_block_def get_mappings_entries_def query_def map_db_by_hash datums_of_config map_scripts_def
        map_datum map_keys_valid)
qed

theorem governed_map_is_cardano_state_witness:
  "\<exists>s'. gm_author_block demo_gm_config (db_gm_source datum_csl (Ok Consumed) (Inr map_db)) [2] None 1
      (gm_genesis_build (Some map_scripts)) = Ok s'
    \<and> gm_mapping s' = [[97] \<mapsto> [2], [98] \<mapsto> [3]] \<and> is_state (script_outputs datum_csl map_db map_scripts) 11 (gm_mapping s')"
proof -
  let ?D = "db_gm_source datum_csl (Ok Consumed) (Inr map_db)" and ?s = "gm_genesis_build (Some map_scripts)"
  obtain s' where s': "gm_author_block demo_gm_config ?D [2] None 1 ?s = Ok s'" "gm_mapping s' = [[97] \<mapsto> [2], [98] \<mapsto> [3]]"
    by (simp add: gm_author_block_def gm_provider_runtime gm_genesis_build_def db_gm_source_def map_db_state to_result_def entries_of_def
      changed_values_def deleted_keys_def gm_provide_inherent_data_def gm_create_inherent_eq btree_wf_def
      demo_gm_config_def change_fits_def register_changes_def apply_change_def)
  have "gm_reachable demo_gm_config ?D (Some map_scripts) ?s None 0" by (rule gm_genesis)
  from governed_map_is_cardano_state [OF map_db_ok this, of "[2]" s'] s'
  show ?thesis by (auto simp: map_db_by_hash gm_genesis_build_def)
qed

theorem cached_changes_replay_witness:
  "\<exists>cs cache' st st'.
    cached_get_mapping_changes datum_csl (Ok Consumed) map_block_source 100 (Inr map_db) (Some []) (Some [1]) [2] map_scripts
      (Some empty_gm_cache) = (Ok cs, cache')
    \<and> gm_cache_inv datum_csl map_db cache'
    \<and> db_get_state_at_block datum_csl (Ok Consumed) (Inr map_db) [1] map_scripts = Ok st
    \<and> db_get_state_at_block datum_csl (Ok Consumed) (Inr map_db) [2] map_scripts = Ok st'
    \<and> replay cs (map_of st) = map_of st'"
  by (rule cached_changes_replay [OF map_db_ok map_db_blocks(2) _ _ map_db_by_hash, where S = map_block_source and l = 11])
    (simp_all add: cache_sound_def gm_cache_inv_def empty_gm_cache_def demo_block_def map_db_latest)

lemma map_db_changes:
  "get_changes_in_range_to_cache datum_csl (Ok Consumed) (Inr map_db) (Some 10) 11 map_scripts
    = Ok [\<lparr>change_block_no = 11, change_key = [97], change_value = None\<rparr>,
          \<lparr>change_block_no = 11, change_key = [97], change_value = Some [2]\<rparr>]"
proof -
  have "created_rows [7] (Some 10) 11 (asset_new [9]) map_db = [((11, 4, 1), ListDatum [ByteStringDatum [97], ByteStringDatum [2]], Create)]"
    by (simp add: created_rows_def map_db_simps)
  moreover have "spent_rows consuming_tx_ids_consumed [7] (Some 10) 11 (asset_new [9]) map_db
      = [((11, 4, - 1), ListDatum [ByteStringDatum [97], ByteStringDatum [1]], Spend)]"
    by (simp add: spent_rows_def consuming_tx_ids_consumed_def map_db_simps)
  ultimately show ?thesis
    by (simp add: get_changes_in_range_to_cache_def query_def changes_of_config governed_map_changes_query_def map_scripts_def
        map_datum map_keys_valid)
qed

definition map_cache :: gm_cache where
  "map_cache = \<lparr>highest_block_number = Some 11, lowest_block_number = Some 11,
     cached_changes = [\<lparr>change_block_no = 11, change_key = [97], change_value = None\<rparr>,
       \<lparr>change_block_no = 11, change_key = [97], change_value = Some [2]\<rparr>],
     cache_address = Some [7], cache_policy_id = Some [9]\<rparr>"

lemma map_db_cached:
  "cached_get_mapping_changes datum_csl (Ok Consumed) map_block_source 100 (Inr map_db) (Some []) (Some [1]) [2] map_scripts
      (Some empty_gm_cache) = (Ok [([97], None), ([97], Some [2])], Some map_cache)"
proof -
  have up_to: "bds_get_block_by_hash (Inr map_db) [2] (Some []) = Ok (Some (the_mainchain_block
      \<lparr>db_block_no = 11, db_block_hash = [2], db_epoch_no = 3, db_slot_no = 120, db_time = 1020\<rparr>))"
    by (rule up_to_block_found [OF map_db_blocks(2) _ map_db_by_hash(2), of map_block_source]) (simp add: cache_sound_def)
  show ?thesis
    by (simp add: cached_get_mapping_changes_def since_block_number_def query_def map_db_by_hash up_to the_mainchain_block_def
        gm_cache_set_main_chain_scripts_def empty_gm_cache_def get_changes_in_range_def map_db_latest demo_block_def saturating_add_def
        map_db_changes filter_changes_in_range_def gm_cache_update_def map_cache_def map_scripts_def [symmetric])
      (simp add: map_scripts_def)
qed

theorem cache_never_reads_ahead_witness:
  "\<exists>hi. highest_block_number map_cache = Some hi \<and> hi \<le> 11"
  using cache_never_reads_ahead [OF map_db_blocks(2) _ _ map_db_ok _ map_db_by_hash(2) map_db_cached]
  by (simp add: map_db_blocks(1) demo_db_blocks demo_block_def map_block_source_def demo_block_source_def cache_sound_def
      gm_cache_set_main_chain_scripts_def empty_gm_cache_def map_cache_def)

text \<open>
  With no lower bound the cache is trusted whatever it holds: after the query above, the changes since the
  beginning are only those of block 11, and key \<open>b\<close> is lost.
\<close>

lemma cached_changes_without_lower_bound:
  "fst (cached_get_mapping_changes datum_csl (Ok Consumed) map_block_source 100 (Inr map_db) (Some []) None [2] map_scripts
      (Some map_cache)) = Ok [([97], None), ([97], Some [2])]"
  "db_get_mapping_changes datum_csl (Ok Consumed) (Inr map_db) None [2] map_scripts = Ok [([97], Some [2]), ([98], Some [3])]"
proof -
  have up_to: "bds_get_block_by_hash (Inr map_db) [2] (Some []) = Ok (Some (the_mainchain_block
      \<lparr>db_block_no = 11, db_block_hash = [2], db_epoch_no = 3, db_slot_no = 120, db_time = 1020\<rparr>))"
    by (rule up_to_block_found [OF map_db_blocks(2) _ map_db_by_hash(2), of map_block_source]) (simp add: cache_sound_def)
  show "fst (cached_get_mapping_changes datum_csl (Ok Consumed) map_block_source 100 (Inr map_db) (Some []) None [2] map_scripts
      (Some map_cache)) = Ok [([97], None), ([97], Some [2])]"
    by (simp add: cached_get_mapping_changes_def since_block_number_def up_to the_mainchain_block_def
        gm_cache_set_main_chain_scripts_def get_changes_in_range_def filter_changes_in_range_def in_range_def map_cache_def map_scripts_def)
  show "db_get_mapping_changes datum_csl (Ok Consumed) (Inr map_db) None [2] map_scripts = Ok [([97], Some [2]), ([98], Some [3])]"
    by (simp add: db_get_mapping_changes_def map_db_state)
qed

end
