(* ===== verification/Bridge.thy ===== *)
theory Bridge
  imports Domain Inherents
begin

text \<open>
  The token bridge: the pallet, \<open>toolkit/bridge/pallet/src/lib.rs\<close>, and the inherent data provider,
  \<open>toolkit/bridge/primitives/src/lib.rs\<close>.

  \<open>'r\<close> is the type of recipients. The transfers that the pallet hands to \<open>TransferHandler\<close> are recorded
  in the order of the calls. The data source that observes Cardano is a parameter; what a chain relies
  on is the locale \<open>bridge_source\<close>.
\<close>

record bridge_scripts =
  token_policy_id :: bytes
  token_asset_name :: bytes
  illiquid_circulation_supply_validator_address :: bytes

datatype 'r bridge_transfer =
    UserTransfer u64 'r
  | ReserveTransfer u64
  | InvalidTransfer u64 utxo_id

datatype bridge_data_checkpoint = UtxoCheckpoint utxo_id | BlockCheckpoint u32

record 'r token_bridge_transfers =
  tb_transfers :: "'r bridge_transfer list"
  tb_data_checkpoint :: bridge_data_checkpoint

datatype bridge_inherent_error = BridgeInherentRequired | BridgeInherentNotExpected | BridgeIncorrectInherent

datatype bridge_error = BridgeBadOrigin

record 'origin bridge_config =
  bridge_governance_origin :: "'origin \<Rightarrow> bool"
  max_transfers_per_block :: u32

record 'r bridge_state =
  br_main_chain_scripts :: "bridge_scripts option"
  br_data_checkpoint :: "bridge_data_checkpoint option"
  br_handled :: "'r bridge_transfer list"

datatype 'r bridge_call =
    HandleTransfers "'r bridge_transfer list" bridge_data_checkpoint
  | BridgeSetMainChainScripts bridge_scripts bridge_data_checkpoint

definition bridge_genesis_build :: "bridge_scripts option \<Rightarrow> utxo_id option \<Rightarrow> 'r bridge_state" where
  "bridge_genesis_build main_chain_scripts initial_checkpoint = \<lparr>br_main_chain_scripts = main_chain_scripts,
     br_data_checkpoint = map_option UtxoCheckpoint initial_checkpoint, br_handled = []\<rparr>"

subsection \<open>The calls\<close>

definition handle_transfers ::
  "bool \<Rightarrow> 'r bridge_transfer list \<Rightarrow> bridge_data_checkpoint \<Rightarrow> 'r bridge_state \<Rightarrow> bridge_error + 'r bridge_state" where
  "handle_transfers origin_is_none transfers data_checkpoint s =
     (if \<not> origin_is_none then Inl BridgeBadOrigin
      else Inr ((fold (\<lambda>transfer s. s\<lparr>br_handled := br_handled s @ [transfer]\<rparr>) transfers s)
        \<lparr>br_data_checkpoint := Some data_checkpoint\<rparr>))"

definition bridge_set_main_chain_scripts ::
  "'origin bridge_config \<Rightarrow> 'origin \<Rightarrow> bridge_scripts \<Rightarrow> bridge_data_checkpoint \<Rightarrow> 'r bridge_state
     \<Rightarrow> bridge_error + 'r bridge_state" where
  "bridge_set_main_chain_scripts C origin new_scripts data_checkpoint s =
     (if \<not> bridge_governance_origin C origin then Inl BridgeBadOrigin
      else Inr (s\<lparr>br_main_chain_scripts := Some new_scripts, br_data_checkpoint := Some data_checkpoint\<rparr>))"

subsection \<open>The inherent\<close>

definition bridge_decode_inherent_data ::
  "'r token_bridge_transfers inherent_item \<Rightarrow> panic + 'r token_bridge_transfers option" where
  "bridge_decode_inherent_data data = (case data of Inl _ \<Rightarrow> Inl ExpectFailed | Inr d \<Rightarrow> Inr d)"

definition bridge_create_inherent ::
  "'origin bridge_config \<Rightarrow> 'r token_bridge_transfers inherent_item \<Rightarrow> panic + 'r bridge_call option" where
  "bridge_create_inherent C data = (case bridge_decode_inherent_data data of
       Inl p \<Rightarrow> Inl p
     | Inr None \<Rightarrow> Inr None
     | Inr (Some d) \<Rightarrow>
         if length (tb_transfers d) \<le> unat (max_transfers_per_block C)
         then Inr (Some (HandleTransfers (tb_transfers d) (tb_data_checkpoint d))) else Inl ExpectFailed)"

definition bridge_check_inherent ::
  "'origin bridge_config \<Rightarrow> 'r bridge_call \<Rightarrow> 'r token_bridge_transfers inherent_item \<Rightarrow> panic + bridge_inherent_error option" where
  "bridge_check_inherent C call data = (case bridge_create_inherent C data of
       Inl p \<Rightarrow> Inl p
     | Inr None \<Rightarrow> Inr (Some BridgeInherentNotExpected)
     | Inr (Some expected_call) \<Rightarrow> Inr (if call \<noteq> expected_call then Some BridgeIncorrectInherent else None))"

definition bridge_is_inherent :: "'r bridge_call \<Rightarrow> bool" where
  "bridge_is_inherent call = (case call of HandleTransfers _ _ \<Rightarrow> True | _ \<Rightarrow> False)"

definition bridge_is_inherent_required ::
  "'r token_bridge_transfers inherent_item \<Rightarrow> panic + (bridge_inherent_error + bridge_inherent_error option)" where
  "bridge_is_inherent_required data = (case bridge_decode_inherent_data data of
       Inl p \<Rightarrow> Inl p
     | Inr None \<Rightarrow> Inr (Inr None)
     | Inr (Some _) \<Rightarrow> Inr (Inr (Some BridgeInherentRequired)))"

text \<open>The pallet keeps the contract of inherents; its checks do not depend on its state.\<close>

interpretation br: inherent_pallet "\<lambda>s :: unit. bridge_create_inherent C" "\<lambda>s. bridge_check_inherent C"
  "\<lambda>s. bridge_is_inherent_required"
  by unfold_locales
    (auto simp: bridge_check_inherent_def bridge_is_inherent_required_def bridge_create_inherent_def
      split: sum.splits option.splits if_splits)

subsection \<open>The inherent data provider\<close>

datatype 'r bridge_provider = BridgeInert | BridgeActiveV1 "'r token_bridge_transfers"

datatype ('api, 'ds) bridge_creation_error =
    BridgeApiError 'api
  | BridgeDataSourceError 'ds
  | BridgeUnsupportedPalletVersion u32 u32

text \<open>The runtime API at the parent block; \<open>br_api_version\<close> is the version of the API in the runtime.\<close>

record 'api bridge_api =
  br_api_version :: "'api + u32 option"
  br_api_max_transfers :: "'api + u32"
  br_api_last_data_checkpoint :: "'api + bridge_data_checkpoint option"
  br_api_main_chain_scripts :: "'api + bridge_scripts option"

type_synonym ('r, 'hash, 'ds) bridge_data_source =
  "bridge_scripts \<Rightarrow> bridge_data_checkpoint \<Rightarrow> u32 \<Rightarrow> 'hash \<Rightarrow> 'ds + ('r bridge_transfer list \<times> bridge_data_checkpoint)"

definition bridge_provider_new_v1 ::
  "('r, 'hash, 'ds) bridge_data_source \<Rightarrow> 'api bridge_api \<Rightarrow> 'hash \<Rightarrow> ('api, 'ds) bridge_creation_error + 'r bridge_provider" where
  "bridge_provider_new_v1 D A current_mc_hash =
     (case br_api_max_transfers A of
        Inl e \<Rightarrow> Inl (BridgeApiError e)
      | Inr max_transfers \<Rightarrow>
     (case br_api_last_data_checkpoint A of
        Inl e \<Rightarrow> Inl (BridgeApiError e)
      | Inr last_checkpoint \<Rightarrow>
     (case br_api_main_chain_scripts A of
        Inl e \<Rightarrow> Inl (BridgeApiError e)
      | Inr main_chain_scripts \<Rightarrow>
     (case (last_checkpoint, main_chain_scripts) of
        (Some last_checkpoint, Some main_chain_scripts) \<Rightarrow>
          (case D main_chain_scripts last_checkpoint max_transfers current_mc_hash of
             Inl e \<Rightarrow> Inl (BridgeDataSourceError e)
           | Inr (transfers, new_checkpoint) \<Rightarrow>
               Inr (BridgeActiveV1 \<lparr>tb_transfers = transfers, tb_data_checkpoint = new_checkpoint\<rparr>))
      | _ \<Rightarrow> Inr BridgeInert))))"

definition bridge_provider_new ::
  "('r, 'hash, 'ds) bridge_data_source \<Rightarrow> 'api bridge_api \<Rightarrow> 'hash \<Rightarrow> ('api, 'ds) bridge_creation_error + 'r bridge_provider" where
  "bridge_provider_new D A current_mc_hash = (case br_api_version A of
       Inl e \<Rightarrow> Inl (BridgeApiError e)
     | Inr None \<Rightarrow> Inr BridgeInert
     | Inr (Some pallet_version) \<Rightarrow>
         if pallet_version = 1 then bridge_provider_new_v1 D A current_mc_hash
         else Inl (BridgeUnsupportedPalletVersion pallet_version 1))"

definition bridge_provide_inherent_data :: "'r bridge_provider \<Rightarrow> 'r token_bridge_transfers inherent_item" where
  "bridge_provide_inherent_data provider = (case provider of
       BridgeInert \<Rightarrow> Inr None
     | BridgeActiveV1 data \<Rightarrow> Inr (Some data))"

text \<open>The runtime API the demo runtime exports, on the state of the pallet.\<close>

definition bridge_runtime_api :: "'origin bridge_config \<Rightarrow> 'r bridge_state \<Rightarrow> unit bridge_api" where
  "bridge_runtime_api C s = \<lparr>br_api_version = Inr (Some 1), br_api_max_transfers = Inr (max_transfers_per_block C),
     br_api_last_data_checkpoint = Inr (br_data_checkpoint s), br_api_main_chain_scripts = Inr (br_main_chain_scripts s)\<rparr>"

subsection \<open>Blocks\<close>

datatype ('api, 'ds) bridge_block_error =
    BridgeProviderFailed "('api, 'ds) bridge_creation_error"
  | BridgeInherentFailed bridge_error

definition bridge_author_block ::
  "'origin bridge_config \<Rightarrow> ('r, 'hash, 'ds) bridge_data_source \<Rightarrow> 'hash \<Rightarrow> 'r bridge_state
     \<Rightarrow> ((unit, 'ds) bridge_block_error, 'r bridge_state) outcome" where
  "bridge_author_block C D mc_hash s =
     (case bridge_provider_new D (bridge_runtime_api C s) mc_hash of
        Inl e \<Rightarrow> Err (BridgeProviderFailed e)
      | Inr provider \<Rightarrow>
          (case bridge_create_inherent C (bridge_provide_inherent_data provider) of
             Inl p \<Rightarrow> Panic p
           | Inr (Some (HandleTransfers transfers checkpoint)) \<Rightarrow>
               (case handle_transfers True transfers checkpoint s of
                  Inl e \<Rightarrow> Err (BridgeInherentFailed e)
                | Inr s' \<Rightarrow> Ok s')
           | Inr _ \<Rightarrow> Ok s))"

fun bridge_run ::
  "'origin bridge_config \<Rightarrow> ('r, 'hash, 'ds) bridge_data_source \<Rightarrow> 'hash list \<Rightarrow> 'r bridge_state
     \<Rightarrow> ((unit, 'ds) bridge_block_error, 'r bridge_state) outcome" where
  "bridge_run C D [] s = Ok s"
| "bridge_run C D (mc_hash # hs) s = and_then (bridge_author_block C D mc_hash s) (bridge_run C D hs)"

lemma handle_transfers_None:
  "handle_transfers True ts c s = Inr (s\<lparr>br_handled := br_handled s @ ts, br_data_checkpoint := Some c\<rparr>)"
proof -
  have "fold (\<lambda>t s. s\<lparr>br_handled := br_handled s @ [t]\<rparr>) ts s = s\<lparr>br_handled := br_handled s @ ts\<rparr>"
    by (induction ts arbitrary: s) simp_all
  then show ?thesis by (simp add: handle_transfers_def)
qed

lemma bridge_author_block_configured:
  assumes "br_main_chain_scripts s = Some scripts" and "br_data_checkpoint s = Some c"
  shows "bridge_author_block C D h s = (case D scripts c (max_transfers_per_block C) h of
      Inl e \<Rightarrow> Err (BridgeProviderFailed (BridgeDataSourceError e))
    | Inr (ts, c') \<Rightarrow>
        if length ts \<le> unat (max_transfers_per_block C)
        then Ok (s\<lparr>br_handled := br_handled s @ ts, br_data_checkpoint := Some c'\<rparr>)
        else Panic ExpectFailed)"
  using assms by (auto simp: bridge_author_block_def bridge_provider_new_def bridge_provider_new_v1_def bridge_runtime_api_def
      bridge_provide_inherent_data_def bridge_create_inherent_def bridge_decode_inherent_data_def handle_transfers_None
      split: sum.splits)

subsection \<open>What a chain relies on\<close>

text \<open>
  The contract of a data source: a checkpoint and a Cardano block are positions in the history of
  Cardano, and the UTXOs between two positions are a list that splits at every position between them.
  For the scripts for which the source is \<open>reliable\<close>, an answer holds the transfers of the UTXOs between the checkpoint and the new checkpoint, which are at
  most the number asked for, and it stops short of the block only when it has that many.
\<close>

locale bridge_source =
  fixes get_transfers :: "bridge_scripts \<Rightarrow> bridge_data_checkpoint \<Rightarrow> u32 \<Rightarrow> 'hash \<Rightarrow> 'ds + ('r bridge_transfer list \<times> bridge_data_checkpoint)"
    and position :: "bridge_data_checkpoint \<Rightarrow> 'p::linorder option"
    and end_of :: "'hash \<Rightarrow> 'p option"
    and utxos :: "bridge_scripts \<Rightarrow> 'p \<Rightarrow> 'p \<Rightarrow> 'u list"
    and transfer :: "'u \<Rightarrow> 'r bridge_transfer option"
    and reliable :: "bridge_scripts \<Rightarrow> bool"
  assumes answers: "reliable sc \<Longrightarrow> position c = Some p \<Longrightarrow> end_of h = Some q \<Longrightarrow> \<exists>ts c'. get_transfers sc c m h = Inr (ts, c')"
    and served: "reliable sc \<Longrightarrow> get_transfers sc c m h = Inr (ts, c') \<Longrightarrow> position c = Some p \<Longrightarrow> end_of h = Some q \<Longrightarrow> p \<le> q \<Longrightarrow> 0 < m
      \<Longrightarrow> \<exists>p'. position c' = Some p' \<and> p \<le> p' \<and> p' \<le> q \<and> ts = List.map_filter transfer (utxos sc p p')
        \<and> length (utxos sc p p') \<le> unat m \<and> (p' = q \<or> length (utxos sc p p') = unat m)"
    and split: "reliable sc \<Longrightarrow> p \<le> q \<Longrightarrow> q \<le> r \<Longrightarrow> utxos sc p q @ utxos sc q r = utxos sc p r"
begin

text \<open>A block succeeds and handles the transfers between the two checkpoints.\<close>

lemma block_serves:
  assumes ok: "reliable sc" and s: "br_main_chain_scripts s = Some sc" "br_data_checkpoint s = Some c" and m: "0 < max_transfers_per_block C"
    and p: "position c = Some p" and q: "end_of h = Some q" and pq: "p \<le> q"
  obtains c' p' where "bridge_author_block C get_transfers h s
      = Ok (s\<lparr>br_handled := br_handled s @ List.map_filter transfer (utxos sc p p'), br_data_checkpoint := Some c'\<rparr>)"
    "position c' = Some p'" "p \<le> p'" "p' \<le> q" "p' = q \<or> length (utxos sc p p') = unat (max_transfers_per_block C)"
proof -
  obtain ts c' where g: "get_transfers sc c (max_transfers_per_block C) h = Inr (ts, c')" using answers [OF ok p q] by blast
  obtain p' where p': "position c' = Some p'" "p \<le> p'" "p' \<le> q" "ts = List.map_filter transfer (utxos sc p p')"
      "length (utxos sc p p') \<le> unat (max_transfers_per_block C)" "p' = q \<or> length (utxos sc p p') = unat (max_transfers_per_block C)"
    using served [OF ok g p q pq m] by blast
  have "length ts \<le> length (utxos sc p p')" by (simp add: p'(4) List.map_filter_def)
  then have "length ts \<le> unat (max_transfers_per_block C)" using p'(5) by (rule order_trans)
  then show thesis using that p' by (simp add: bridge_author_block_configured [OF s] g)
qed

text \<open>
  Over a sequence of blocks with ever later references, the transfers handled are those between the
  checkpoints, and the run makes progress until it has caught up.
\<close>

lemma run_serves:
  assumes ok: "reliable sc" and "br_main_chain_scripts s = Some sc" "br_data_checkpoint s = Some c" "0 < max_transfers_per_block C"
    and "position c = Some p" "\<forall>h \<in> set hs. \<exists>q. end_of h = Some q \<and> p \<le> q" "sorted (map (the \<circ> end_of) hs)"
  shows "\<exists>s' c' p'. bridge_run C get_transfers hs s = Ok s'
    \<and> br_main_chain_scripts s' = Some sc \<and> br_data_checkpoint s' = Some c' \<and> position c' = Some p' \<and> p \<le> p'
    \<and> br_handled s' = br_handled s @ List.map_filter transfer (utxos sc p p')
    \<and> (hs \<noteq> [] \<longrightarrow> p' \<le> the (end_of (last hs)))
    \<and> (hs \<noteq> [] \<longrightarrow> the (end_of (hd hs)) \<le> p' \<or> length hs * unat (max_transfers_per_block C) \<le> length (utxos sc p p'))"
  using assms
proof (induction hs arbitrary: s c p)
  case Nil
  have "utxos sc p p = []" using split [OF ok, of p p p] by simp
  then show ?case using Nil by (auto simp: List.map_filter_simps)
next
  case (Cons h hs)
  obtain q where q: "end_of h = Some q" "p \<le> q" using Cons.prems(6) by auto
  obtain c1 p1 s1 where s1: "bridge_author_block C get_transfers h s = Ok s1"
      and b: "s1 = s\<lparr>br_handled := br_handled s @ List.map_filter transfer (utxos sc p p1), br_data_checkpoint := Some c1\<rparr>"
      "position c1 = Some p1" "p \<le> p1" "p1 \<le> q" "p1 = q \<or> length (utxos sc p p1) = unat (max_transfers_per_block C)"
    using block_serves [OF Cons.prems(1-5) q] by blast
  have later: "\<exists>q'. end_of h' = Some q' \<and> q \<le> q'" if "h' \<in> set hs" for h'
    using Cons.prems(6,7) that q(1) by fastforce
  then have later1: "\<forall>h \<in> set hs. \<exists>q'. end_of h = Some q' \<and> p1 \<le> q'" using b(4) by (meson order_trans)
  obtain s' c' p' where run: "bridge_run C get_transfers hs s1 = Ok s'" and IH: "br_main_chain_scripts s' = Some sc" "br_data_checkpoint s' = Some c'" "position c' = Some p'" "p1 \<le> p'"
      "br_handled s' = br_handled s1 @ List.map_filter transfer (utxos sc p1 p')" "hs \<noteq> [] \<longrightarrow> p' \<le> the (end_of (last hs))"
      "hs \<noteq> [] \<longrightarrow> the (end_of (hd hs)) \<le> p' \<or> length hs * unat (max_transfers_per_block C) \<le> length (utxos sc p1 p')"
    using Cons.IH [of s1 c1 p1] Cons.prems(1,2,4,7) b(1,2) later1 by auto
  have whole: "utxos sc p p' = utxos sc p p1 @ utxos sc p1 p'" using split [OF ok] b(3) IH(4) by simp
  have "q \<le> p' \<or> length (h # hs) * unat (max_transfers_per_block C) \<le> length (utxos sc p p')"
  proof (cases "p1 = q \<or> hs = []")
    case True
    then show ?thesis using IH(4) b(5) whole by auto
  next
    case False
    then have "q \<le> the (end_of (hd hs))" using later [of "hd hs"] by auto
    then show ?thesis using IH(7) False b(5) whole by auto
  qed
  moreover have "p' \<le> the (end_of (last (h # hs)))"
  proof (cases "hs = []")
    case True
    then show ?thesis using run b IH(2,3) q(1) by auto
  qed (use IH(6) in auto)
  ultimately show ?case using IH b q whole s1 run
    by (intro exI [of _ s'] exI [of _ c'] exI [of _ p']) (auto simp: List.map_filter_def)
qed

end

end
