(* ===== verification/Bridge_Source.thy ===== *)
theory Bridge_Source
  imports Bridge Plutus_Codecs Block_Source
begin

text \<open>
  The Db-Sync data sources of the token bridge, \<open>toolkit/data-sources/db-sync/src/bridge/mod.rs\<close> and, with a
  cache, \<open>bridge/cache.rs\<close>.

  The library that reads Plutus data is the parameter \<open>c\<close>, the conversion of the bytes of a receiver to a
  recipient the parameter \<open>recipient\<close>, and the result of \<open>get_tx_in_config\<close> the parameter \<open>cfg\<close>. The mutex
  of the cache is the one of the \<open>futures\<close> crate, which is not poisoned. The cached source returns the
  cache with its result.
\<close>

datatype bridge_source_error =
    BridgeSqlError sqlx_error
  | BridgeSource ds_error
  | BridgeBlockNotFound bytes
  | CheckpointNotFound utxo_id
  | CacheNotFilled

definition bridge_query :: "sqlx_error + 'a \<Rightarrow> (bridge_source_error, 'a) outcome" where
  "bridge_query r = (case r of Inl e \<Rightarrow> Err (BridgeSqlError e) | Inr a \<Rightarrow> Ok a)"

lemma bridge_query_simps [simp]: "bridge_query (Inr a) = Ok a" "bridge_query r = Ok a \<longleftrightarrow> r = Inr a"
  by (simp_all add: bridge_query_def split: sum.splits)

definition utxo_to_transfer :: "'pd csl \<Rightarrow> (bytes \<Rightarrow> 'r option) \<Rightarrow> 'pd bridge_utxo \<Rightarrow> 'r bridge_transfer option" where
  "utxo_to_transfer c recipient utxo = (case checked_sub (bu_tokens_out utxo) (bu_tokens_in utxo) of
       None \<Rightarrow> None
     | Some token_delta \<Rightarrow>
         if token_delta = 0 then None
         else let token_amount = ucast token_delta :: u64 in
           (case bu_datum utxo of
              None \<Rightarrow> Some (InvalidTransfer token_amount (bridge_utxo_id utxo))
            | Some datum \<Rightarrow> Some (case token_transfer_datum_decode c datum of
                  Inr (TokenTransferV1 (UserTransferDatum receiver)) \<Rightarrow>
                    (case recipient receiver of
                       Some recipient \<Rightarrow> UserTransfer token_amount recipient
                     | None \<Rightarrow> InvalidTransfer token_amount (bridge_utxo_id utxo))
                | Inr (TokenTransferV1 ReserveTransferDatum) \<Rightarrow> ReserveTransfer token_amount
                | Inl _ \<Rightarrow> InvalidTransfer token_amount (bridge_utxo_id utxo))))"

definition bridge_asset_id :: "bridge_scripts \<Rightarrow> asset" where
  "bridge_asset_id scripts = \<lparr>as_policy_id = token_policy_id scripts, as_asset_name = token_asset_name scripts\<rparr>"

definition resolve_checkpoint_for_utxo :: "'pd pg_pool \<Rightarrow> utxo_id \<Rightarrow> (bridge_source_error, resolved_bridge_data_checkpoint) outcome" where
  "resolve_checkpoint_for_utxo pool utxo =
     and_then (bridge_query (get_block_info_for_utxo pool (utxo_tx_hash utxo))) (\<lambda>info.
     and_then (checked (CheckpointNotFound utxo) info) (\<lambda>info.
       Ok (ResolvedUtxo (tbi_block_number info) (tbi_tx_ix info) (utxo_index utxo))))"

definition resolve_checkpoint :: "'pd pg_pool \<Rightarrow> bridge_data_checkpoint \<Rightarrow> (bridge_source_error, resolved_bridge_data_checkpoint) outcome" where
  "resolve_checkpoint pool checkpoint = (case checkpoint of
       UtxoCheckpoint utxo \<Rightarrow> resolve_checkpoint_for_utxo pool utxo
     | BlockCheckpoint number \<Rightarrow> Ok (ResolvedBlock number))"

definition new_checkpoint :: "u32 \<Rightarrow> u32 \<Rightarrow> 'pd bridge_utxo list \<Rightarrow> bridge_data_checkpoint" where
  "new_checkpoint max_transfers to_block utxos =
     (if utxos = [] then BlockCheckpoint to_block
      else if word_of_nat (length utxos) < max_transfers then BlockCheckpoint to_block
      else UtxoCheckpoint (bridge_utxo_id (last utxos)))"

definition db_get_transfers ::
  "'pd csl \<Rightarrow> (bytes \<Rightarrow> 'r option) \<Rightarrow> (ds_error, tx_in_configuration) outcome \<Rightarrow> 'pd pg_pool
     \<Rightarrow> bridge_scripts \<Rightarrow> bridge_data_checkpoint \<Rightarrow> u32 \<Rightarrow> bytes
     \<Rightarrow> (bridge_source_error, 'r bridge_transfer list \<times> bridge_data_checkpoint) outcome" where
  "db_get_transfers c recipient cfg pool scripts data_checkpoint max_transfers current_mc_block_hash =
     and_then (bridge_query (get_block_by_hash pool current_mc_block_hash)) (\<lambda>block.
     and_then (checked (BridgeBlockNotFound current_mc_block_hash) block) (\<lambda>current_mc_block.
     and_then (resolve_checkpoint pool data_checkpoint) (\<lambda>data_checkpoint.
     and_then (map_err BridgeSource cfg) (\<lambda>cfg.
     and_then (bridge_query (get_bridge_utxos_tx cfg pool (illiquid_circulation_supply_validator_address scripts)
         (bridge_asset_id scripts) data_checkpoint (db_block_no current_mc_block) (Some max_transfers))) (\<lambda>utxos.
       Ok (List.map_filter (utxo_to_transfer c recipient) utxos,
           new_checkpoint max_transfers (db_block_no current_mc_block) utxos))))))"

subsection \<open>The cached source\<close>

record 'pd token_utxo_cache =
  tuc_mc_scripts :: bridge_scripts
  tuc_start_block :: u32
  tuc_end_block :: u32
  tuc_transfers :: "'pd bridge_utxo list"
  tuc_utxo_cache :: "utxo_id \<rightharpoonup> 'pd bridge_utxo"

definition token_utxo_cache_new :: "'pd token_utxo_cache" where
  "token_utxo_cache_new = \<lparr>tuc_mc_scripts = \<lparr>token_policy_id = replicate 28 0, token_asset_name = [],
       illiquid_circulation_supply_validator_address = []\<rparr>,
     tuc_start_block = 0, tuc_end_block = 0, tuc_transfers = [], tuc_utxo_cache = Map.empty\<rparr>"

definition set_mc_scripts :: "bridge_scripts \<Rightarrow> 'pd token_utxo_cache \<Rightarrow> 'pd token_utxo_cache" where
  "set_mc_scripts mc_scripts cache =
     (if tuc_mc_scripts cache \<noteq> mc_scripts
      then cache\<lparr>tuc_mc_scripts := mc_scripts, tuc_transfers := [], tuc_start_block := 0, tuc_end_block := 0\<rparr>
      else cache)"

definition set_cached_transfers :: "u32 \<Rightarrow> u32 \<Rightarrow> 'pd bridge_utxo list \<Rightarrow> 'pd token_utxo_cache \<Rightarrow> 'pd token_utxo_cache" where
  "set_cached_transfers start_block end_block transfers cache = cache\<lparr>tuc_start_block := start_block,
     tuc_end_block := end_block, tuc_utxo_cache := map_of (rev (map (\<lambda>utxo. (bridge_utxo_id utxo, utxo)) transfers)),
     tuc_transfers := transfers\<rparr>"

definition skip_pred :: "'pd token_utxo_cache \<Rightarrow> resolved_bridge_data_checkpoint \<Rightarrow> ('pd bridge_utxo \<Rightarrow> bool) option" where
  "skip_pred cache checkpoint = (case checkpoint of
       ResolvedBlock number \<Rightarrow>
         if tuc_start_block cache \<le> saturating_add number 1 then Some (\<lambda>utxo. number \<ge> bu_block_number utxo) else None
     | ResolvedUtxo block_number tx_ix tx_out_ix \<Rightarrow>
         if tuc_start_block cache \<le> block_number
         then Some (\<lambda>utxo. bridge_ordering_key utxo \<le> (block_number, tx_ix, tx_out_ix)) else None)"

definition serve_from_cache ::
  "'pd token_utxo_cache \<Rightarrow> resolved_bridge_data_checkpoint \<Rightarrow> u32 \<Rightarrow> u32 \<Rightarrow> 'pd bridge_utxo list option" where
  "serve_from_cache cache checkpoint to_block max_transfers =
     (if tuc_end_block cache < to_block then None
      else map_option (\<lambda>skip. take (unat max_transfers)
        (takeWhile (\<lambda>utxo. to_block \<ge> bu_block_number utxo) (dropWhile skip (tuc_transfers cache)))) (skip_pred cache checkpoint))"

definition try_resolve_checkpoint_from_cache ::
  "'pd token_utxo_cache \<Rightarrow> utxo_id \<Rightarrow> resolved_bridge_data_checkpoint option" where
  "try_resolve_checkpoint_from_cache cache utxo_id = map_option (\<lambda>utxo.
     ResolvedUtxo (bu_block_number utxo) (bu_tx_ix utxo) (bu_utxo_ix utxo)) (tuc_utxo_cache cache utxo_id)"

definition resolve_data_checkpoint ::
  "'pd pg_pool \<Rightarrow> 'pd token_utxo_cache \<Rightarrow> bridge_data_checkpoint \<Rightarrow> (bridge_source_error, resolved_bridge_data_checkpoint) outcome" where
  "resolve_data_checkpoint pool cache data_checkpoint = (case data_checkpoint of
       BlockCheckpoint number \<Rightarrow> Ok (ResolvedBlock number)
     | UtxoCheckpoint utxo \<Rightarrow>
         (case try_resolve_checkpoint_from_cache cache utxo of
            Some checkpoint \<Rightarrow> Ok checkpoint
          | None \<Rightarrow> resolve_checkpoint_for_utxo pool utxo))"

text \<open>The time of the latest block, in seconds, is passed on as milliseconds.\<close>

definition get_latest_stable_block :: "block_data_source \<Rightarrow> 'pd pg_pool \<Rightarrow> (bridge_source_error, u32 option) outcome" where
  "get_latest_stable_block S pool = map_err BridgeSource (
     and_then (bds_get_latest_block_info pool) (\<lambda>latest.
     and_then (bds_get_latest_stable_block_for S pool (mb_timestamp latest)) (\<lambda>block. Ok (map_option mb_number block))))"

definition bridge_fill_cache ::
  "(ds_error, tx_in_configuration) outcome \<Rightarrow> block_data_source \<Rightarrow> u32 \<Rightarrow> 'pd pg_pool \<Rightarrow> bridge_scripts
     \<Rightarrow> resolved_bridge_data_checkpoint \<Rightarrow> u32 \<Rightarrow> 'pd token_utxo_cache \<Rightarrow> (bridge_source_error, 'pd token_utxo_cache) outcome" where
  "bridge_fill_cache cfg S cache_lookahead pool scripts data_checkpoint to_block cache =
     (let from_block = get_block_number data_checkpoint;
          effective_data_checkpoint = ResolvedBlock (saturating_sub from_block 1)
      in and_then (get_latest_stable_block S pool) (\<lambda>latest_block.
        let latest_block = (case latest_block of Some b \<Rightarrow> b | None \<Rightarrow> to_block);
            to_block = min (saturating_add to_block cache_lookahead) latest_block
        in and_then (map_err BridgeSource cfg) (\<lambda>cfg.
           and_then (bridge_query (get_bridge_utxos_tx cfg pool (illiquid_circulation_supply_validator_address scripts)
             (bridge_asset_id scripts) effective_data_checkpoint to_block None)) (\<lambda>utxos.
             Ok (set_cached_transfers from_block to_block utxos cache)))))"

definition cached_new_checkpoint :: "u32 \<Rightarrow> u32 \<Rightarrow> 'pd bridge_utxo list \<Rightarrow> bridge_data_checkpoint" where
  "cached_new_checkpoint max_transfers to_block utxos =
     (if utxos \<noteq> [] \<and> word_of_nat (length utxos) \<ge> max_transfers
      then UtxoCheckpoint (bridge_utxo_id (last utxos)) else BlockCheckpoint to_block)"

definition bridge_block_by_hash :: "'pd pg_pool \<Rightarrow> blocks_cache \<Rightarrow> bytes \<Rightarrow> (bridge_source_error, mainchain_block) outcome" where
  "bridge_block_by_hash pool blocks h =
     and_then (map_err BridgeSource (bds_get_block_by_hash pool h blocks)) (checked (BridgeBlockNotFound h))"

definition cached_utxos ::
  "(ds_error, tx_in_configuration) outcome \<Rightarrow> block_data_source \<Rightarrow> u32 \<Rightarrow> 'pd pg_pool \<Rightarrow> bridge_scripts
     \<Rightarrow> resolved_bridge_data_checkpoint \<Rightarrow> u32 \<Rightarrow> u32 \<Rightarrow> 'pd token_utxo_cache
     \<Rightarrow> (bridge_source_error, 'pd bridge_utxo list) outcome \<times> 'pd token_utxo_cache" where
  "cached_utxos cfg S cache_lookahead pool scripts checkpoint to_block max_transfers cache =
     (case serve_from_cache cache checkpoint to_block max_transfers of
        Some utxos \<Rightarrow> (Ok utxos, cache)
      | None \<Rightarrow>
          (case bridge_fill_cache cfg S cache_lookahead pool scripts checkpoint to_block cache of
             Err e \<Rightarrow> (Err e, cache) | Panic p \<Rightarrow> (Panic p, cache)
           | Ok cache \<Rightarrow> (checked CacheNotFilled (serve_from_cache cache checkpoint to_block max_transfers), cache)))"

definition cached_get_transfers ::
  "'pd csl \<Rightarrow> (bytes \<Rightarrow> 'r option) \<Rightarrow> (ds_error, tx_in_configuration) outcome \<Rightarrow> block_data_source \<Rightarrow> u32 \<Rightarrow> 'pd pg_pool \<Rightarrow> blocks_cache
     \<Rightarrow> bridge_scripts \<Rightarrow> bridge_data_checkpoint \<Rightarrow> u32 \<Rightarrow> bytes \<Rightarrow> 'pd token_utxo_cache
     \<Rightarrow> (bridge_source_error, 'r bridge_transfer list \<times> bridge_data_checkpoint) outcome \<times> 'pd token_utxo_cache" where
  "cached_get_transfers c recipient cfg S cache_lookahead pool blocks scripts data_checkpoint max_transfers current_mc_block_hash cache =
     (let cache = set_mc_scripts scripts cache in
      case and_then (bridge_block_by_hash pool blocks current_mc_block_hash) (\<lambda>block.
           and_then (resolve_data_checkpoint pool cache data_checkpoint) (\<lambda>checkpoint. Ok (mb_number block, checkpoint))) of
        Err e \<Rightarrow> (Err e, cache) | Panic p \<Rightarrow> (Panic p, cache)
      | Ok (to_block, checkpoint) \<Rightarrow>
          (let (utxos, cache) = cached_utxos cfg S cache_lookahead pool scripts checkpoint to_block max_transfers cache in
           (and_then utxos (\<lambda>utxos. Ok (List.map_filter (utxo_to_transfer c recipient) utxos,
              cached_new_checkpoint max_transfers to_block utxos)), cache)))"

subsection \<open>The UTXOs of the bridge\<close>

text \<open>All the outputs at the address of the bridge that hold its token, in the order of the chain.\<close>

definition bridge_sources_where ::
  "(utxo_ordering_key \<Rightarrow> bool) \<Rightarrow> bytes \<Rightarrow> asset \<Rightarrow> 'pd db_tables \<Rightarrow> (tx_out_row \<times> tx_row \<times> u32 \<times> ma_tx_out_row \<times> 'pd option) list" where
  "bridge_sources_where P icp_address native_token db =
     [(o', t, n, ma, map_option datum_value_col d).
        o' \<leftarrow> tx_out_table db, (t, b) \<leftarrow> tx_and_block db (out_tx_id o'), Some n \<leftarrow> [block_no_col b],
        ma \<leftarrow> asset_rows db native_token o',
        d \<leftarrow> left_join (datum_table db) (\<lambda>d. Some (datum_hash_col d) = out_data_hash o'),
        out_address o' = icp_address \<and> P (n, tx_block_index t, out_index o')]"

lemma bridge_sources_eq:
  "bridge_sources icp_address native_token checkpoint to_block db
    = bridge_sources_where (\<lambda>k. fst k \<le> to_block \<and> after_checkpoint checkpoint k) icp_address native_token db"
  unfolding bridge_sources_def bridge_sources_where_def fst_conv ..

lemma bridge_sources_where_filter:
  "bridge_sources_where P icp_address native_token db
    = filter (\<lambda>(o', t, n, ma, d). P (n, tx_block_index t, out_index o')) (bridge_sources_where (\<lambda>_. True) icp_address native_token db)"
  unfolding bridge_sources_where_def filter_concat map_map comp_def
  by (auto simp: filter_concat comp_def intro!: arg_cong [of _ _ concat] map_cong split: option.splits)

lemma group_sums_filter:
  assumes "\<And>s. s \<in> set srcs \<Longrightarrow> qs s \<noteq> []"
  shows "group_sums key qs (filter (Q \<circ> key) srcs) = filter (Q \<circ> fst) (group_sums key qs srcs)"
proof -
  have "filter (\<lambda>s. key s = k) (filter (Q \<circ> key) srcs) = filter (\<lambda>s. key s = k) srcs" if "Q k" for k
    using that by (induction srcs) auto
  moreover have "remdups (map key (filter (Q \<circ> key) srcs)) = filter Q (remdups (map key srcs))"
    by (metis filter_map remdups_filter)
  ultimately show ?thesis
    using assms by (subst (1 2) group_sums_eq) (auto simp: filter_map comp_def)
qed

type_synonym 'pd bridge_row = "(bytes \<times> nat \<times> nat \<times> 'pd option \<times> u32 \<times> u32 \<times> u16) \<times> nat"

definition row_key :: "'pd bridge_row \<Rightarrow> utxo_ordering_key" where
  "row_key = (\<lambda>((_, _, _, _, n, ti, ix), _). (n, ti, ix))"

definition row_utxo :: "'pd bridge_row \<Rightarrow> 'pd bridge_utxo" where
  "row_utxo = (\<lambda>((h, _, quantity, d, n, ti, ix), q). \<lparr>bu_block_number = n, bu_tx_ix = ti, bu_tx_hash = h, bu_utxo_ix = ix,
     bu_tokens_out = word_of_nat quantity, bu_tokens_in = word_of_nat q, bu_datum = d\<rparr>)"

definition row_amounts_ok :: "'pd bridge_row \<Rightarrow> bool" where
  "row_amounts_ok = (\<lambda>((_, _, quantity, _), q). quantity < 2 ^ 128 \<and> q < 2 ^ 128)"

definition bridge_rows :: "'pd db_tables \<Rightarrow> bridge_scripts \<Rightarrow> 'pd bridge_row list" where
  "bridge_rows db scripts = (let address = illiquid_circulation_supply_validator_address scripts in
     sort_key row_key (group_sums bridge_key
       (\<lambda>(o', t, n, ma, d). input_quantities db (ma_ident ma) (bridge_inputs_consumed db address (tx_id t)))
       (bridge_sources_where (\<lambda>_. True) address (bridge_asset_id scripts) db)))"

definition bridge_utxos :: "'pd db_tables \<Rightarrow> bridge_scripts \<Rightarrow> 'pd bridge_utxo list" where
  "bridge_utxos db scripts = map row_utxo (bridge_rows db scripts)"

text \<open>
  A database on which the sources can be relied on: transactions are identified by their hash and blocks by
  their id, an output is one row, its amounts are 128 bit numbers, and the two records of spending agree
  when the \<open>tx_in\<close> table is used.
\<close>

definition bridge_db_ok :: "tx_in_configuration \<Rightarrow> 'pd db_tables \<Rightarrow> bridge_scripts \<Rightarrow> bool" where
  "bridge_db_ok cfg db scripts \<longleftrightarrow> (cfg = Enabled \<longrightarrow> db_consistent db)
     \<and> distinct (map tx_hash_col (tx_table db)) \<and> distinct (map block_id (block_table db))
     \<and> distinct (map row_key (bridge_rows db scripts)) \<and> list_all row_amounts_ok (bridge_rows db scripts)"

lemma bridge_query_rows:
  assumes "list_all row_amounts_ok (bridge_rows db scripts)"
  shows "bridge_utxos_query (bridge_inputs_consumed db (illiquid_circulation_supply_validator_address scripts))
      (illiquid_circulation_supply_validator_address scripts) (bridge_asset_id scripts) checkpoint to_block max_utxos db
    = map Inr ((case max_utxos of None \<Rightarrow> id | Some m \<Rightarrow> take (unat m))
        (filter (\<lambda>u. bu_block_number u \<le> to_block \<and> after_checkpoint checkpoint (bridge_ordering_key u)) (bridge_utxos db scripts)))"
proof -
  let ?P = "\<lambda>k. fst k \<le> to_block \<and> after_checkpoint checkpoint k"
  let ?address = "illiquid_circulation_supply_validator_address scripts"
  let ?qs = "\<lambda>(o', t, n, ma, d). input_quantities db (ma_ident ma) (bridge_inputs_consumed db ?address (tx_id t))"
  let ?all = "bridge_sources_where (\<lambda>_. True) ?address (bridge_asset_id scripts) db"
  let ?dec = "\<lambda>((h, _, quantity, d, n, ti, ix), q). (case (decode_amount quantity, decode_amount q) of
      (Some out, Some inp) \<Rightarrow> Inr \<lparr>bu_block_number = n, bu_tx_ix = ti, bu_tx_hash = h, bu_utxo_ix = ix,
        bu_tokens_out = out, bu_tokens_in = inp, bu_datum = d\<rparr> | _ \<Rightarrow> Inl ColumnDecode)"
  have key: "(\<lambda>(o', t, n, ma, d). ?P (n, tx_block_index t, out_index o')) = (\<lambda>(_, _, _, _, k). ?P k) \<circ> bridge_key"
    by (auto simp: bridge_key_def fun_eq_iff)
  have ne: "?qs s \<noteq> []" for s by (simp add: split_def input_quantities_ne bridge_inputs_ne)
  have "sort_key row_key (group_sums bridge_key ?qs (filter (\<lambda>(o', t, n, ma, d). ?P (n, tx_block_index t, out_index o')) ?all))
      = filter (?P \<circ> row_key) (bridge_rows db scripts)"
    unfolding key group_sums_filter [OF ne] bridge_rows_def Let_def filter_sort
    by (simp add: row_key_def comp_def split_def)
  then have rows: "sort_key row_key (group_sums bridge_key ?qs (bridge_sources ?address (bridge_asset_id scripts) checkpoint to_block db))
      = filter (?P \<circ> row_key) (bridge_rows db scripts)"
    unfolding bridge_sources_eq by (subst bridge_sources_where_filter)
  have dec: "?dec r = Inr (row_utxo r)" if "r \<in> set (bridge_rows db scripts)" for r
    using that assms by (auto simp: list_all_iff row_amounts_ok_def row_utxo_def decode_amount_def split: prod.splits)
  have utxo: "?P (row_key r) \<longleftrightarrow> bu_block_number (row_utxo r) \<le> to_block \<and> after_checkpoint checkpoint (bridge_ordering_key (row_utxo r))" for r
    by (simp add: row_key_def row_utxo_def bridge_ordering_key_def split: prod.splits)
  have "map ?dec (filter (?P \<circ> row_key) (bridge_rows db scripts)) = map Inr (map row_utxo (filter (?P \<circ> row_key) (bridge_rows db scripts)))"
    using dec by simp
  also have "map row_utxo (filter (?P \<circ> row_key) (bridge_rows db scripts))
      = filter (\<lambda>u. bu_block_number u \<le> to_block \<and> after_checkpoint checkpoint (bridge_ordering_key u)) (bridge_utxos db scripts)"
    unfolding bridge_utxos_def filter_map by (intro arg_cong [of _ _ "map row_utxo"] filter_cong) (simp_all add: utxo)
  finally have "map ?dec (filter (?P \<circ> row_key) (bridge_rows db scripts)) = map Inr (filter (\<lambda>u. bu_block_number u \<le> to_block
      \<and> after_checkpoint checkpoint (bridge_ordering_key u)) (bridge_utxos db scripts))" .
  then show ?thesis
    unfolding bridge_query_sums row_key_def [symmetric] rows Let_def by (cases max_utxos) (simp_all add: take_map [symmetric])
qed

lemma bridge_utxos_found:
  assumes "bridge_db_ok cfg db scripts"
  shows "get_bridge_utxos_tx cfg (Inr db) (illiquid_circulation_supply_validator_address scripts) (bridge_asset_id scripts) checkpoint to_block max_utxos
    = Inr ((case max_utxos of None \<Rightarrow> id | Some m \<Rightarrow> take (unat m))
        (filter (\<lambda>u. bu_block_number u \<le> to_block \<and> after_checkpoint checkpoint (bridge_ordering_key u)) (bridge_utxos db scripts)))"
proof -
  have ok: "list_all row_amounts_ok (bridge_rows db scripts)" "cfg = Enabled \<longrightarrow> db_consistent db"
    using assms by (simp_all add: bridge_db_ok_def)
  then show ?thesis
    by (cases cfg) (simp_all add: get_bridge_utxos_tx_def fetch_all_def bridge_query_agree bridge_query_rows decode_rows_map)
qed

lemma row_utxo_key: "bridge_ordering_key (row_utxo r) = row_key r"
  by (simp add: bridge_ordering_key_def row_utxo_def row_key_def split: prod.splits)

lemma bridge_utxos_ordered:
  assumes "bridge_db_ok cfg db scripts"
  shows "sorted_wrt (<) (map bridge_ordering_key (bridge_utxos db scripts))"
proof -
  have "map bridge_ordering_key (bridge_utxos db scripts) = map row_key (bridge_rows db scripts)"
    by (simp add: bridge_utxos_def row_utxo_key)
  moreover have "sorted (map row_key (bridge_rows db scripts))" by (simp add: bridge_rows_def Let_def)
  ultimately show ?thesis using assms by (simp add: strict_sorted_iff bridge_db_ok_def)
qed

lemma group_sums_keys: "fst ` set (group_sums key qs srcs) \<subseteq> key ` set srcs"
  by (auto simp: group_sums_def group_by_def)

lemma join_filter:
  "[f t b. t \<leftarrow> ts, b \<leftarrow> bs, P b t, Q t] = [f t b. t \<leftarrow> filter Q ts, b \<leftarrow> filter (\<lambda>b. P b t) bs]"
proof -
  have "[f t b. b \<leftarrow> bs, P b t, Q t] = (if Q t then map (f t) (filter (\<lambda>b. P b t) bs) else [])" for t
    by (induction bs) auto
  then show ?thesis by (induction ts) auto
qed

lemma bridge_utxo_info:
  assumes ok: "bridge_db_ok cfg db scripts" and u: "u \<in> set (bridge_utxos db scripts)"
  shows "get_block_info_for_utxo (Inr db) (bu_tx_hash u) = Inr (Some \<lparr>tbi_block_number = bu_block_number u, tbi_tx_ix = bu_tx_ix u\<rparr>)"
proof -
  let ?address = "illiquid_circulation_supply_validator_address scripts"
  let ?srcs = "bridge_sources_where (\<lambda>_. True) ?address (bridge_asset_id scripts) db"
  obtain r where r: "r \<in> set (bridge_rows db scripts)" "u = row_utxo r" using u by (auto simp: bridge_utxos_def)
  then have "fst r \<in> bridge_key ` set ?srcs"
    using group_sums_keys by (fastforce simp: bridge_rows_def Let_def)
  then obtain o' t n ma d where mem: "(o', t, n, ma, d) \<in> set ?srcs" and key: "fst r = bridge_key (o', t, n, ma, d)" by auto
  then obtain b where src: "(t, b) \<in> set (tx_and_block db (out_tx_id o'))" "block_no_col b = Some n"
    by (auto simp: bridge_sources_where_def split: option.splits if_splits)
  then have tb: "t \<in> set (tx_table db)" "b \<in> set (block_table db)" "tx_block_id t = block_id b" by (auto simp: tx_and_block_def)
  have utxo: "bu_tx_hash u = tx_hash_col t" "bu_block_number u = n" "bu_tx_ix u = tx_block_index t"
    using r(2) key by (auto simp: row_utxo_def bridge_key_def split: prod.splits)
  have txs: "[t' \<leftarrow> tx_table db. tx_hash_col t' = tx_hash_col t] = [t]"
    using ok tb(1) by (intro filter_distinct_key) (simp_all add: bridge_db_ok_def)
  have blocks: "[b' \<leftarrow> block_table db. block_id b' = block_id b] = [b]"
    using ok tb(2) by (intro filter_distinct_key) (simp_all add: bridge_db_ok_def)
  show ?thesis
    unfolding get_block_info_for_utxo_def fetch_optional_def utxo(1)
    by (simp add: join_filter utxo txs tb(3) blocks src(2))
qed

subsection \<open>Positions\<close>

definition key_nat :: "utxo_ordering_key \<Rightarrow> nat \<times> nat \<times> nat" where
  "key_nat k = (unat (fst k), unat (fst (snd k)), unat (snd (snd k)))"

definition bound :: "resolved_bridge_data_checkpoint \<Rightarrow> nat \<times> nat \<times> nat" where
  "bound c = (case c of
       ResolvedBlock n \<Rightarrow> (unat n + 1, 0, 0)
     | ResolvedUtxo n t i \<Rightarrow> (unat n, unat t, unat i + 1))"

lemma after_checkpoint_bound: "after_checkpoint c k \<longleftrightarrow> bound c \<le> key_nat k"
  by (cases k; cases c) (auto simp: after_checkpoint_def bound_def key_nat_def less_prod_def' less_eq_prod_def word_less_nat_alt word_unat_eq_iff)

lemma key_nat_less: "key_nat j < key_nat k \<longleftrightarrow> j < k"
  by (cases j; cases k) (auto simp: key_nat_def less_prod_def' word_less_nat_alt word_unat_eq_iff)

lemma block_bound: "fst k \<le> to \<longleftrightarrow> key_nat k < bound (ResolvedBlock to)"
  by (cases k) (auto simp: bound_def key_nat_def less_prod_def' word_le_nat_alt)

definition utxos_between :: "'pd bridge_utxo list \<Rightarrow> nat \<times> nat \<times> nat \<Rightarrow> nat \<times> nat \<times> nat \<Rightarrow> 'pd bridge_utxo list" where
  "utxos_between us p q = filter (\<lambda>u. p \<le> key_nat (bridge_ordering_key u) \<and> key_nat (bridge_ordering_key u) < q) us"

lemma utxos_between_split:
  assumes "sorted_wrt (<) (map bridge_ordering_key us)" and "p \<le> q" and "q \<le> r"
  shows "utxos_between us p q @ utxos_between us q r = utxos_between us p r"
  using assms(1)
proof (induction us)
  case (Cons u us)
  let ?k = "\<lambda>u. key_nat (bridge_ordering_key u)"
  have IH: "utxos_between us p q @ utxos_between us q r = utxos_between us p r" using Cons by simp
  have "utxos_between us p q = []" if "q \<le> ?k u"
  proof -
    have "q < ?k v" if "v \<in> set us" for v
      using Cons.prems \<open>q \<le> ?k u\<close> that key_nat_less [of "bridge_ordering_key u" "bridge_ordering_key v"] by (auto intro: le_less_trans)
    then show ?thesis by (auto simp: utxos_between_def filter_empty_conv dest: less_asym)
  qed
  then show ?case using IH assms(2,3) by (auto simp: utxos_between_def not_less not_le)
qed (simp add: utxos_between_def)

lemma utxos_between_query:
  "filter (\<lambda>u. bu_block_number u \<le> to \<and> after_checkpoint c (bridge_ordering_key u)) us = utxos_between us (bound c) (bound (ResolvedBlock to))"
  by (auto simp: utxos_between_def after_checkpoint_bound block_bound [symmetric] bridge_ordering_key_def intro: filter_cong)

lemma filter_le_last:
  fixes f :: "'a \<Rightarrow> 'b::linorder"
  assumes "sorted_wrt (<) (map f (ys @ zs))" and "ys \<noteq> []"
  shows "filter (\<lambda>v. f v \<le> f (last ys)) (ys @ zs) = ys"
proof (cases ys rule: rev_cases)
  case (snoc ws l)
  have "filter (\<lambda>v. f v \<le> f l) ws = ws" using assms(1) by (auto simp: snoc sorted_wrt_append filter_id_conv intro: less_imp_le)
  moreover have "filter (\<lambda>v. f v \<le> f l) zs = []" using assms(1) by (auto simp: snoc sorted_wrt_append filter_empty_conv not_le)
  ultimately show ?thesis by (simp add: snoc)
qed (use assms in simp)

text \<open>Stopping after the first UTXOs is stopping after the last one of them.\<close>

lemma take_as_between:
  assumes "sorted_wrt (<) (map bridge_ordering_key us)" and "take n (utxos_between us p q) \<noteq> []"
    and "u = last (take n (utxos_between us p q))"
  defines "p' \<equiv> bound (ResolvedUtxo (bu_block_number u) (bu_tx_ix u) (bu_utxo_ix u))"
  shows "utxos_between us p p' = take n (utxos_between us p q)" "p \<le> p'" "p' \<le> q"
proof -
  let ?k = "\<lambda>u. key_nat (bridge_ordering_key u)" and ?xs = "utxos_between us p q"
  have p': "j < p' \<longleftrightarrow> j \<le> ?k u" for j :: "nat \<times> nat \<times> nat"
    by (cases j) (auto simp: p'_def bound_def key_nat_def bridge_ordering_key_def less_prod_def' less_eq_prod_def)
  have "u \<in> set ?xs" using assms(2,3) by (metis in_set_takeD last_in_set)
  then have u: "p \<le> ?k u" "?k u < q" by (auto simp: utxos_between_def)
  show "p \<le> p'" using u(1) p' by (meson less_imp_le)
  show q: "p' \<le> q" using u(2) p' by (meson not_le)
  have "sorted_wrt (<) (map bridge_ordering_key ?xs)"
    using sorted_wrt_map [of "(<)" bridge_ordering_key us] assms(1)
    by (simp add: utxos_between_def sorted_wrt_map sorted_wrt_filter)
  then have "sorted_wrt (<) (map ?k (take n ?xs @ drop n ?xs))" by (simp add: sorted_wrt_map key_nat_less)
  then have "filter (\<lambda>v. ?k v \<le> ?k u) (take n ?xs @ drop n ?xs) = take n ?xs"
    unfolding assms(3) by (rule filter_le_last) (rule assms(2))
  moreover have "utxos_between us p p' = filter (\<lambda>v. ?k v \<le> ?k u) ?xs"
    using u(2) by (auto simp: utxos_between_def p' intro!: filter_cong)
  ultimately show "utxos_between us p p' = take n ?xs" by simp
qed

subsection \<open>The source without a cache keeps the contract\<close>

definition db_bridge_source ::
  "'pd csl \<Rightarrow> (bytes \<Rightarrow> 'r option) \<Rightarrow> tx_in_configuration \<Rightarrow> 'pd db_tables \<Rightarrow> ('r, bytes, bridge_source_error + panic) bridge_data_source" where
  "db_bridge_source c recipient cfg db scripts checkpoint max_transfers h
     = to_result (db_get_transfers c recipient (Ok cfg) (Inr db) scripts checkpoint max_transfers h)"

definition db_position :: "'pd db_tables \<Rightarrow> bridge_data_checkpoint \<Rightarrow> (nat \<times> nat \<times> nat) option" where
  "db_position db checkpoint = (case resolve_checkpoint (Inr db) checkpoint of Ok r \<Rightarrow> Some (bound r) | _ \<Rightarrow> None)"

definition db_end_of :: "'pd db_tables \<Rightarrow> bytes \<Rightarrow> (nat \<times> nat \<times> nat) option" where
  "db_end_of db h = (case get_block_by_hash (Inr db) h of Inr (Some b) \<Rightarrow> Some (bound (ResolvedBlock (db_block_no b))) | _ \<Rightarrow> None)"

lemma db_get_transfers_Ok:
  assumes "bridge_db_ok cfg db scripts" and "get_block_by_hash (Inr db) h = Inr (Some b)" and "resolve_checkpoint (Inr db) c = Ok r"
  shows "db_get_transfers lib recipient (Ok cfg) (Inr db) scripts c m h =
    (let us = take (unat m) (utxos_between (bridge_utxos db scripts) (bound r) (bound (ResolvedBlock (db_block_no b))))
     in Ok (List.map_filter (utxo_to_transfer lib recipient) us, new_checkpoint m (db_block_no b) us))"
  by (simp add: db_get_transfers_def assms(2,3) bridge_utxos_found [OF assms(1)] utxos_between_query Let_def)

lemma db_get_transfers_cases:
  assumes "db_get_transfers lib recipient (Ok cfg) (Inr db) scripts c m h = Ok a"
  obtains b r where "get_block_by_hash (Inr db) h = Inr (Some b)" "resolve_checkpoint (Inr db) c = Ok r"
  using assms by (auto simp: db_get_transfers_def and_then_eq_Ok checked_def split: option.splits)

lemma word_of_nat_less_iff: "n \<le> unat m \<Longrightarrow> word_of_nat n < m \<longleftrightarrow> n < unat m"
  for m :: "'w::len word"
  by (metis le_unat_uoi word_less_nat_alt)

lemma resolve_bridge_utxo:
  assumes "bridge_db_ok cfg db scripts" and "u \<in> set (bridge_utxos db scripts)"
  shows "resolve_checkpoint_for_utxo (Inr db) (bridge_utxo_id u) = Ok (ResolvedUtxo (bu_block_number u) (bu_tx_ix u) (bu_utxo_ix u))"
  by (simp add: resolve_checkpoint_for_utxo_def bridge_utxo_id_def bridge_utxo_info [OF assms])

text \<open>The new checkpoint is the end of what has been served.\<close>

lemma new_checkpoint_position:
  assumes ok: "bridge_db_ok cfg db scripts" and p: "p \<le> bound (ResolvedBlock n)" and m: "0 < m"
  defines "all \<equiv> utxos_between (bridge_utxos db scripts) p (bound (ResolvedBlock n))"
  defines "us \<equiv> take (unat m) all"
  shows "\<exists>p'. db_position db (new_checkpoint m n us) = Some p' \<and> p \<le> p' \<and> p' \<le> bound (ResolvedBlock n)
    \<and> utxos_between (bridge_utxos db scripts) p p' = us \<and> (p' = bound (ResolvedBlock n) \<or> length us = unat m)"
proof (cases "length us < unat m")
  case True
  then have "us = all" by (simp add: us_def)
  moreover have "new_checkpoint m n us = BlockCheckpoint n"
    using True by (simp add: new_checkpoint_def word_of_nat_less_iff)
  ultimately show ?thesis using p by (simp add: db_position_def resolve_checkpoint_def all_def)
next
  case False
  then have len: "length us = unat m" by (simp add: us_def)
  then have ne: "us \<noteq> []" using m by (auto simp: word_less_nat_alt)
  have "last us \<in> set (bridge_utxos db scripts)"
    using last_in_set [OF ne] by (auto simp: us_def all_def utxos_between_def dest: in_set_takeD)
  moreover have "new_checkpoint m n us = UtxoCheckpoint (bridge_utxo_id (last us))"
    using ne len by (simp add: new_checkpoint_def)
  moreover note take_as_between [OF bridge_utxos_ordered [OF ok] ne [unfolded us_def all_def] refl]
  ultimately show ?thesis using len
    by (simp add: db_position_def resolve_checkpoint_def resolve_bridge_utxo [OF ok] us_def all_def)
qed

interpretation db_bridge: bridge_source "db_bridge_source c recipient cfg db" "db_position db" "db_end_of db"
  "\<lambda>scripts. utxos_between (bridge_utxos db scripts)" "utxo_to_transfer c recipient" "bridge_db_ok cfg db"
proof
  show "\<exists>ts c'. db_bridge_source c recipient cfg db sc cp m h = Inr (ts, c')"
    if "bridge_db_ok cfg db sc" "db_position db cp = Some p" "db_end_of db h = Some q" for sc cp m h p q
    using that
    by (auto simp: db_bridge_source_def db_position_def db_end_of_def Let_def db_get_transfers_Ok [OF that(1)]
        split: outcome.splits sum.splits option.splits)
  show "utxos_between (bridge_utxos db sc) p q @ utxos_between (bridge_utxos db sc) q r = utxos_between (bridge_utxos db sc) p r"
    if "bridge_db_ok cfg db sc" "p \<le> q" "q \<le> r" for sc p q r
    using that by (intro utxos_between_split bridge_utxos_ordered)
  fix sc cp m h ts c' p q
  assume ok: "bridge_db_ok cfg db sc" and res: "db_bridge_source c recipient cfg db sc cp m h = Inr (ts, c')"
    and p: "db_position db cp = Some p" and q: "db_end_of db h = Some q" and pq: "p \<le> q" and m: "0 < m"
  obtain b r where b: "get_block_by_hash (Inr db) h = Inr (Some b)" and r: "resolve_checkpoint (Inr db) cp = Ok r"
    using res by (auto simp: db_bridge_source_def elim!: db_get_transfers_cases)
  have pq': "p = bound r" "q = bound (ResolvedBlock (db_block_no b))" using p q by (simp_all add: db_position_def db_end_of_def b r)
  let ?us = "take (unat m) (utxos_between (bridge_utxos db sc) p q)"
  have "ts = List.map_filter (utxo_to_transfer c recipient) ?us" "c' = new_checkpoint m (db_block_no b) ?us"
    using res by (simp_all add: db_bridge_source_def db_get_transfers_Ok [OF ok b r] Let_def pq')
  moreover obtain p' where "db_position db (new_checkpoint m (db_block_no b) ?us) = Some p'" "p \<le> p'" "p' \<le> q"
      "utxos_between (bridge_utxos db sc) p p' = ?us" "p' = q \<or> length ?us = unat m"
    using new_checkpoint_position [OF ok pq [unfolded pq'(2)] m] unfolding pq'(2) by blast
  ultimately show "\<exists>p'. db_position db c' = Some p' \<and> p \<le> p' \<and> p' \<le> q
      \<and> ts = List.map_filter (utxo_to_transfer c recipient) (utxos_between (bridge_utxos db sc) p p')
      \<and> length (utxos_between (bridge_utxos db sc) p p') \<le> unat m
      \<and> (p' = q \<or> length (utxos_between (bridge_utxos db sc) p p') = unat m)"
    by (intro exI [of _ p']) simp
qed

subsection \<open>The cached source serves the same UTXOs\<close>

lemma saturating_add_le: "a \<le> saturating_add a b"
  for a b :: "'w::len word"
proof (cases "unat a + unat b < 2 ^ LENGTH('w)")
  case True
  then show ?thesis by (simp add: saturating_add_def word_le_nat_alt unat_add_nowrap)
qed (simp add: saturating_add_def)

lemma saturating_add_next: "n < b \<Longrightarrow> saturating_add n 1 \<le> b"
  for n b :: u32
proof -
  assume n: "n < b"
  have "unat b < 2 ^ 32" using unsigned_less [of b, where 'a = nat] by simp
  then have "unat n + unat (1 :: u32) < 2 ^ LENGTH(32)" using n by (simp add: word_less_nat_alt)
  then show ?thesis using n by (simp add: saturating_add_def word_le_nat_alt unat_add_nowrap word_less_nat_alt)
qed

lemma takeWhile_sorted:
  fixes f :: "'a \<Rightarrow> 'b::linorder"
  assumes "sorted_wrt (<) (map f xs)" and "\<And>x y. f x < f y \<Longrightarrow> P y \<Longrightarrow> P x"
  shows "takeWhile P xs = filter P xs" "dropWhile P xs = filter (\<lambda>x. \<not> P x) xs"
proof -
  have "takeWhile P xs = filter P xs \<and> dropWhile P xs = filter (\<lambda>x. \<not> P x) xs"
    using assms(1)
  proof (induction xs)
    case (Cons x xs)
    have "\<not> P y" if "\<not> P x" "y \<in> set xs" for y using Cons.prems that assms(2) [of x y] by auto
    then show ?case using Cons by (auto simp: filter_empty_conv filter_id_conv)
  qed simp
  then show "takeWhile P xs = filter P xs" "dropWhile P xs = filter (\<lambda>x. \<not> P x) xs" by simp_all
qed

text \<open>
  A cache that can be relied on: it has just been reset, or it holds all the UTXOs of its range of blocks;
  and the UTXOs it knows by id are where the database has them.
\<close>

definition bridge_cache_inv :: "'pd db_tables \<Rightarrow> 'pd token_utxo_cache \<Rightarrow> bool" where
  "bridge_cache_inv db cache \<longleftrightarrow>
     (tuc_start_block cache = 0 \<and> tuc_end_block cache = 0 \<and> tuc_transfers cache = []
      \<or> tuc_transfers cache = filter (\<lambda>u. tuc_start_block cache \<le> bu_block_number u \<and> bu_block_number u \<le> tuc_end_block cache)
          (bridge_utxos db (tuc_mc_scripts cache)))
   \<and> (\<forall>i u. tuc_utxo_cache cache i = Some u \<longrightarrow>
        resolve_checkpoint_for_utxo (Inr db) i = Ok (ResolvedUtxo (bu_block_number u) (bu_tx_ix u) (bu_utxo_ix u)))"

definition no_utxo_in_block_0 :: "'pd db_tables \<Rightarrow> bridge_scripts \<Rightarrow> bool" where
  "no_utxo_in_block_0 db scripts \<longleftrightarrow> (\<forall>u \<in> set (bridge_utxos db scripts). bu_block_number u \<noteq> 0)"

lemma cache_transfers:
  assumes "bridge_cache_inv db cache" and "no_utxo_in_block_0 db (tuc_mc_scripts cache)"
  shows "tuc_transfers cache = filter (\<lambda>u. tuc_start_block cache \<le> bu_block_number u \<and> bu_block_number u \<le> tuc_end_block cache)
    (bridge_utxos db (tuc_mc_scripts cache))"
  using assms by (auto simp: bridge_cache_inv_def no_utxo_in_block_0_def filter_empty_conv)

lemma skip_pred_after:
  assumes "skip_pred cache c = Some skip"
  shows "skip u \<longleftrightarrow> \<not> after_checkpoint c (bridge_ordering_key u)"
    and "after_checkpoint c (bridge_ordering_key u) \<Longrightarrow> tuc_start_block cache \<le> bu_block_number u"
proof -
  show "skip u \<longleftrightarrow> \<not> after_checkpoint c (bridge_ordering_key u)"
    using assms by (cases c) (auto simp: skip_pred_def after_checkpoint_def bridge_ordering_key_def not_less split: if_splits)
  show "after_checkpoint c (bridge_ordering_key u) \<Longrightarrow> tuc_start_block cache \<le> bu_block_number u"
    using assms saturating_add_next
    by (cases c) (auto simp: skip_pred_def after_checkpoint_def bridge_ordering_key_def less_prod_def' split: if_splits intro: order_trans)
qed

lemma serve_from_cache_exact:
  assumes inv: "bridge_cache_inv db cache" and zero: "no_utxo_in_block_0 db (tuc_mc_scripts cache)"
    and sorted: "sorted_wrt (<) (map bridge_ordering_key (bridge_utxos db (tuc_mc_scripts cache)))"
    and hit: "serve_from_cache cache c to m = Some us"
  shows "us = take (unat m) (utxos_between (bridge_utxos db (tuc_mc_scripts cache)) (bound c) (bound (ResolvedBlock to)))"
proof -
  let ?T = "tuc_transfers cache" and ?U = "bridge_utxos db (tuc_mc_scripts cache)"
  obtain skip where skip: "skip_pred cache c = Some skip" and to: "to \<le> tuc_end_block cache"
      and us: "us = take (unat m) (takeWhile (\<lambda>u. bu_block_number u \<le> to) (dropWhile skip ?T))"
    using hit by (auto simp: serve_from_cache_def not_less split: if_splits)
  have sT: "sorted_wrt (<) (map bridge_ordering_key ?T)"
    using sorted unfolding cache_transfers [OF inv zero] by (simp add: sorted_wrt_map sorted_wrt_filter)
  have "skip x" if "bridge_ordering_key x < bridge_ordering_key y" "skip y" for x y
    using that less_trans [of "bridge_ordering_key x"]
    by (auto simp: skip_pred_after(1) [OF skip] after_checkpoint_bound not_le key_nat_less [symmetric] intro: less_trans)
  then have drop: "dropWhile skip ?T = filter (\<lambda>u. \<not> skip u) ?T" using takeWhile_sorted(2) [OF sT] by blast
  have "takeWhile (\<lambda>u. bu_block_number u \<le> to) (filter (\<lambda>u. \<not> skip u) ?T) = filter (\<lambda>u. bu_block_number u \<le> to) (filter (\<lambda>u. \<not> skip u) ?T)"
    using sT by (intro takeWhile_sorted(1) [of bridge_ordering_key])
      (auto simp: sorted_wrt_map sorted_wrt_filter bridge_ordering_key_def less_prod_def')
  also have "\<dots> = filter (\<lambda>u. bu_block_number u \<le> to \<and> after_checkpoint c (bridge_ordering_key u)) ?U"
    unfolding cache_transfers [OF inv zero] filter_filter skip_pred_after(1) [OF skip]
    using to skip_pred_after(2) [OF skip] by (auto intro!: filter_cong)
  finally show ?thesis unfolding us drop utxos_between_query by simp
qed

lemma fill_serves:
  assumes ok: "bridge_db_ok cfg db scripts" and scripts: "tuc_mc_scripts cache = scripts" and zero: "no_utxo_in_block_0 db scripts"
    and l: "get_latest_stable_block S (Inr db) = Ok l" "\<forall>n. l = Some n \<longrightarrow> to \<le> n"
  obtains cache' us where "bridge_fill_cache (Ok cfg) S lookahead (Inr db) scripts c to cache = Ok cache'"
    "tuc_mc_scripts cache' = scripts" "bridge_cache_inv db cache'" "serve_from_cache cache' c to m = Some us"
proof -
  let ?n = "min (saturating_add to lookahead) (case l of Some b \<Rightarrow> b | None \<Rightarrow> to)" and ?from = "get_block_number c"
  let ?T = "filter (\<lambda>u. ?from \<le> bu_block_number u \<and> bu_block_number u \<le> ?n) (bridge_utxos db scripts)"
  let ?cache = "set_cached_transfers ?from ?n ?T cache"
  have "filter (\<lambda>u. bu_block_number u \<le> ?n \<and> after_checkpoint (ResolvedBlock (saturating_sub ?from 1)) (bridge_ordering_key u))
      (bridge_utxos db scripts) = ?T"
  proof (intro filter_cong refl)
    fix u assume "u \<in> set (bridge_utxos db scripts)"
    then have "bu_block_number u \<noteq> 0" using zero by (simp add: no_utxo_in_block_0_def)
    then have "saturating_sub ?from 1 < bu_block_number u \<longleftrightarrow> ?from \<le> bu_block_number u"
      by (auto simp: saturating_sub_def word_less_nat_alt word_le_nat_alt unat_sub_if' unat_gt_0 split: if_splits)
    then show "bu_block_number u \<le> ?n \<and> after_checkpoint (ResolvedBlock (saturating_sub ?from 1)) (bridge_ordering_key u)
        \<longleftrightarrow> ?from \<le> bu_block_number u \<and> bu_block_number u \<le> ?n"
      by (auto simp: after_checkpoint_def bridge_ordering_key_def)
  qed
  then have fill: "bridge_fill_cache (Ok cfg) S lookahead (Inr db) scripts c to cache = Ok ?cache"
    by (simp add: bridge_fill_cache_def Let_def l(1) bridge_utxos_found [OF ok])
  have "resolve_checkpoint_for_utxo (Inr db) i = Ok (ResolvedUtxo (bu_block_number u) (bu_tx_ix u) (bu_utxo_ix u))"
    if "map_of (rev (map (\<lambda>utxo. (bridge_utxo_id utxo, utxo)) ?T)) i = Some u" for i u
    using map_of_SomeD [OF that] resolve_bridge_utxo [OF ok, of u] by auto
  then have inv: "bridge_cache_inv db ?cache"
    by (auto simp: bridge_cache_inv_def set_cached_transfers_def scripts)
  have "to \<le> saturating_add to lookahead" by (rule saturating_add_le)
  then have "to \<le> ?n" using l(2) by (auto split: option.splits)
  moreover have "skip_pred ?cache c \<noteq> None"
    by (cases c) (auto simp: skip_pred_def set_cached_transfers_def get_block_number_def saturating_add_le)
  ultimately obtain us where "serve_from_cache ?cache c to m = Some us"
    by (auto simp: serve_from_cache_def not_less set_cached_transfers_def)
  then show thesis using that [OF fill _ inv] scripts by (simp add: set_cached_transfers_def)
qed

lemma cached_utxos_exact:
  assumes ok: "bridge_db_ok cfg db scripts" and scripts: "tuc_mc_scripts cache = scripts" and inv: "bridge_cache_inv db cache"
    and zero: "no_utxo_in_block_0 db scripts" and l: "get_latest_stable_block S (Inr db) = Ok l" "\<forall>n. l = Some n \<longrightarrow> to \<le> n"
  shows "\<exists>cache'. bridge_cache_inv db cache' \<and> cached_utxos (Ok cfg) S lookahead (Inr db) scripts c to m cache
    = (Ok (take (unat m) (utxos_between (bridge_utxos db scripts) (bound c) (bound (ResolvedBlock to)))), cache')"
proof (cases "serve_from_cache cache c to m")
  case (Some us)
  then show ?thesis using serve_from_cache_exact [OF inv, of c to m us] bridge_utxos_ordered [OF ok] zero inv
    by (simp add: cached_utxos_def scripts)
next
  case None
  obtain cache' us where f: "bridge_fill_cache (Ok cfg) S lookahead (Inr db) scripts c to cache = Ok cache'"
    "tuc_mc_scripts cache' = scripts" "bridge_cache_inv db cache'" "serve_from_cache cache' c to m = Some us"
    using fill_serves [OF ok scripts zero l] .
  then show ?thesis using None serve_from_cache_exact [OF f(3), of c to m us] bridge_utxos_ordered [OF ok] zero
    by (simp add: cached_utxos_def)
qed

lemma resolve_data_checkpoint_eq:
  assumes "bridge_cache_inv db cache"
  shows "resolve_data_checkpoint (Inr db) cache c = resolve_checkpoint (Inr db) c"
  using assms by (auto simp: resolve_data_checkpoint_def resolve_checkpoint_def try_resolve_checkpoint_from_cache_def bridge_cache_inv_def
      split: bridge_data_checkpoint.splits option.splits)

lemma cached_new_checkpoint_eq: "cached_new_checkpoint m to us = new_checkpoint m to us"
  by (auto simp: cached_new_checkpoint_def new_checkpoint_def)

lemma set_mc_scripts_inv:
  "bridge_cache_inv db cache \<Longrightarrow> bridge_cache_inv db (set_mc_scripts scripts cache)" "tuc_mc_scripts (set_mc_scripts scripts cache) = scripts"
  by (auto simp: set_mc_scripts_def bridge_cache_inv_def)

lemma get_transfers_by_resolved:
  assumes "bridge_db_ok cfg db scripts" and "get_block_by_hash (Inr db) h = Inr (Some b)"
  shows "db_get_transfers lib recipient (Ok cfg) (Inr db) scripts c m h = and_then (resolve_checkpoint (Inr db) c) (\<lambda>r.
    (let us = take (unat m) (utxos_between (bridge_utxos db scripts) (bound r) (bound (ResolvedBlock (db_block_no b))))
     in Ok (List.map_filter (utxo_to_transfer lib recipient) us, new_checkpoint m (db_block_no b) us)))"
  by (simp add: db_get_transfers_def assms(2) bridge_utxos_found [OF assms(1)] utxos_between_query Let_def)

subsection \<open>Properties\<close>

text \<open>
  C3: every transfer arrives exactly once and in order. Over any blocks of the Partner Chain, with any limit
  on the number of transfers per block, the transfers handed to the runtime are those of the UTXOs at the
  address of the bridge between the checkpoint the blocks start from and the checkpoint they leave: none
  is left out, repeated or reordered.
\<close>

theorem bridge_exactly_once:
  assumes "bridge_db_ok cfg db scripts" "br_main_chain_scripts s = Some scripts" "br_data_checkpoint s = Some cp" "0 < max_transfers_per_block C"
    and "db_position db cp = Some p" "\<forall>h \<in> set hs. \<exists>q. db_end_of db h = Some q \<and> p \<le> q" "sorted (map (the \<circ> db_end_of db) hs)"
    and "bridge_run C (db_bridge_source c recipient cfg db) hs s = Ok s'"
  shows "\<exists>cp' p'. br_data_checkpoint s' = Some cp' \<and> db_position db cp' = Some p' \<and> p \<le> p'
    \<and> br_handled s' = br_handled s @ List.map_filter (utxo_to_transfer c recipient)
        (filter (\<lambda>u. p \<le> key_nat (bridge_ordering_key u) \<and> key_nat (bridge_ordering_key u) < p') (bridge_utxos db scripts))"
  using db_bridge.run_serves [OF assms(1-7), of c recipient] assms(8) by (auto simp: utxos_between_def)

text \<open>
  C22: no transfer waits forever. When blocks with ever later references follow each other, the run succeeds, and
  once it has room for one transfer more than the UTXOs waiting at the first reference, all of these
  have been handled.
\<close>

theorem bridge_catches_up:
  assumes "bridge_db_ok cfg db scripts" "br_main_chain_scripts s = Some scripts" "br_data_checkpoint s = Some cp" "0 < max_transfers_per_block C"
    and "db_position db cp = Some p" "\<forall>h \<in> set hs. \<exists>q. db_end_of db h = Some q \<and> p \<le> q" "sorted (map (the \<circ> db_end_of db) hs)"
    and "hs \<noteq> []" and "length (utxos_between (bridge_utxos db scripts) p (the (db_end_of db (hd hs)))) < length hs * unat (max_transfers_per_block C)"
  shows "\<exists>s' rest. bridge_run C (db_bridge_source c recipient cfg db) hs s = Ok s'
    \<and> br_handled s' = br_handled s @ List.map_filter (utxo_to_transfer c recipient)
        (utxos_between (bridge_utxos db scripts) p (the (db_end_of db (hd hs)))) @ rest"
proof -
  let ?u = "utxos_between (bridge_utxos db scripts)" and ?q = "the (db_end_of db (hd hs))"
  obtain s' p' where run: "bridge_run C (db_bridge_source c recipient cfg db) hs s = Ok s'" "p \<le> p'"
      "br_handled s' = br_handled s @ List.map_filter (utxo_to_transfer c recipient) (?u p p')"
      "?q \<le> p' \<or> length hs * unat (max_transfers_per_block C) \<le> length (?u p p')"
    using db_bridge.run_serves [OF assms(1-7), of c recipient] assms(8) by blast
  have pq: "p \<le> ?q" using assms(6,8) by (metis hd_in_set option.sel)
  have "?q \<le> p'"
  proof (rule ccontr)
    assume "\<not> ?q \<le> p'"
    then have "?u p ?q = ?u p p' @ ?u p' ?q" using utxos_between_split [OF bridge_utxos_ordered [OF assms(1)]] run(2) by simp
    then show False using run(4) \<open>\<not> ?q \<le> p'\<close> assms(9) by simp
  qed
  then have "?u p p' = ?u p ?q @ ?u ?q p'" using utxos_between_split [OF bridge_utxos_ordered [OF assms(1)] pq] by simp
  then show ?thesis using run(1,3) by (auto simp: List.map_filter_def)
qed

text \<open>
  C14: the cached source is the source without a cache: whatever a valid cache holds, it returns the same
  transfers and the same checkpoint, or the same error, and leaves a valid cache.
\<close>

theorem cached_bridge_refines:
  assumes "bridge_db_ok cfg db scripts" "chain_ok db" "cache_sound S db blocks" "no_utxo_in_block_0 db scripts" "bridge_cache_inv db cache"
    and "get_block_by_hash (Inr db) h = Inr (Some b)"
    and "get_latest_stable_block S (Inr db) = Ok l" "\<forall>n. l = Some n \<longrightarrow> db_block_no b \<le> n"
  shows "\<exists>cache'. cached_get_transfers c recipient (Ok cfg) S lookahead (Inr db) blocks scripts cp m h cache
      = (db_get_transfers c recipient (Ok cfg) (Inr db) scripts cp m h, cache')
    \<and> bridge_cache_inv db cache'"
proof -
  have block: "bridge_block_by_hash (Inr db) blocks h = Ok (the_mainchain_block b)"
    by (simp add: bridge_block_by_hash_def up_to_block_found [OF assms(2,3,6)])
  note scripts = set_mc_scripts_inv(2) [of scripts cache] and inv = set_mc_scripts_inv(1) [OF assms(5), of scripts]
  show ?thesis
  proof (cases "resolve_checkpoint (Inr db) cp")
    case (Ok r)
    obtain cache' where "bridge_cache_inv db cache'" "cached_utxos (Ok cfg) S lookahead (Inr db) scripts r (db_block_no b) m (set_mc_scripts scripts cache)
        = (outcome.Ok (take (unat m) (utxos_between (bridge_utxos db scripts) (bound r) (bound (ResolvedBlock (db_block_no b))))), cache')"
      using cached_utxos_exact [OF assms(1) scripts inv assms(4,7,8)] by blast
    then show ?thesis
      by (simp add: cached_get_transfers_def Let_def block resolve_data_checkpoint_eq [OF inv] Ok the_mainchain_block_def
          get_transfers_by_resolved [OF assms(1,6)] cached_new_checkpoint_eq)
  qed (use inv in \<open>simp_all add: cached_get_transfers_def Let_def block resolve_data_checkpoint_eq get_transfers_by_resolved [OF assms(1,6)]\<close>)
qed

subsection \<open>Two transfers\<close>

definition demo_bridge_scripts :: bridge_scripts where
  "demo_bridge_scripts = \<lparr>token_policy_id = [9], token_asset_name = [], illiquid_circulation_supply_validator_address = [7]\<rparr>"

definition demo_bridge_config :: "bool bridge_config" where
  "demo_bridge_config = \<lparr>bridge_governance_origin = (\<lambda>root. root), max_transfers_per_block = 1\<rparr>"

definition demo_bridge_state :: "bytes bridge_state" where
  "demo_bridge_state = \<lparr>br_main_chain_scripts = Some demo_bridge_scripts, br_data_checkpoint = Some (BlockCheckpoint 5), br_handled = []\<rparr>"

lemma demo_bridge_rows: "bridge_rows demo_db demo_bridge_scripts = [
    (([11], 1, 7, Some (IntegerDatum 1), 10, 0, 0), 0), (([12], 2, 10, Some (IntegerDatum 2), 11, 4, 1), 7)]"
  by (simp add: bridge_rows_def Let_def group_sums_def group_by_def bridge_sources_where_def demo_bridge_scripts_def bridge_asset_id_def
      tx_and_block_def asset_rows_def left_join_def demo_db_def bridge_key_def input_quantities_def bridge_inputs_consumed_def sql_sum_def
      List.map_filter_def row_key_def)

lemma demo_bridge_utxos: "bridge_utxos demo_db demo_bridge_scripts = [
    \<lparr>bu_block_number = 10, bu_tx_ix = 0, bu_tx_hash = [11], bu_utxo_ix = 0, bu_tokens_out = 7, bu_tokens_in = 0, bu_datum = Some (IntegerDatum 1)\<rparr>,
    \<lparr>bu_block_number = 11, bu_tx_ix = 4, bu_tx_hash = [12], bu_utxo_ix = 1, bu_tokens_out = 10, bu_tokens_in = 7, bu_datum = Some (IntegerDatum 2)\<rparr>]"
  by (simp add: bridge_utxos_def demo_bridge_rows row_utxo_def)

lemma demo_bridge_ok: "bridge_db_ok Enabled demo_db demo_bridge_scripts"
  by (simp add: bridge_db_ok_def demo_db_consistent demo_bridge_rows row_key_def row_amounts_ok_def) (simp add: demo_db_def)

lemma demo_block_11: "get_block_by_hash (Inr demo_db) [2]
    = Inr (Some \<lparr>db_block_no = 11, db_block_hash = [2], db_epoch_no = 3, db_slot_no = 120, db_time = 1020\<rparr>)"
  by (simp add: get_block_by_hash_def fetch_optional_def decode_block_def demo_db_def)

lemma demo_end_of: "db_end_of demo_db [2] = Some (12, 0, 0)" "db_position demo_db (BlockCheckpoint 5) = Some (6, 0, 0)"
  by (simp_all add: db_end_of_def demo_block_11 bound_def db_position_def resolve_checkpoint_def)

lemma demo_between: "utxos_between (bridge_utxos demo_db demo_bridge_scripts) (6, 0, 0) (12, 0, 0) = bridge_utxos demo_db demo_bridge_scripts"
  by (simp add: utxos_between_def demo_bridge_utxos key_nat_def bridge_ordering_key_def less_prod_def' less_eq_prod_def)

lemma demo_bridge_transfers: "List.map_filter (utxo_to_transfer datum_csl Some) (bridge_utxos demo_db demo_bridge_scripts)
    = [InvalidTransfer 7 \<lparr>utxo_tx_hash = [11], utxo_index = 0\<rparr>, InvalidTransfer 3 \<lparr>utxo_tx_hash = [12], utxo_index = 1\<rparr>]"
  by (simp add: demo_bridge_utxos List.map_filter_def utxo_to_transfer_def checked_sub_def token_transfer_datum_decode_def
      plutus_data_version_and_payload_def datum_csl_def bridge_utxo_id_def)

theorem bridge_catches_up_witness:
  "\<exists>s' rest. bridge_run demo_bridge_config (db_bridge_source datum_csl Some Enabled demo_db) [[2], [2], [2]] demo_bridge_state = Ok s'
    \<and> br_handled s' = [InvalidTransfer 7 \<lparr>utxo_tx_hash = [11], utxo_index = 0\<rparr>,
        InvalidTransfer 3 \<lparr>utxo_tx_hash = [12], utxo_index = 1\<rparr>] @ rest"
  using bridge_catches_up [OF demo_bridge_ok, of demo_bridge_state "BlockCheckpoint 5" demo_bridge_config "(6, 0, 0)" "[[2], [2], [2]]" datum_csl Some]
  by (simp add: demo_bridge_state_def demo_bridge_config_def demo_end_of demo_between demo_bridge_transfers) (simp add: demo_bridge_utxos)

theorem bridge_exactly_once_witness:
  "\<exists>s' cp' p'. bridge_run demo_bridge_config (db_bridge_source datum_csl Some Enabled demo_db) [[2], [2]] demo_bridge_state = Ok s'
    \<and> br_data_checkpoint s' = Some cp' \<and> db_position demo_db cp' = Some p'
    \<and> br_handled s' = List.map_filter (utxo_to_transfer datum_csl Some)
        (filter (\<lambda>u. (6, 0, 0) \<le> key_nat (bridge_ordering_key u) \<and> key_nat (bridge_ordering_key u) < p') (bridge_utxos demo_db demo_bridge_scripts))"
proof -
  obtain s' where s': "bridge_run demo_bridge_config (db_bridge_source datum_csl Some Enabled demo_db) [[2], [2]] demo_bridge_state = Ok s'"
    using db_bridge.run_serves [OF demo_bridge_ok, of demo_bridge_state "BlockCheckpoint 5" demo_bridge_config "(6, 0, 0)" "[[2], [2]]" datum_csl Some]
    by (auto simp: demo_bridge_state_def demo_bridge_config_def demo_end_of)
  show ?thesis
    using bridge_exactly_once [OF demo_bridge_ok _ _ _ demo_end_of(2) _ _ s'] s'
    by (auto simp: demo_bridge_state_def demo_bridge_config_def demo_end_of)
qed

definition demo_cache_source :: block_data_source where
  "demo_cache_source = demo_block_source\<lparr>min_slot_boundary := 0, max_slot_boundary := 1\<rparr>"

lemma demo_nothing_stable: "get_latest_stable_block demo_cache_source (Inr demo_db) = Ok None"
proof -
  have latest: "get_latest_block_info (Inr demo_db)
      = Inr (Some \<lparr>db_block_no = 11, db_block_hash = [2], db_epoch_no = 3, db_slot_no = 120, db_time = 1020\<rparr>)"
    by (simp add: get_latest_block_info_def fetch_optional_def decode_block_def demo_db_def order_by_desc_def)
  have "get_highest_block (Inr demo_db) n 0 lo 1 hi = Inr None" for n lo hi
    by (simp add: get_highest_block_def fetch_optional_def demo_db_def order_by_desc_def)
  then show ?thesis
    by (simp add: get_latest_stable_block_def bds_get_latest_block_info_def bds_get_latest_stable_block_for_def query_def latest
        mainchain_block_from_def timestamp_to_db_type_def demo_cache_source_def demo_block_source_def get_latest_block_def
        min_block_allowed_time_def max_allowed_block_time_def date_time_sub_def date_time_to_slot_def demo_epoch_config_def
        timestamp_to_mainchain_slot_number_def into_mainchain_block_def checked_def checked_sub_def)
qed

theorem cached_bridge_refines_witness:
  "\<exists>cache'. cached_get_transfers datum_csl Some (Ok Enabled) demo_cache_source 100 (Inr demo_db) (Some []) demo_bridge_scripts (BlockCheckpoint 5) 1 [2]
      token_utxo_cache_new
    = (db_get_transfers datum_csl Some (Ok Enabled) (Inr demo_db) demo_bridge_scripts (BlockCheckpoint 5) 1 [2], cache')
    \<and> bridge_cache_inv demo_db cache'"
  by (rule cached_bridge_refines [OF demo_bridge_ok demo_chain_ok _ _ _ demo_block_11 demo_nothing_stable])
    (simp_all add: cache_sound_def no_utxo_in_block_0_def demo_bridge_utxos bridge_cache_inv_def token_utxo_cache_new_def)

text \<open>
  Two limits of the bridge. With a limit of no transfers per block the checkpoint moves on without
  handling what is between. A checkpoint later than the block referred to is replaced by that block,
  so that what was before the checkpoint is handled after all.
\<close>

lemma bridge_zero_limit:
  "db_get_transfers datum_csl Some (Ok Enabled) (Inr demo_db) demo_bridge_scripts (BlockCheckpoint 5) 0 [2] = Ok ([], BlockCheckpoint 11)"
  by (simp add: get_transfers_by_resolved [OF demo_bridge_ok demo_block_11] resolve_checkpoint_def new_checkpoint_def List.map_filter_simps)

lemma bridge_later_checkpoint:
  "db_get_transfers datum_csl Some (Ok Enabled) (Inr demo_db) demo_bridge_scripts (BlockCheckpoint 20) 1 [2] = Ok ([], BlockCheckpoint 11)"
  by (simp add: get_transfers_by_resolved [OF demo_bridge_ok demo_block_11] resolve_checkpoint_def new_checkpoint_def List.map_filter_simps
      utxos_between_def demo_bridge_utxos bound_def key_nat_def bridge_ordering_key_def less_eq_prod_def less_prod_def')

end
