(* ===== verification/Candidate_Source.thy ===== *)
theory Candidate_Source
  imports Plutus_Codecs Block_Source Committee Slots Collections
begin

text \<open>
  The data for the selection of a committee: the Db-Sync data source of candidates,
  \<open>toolkit/data-sources/db-sync/src/candidates/mod.rs\<close>, its cached form, \<open>candidates/cached.rs\<close>, and the inherent
  data provider, \<open>authority_selection_inputs.rs\<close> and \<open>ariadne_inherent_data_provider.rs\<close> of
  \<open>toolkit/committee-selection/authority-selection-inherents/src\<close>.

  Parameters: the library \<open>c\<close> that reads Plutus data, the hash \<open>key_hash\<close> of a stake pool key
  (\<open>MainchainKeyHash::from_vkey\<close>), the order \<open>iter\<close> in which a \<open>HashMap\<close> yields its entries, and the \<open>lru\<close> crate.
\<close>

subsection \<open>The data source\<close>

datatype 'pd candidate_error =
    CandidateSqlError sqlx_error
  | CandidateDs ds_error
  | CandidateDecoding "'pd data_decoding_error"
  | CandidateBadRequest u32 u32

definition cand_query :: "sqlx_error + 'a \<Rightarrow> ('pd candidate_error, 'a) outcome" where
  "cand_query r = (case r of Inl e \<Rightarrow> Err (CandidateSqlError e) | Inr a \<Rightarrow> Ok a)"

definition cand_decode :: "'pd data_decoding_error + 'a \<Rightarrow> ('pd candidate_error, 'a) outcome" where
  "cand_decode r = (case r of Inl e \<Rightarrow> Err (CandidateDecoding e) | Inr a \<Rightarrow> Ok a)"

record ariadne_parameters =
  ap_d_parameter :: d_parameter
  ap_permissioned_candidates :: "permissioned_candidate_data list option"

record parsed_candidate =
  pac_utxo_info :: utxo_info
  pac_datum :: register_validator_datum
  pac_tx_inputs :: "utxo_id list"

record registered_candidate =
  rc_stake_pool_pub_key :: bytes
  rc_registration_utxo :: utxo_id
  rc_tx_inputs :: "utxo_id list"
  rc_sidechain_signature :: bytes
  rc_mainchain_signature :: bytes
  rc_cross_chain_signature :: bytes
  rc_sidechain_pub_key :: bytes
  rc_cross_chain_pub_key :: bytes
  rc_keys :: candidate_keys
  rc_utxo_info :: utxo_info

definition get_epoch_of_data_storage :: "u32 \<Rightarrow> ('pd candidate_error, u32) outcome" where
  "get_epoch_of_data_storage epoch = (case offset_data_epoch epoch of
       Inl offset \<Rightarrow> Err (CandidateBadRequest offset epoch)
     | Inr e \<Rightarrow> Ok e)"

definition get_ariadne_parameters ::
  "'pd csl \<Rightarrow> 'pd pg_pool \<Rightarrow> u32 \<Rightarrow> bytes \<Rightarrow> bytes \<Rightarrow> ('pd candidate_error, ariadne_parameters) outcome" where
  "get_ariadne_parameters c pool epoch d_parameter_policy permissioned_candidate_policy =
     and_then (get_epoch_of_data_storage epoch) (\<lambda>epoch.
     and_then (cand_query (get_token_utxo_for_epoch pool (asset_new permissioned_candidate_policy) epoch)) (\<lambda>candidates_output_opt.
     and_then (cand_query (get_token_utxo_for_epoch pool (asset_new d_parameter_policy) epoch)) (\<lambda>d_output_opt.
     and_then (checked (CandidateDs (ExpectedDataNotFound ''DParameter'')) d_output_opt) (\<lambda>d_output.
     and_then (checked (CandidateDs (ExpectedDataNotFound ''DParameter Datum'')) (tok_datum d_output)) (\<lambda>d_datum.
     and_then (cand_decode (d_param_decode c d_datum)) (\<lambda>d_parameter.
     and_then (case candidates_output_opt of
         None \<Rightarrow> Ok None
       | Some candidates_output \<Rightarrow>
           and_then (checked (CandidateDs (ExpectedDataNotFound ''Permissioned Candidates List Datum'')) (tok_datum candidates_output)) (\<lambda>datum.
           and_then (cand_decode (permissioned_decode c datum)) (\<lambda>d. Ok (Some (permissioned_candidate_datums_into d))))) (\<lambda>permissioned_candidates.
       Ok \<lparr>ap_d_parameter = d_param_datum_into d_parameter, ap_permissioned_candidates = permissioned_candidates\<rparr>)))))))"

definition parse_candidate :: "'pd csl \<Rightarrow> 'pd mainchain_tx_output \<Rightarrow> parsed_candidate option" where
  "parse_candidate c output = (case mto_datum output of
       None \<Rightarrow> None
     | Some datum \<Rightarrow> (case register_validator_decode c datum of
           Inl _ \<Rightarrow> None
         | Inr d \<Rightarrow> Some \<lparr>pac_utxo_info = \<lparr>info_utxo_id = mto_utxo_id output, info_epoch_number = mto_tx_epoch_no output,
               info_block_number = mto_tx_block_no output, info_slot_number = mto_tx_slot_no output,
               info_tx_index_within_block = mto_tx_index_in_block output\<rparr>,
             pac_datum = d, pac_tx_inputs = mto_tx_inputs output\<rparr>))"

definition parse_candidates :: "'pd csl \<Rightarrow> 'pd mainchain_tx_output list \<Rightarrow> parsed_candidate list" where
  "parse_candidates c outputs = List.map_filter (parse_candidate c) outputs"

definition convert_candidate :: "parsed_candidate \<Rightarrow> registered_candidate" where
  "convert_candidate p = (case pac_datum p of
       RegisterV0 so key sig u _ aura grandpa \<Rightarrow>
         \<lparr>rc_stake_pool_pub_key = abs_pub_key so, rc_registration_utxo = u, rc_tx_inputs = pac_tx_inputs p,
          rc_sidechain_signature = sig, rc_mainchain_signature = abs_signature so, rc_cross_chain_signature = sig,
          rc_sidechain_pub_key = key, rc_cross_chain_pub_key = key,
          rc_keys = [\<lparr>key_id = aura_id, key_bytes = aura\<rparr>, \<lparr>key_id = grandpa_id, key_bytes = grandpa\<rparr>],
          rc_utxo_info = pac_utxo_info p\<rparr>
     | RegisterV1 so key sig u _ keys \<Rightarrow>
         \<lparr>rc_stake_pool_pub_key = abs_pub_key so, rc_registration_utxo = u, rc_tx_inputs = pac_tx_inputs p,
          rc_sidechain_signature = sig, rc_mainchain_signature = abs_signature so, rc_cross_chain_signature = sig,
          rc_sidechain_pub_key = key, rc_cross_chain_pub_key = key, rc_keys = keys,
          rc_utxo_info = pac_utxo_info p\<rparr>)"

definition convert_utxos_to_candidates :: "'pd csl \<Rightarrow> 'pd mainchain_tx_output list \<Rightarrow> registered_candidate list" where
  "convert_utxos_to_candidates c outputs = map convert_candidate (parse_candidates c outputs)"

definition get_last_block_for_epoch :: "'pd pg_pool \<Rightarrow> u32 \<Rightarrow> ('pd candidate_error, u32 option) outcome" where
  "get_last_block_for_epoch pool epoch =
     and_then (cand_query (get_latest_block_for_epoch pool epoch)) (\<lambda>block. Ok (map_option db_block_no block))"

definition get_registered_candidates ::
  "'pd csl \<Rightarrow> (ds_error, tx_in_configuration) outcome \<Rightarrow> 'pd pg_pool \<Rightarrow> u32 \<Rightarrow> bytes
     \<Rightarrow> ('pd candidate_error, registered_candidate list) outcome" where
  "get_registered_candidates c cfg pool epoch address =
     and_then (get_last_block_for_epoch pool epoch) (\<lambda>block.
     and_then (case block of
         Some block \<Rightarrow> and_then (map_err CandidateDs cfg) (\<lambda>cfg. cand_query (get_utxos_for_address pool address block cfg))
       | None \<Rightarrow> Ok []) (\<lambda>active_utxos.
       Ok (convert_utxos_to_candidates c active_utxos)))"

text \<open>A \<open>HashMap\<close> is the list of its entries; the order of iteration over one is the parameter \<open>iter\<close>.\<close>

definition group_candidates_by_mc_pub_key :: "registered_candidate list \<Rightarrow> (bytes \<times> registered_candidate list) list" where
  "group_candidates_by_mc_pub_key candidates = group_by (map (\<lambda>c. (rc_stake_pool_pub_key c, c)) candidates)"

definition make_registration_data :: "registered_candidate \<Rightarrow> registration_data" where
  "make_registration_data r = \<lparr>registration_utxo = rc_registration_utxo r, sidechain_signature = rc_sidechain_signature r,
     mainchain_signature = rc_mainchain_signature r, cross_chain_signature = rc_cross_chain_signature r,
     sidechain_pub_key = rc_sidechain_pub_key r, cross_chain_pub_key = rc_cross_chain_pub_key r, reg_utxo_info = rc_utxo_info r,
     tx_inputs = rc_tx_inputs r, reg_keys = rc_keys r\<rparr>"

text \<open>Of several entries with one key, the last one collected stays in the map.\<close>

definition make_stake_map :: "stake_pool_entry list \<Rightarrow> (bytes \<times> u64) list" where
  "make_stake_map entries = rev (map (\<lambda>e. (spe_pool_hash e, spe_stake e)) entries)"

definition get_stake_delegation :: "(bytes \<Rightarrow> bytes) \<Rightarrow> (bytes \<times> u64) list \<Rightarrow> bytes \<Rightarrow> u64 option" where
  "get_stake_delegation key_hash stake_map stake_pool_pub_key =
     (if stake_map = [] then None
      else Some (case map_of stake_map (key_hash stake_pool_pub_key) of Some stake \<Rightarrow> stake | None \<Rightarrow> 0))"

type_synonym candidate_iteration = "(bytes \<times> registered_candidate list) list \<Rightarrow> (bytes \<times> registered_candidate list) list"

definition get_candidates ::
  "'pd csl \<Rightarrow> (bytes \<Rightarrow> bytes) \<Rightarrow> candidate_iteration \<Rightarrow> (ds_error, tx_in_configuration) outcome \<Rightarrow> 'pd pg_pool \<Rightarrow> u32 \<Rightarrow> bytes
     \<Rightarrow> ('pd candidate_error, candidate_registrations list) outcome" where
  "get_candidates c key_hash iter cfg pool epoch address =
     and_then (get_epoch_of_data_storage epoch) (\<lambda>epoch.
     and_then (get_registered_candidates c cfg pool epoch address) (\<lambda>candidates.
     and_then (cand_query (get_stake_distribution pool epoch)) (\<lambda>entries.
       let stake_map = make_stake_map entries in
       Ok (map (\<lambda>(mainchain_pub_key, candidate_registrations).
           \<lparr>stake_pool_public_key = mainchain_pub_key, registrations = map make_registration_data candidate_registrations,
            stake_delegation = get_stake_delegation key_hash stake_map mainchain_pub_key\<rparr>)
         (iter (group_candidates_by_mc_pub_key candidates))))))"

definition get_epoch_nonce :: "'pd pg_pool \<Rightarrow> u32 \<Rightarrow> ('pd candidate_error, bytes option) outcome" where
  "get_epoch_nonce pool epoch =
     and_then (get_epoch_of_data_storage epoch) (\<lambda>epoch. cand_query (db_get_epoch_nonce pool epoch))"

definition data_epoch :: "u32 \<Rightarrow> ('pd candidate_error, u32) outcome" where
  "data_epoch for_epoch = get_epoch_of_data_storage for_epoch"

subsection \<open>Order of rows and of iteration\<close>

text \<open>
  Neither query that feeds \<open>get_candidates\<close> has an \<open>ORDER BY\<close>, the inputs of a transaction are aggregated in
  no given order, and the groups leave a \<open>HashMap\<close> in an order that differs from node to node. What a
  row says apart from the order of its inputs is its view.
\<close>

definition row_view :: "'pd mainchain_tx_output \<Rightarrow> 'pd mainchain_tx_output \<times> utxo_id set" where
  "row_view r = (r\<lparr>mto_tx_inputs := []\<rparr>, set (mto_tx_inputs r))"

definition row_position :: "'pd mainchain_tx_output \<Rightarrow> u32 \<times> u32 \<times> u16" where
  "row_position r = (mto_tx_block_no r, mto_tx_index_in_block r, utxo_index (mto_utxo_id r))"

definition any_order :: "('a list \<Rightarrow> 'a list) \<Rightarrow> bool" where
  "any_order iter \<longleftrightarrow> (\<forall>xs. mset (iter xs) = mset xs)"

definition row_candidate :: "'pd csl \<Rightarrow> 'pd mainchain_tx_output \<Rightarrow> registered_candidate option" where
  "row_candidate c r = map_option convert_candidate (parse_candidate c r)"

text \<open>The registration of pool \<open>k\<close> in a row, when it is valid.\<close>

definition valid_row ::
  "'pd csl \<Rightarrow> ('acc, 'keys) keys_env \<Rightarrow> utxo_id \<Rightarrow> bytes \<Rightarrow> 'pd mainchain_tx_output \<Rightarrow> ((bytes \<times> 'keys) \<times> utxo_info) option" where
  "valid_row c E genesis_utxo k r = (case row_candidate c r of
       None \<Rightarrow> None
     | Some x \<Rightarrow> if rc_stake_pool_pub_key x = k then
         (case validate_registration_data E k (make_registration_data x) genesis_utxo of
            Inr a \<Rightarrow> Some (a, rc_utxo_info x)
          | Inl _ \<Rightarrow> None)
        else None)"

lemma row_view_cases:
  assumes "row_view r = row_view r'"
  shows "\<exists>inputs. r = r'\<lparr>mto_tx_inputs := inputs\<rparr> \<and> set inputs = set (mto_tx_inputs r')"
  using assms by (intro exI [of _ "mto_tx_inputs r"]) (cases r; cases r'; simp add: row_view_def)

lemma row_candidate_view:
  assumes "row_view r = row_view r'"
  shows "\<exists>inputs. row_candidate c r = map_option (\<lambda>x. x\<lparr>rc_tx_inputs := inputs\<rparr>) (row_candidate c r')
    \<and> (\<forall>x. row_candidate c r' = Some x \<longrightarrow> set inputs = set (rc_tx_inputs x))"
proof -
  obtain inputs where r: "r = r'\<lparr>mto_tx_inputs := inputs\<rparr>" "set inputs = set (mto_tx_inputs r')"
    using row_view_cases [OF assms] by blast
  then show ?thesis
    by (intro exI [of _ inputs]) (auto simp: row_candidate_def parse_candidate_def convert_candidate_def
        split: option.splits sum.splits register_validator_datum.splits)
qed

lemma validate_inputs_order:
  assumes "set inputs = set (tx_inputs r)"
  shows "validate_registration_data E k (r\<lparr>tx_inputs := inputs\<rparr>) g = validate_registration_data E k r g"
  using assms by (simp add: validate_registration_data_def verify_stake_pool_signature_def verify_tx_inputs_def Let_def split: option.split)

lemma valid_row_view:
  assumes "row_view r = row_view r'"
  shows "valid_row c E g k r = valid_row c E g k r'"
proof -
  obtain inputs where r: "row_candidate c r = map_option (\<lambda>x. x\<lparr>rc_tx_inputs := inputs\<rparr>) (row_candidate c r')"
      "\<And>x. row_candidate c r' = Some x \<Longrightarrow> set inputs = set (rc_tx_inputs x)"
    using row_candidate_view [OF assms] by blast
  show ?thesis
  proof (cases "row_candidate c r'")
    case None
    then show ?thesis by (simp add: valid_row_def r(1))
  next
    case (Some x)
    have "make_registration_data (x\<lparr>rc_tx_inputs := inputs\<rparr>) = make_registration_data x\<lparr>tx_inputs := inputs\<rparr>"
      by (simp add: make_registration_data_def)
    moreover have "set inputs = set (tx_inputs (make_registration_data x))"
      using r(2) [OF Some] by (simp add: make_registration_data_def)
    ultimately show ?thesis using Some by (simp add: valid_row_def r(1) validate_inputs_order split: sum.split)
  qed
qed

lemma mset_map_filter: "mset (List.map_filter f xs) = image_mset (\<lambda>x. the (f x)) (filter_mset (\<lambda>x. f x \<noteq> None) (mset xs))"
  by (simp add: List.map_filter_def comp_def)

lemma mset_map_filter_view:
  assumes "mset (map v xs) = mset (map v ys)" and "\<And>x y. v x = v y \<Longrightarrow> f x = f y"
  shows "mset (List.map_filter f xs) = mset (List.map_filter f ys)"
proof -
  define h where "h w = f (SOME x. v x = w)" for w
  have f: "f x = h (v x)" for x
    unfolding h_def by (rule assms(2)) (metis (mono_tags, lifting) someI)
  have "List.map_filter f zs = List.map_filter h (map v zs)" for zs
    by (induction zs) (simp_all add: List.map_filter_simps f split: option.splits)
  then show ?thesis using assms(1) by (simp only: mset_map_filter [of h] ) 
qed

lemma max_by_key_mset:
  fixes f :: "'a \<Rightarrow> 'k::linorder"
  assumes "mset xs = mset ys" and "inj_on f (set xs)"
  shows "max_by_key f xs = max_by_key f ys"
proof (cases "max_by_key f xs")
  case None
  then have "xs = []" by (cases xs) simp_all
  then show ?thesis using assms(1) by simp
next
  case (Some m)
  then have "ys \<noteq> []" using assms(1) by auto
  then obtain m' where m': "max_by_key f ys = Some m'" by (cases ys) simp_all
  have same: "set xs = set ys" using assms(1) by (rule mset_eq_setD)
  have "f m = f m'"
    using max_by_key_Some [OF Some] max_by_key_Some [OF m'] same by (intro antisym) auto
  then have "m = m'"
    using max_by_key_Some [OF Some] max_by_key_Some [OF m'] same assms(2) by (simp add: inj_on_def)
  then show ?thesis using Some m' by simp
qed

lemma convert_rows: "convert_utxos_to_candidates c rows = List.map_filter (row_candidate c) rows"
  by (induction rows) (simp_all add: convert_utxos_to_candidates_def parse_candidates_def row_candidate_def
      List.map_filter_simps split: option.splits)

lemma valid_registrations_rows:
  "valid_registrations E k g (map make_registration_data (filter (\<lambda>x. rc_stake_pool_pub_key x = k) (convert_utxos_to_candidates c rows)))
    = List.map_filter (valid_row c E g k) rows"
  unfolding convert_rows
  by (induction rows) (simp_all add: valid_registrations_def List.map_filter_simps valid_row_def make_registration_data_def
      split: option.splits sum.splits)

lemma valid_row_position:
  assumes "valid_row c E g k r = Some (a, i)"
  shows "ordering_key i = row_position r"
  using assms by (auto simp: valid_row_def row_candidate_def parse_candidate_def convert_candidate_def ordering_key_def row_position_def
      split: option.splits sum.splits if_splits register_validator_datum.splits)

lemma valid_rows_distinguished:
  assumes "distinct (map row_position rows)"
  shows "inj_on (\<lambda>(_, i). ordering_key i) (set (List.map_filter (valid_row c E g k) rows))"
proof (rule inj_onI)
  fix x y assume x: "x \<in> set (List.map_filter (valid_row c E g k) rows)" and y: "y \<in> set (List.map_filter (valid_row c E g k) rows)"
    and eq: "(case x of (_, i) \<Rightarrow> ordering_key i) = (case y of (_, i) \<Rightarrow> ordering_key i)"
  obtain r s where rs: "r \<in> set rows" "s \<in> set rows" "valid_row c E g k r = Some x" "valid_row c E g k s = Some y"
    using x y by (auto simp: set_map_filter)
  then have "row_position r = row_position s"
    using eq by (metis (no_types, lifting) case_prod_conv surj_pair valid_row_position)
  then have "r = s" using assms rs(1,2) by (meson distinct_map inj_on_def)
  then show "x = y" using rs(3,4) by simp
qed

definition candidate_group :: "(bytes \<Rightarrow> bytes) \<Rightarrow> (bytes \<times> u64) list \<Rightarrow> bytes \<times> registered_candidate list \<Rightarrow> candidate_registrations" where
  "candidate_group key_hash stake_map = (\<lambda>(k, rs). \<lparr>stake_pool_public_key = k, registrations = map make_registration_data rs,
     stake_delegation = get_stake_delegation key_hash stake_map k\<rparr>)"

definition pool_candidate ::
  "'pd csl \<Rightarrow> (bytes \<Rightarrow> bytes) \<Rightarrow> ('acc, 'keys) keys_env \<Rightarrow> utxo_id \<Rightarrow> (bytes \<times> u64) list \<Rightarrow> 'pd mainchain_tx_output list \<Rightarrow> bytes
     \<Rightarrow> ('acc, 'keys) candidate_with_stake option" where
  "pool_candidate c key_hash E g stake_map rows k = select_latest_valid_candidate E (candidate_group key_hash stake_map
     (k, filter (\<lambda>x. rc_stake_pool_pub_key x = k) (convert_utxos_to_candidates c rows))) g"

lemma pool_candidate_order:
  assumes "mset (map row_view rows) = mset (map row_view rows')" and "distinct (map row_position rows)"
  shows "pool_candidate c h E g sm rows k = pool_candidate c h E g sm rows' k"
proof -
  have "max_by_key (\<lambda>(_, i). ordering_key i) (List.map_filter (valid_row c E g k) rows)
      = max_by_key (\<lambda>(_, i). ordering_key i) (List.map_filter (valid_row c E g k) rows')"
    by (intro max_by_key_mset valid_rows_distinguished assms mset_map_filter_view [OF assms(1) valid_row_view])
  then show ?thesis
    by (simp add: pool_candidate_def candidate_group_def select_latest_valid_candidate_def valid_registrations_rows
        split: sum.split option.split)
qed

definition row_keys :: "'pd csl \<Rightarrow> 'pd mainchain_tx_output list \<Rightarrow> bytes list" where
  "row_keys c rows = map rc_stake_pool_pub_key (convert_utxos_to_candidates c rows)"

lemma groups_eq:
  "group_candidates_by_mc_pub_key xs
    = map (\<lambda>k. (k, filter (\<lambda>x. rc_stake_pool_pub_key x = k) xs)) (remdups (map rc_stake_pool_pub_key xs))"
  by (simp add: group_candidates_by_mc_pub_key_def group_by_def comp_def filter_map)

lemma row_keys_order:
  assumes "mset (map row_view rows) = mset (map row_view rows')"
  shows "mset (remdups (row_keys c rows)) = mset (remdups (row_keys c rows'))"
proof -
  have "map rc_stake_pool_pub_key (List.map_filter f zs) = List.map_filter (\<lambda>r. map_option rc_stake_pool_pub_key (f r)) zs" for f and zs :: "'a mainchain_tx_output list"
    by (induction zs) (simp_all add: List.map_filter_simps split: option.splits)
  then have keys: "row_keys c zs = List.map_filter (\<lambda>r. map_option rc_stake_pool_pub_key (row_candidate c r)) zs" for zs
    by (simp add: row_keys_def convert_rows)
  have "map_option rc_stake_pool_pub_key (row_candidate c r) = map_option rc_stake_pool_pub_key (row_candidate c r')"
    if "row_view r = row_view r'" for r r' :: "'a mainchain_tx_output"
    using row_candidate_view [OF that, of c] by (auto simp: option.map_comp comp_def)
  then have "set (row_keys c rows) = set (row_keys c rows')"
    unfolding keys by (intro mset_eq_setD mset_map_filter_view [OF assms])
  then show ?thesis by (simp add: set_eq_iff_mset_remdups_eq)
qed

lemma trustless_candidates_order:
  assumes "any_order iter" "any_order iter'"
    and "mset (map row_view rows) = mset (map row_view rows')" and "distinct (map row_position rows)"
  shows "mset (filter_trustless_candidates_registrations E
        (map (candidate_group h sm) (iter (group_candidates_by_mc_pub_key (convert_utxos_to_candidates c rows)))) g)
    = mset (filter_trustless_candidates_registrations E
        (map (candidate_group h sm) (iter' (group_candidates_by_mc_pub_key (convert_utxos_to_candidates c rows')))) g)"
proof -
  have "mset (List.map_filter (\<lambda>cr. select_latest_valid_candidate E cr g)
        (map (candidate_group h sm) (it (group_candidates_by_mc_pub_key (convert_utxos_to_candidates c zs)))))
      = mset (List.map_filter (pool_candidate c h E g sm zs) (remdups (row_keys c zs)))"
    if "any_order it" for it and zs
  proof -
    have "mset (map (candidate_group h sm) (it (group_candidates_by_mc_pub_key (convert_utxos_to_candidates c zs))))
        = mset (map (\<lambda>k. candidate_group h sm (k, filter (\<lambda>x. rc_stake_pool_pub_key x = k) (convert_utxos_to_candidates c zs))) (remdups (row_keys c zs)))"
      using that by (simp add: any_order_def groups_eq row_keys_def image_mset.compositionality comp_def)
    then show ?thesis
      by (simp only: mset_map_filter) (simp add: pool_candidate_def filter_mset_image_mset image_mset.compositionality comp_def)
  qed
  from this [OF assms(1), of rows] this [OF assms(2), of rows'] row_keys_order [OF assms(3), of c]
  show ?thesis
    by (simp add: filter_trustless_candidates_registrations_def mset_map_filter pool_candidate_order [OF assms(3,4)])
qed

lemma decode_rows_keys:
  assumes "\<And>x r. f x = Inr r \<Longrightarrow> key r = g x" and "decode_rows (map f xs) = Inr rs"
  shows "map key rs = map g xs"
  using assms(2)
proof (induction xs arbitrary: rs)
  case (Cons x xs)
  then show ?case using assms(1) by (cases "decode_rows (map f xs)") (auto split: sum.splits)
qed simp

lemma stake_distribution_distinct:
  assumes "get_stake_distribution pool epoch = Inr entries"
  shows "distinct (map spe_pool_hash entries)"
proof -
  let ?f = "\<lambda>(h, amounts). map_sum id (\<lambda>stake. \<lparr>spe_pool_hash = h, spe_stake = stake\<rparr>) (decode_lovelace (sum_list amounts))"
  have hash: "spe_pool_hash r = fst x" if "?f x = Inr r" for x r
    using that by (cases x) (auto simp: decode_lovelace_def split: if_splits)
  obtain db where "pool = Inr db" using assms by (cases pool) (simp_all add: get_stake_distribution_def fetch_all_def)
  then obtain rows where "decode_rows (map ?f (group_by rows)) = Inr entries"
    using assms unfolding get_stake_distribution_def fetch_all_def by auto
  from decode_rows_keys [of ?f, OF hash this] show ?thesis by (simp add: group_by_def comp_def)
qed

lemma stake_delegation_order:
  assumes "distinct (map spe_pool_hash entries)" and "mset entries = mset entries'"
  shows "get_stake_delegation h (make_stake_map entries) k = get_stake_delegation h (make_stake_map entries') k"
proof -
  let ?f = "\<lambda>e. (spe_pool_hash e, spe_stake e)"
  have "distinct (map fst (rev (map ?f entries)))"
    using assms(1) by (simp add: rev_map [symmetric] comp_def)
  moreover have "distinct (map spe_pool_hash entries')"
    using assms by (metis mset_eq_imp_distinct_iff mset_map)
  then have "distinct (map fst (rev (map ?f entries')))"
    by (simp add: rev_map [symmetric] comp_def)
  moreover have "set (rev (map ?f entries)) = set (rev (map ?f entries'))"
    using mset_eq_setD [OF assms(2)] by simp
  ultimately have "map_of (make_stake_map entries) = map_of (make_stake_map entries')"
    unfolding make_stake_map_def by (simp only: map_of_inject_set)
  moreover have "make_stake_map entries = [] \<longleftrightarrow> make_stake_map entries' = []"
    using assms(2) by (auto simp: make_stake_map_def)
  ultimately show ?thesis by (simp add: get_stake_delegation_def)
qed

subsection \<open>The cached data source\<close>

text \<open>The state of the source. A lock that a panic has poisoned is \<open>None\<close>.\<close>

record ('p, 'q) candidate_data_source_cached =
  get_ariadne_parameters_for_epoch_cache :: "'p option"
  get_candidates_for_epoch_cache :: "'q option"
  highest_seen_stable_epoch :: "u32 option option"

type_synonym ('p, 'q) candidate_lrus =
  "('p, u32 \<times> bytes \<times> bytes, ariadne_parameters) lru \<times> ('q, u32 \<times> bytes, candidate_registrations list) lru"

definition candidate_cached_new :: "('p, 'q) candidate_lrus \<Rightarrow> nat \<Rightarrow> panic + ('p, 'q) candidate_data_source_cached" where
  "candidate_cached_new L capacity = (if capacity = 0 then Inl ExpectFailed
     else Inr \<lparr>get_ariadne_parameters_for_epoch_cache = Some (lru_new (fst L) capacity),
       get_candidates_for_epoch_cache = Some (lru_new (snd L) capacity), highest_seen_stable_epoch = Some None\<rparr>)"

text \<open>A look-up behind the lock, the call of the inner source on a miss, and the insertion of its answer.\<close>

definition lru_cached :: "('l, 'k, 'v) lru \<Rightarrow> 'l option \<Rightarrow> 'k \<Rightarrow> ('e, 'v) outcome \<Rightarrow> ('e, 'v) outcome \<times> 'l option" where
  "lru_cached L cache key inner =
     (let (hit, cache) = (case cache of
            Some l \<Rightarrow> map_prod id Some (lru_get L l key)
          | None \<Rightarrow> (None, None))
      in (case hit of
            Some resp \<Rightarrow> (Ok resp, cache)
          | None \<Rightarrow> (inner, (case inner of Ok response \<Rightarrow> map_option (\<lambda>l. lru_put L l key response) cache | _ \<Rightarrow> cache))))"

definition get_candidates_with_caching ::
  "('p, 'q) candidate_lrus \<Rightarrow> 'pd csl \<Rightarrow> (bytes \<Rightarrow> bytes) \<Rightarrow> candidate_iteration \<Rightarrow> (ds_error, tx_in_configuration) outcome \<Rightarrow> 'pd pg_pool
     \<Rightarrow> ('p, 'q) candidate_data_source_cached \<Rightarrow> u32 \<Rightarrow> bytes
     \<Rightarrow> ('pd candidate_error, candidate_registrations list) outcome \<times> ('p, 'q) candidate_data_source_cached" where
  "get_candidates_with_caching L c key_hash iter cfg pool st epoch address =
     (case lru_cached (snd L) (get_candidates_for_epoch_cache st) (epoch, address) (get_candidates c key_hash iter cfg pool epoch address) of
        (r, cache) \<Rightarrow> (r, st\<lparr>get_candidates_for_epoch_cache := cache\<rparr>))"

definition get_ariadne_parameters_with_caching ::
  "('p, 'q) candidate_lrus \<Rightarrow> 'pd csl \<Rightarrow> 'pd pg_pool \<Rightarrow> ('p, 'q) candidate_data_source_cached \<Rightarrow> u32 \<Rightarrow> bytes \<Rightarrow> bytes
     \<Rightarrow> ('pd candidate_error, ariadne_parameters) outcome \<times> ('p, 'q) candidate_data_source_cached" where
  "get_ariadne_parameters_with_caching L c pool st epoch d_policy p_policy =
     (case lru_cached (fst L) (get_ariadne_parameters_for_epoch_cache st) (epoch, d_policy, p_policy)
         (get_ariadne_parameters c pool epoch d_policy p_policy) of
        (r, cache) \<Rightarrow> (r, st\<lparr>get_ariadne_parameters_for_epoch_cache := cache\<rparr>))"

definition can_use_caching_for_request ::
  "u32 \<Rightarrow> 'pd pg_pool \<Rightarrow> ('p, 'q) candidate_data_source_cached \<Rightarrow> u32
     \<Rightarrow> ('pd candidate_error, bool) outcome \<times> ('p, 'q) candidate_data_source_cached" where
  "can_use_caching_for_request sp pool st request_epoch = (case data_epoch request_epoch of
       Err e \<Rightarrow> (Err e, st)
     | Panic p \<Rightarrow> (Panic p, st)
     | Ok d \<Rightarrow>
         if (case highest_seen_stable_epoch st of Some (Some s) \<Rightarrow> s \<ge> d | _ \<Rightarrow> False) then (Ok True, st)
         else (case cand_query (get_latest_stable_epoch pool sp) of
             Err e \<Rightarrow> (Err e, st)
           | Panic p \<Rightarrow> (Panic p, st)
           | Ok (Some s) \<Rightarrow> (Ok (d \<le> s), st\<lparr>highest_seen_stable_epoch := map_option (\<lambda>_. Some s) (highest_seen_stable_epoch st)\<rparr>)
           | Ok None \<Rightarrow> (Ok False, st)))"

definition cached_get_candidates ::
  "('p, 'q) candidate_lrus \<Rightarrow> 'pd csl \<Rightarrow> (bytes \<Rightarrow> bytes) \<Rightarrow> candidate_iteration \<Rightarrow> (ds_error, tx_in_configuration) outcome \<Rightarrow> u32 \<Rightarrow> 'pd pg_pool
     \<Rightarrow> ('p, 'q) candidate_data_source_cached \<Rightarrow> u32 \<Rightarrow> bytes
     \<Rightarrow> ('pd candidate_error, candidate_registrations list) outcome \<times> ('p, 'q) candidate_data_source_cached" where
  "cached_get_candidates L c key_hash iter cfg sp pool st epoch address =
     (case can_use_caching_for_request sp pool st epoch of
        (Err e, st) \<Rightarrow> (Err e, st)
      | (Panic p, st) \<Rightarrow> (Panic p, st)
      | (Ok True, st) \<Rightarrow> get_candidates_with_caching L c key_hash iter cfg pool st epoch address
      | (Ok False, st) \<Rightarrow> (get_candidates c key_hash iter cfg pool epoch address, st))"

definition cached_get_ariadne_parameters ::
  "('p, 'q) candidate_lrus \<Rightarrow> 'pd csl \<Rightarrow> u32 \<Rightarrow> 'pd pg_pool \<Rightarrow> ('p, 'q) candidate_data_source_cached \<Rightarrow> u32 \<Rightarrow> bytes \<Rightarrow> bytes
     \<Rightarrow> ('pd candidate_error, ariadne_parameters) outcome \<times> ('p, 'q) candidate_data_source_cached" where
  "cached_get_ariadne_parameters L c sp pool st epoch d_policy p_policy =
     (case can_use_caching_for_request sp pool st epoch of
        (Err e, st) \<Rightarrow> (Err e, st)
      | (Panic p, st) \<Rightarrow> (Panic p, st)
      | (Ok True, st) \<Rightarrow> get_ariadne_parameters_with_caching L c pool st epoch d_policy p_policy
      | (Ok False, st) \<Rightarrow> (get_ariadne_parameters c pool epoch d_policy p_policy, st))"

text \<open>
  The uses of one instance of the source, with the database \<open>pools i\<close> at time \<open>i\<close>: requests, the passing of time,
  and locks poisoned by a panic elsewhere.
\<close>

inductive cached_use ::
  "('p, 'q) candidate_lrus \<Rightarrow> 'pd csl \<Rightarrow> (bytes \<Rightarrow> bytes) \<Rightarrow> (ds_error, tx_in_configuration) outcome \<Rightarrow> u32 \<Rightarrow> (nat \<Rightarrow> 'pd pg_pool)
     \<Rightarrow> nat \<Rightarrow> ('p, 'q) candidate_data_source_cached \<Rightarrow> bool"
  for L c key_hash cfg sp pools where
  start: "candidate_cached_new L capacity = Inr st \<Longrightarrow> cached_use L c key_hash cfg sp pools i st"
| later: "cached_use L c key_hash cfg sp pools i st \<Longrightarrow> i \<le> j \<Longrightarrow> cached_use L c key_hash cfg sp pools j st"
| candidates: "cached_use L c key_hash cfg sp pools i st \<Longrightarrow> any_order iter
    \<Longrightarrow> cached_get_candidates L c key_hash iter cfg sp (pools i) st epoch address = (r, st')
    \<Longrightarrow> cached_use L c key_hash cfg sp pools i st'"
| parameters: "cached_use L c key_hash cfg sp pools i st
    \<Longrightarrow> cached_get_ariadne_parameters L c sp (pools i) st epoch d_policy p_policy = (r', st')
    \<Longrightarrow> cached_use L c key_hash cfg sp pools i st'"
| poisoned: "cached_use L c key_hash cfg sp pools i st
    \<Longrightarrow> cached_use L c key_hash cfg sp pools i (st\<lparr>highest_seen_stable_epoch := None\<rparr>)"

text \<open>The answers of the inner source, one for each order of iteration.\<close>

definition candidate_answers ::
  "'pd csl \<Rightarrow> (bytes \<Rightarrow> bytes) \<Rightarrow> (ds_error, tx_in_configuration) outcome \<Rightarrow> 'pd pg_pool \<Rightarrow> u32 \<Rightarrow> bytes
     \<Rightarrow> ('pd candidate_error, candidate_registrations list) outcome set" where
  "candidate_answers c key_hash cfg pool epoch address = {r. \<exists>iter. any_order iter \<and> r = get_candidates c key_hash iter cfg pool epoch address}"

text \<open>Data of an epoch that is stable at one time stays what it is.\<close>

definition stable_data_settled ::
  "'pd csl \<Rightarrow> (bytes \<Rightarrow> bytes) \<Rightarrow> (ds_error, tx_in_configuration) outcome \<Rightarrow> u32 \<Rightarrow> (nat \<Rightarrow> 'pd pg_pool) \<Rightarrow> bool" where
  "stable_data_settled c key_hash cfg sp pools \<longleftrightarrow> (\<forall>i j s epoch d. i \<le> j
     \<and> get_latest_stable_epoch (pools i) sp = Inr (Some s) \<and> offset_data_epoch epoch = Inr d \<and> d \<le> s
     \<longrightarrow> (\<forall>d_policy p_policy. get_ariadne_parameters c (pools j) epoch d_policy p_policy = get_ariadne_parameters c (pools i) epoch d_policy p_policy)
       \<and> (\<forall>address. candidate_answers c key_hash cfg (pools j) epoch address = candidate_answers c key_hash cfg (pools i) epoch address))"

definition was_stable :: "u32 \<Rightarrow> (nat \<Rightarrow> 'pd pg_pool) \<Rightarrow> nat \<Rightarrow> u32 \<Rightarrow> bool" where
  "was_stable sp pools i d \<longleftrightarrow>
     (\<exists>j s. j \<le> i \<and> get_latest_stable_epoch (pools j) sp = Inr (Some s) \<and> d \<le> s)"

definition seen_stable :: "u32 \<Rightarrow> (nat \<Rightarrow> 'pd pg_pool) \<Rightarrow> nat \<Rightarrow> u32 \<Rightarrow> bool" where
  "seen_stable sp pools i epoch \<longleftrightarrow> (\<exists>d. offset_data_epoch epoch = Inr d \<and> was_stable sp pools i d)"

definition parameters_cache_ok ::
  "('p, 'q) candidate_lrus \<Rightarrow> 'pd csl \<Rightarrow> u32 \<Rightarrow> (nat \<Rightarrow> 'pd pg_pool) \<Rightarrow> nat \<Rightarrow> 'p option \<Rightarrow> bool" where
  "parameters_cache_ok L c sp pools i cache \<longleftrightarrow> (\<forall>l epoch dp pp v. cache = Some l \<and> fst (lru_get (fst L) l (epoch, dp, pp)) = Some v
     \<longrightarrow> seen_stable sp pools i epoch \<and> get_ariadne_parameters c (pools i) epoch dp pp = Ok v)"

definition candidates_cache_ok ::
  "('p, 'q) candidate_lrus \<Rightarrow> 'pd csl \<Rightarrow> (bytes \<Rightarrow> bytes) \<Rightarrow> (ds_error, tx_in_configuration) outcome \<Rightarrow> u32 \<Rightarrow> (nat \<Rightarrow> 'pd pg_pool)
     \<Rightarrow> nat \<Rightarrow> 'q option \<Rightarrow> bool" where
  "candidates_cache_ok L c key_hash cfg sp pools i cache \<longleftrightarrow> (\<forall>l epoch address v. cache = Some l \<and> fst (lru_get (snd L) l (epoch, address)) = Some v
     \<longrightarrow> seen_stable sp pools i epoch \<and> Ok v \<in> candidate_answers c key_hash cfg (pools i) epoch address)"

definition cached_use_inv ::
  "('p, 'q) candidate_lrus \<Rightarrow> 'pd csl \<Rightarrow> (bytes \<Rightarrow> bytes) \<Rightarrow> (ds_error, tx_in_configuration) outcome \<Rightarrow> u32 \<Rightarrow> (nat \<Rightarrow> 'pd pg_pool)
     \<Rightarrow> nat \<Rightarrow> ('p, 'q) candidate_data_source_cached \<Rightarrow> bool" where
  "cached_use_inv L c key_hash cfg sp pools i st \<longleftrightarrow>
     (\<forall>s. highest_seen_stable_epoch st = Some (Some s) \<longrightarrow> was_stable sp pools i s)
     \<and> parameters_cache_ok L c sp pools i (get_ariadne_parameters_for_epoch_cache st)
     \<and> candidates_cache_ok L c key_hash cfg sp pools i (get_candidates_for_epoch_cache st)"

lemma settled_later:
  assumes "stable_data_settled c h cfg sp pools" and "was_stable sp pools i d" and "offset_data_epoch epoch = Inr d" and "i \<le> j"
  shows "get_ariadne_parameters c (pools j) epoch dp pp = get_ariadne_parameters c (pools i) epoch dp pp"
    and "candidate_answers c h cfg (pools j) epoch address = candidate_answers c h cfg (pools i) epoch address"
proof -
  obtain k s where k: "k \<le> i" "get_latest_stable_epoch (pools k) sp = Inr (Some s)" "d \<le> s"
    using assms(2) by (auto simp: was_stable_def)
  have "k \<le> j" using k(1) assms(4) by simp
  note same = assms(1) [unfolded stable_data_settled_def, rule_format, OF conjI [OF _ conjI [OF k(2) conjI [OF assms(3) k(3)]]]]
  show "get_ariadne_parameters c (pools j) epoch dp pp = get_ariadne_parameters c (pools i) epoch dp pp"
    using same [OF k(1)] same [OF \<open>k \<le> j\<close>] by simp
  show "candidate_answers c h cfg (pools j) epoch address = candidate_answers c h cfg (pools i) epoch address"
    using same [OF k(1)] same [OF \<open>k \<le> j\<close>] by simp
qed

lemma was_stable_later: "was_stable sp pools i d \<Longrightarrow> i \<le> j \<Longrightarrow> was_stable sp pools j d"
  unfolding was_stable_def by (meson le_trans)

lemma was_stable_below: "was_stable sp pools i s \<Longrightarrow> d \<le> s \<Longrightarrow> was_stable sp pools i d"
  unfolding was_stable_def by (meson order_trans)

lemma cached_use_inv_later:
  assumes "stable_data_settled c h cfg sp pools" and "cached_use_inv L c h cfg sp pools i st" and "i \<le> j"
  shows "cached_use_inv L c h cfg sp pools j st"
proof -
  have seen: "seen_stable sp pools i e \<Longrightarrow> seen_stable sp pools j e" for e
    using was_stable_later [OF _ assms(3)] unfolding seen_stable_def by blast
  have "seen_stable sp pools i e \<Longrightarrow> get_ariadne_parameters c (pools j) e dp pp = get_ariadne_parameters c (pools i) e dp pp"
    "seen_stable sp pools i e \<Longrightarrow> candidate_answers c h cfg (pools j) e a = candidate_answers c h cfg (pools i) e a" for e dp pp a
    using settled_later [OF assms(1) _ _ assms(3)] unfolding seen_stable_def by blast+
  with seen assms(2) was_stable_later [OF _ assms(3)] show ?thesis
    unfolding cached_use_inv_def parameters_cache_ok_def candidates_cache_ok_def by metis
qed

lemma data_epoch_Ok: "data_epoch epoch = Ok d \<longleftrightarrow> offset_data_epoch epoch = Inr d"
  by (simp add: data_epoch_def get_epoch_of_data_storage_def split: sum.split)

lemma data_epoch_no_panic [simp]: "data_epoch epoch \<noteq> Panic p"
  by (simp add: data_epoch_def get_epoch_of_data_storage_def split: sum.split)

text \<open>What the question whether the cache may be used finds out.\<close>

lemma can_use_caching_inv:
  assumes "cached_use_inv L c h cfg sp pools i st" and "can_use_caching_for_request sp (pools i) st epoch = (r, st')"
  shows "cached_use_inv L c h cfg sp pools i st'"
    and "r = Ok True \<Longrightarrow> seen_stable sp pools i epoch"
    and "r = Err e \<Longrightarrow> data_epoch epoch = Err e \<or> (\<exists>x. get_latest_stable_epoch (pools i) sp = Inl x \<and> e = CandidateSqlError x)"
    and "r \<noteq> Panic p"
proof -
  have now: "was_stable sp pools i d" if "get_latest_stable_epoch (pools i) sp = Inr (Some s)" "d \<le> s" for d s
    using that unfolding was_stable_def by blast
  note defs = can_use_caching_for_request_def cand_query_def data_epoch_Ok
  show "cached_use_inv L c h cfg sp pools i st'"
    using assms now by (auto simp: defs cached_use_inv_def split: outcome.splits if_splits sum.splits option.splits)
  show "r = Ok True \<Longrightarrow> seen_stable sp pools i epoch"
    using assms now was_stable_below by (fastforce simp: defs cached_use_inv_def seen_stable_def split: outcome.splits if_splits sum.splits option.splits)
  show "r = Err e \<Longrightarrow> data_epoch epoch = Err e \<or> (\<exists>x. get_latest_stable_epoch (pools i) sp = Inl x \<and> e = CandidateSqlError x)"
    using assms(2) by (auto simp: defs split: outcome.splits if_splits sum.splits option.splits)
  show "r \<noteq> Panic p"
    using assms(2) by (auto simp: defs split: outcome.splits if_splits sum.splits option.splits)
qed

lemma lru_cached_cases:
  "lru_cached L None key inner = (inner, None)"
  "fst (lru_get L l key) = Some v \<Longrightarrow> lru_cached L (Some l) key inner = (Ok v, Some (snd (lru_get L l key)))"
  "fst (lru_get L l key) = None \<Longrightarrow> lru_cached L (Some l) key inner
    = (inner, Some (case inner of Ok w \<Rightarrow> lru_put L (snd (lru_get L l key)) key w | _ \<Rightarrow> snd (lru_get L l key)))"
  by (cases inner; cases "lru_get L l key"; simp add: lru_cached_def)+

lemma lru_cached_answer:
  assumes "lru_cached L cache key inner = (r, cache')"
  shows "r = inner \<or> (\<exists>l v. cache = Some l \<and> fst (lru_get L l key) = Some v \<and> r = Ok v)"
proof (cases cache)
  case (Some l)
  then show ?thesis using assms by (cases "fst (lru_get L l key)") (simp_all add: lru_cached_cases)
qed (use assms in \<open>simp add: lru_cached_cases\<close>)

lemma lru_cached_entry:
  assumes "lru_ok L" and "lru_cached L cache key inner = (r, Some l')" and "fst (lru_get L l' k) = Some w"
  shows "k = key \<and> inner = Ok w \<or> (\<exists>l. cache = Some l \<and> fst (lru_get L l k) = Some w)"
proof -
  have kept: "fst (lru_get L (snd (lru_get L l k)) k') = fst (lru_get L l k')" for l k k'
    using assms(1) by (simp add: lru_ok_def)
  have put: "k' = k \<and> w = v \<or> fst (lru_get L l k') = Some w" if "fst (lru_get L (lru_put L l k v) k') = Some w" for l k v k' w
    using assms(1) that by (simp add: lru_ok_def)
  obtain l where l: "cache = Some l" using assms(2) by (cases cache) (simp_all add: lru_cached_cases)
  show ?thesis
  proof (cases "fst (lru_get L l key)")
    case None
    show ?thesis
    proof (cases inner)
      case (Ok v)
      then have "l' = lru_put L (snd (lru_get L l key)) key v"
        using assms(2) l None by (simp add: lru_cached_cases)
      then show ?thesis using put [of "snd (lru_get L l key)" key v k w] assms(3) l Ok by (auto simp: kept)
    qed (use assms(2,3) l None in \<open>auto simp: lru_cached_cases kept\<close>)
  next
    case (Some v)
    then show ?thesis using assms(2,3) l by (auto simp: lru_cached_cases kept)
  qed
qed

lemma answer_of_inner: "any_order iter \<Longrightarrow> get_candidates c h iter cfg pool epoch address \<in> candidate_answers c h cfg pool epoch address"
  by (auto simp: candidate_answers_def)

lemma unsupported_epoch:
  assumes "data_epoch epoch = (Err e :: ('pd candidate_error, u32) outcome)"
  shows "get_candidates c h iter cfg pool epoch address = (Err e :: ('pd candidate_error, _) outcome)"
    and "get_ariadne_parameters c pool epoch dp pp = (Err e :: ('pd candidate_error, _) outcome)"
  using assms by (simp_all add: data_epoch_def get_candidates_def get_ariadne_parameters_def)

lemma cached_candidates_step:
  assumes L: "lru_ok (snd L)" and inv: "cached_use_inv L c h cfg sp pools i st" and "any_order iter"
    and call: "cached_get_candidates L c h iter cfg sp (pools i) st epoch address = (r, st')"
  shows "cached_use_inv L c h cfg sp pools i st'"
    and "r \<in> candidate_answers c h cfg (pools i) epoch address
      \<or> (\<exists>x. get_latest_stable_epoch (pools i) sp = Inl x \<and> r = Err (CandidateSqlError x))"
proof -
  obtain q st1 where q: "can_use_caching_for_request sp (pools i) st epoch = (q, st1)" by fastforce
  note inv1 = can_use_caching_inv [OF inv q]
  let ?inner = "get_candidates c h iter cfg (pools i) epoch address"
  have inner: "?inner \<in> candidate_answers c h cfg (pools i) epoch address" using assms(3) by (rule answer_of_inner)
  have "cached_use_inv L c h cfg sp pools i st' \<and> (r \<in> candidate_answers c h cfg (pools i) epoch address
      \<or> (\<exists>x. get_latest_stable_epoch (pools i) sp = Inl x \<and> r = Err (CandidateSqlError x)))"
  proof (cases "q = Ok True")
    case True
    obtain cache where lru: "lru_cached (snd L) (get_candidates_for_epoch_cache st1) (epoch, address) ?inner = (r, cache)"
      and st': "st' = st1\<lparr>get_candidates_for_epoch_cache := cache\<rparr>"
      using call q True by (auto simp: cached_get_candidates_def get_candidates_with_caching_def split: prod.splits)
    have "r \<in> candidate_answers c h cfg (pools i) epoch address"
      using lru_cached_answer [OF lru] inv1(1) inner unfolding cached_use_inv_def candidates_cache_ok_def by blast
    moreover have "candidates_cache_ok L c h cfg sp pools i cache"
      unfolding candidates_cache_ok_def
    proof (intro allI impI, elim conjE)
      fix l e a v assume "cache = Some l" and entry: "fst (lru_get (snd L) l (e, a)) = Some v"
      then have "(e, a) = (epoch, address) \<and> ?inner = Ok v
          \<or> (\<exists>l. get_candidates_for_epoch_cache st1 = Some l \<and> fst (lru_get (snd L) l (e, a)) = Some v)"
        using lru_cached_entry [OF L _ entry] lru by blast
      then show "seen_stable sp pools i e \<and> Ok v \<in> candidate_answers c h cfg (pools i) e a"
        using inv1(1) inv1(2) [OF True] inner unfolding cached_use_inv_def candidates_cache_ok_def by fastforce
    qed
    then have "cached_use_inv L c h cfg sp pools i st'" using inv1(1) by (simp add: cached_use_inv_def st')
    ultimately show ?thesis by simp
  next
    case False
    then show ?thesis
      using call q inv1 inner by (cases q) (auto simp: cached_get_candidates_def unsupported_epoch split: bool.splits)
  qed
  then show "cached_use_inv L c h cfg sp pools i st'"
    and "r \<in> candidate_answers c h cfg (pools i) epoch address
      \<or> (\<exists>x. get_latest_stable_epoch (pools i) sp = Inl x \<and> r = Err (CandidateSqlError x))" by simp_all
qed

lemma cached_parameters_step:
  assumes L: "lru_ok (fst L)" and inv: "cached_use_inv L c h cfg sp pools i st"
    and call: "cached_get_ariadne_parameters L c sp (pools i) st epoch dp pp = (r, st')"
  shows "cached_use_inv L c h cfg sp pools i st'"
    and "r = get_ariadne_parameters c (pools i) epoch dp pp
      \<or> (\<exists>x. get_latest_stable_epoch (pools i) sp = Inl x \<and> r = Err (CandidateSqlError x))"
proof -
  obtain q st1 where q: "can_use_caching_for_request sp (pools i) st epoch = (q, st1)" by fastforce
  note inv1 = can_use_caching_inv [OF inv q]
  let ?inner = "get_ariadne_parameters c (pools i) epoch dp pp"
  have "cached_use_inv L c h cfg sp pools i st' \<and> (r = ?inner
      \<or> (\<exists>x. get_latest_stable_epoch (pools i) sp = Inl x \<and> r = Err (CandidateSqlError x)))"
  proof (cases "q = Ok True")
    case True
    obtain cache where lru: "lru_cached (fst L) (get_ariadne_parameters_for_epoch_cache st1) (epoch, dp, pp) ?inner = (r, cache)"
      and st': "st' = st1\<lparr>get_ariadne_parameters_for_epoch_cache := cache\<rparr>"
      using call q True by (auto simp: cached_get_ariadne_parameters_def get_ariadne_parameters_with_caching_def split: prod.splits)
    have "r = ?inner"
      using lru_cached_answer [OF lru] inv1(1) unfolding cached_use_inv_def parameters_cache_ok_def by metis
    moreover have "parameters_cache_ok L c sp pools i cache"
      unfolding parameters_cache_ok_def
    proof (intro allI impI, elim conjE)
      fix l e d p v assume "cache = Some l" and entry: "fst (lru_get (fst L) l (e, d, p)) = Some v"
      then have "(e, d, p) = (epoch, dp, pp) \<and> ?inner = Ok v
          \<or> (\<exists>l. get_ariadne_parameters_for_epoch_cache st1 = Some l \<and> fst (lru_get (fst L) l (e, d, p)) = Some v)"
        using lru_cached_entry [OF L _ entry] lru by blast
      then show "seen_stable sp pools i e \<and> get_ariadne_parameters c (pools i) e d p = Ok v"
        using inv1(1) inv1(2) [OF True] unfolding cached_use_inv_def parameters_cache_ok_def by fastforce
    qed
    then have "cached_use_inv L c h cfg sp pools i st'" using inv1(1) by (simp add: cached_use_inv_def st')
    ultimately show ?thesis by simp
  next
    case False
    then show ?thesis
      using call q inv1 by (cases q) (auto simp: cached_get_ariadne_parameters_def unsupported_epoch split: bool.splits)
  qed
  then show "cached_use_inv L c h cfg sp pools i st'"
    and "r = ?inner \<or> (\<exists>x. get_latest_stable_epoch (pools i) sp = Inl x \<and> r = Err (CandidateSqlError x))" by simp_all
qed

lemma cached_use_keeps_inv:
  assumes "lru_ok (fst L)" "lru_ok (snd L)" and "stable_data_settled c h cfg sp pools"
    and "cached_use L c h cfg sp pools i st"
  shows "cached_use_inv L c h cfg sp pools i st"
  using assms(4)
proof (induction rule: cached_use.induct)
  case (start capacity st i)
  then show ?case using assms(1,2)
    by (auto simp: candidate_cached_new_def cached_use_inv_def parameters_cache_ok_def candidates_cache_ok_def lru_ok_def split: if_splits)
next
  case (later i st j)
  then show ?case using cached_use_inv_later [OF assms(3)] by blast
next
  case (candidates i st iter epoch address r st')
  then show ?case using cached_candidates_step(1) [OF assms(2)] by blast
next
  case (parameters i st epoch d_policy p_policy r' st')
  then show ?case using cached_parameters_step(1) [OF assms(1)] by blast
next
  case (poisoned i st)
  then show ?case by (simp add: cached_use_inv_def)
qed

text \<open>
  C15: The cached candidate source answers as the source it wraps. Whatever the requests made before, the
  evictions of the caches, the growth of the database and poisoned locks, an answer about candidates is one the inner source gives
  now, and an answer about the parameters is the one it gives now; the only other outcome is the error of the query
  for the latest stable epoch. Relied on: data of a stable epoch does not change any more.
\<close>

theorem cached_candidates_refine:
  assumes "lru_ok (fst L)" "lru_ok (snd L)" and "stable_data_settled c h cfg sp pools"
    and "cached_use L c h cfg sp pools i st" and "any_order iter"
  shows "(fst (cached_get_candidates L c h iter cfg sp (pools i) st epoch address) \<in> candidate_answers c h cfg (pools i) epoch address
      \<or> (\<exists>x. get_latest_stable_epoch (pools i) sp = Inl x
          \<and> fst (cached_get_candidates L c h iter cfg sp (pools i) st epoch address) = Err (CandidateSqlError x)))
    \<and> (fst (cached_get_ariadne_parameters L c sp (pools i) st epoch dp pp) = get_ariadne_parameters c (pools i) epoch dp pp
      \<or> (\<exists>x. get_latest_stable_epoch (pools i) sp = Inl x
          \<and> fst (cached_get_ariadne_parameters L c sp (pools i) st epoch dp pp) = Err (CandidateSqlError x)))"
  using cached_candidates_step(2) [OF assms(2) cached_use_keeps_inv [OF assms(1-4)] assms(5) surjective_pairing]
    cached_parameters_step(2) [OF assms(1) cached_use_keeps_inv [OF assms(1-4)] surjective_pairing]
  by blast

text \<open>
  Two databases with the registrations of two pools, made by one transaction with two inputs. The second database is read through
  \<open>tx_in\<close> and holds its rows in the opposite order.
\<close>

definition demo_pool_registration :: "u8 \<Rightarrow> candidate_registration" where
  "demo_pool_registration k = \<lparr>cr_stake_ownership = \<lparr>abs_pub_key = replicate 32 k, abs_signature = replicate 64 0\<rparr>,
     cr_partner_chain_pub_key = replicate 33 k, cr_partner_chain_signature = replicate 64 0, cr_own_pkh = replicate 28 0,
     cr_registration_utxo = demo_utxo, cr_keys = [\<lparr>key_id = aura_id, key_bytes = [k]\<rparr>]\<rparr>"

definition candidate_db :: "(tx_out_row list \<Rightarrow> tx_out_row list) \<Rightarrow> (tx_in_row list \<Rightarrow> tx_in_row list)
    \<Rightarrow> (epoch_stake_row list \<Rightarrow> epoch_stake_row list) \<Rightarrow> datum db_tables" where
  "candidate_db f g h = \<lparr>block_table = [
       \<lparr>block_id = 1, block_no_col = Some 10, block_hash_col = [1], block_epoch_no_col = Some 2, block_slot_no_col = Some 100, block_time_col = 1000\<rparr>,
       \<lparr>block_id = 2, block_no_col = Some 11, block_hash_col = [2], block_epoch_no_col = Some 3, block_slot_no_col = Some 120, block_time_col = 1020\<rparr>,
       \<lparr>block_id = 3, block_no_col = Some 12, block_hash_col = [3], block_epoch_no_col = Some 3, block_slot_no_col = Some 140, block_time_col = 1040\<rparr>],
     tx_table = [\<lparr>tx_id = 1, tx_hash_col = replicate 32 5, tx_block_id = 1, tx_block_index = 0\<rparr>,
       \<lparr>tx_id = 2, tx_hash_col = [12], tx_block_id = 1, tx_block_index = 4\<rparr>],
     tx_out_table = f [
       \<lparr>out_id = 1, out_tx_id = 1, out_index = 0, out_address = [6], out_data_hash = None, out_consumed_by_tx_id = Some 2\<rparr>,
       \<lparr>out_id = 2, out_tx_id = 1, out_index = 1, out_address = [6], out_data_hash = None, out_consumed_by_tx_id = Some 2\<rparr>,
       \<lparr>out_id = 3, out_tx_id = 2, out_index = 0, out_address = [7], out_data_hash = Some [21], out_consumed_by_tx_id = None\<rparr>,
       \<lparr>out_id = 4, out_tx_id = 2, out_index = 1, out_address = [7], out_data_hash = Some [22], out_consumed_by_tx_id = None\<rparr>,
       \<lparr>out_id = 5, out_tx_id = 2, out_index = 2, out_address = [8], out_data_hash = Some [23], out_consumed_by_tx_id = None\<rparr>],
     tx_in_table = g [\<lparr>in_id = 1, in_tx_in_id = 2, in_tx_out_id = 1, in_tx_out_index = 0\<rparr>,
       \<lparr>in_id = 2, in_tx_in_id = 2, in_tx_out_id = 1, in_tx_out_index = 1\<rparr>],
     ma_tx_out_table = [\<lparr>ma_ident = 5, ma_tx_out_id = 5, ma_quantity = 1\<rparr>],
     multi_asset_table = [\<lparr>asset_row_id = 5, asset_policy_col = [9], asset_name_col = []\<rparr>],
     datum_table = [
       \<lparr>datum_hash_col = [21], datum_value_col = candidate_registration_to_plutus_data datum_csl (demo_pool_registration 41)\<rparr>,
       \<lparr>datum_hash_col = [22], datum_value_col = candidate_registration_to_plutus_data datum_csl (demo_pool_registration 42)\<rparr>,
       \<lparr>datum_hash_col = [23], datum_value_col = d_parameter_to_plutus_data datum_csl
          \<lparr>num_permissioned_candidates = 0, num_registered_candidates = 3\<rparr>\<rparr>],
     epoch_stake_table = h [\<lparr>es_epoch_no = 2, es_addr_id = 1, es_pool_id = 1, es_amount = 5\<rparr>,
       \<lparr>es_epoch_no = 2, es_addr_id = 2, es_pool_id = 2, es_amount = 6\<rparr>],
     pool_hash_table = [\<lparr>ph_id = 1, ph_hash_raw = [41]\<rparr>, \<lparr>ph_id = 2, ph_hash_raw = [42]\<rparr>],
     stake_address_table = [], epoch_param_table = [\<lparr>ep_epoch_no = 2, ep_nonce = [9]\<rparr>]\<rparr>"

definition candidate_row :: "u16 \<Rightarrow> u8 \<Rightarrow> utxo_id list \<Rightarrow> datum mainchain_tx_output" where
  "candidate_row ix k inputs = \<lparr>mto_utxo_id = \<lparr>utxo_tx_hash = [12], utxo_index = ix\<rparr>, mto_tx_block_no = 10, mto_tx_slot_no = 100,
     mto_tx_epoch_no = 2, mto_tx_index_in_block = 4, mto_address = [7],
     mto_datum = Some (candidate_registration_to_plutus_data datum_csl (demo_pool_registration k)), mto_tx_inputs = inputs\<rparr>"

lemmas candidate_db_simps = candidate_db_def fetch_all_def fetch_optional_def order_by_desc_def decode_block_def null_le_def

lemma candidate_db_simple_reads:
  "get_latest_block_for_epoch (Inr (candidate_db f g h)) 2
    = Inr (Some \<lparr>db_block_no = 10, db_block_hash = [1], db_epoch_no = 2, db_slot_no = 100, db_time = 1000\<rparr>)"
  "db_get_epoch_nonce (Inr (candidate_db f g h)) 2 = Inr (Some [9])"
  "get_stake_distribution (Inr (candidate_db f g (\<lambda>xs. xs))) 2
    = Inr [\<lparr>spe_pool_hash = [41], spe_stake = 5\<rparr>, \<lparr>spe_pool_hash = [42], spe_stake = 6\<rparr>]"
  "get_stake_distribution (Inr (candidate_db f g rev)) 2
    = Inr [\<lparr>spe_pool_hash = [42], spe_stake = 6\<rparr>, \<lparr>spe_pool_hash = [41], spe_stake = 5\<rparr>]"
  by (simp_all add: candidate_db_simps get_latest_block_for_epoch_def db_get_epoch_nonce_def get_stake_distribution_def
      group_by_def decode_lovelace_def)

lemma candidate_db_tokens:
  assumes "f = (\<lambda>xs. xs) \<or> f = rev"
  shows "get_ariadne_parameters datum_csl (Inr (candidate_db f g h)) 4 [9] [8]
    = Ok \<lparr>ap_d_parameter = \<lparr>num_permissioned_candidates = 0, num_registered_candidates = 3\<rparr>, ap_permissioned_candidates = None\<rparr>"
proof -
  let ?d = "\<lparr>num_permissioned_candidates = 0, num_registered_candidates = 3\<rparr>"
  have token: "get_token_utxo_for_epoch (Inr (candidate_db f g h)) (asset_new [9]) 2 = Inr (Some \<lparr>tok_origin_tx_hash = [12], tok_utxo_index = 2,
      tok_tx_epoch_no = 2, tok_tx_block_no = 10, tok_tx_slot_no = 100, tok_tx_block_index = 4,
      tok_datum = Some (d_parameter_to_plutus_data datum_csl ?d)\<rparr>)"
    "get_token_utxo_for_epoch (Inr (candidate_db f g h)) (asset_new [8]) 2 = Inr None"
    using assms by (auto simp: candidate_db_simps get_token_utxo_for_epoch_def asset_rows_def asset_new_def tx_and_block_def left_join_def)
  have "offset_data_epoch 4 = Inr 2" by (simp add: offset_data_epoch_def data_mc_epoch_offset_def checked_sub_def)
  moreover obtain r where "d_param_decode datum_csl (d_parameter_to_plutus_data datum_csl ?d) = Inr r" "d_param_datum_into r = ?d"
    using d_parameter_plutus [OF datum_csl_ok, of ?d] by (cases "d_param_decode datum_csl (d_parameter_to_plutus_data datum_csl ?d)") simp_all
  ultimately show ?thesis
    by (simp add: get_ariadne_parameters_def get_epoch_of_data_storage_def token cand_query_def cand_decode_def)
qed

lemma candidate_db_rows:
  "get_utxos_for_address (Inr (candidate_db (\<lambda>xs. xs) (\<lambda>xs. xs) h)) [7] 10 Consumed
    = Inr [candidate_row 0 41 [demo_utxo\<lparr>utxo_index := 0\<rparr>, demo_utxo], candidate_row 1 42 [demo_utxo\<lparr>utxo_index := 0\<rparr>, demo_utxo]]"
  "get_utxos_for_address (Inr (candidate_db rev rev h)) [7] 10 Enabled
    = Inr [candidate_row 1 42 [demo_utxo, demo_utxo\<lparr>utxo_index := 0\<rparr>], candidate_row 0 41 [demo_utxo, demo_utxo\<lparr>utxo_index := 0\<rparr>]]"
  by (simp_all add: candidate_db_simps get_utxos_for_address_def get_utxos_for_address_tx_in_consumed_def get_utxos_for_address_tx_in_enabled_def
      utxos_for_address_query_def tx_and_block_def left_join_def consuming_tx_ids_consumed_def consuming_tx_ids_tx_in_def consuming_tx_and_block_def
      input_texts_consumed_def input_texts_tx_in_def group_by_def candidate_row_def demo_utxo_def)

definition demo_pool :: "datum pg_pool" where
  "demo_pool = Inr (candidate_db (\<lambda>xs. xs) (\<lambda>xs. xs) (\<lambda>xs. xs))"

definition demo_fresh_cache ::
  "(nat \<times> ((u32 \<times> bytes \<times> bytes) \<times> ariadne_parameters) list, nat \<times> ((u32 \<times> bytes) \<times> candidate_registrations list) list) candidate_data_source_cached" where
  "demo_fresh_cache = \<lparr>get_ariadne_parameters_for_epoch_cache = Some (8, []), get_candidates_for_epoch_cache = Some (8, []),
     highest_seen_stable_epoch = Some None\<rparr>"

text \<open>A second request, whose answer comes from the cache.\<close>

theorem cached_candidates_refine_witness:
  "(let st = snd (cached_get_candidates (demo_lru, demo_lru) datum_csl (take 1) (\<lambda>xs. xs) (Ok Consumed) 1 demo_pool demo_fresh_cache 4 [7])
    in fst (cached_get_candidates (demo_lru, demo_lru) datum_csl (take 1) rev (Ok Consumed) 1 demo_pool st 4 [7])
        \<in> candidate_answers datum_csl (take 1) (Ok Consumed) demo_pool 4 [7]
      \<and> fst (cached_get_ariadne_parameters (demo_lru, demo_lru) datum_csl 1 demo_pool st 4 [9] [8])
        = Ok \<lparr>ap_d_parameter = \<lparr>num_permissioned_candidates = 0, num_registered_candidates = 3\<rparr>, ap_permissioned_candidates = None\<rparr>)"
proof -
  let ?L = "(demo_lru, demo_lru)"
  let ?st = "snd (cached_get_candidates ?L datum_csl (take 1) (\<lambda>xs. xs) (Ok Consumed) 1 demo_pool demo_fresh_cache 4 [7])"
  have "candidate_cached_new ?L 8 = Inr demo_fresh_cache"
    by (simp add: candidate_cached_new_def demo_fresh_cache_def demo_lru_def)
  then have "cached_use ?L datum_csl (take 1) (Ok Consumed) 1 (\<lambda>_. demo_pool) 0 demo_fresh_cache" by (rule cached_use.start)
  then have used: "cached_use ?L datum_csl (take 1) (Ok Consumed) 1 (\<lambda>_. demo_pool) 0 ?st"
    by (rule cached_use.candidates [OF _ _ surjective_pairing]) (simp add: any_order_def)
  have ok: "lru_ok (fst ?L)" "lru_ok (snd ?L)" by (simp_all add: demo_lru_ok)
  have settled: "stable_data_settled datum_csl (take 1) (Ok Consumed) 1 (\<lambda>_. demo_pool)" by (simp add: stable_data_settled_def)
  have stable: "get_latest_stable_epoch demo_pool 1 = Inr (Some 2)"
    by (simp add: demo_pool_def get_latest_stable_epoch_def candidate_db_simps decode_epoch_def)
  have "get_ariadne_parameters datum_csl demo_pool 4 [9] [8]
      = Ok \<lparr>ap_d_parameter = \<lparr>num_permissioned_candidates = 0, num_registered_candidates = 3\<rparr>, ap_permissioned_candidates = None\<rparr>"
    by (simp add: demo_pool_def candidate_db_tokens)
  then show ?thesis
    using cached_candidates_refine [OF ok settled used, of rev 4 "[7]" "[9]" "[8]"]
    by (simp add: stable Let_def any_order_def)
qed

end
