(* ===== verification/Ariadne_Inherent.thy ===== *)
theory Ariadne_Inherent
  imports Candidate_Source Mainchain_Epoch Inherents
begin

text \<open>
  The inherent data of committee selection: the inputs collected from a candidate data source,
  \<open>authority_selection_inputs.rs\<close>, and the provider that decides for which main chain epoch they are collected and
  whether they are provided, \<open>ariadne_inherent_data_provider.rs\<close>, both of
  \<open>toolkit/committee-selection/authority-selection-inherents/src\<close>.

  The two runtime API calls of the provider are the results \<open>next_unset\<close> and \<open>scripts\<close>; \<open>Slot::timestamp\<close> of
  \<open>sp_consensus_slots\<close> is the parameter \<open>slot_timestamp\<close>.
\<close>

record 'e authority_selection_data_source =
  ads_get_ariadne_parameters :: "u32 \<Rightarrow> bytes \<Rightarrow> bytes \<Rightarrow> ('e, ariadne_parameters) outcome"
  ads_get_candidates :: "u32 \<Rightarrow> bytes \<Rightarrow> ('e, candidate_registrations list) outcome"
  ads_get_epoch_nonce :: "u32 \<Rightarrow> ('e, bytes option) outcome"
  ads_data_epoch :: "u32 \<Rightarrow> ('e, u32) outcome"

definition db_candidate_source ::
  "'pd csl \<Rightarrow> (bytes \<Rightarrow> bytes) \<Rightarrow> candidate_iteration \<Rightarrow> (ds_error, tx_in_configuration) outcome \<Rightarrow> 'pd pg_pool
     \<Rightarrow> 'pd candidate_error authority_selection_data_source" where
  "db_candidate_source c key_hash iter cfg pool = \<lparr>ads_get_ariadne_parameters = get_ariadne_parameters c pool,
     ads_get_candidates = get_candidates c key_hash iter cfg pool, ads_get_epoch_nonce = get_epoch_nonce pool,
     ads_data_epoch = data_epoch\<rparr>"

datatype 'e inputs_creation_error =
    AriadneParametersQuery u32 bytes bytes "'e + unit"
  | GetCandidatesQuery u32 bytes 'e
  | GetEpochNonceQuery u32 'e

datatype ('api, 'e) ariadne_creation_error =
    AriadneSlotTooBig
  | McEpochDerivationError epoch_derivation_error
  | AriadneApiError 'api
  | InputsCreationError "'e inputs_creation_error"
  | AriadneDataSourceError 'e

definition inputs_from_mc_data ::
  "'e authority_selection_data_source \<Rightarrow> u32 \<Rightarrow> main_chain_scripts \<Rightarrow> ('e inputs_creation_error, authority_selection_inputs) outcome" where
  "inputs_from_mc_data D for_epoch scripts =
     (let params_error = AriadneParametersQuery for_epoch (d_parameter_policy_id scripts) (permissioned_candidates_policy_id scripts) in
     and_then (map_err (\<lambda>e. params_error (Inl e)) (ads_get_ariadne_parameters D for_epoch (d_parameter_policy_id scripts)
         (permissioned_candidates_policy_id scripts))) (\<lambda>response.
     and_then (case ap_permissioned_candidates response of
         None \<Rightarrow> if num_permissioned_candidates (ap_d_parameter response) = 0 then Ok [] else Err (params_error (Inr ()))
       | Some permissioned \<Rightarrow> Ok permissioned) (\<lambda>permissioned.
     and_then (map_err (GetCandidatesQuery for_epoch (committee_candidate_address scripts))
         (ads_get_candidates D for_epoch (committee_candidate_address scripts))) (\<lambda>registered.
     and_then (map_err (GetEpochNonceQuery for_epoch) (ads_get_epoch_nonce D for_epoch)) (\<lambda>nonce.
       Ok \<lparr>d_param = ap_d_parameter response, permissioned_candidates = permissioned,
         registered_candidates = registered, epoch_nonce = (case nonce of Some n \<Rightarrow> n | None \<Rightarrow> [])\<rparr>)))))"

definition sc_epoch_to_mc_epoch ::
  "(slot \<Rightarrow> 'dur \<Rightarrow> u64 option) \<Rightarrow> 'dur sc_slot_config \<Rightarrow> mainchain_epoch_config \<Rightarrow> sc_epoch
     \<Rightarrow> (('api, 'e) ariadne_creation_error, u32) outcome" where
  "sc_epoch_to_mc_epoch slot_timestamp sc_cfg mc_cfg e =
     and_then (checked AriadneSlotTooBig (epoch_start_time slot_timestamp sc_cfg e)) (\<lambda>timestamp.
       map_err McEpochDerivationError (timestamp_to_mainchain_epoch mc_cfg timestamp))"

definition api_call :: "'api + 'a \<Rightarrow> (('api, 'e) ariadne_creation_error, 'a) outcome" where
  "api_call r = (case r of Inl e \<Rightarrow> Err (AriadneApiError e) | Inr a \<Rightarrow> Ok a)"

text \<open>The special case is the genesis committee, which is stored with epoch 0.\<close>

definition mc_epoch_for_next_ariadne_cidp ::
  "(slot \<Rightarrow> 'dur \<Rightarrow> u64 option) \<Rightarrow> 'api + u64 \<Rightarrow> 'dur sc_slot_config \<Rightarrow> mainchain_epoch_config \<Rightarrow> slot
     \<Rightarrow> (('api, 'e) ariadne_creation_error, u32) outcome" where
  "mc_epoch_for_next_ariadne_cidp slot_timestamp next_unset sc_cfg mc_cfg slot =
     and_then (api_call next_unset) (\<lambda>next_unset_epoch.
     and_then (if next_unset_epoch = 1
         then (case config_epoch_number sc_cfg slot of Inl p \<Rightarrow> Panic p | Inr e \<Rightarrow> Ok e)
         else Ok next_unset_epoch)
       (sc_epoch_to_mc_epoch slot_timestamp sc_cfg mc_cfg))"

definition ariadne_provider_new ::
  "(slot \<Rightarrow> 'dur \<Rightarrow> u64 option) \<Rightarrow> 'api + u64 \<Rightarrow> 'api + main_chain_scripts \<Rightarrow> 'dur sc_slot_config \<Rightarrow> mainchain_epoch_config \<Rightarrow> slot
     \<Rightarrow> 'e authority_selection_data_source \<Rightarrow> u32 \<Rightarrow> (('api, 'e) ariadne_creation_error, authority_selection_inputs option) outcome" where
  "ariadne_provider_new slot_timestamp next_unset scripts sc_cfg mc_cfg slot D mc_ref_epoch =
     and_then (mc_epoch_for_next_ariadne_cidp slot_timestamp next_unset sc_cfg mc_cfg slot) (\<lambda>for_mc_epoch.
     and_then (map_err AriadneDataSourceError (ads_data_epoch D for_mc_epoch)) (\<lambda>d.
     and_then (api_call scripts) (\<lambda>scripts.
       if d < mc_ref_epoch
       then and_then (map_err InputsCreationError (inputs_from_mc_data D for_mc_epoch scripts)) (\<lambda>data. Ok (Some data))
       else Ok None)))"

definition ariadne_provide_inherent_data :: "authority_selection_inputs option \<Rightarrow> authority_selection_inputs inherent_item" where
  "ariadne_provide_inherent_data data = Inr data"

subsection \<open>Agreement of nodes\<close>

text \<open>What one node reads from its database for the selection in main chain epoch \<open>e\<close>, whose data is that of epoch \<open>d\<close>.\<close>

definition node_reads ::
  "'pd csl \<Rightarrow> tx_in_configuration \<Rightarrow> 'pd pg_pool \<Rightarrow> u32 \<Rightarrow> u32 \<Rightarrow> main_chain_scripts \<Rightarrow> ariadne_parameters
     \<Rightarrow> 'pd mainchain_tx_output list \<Rightarrow> stake_pool_entry list \<Rightarrow> bytes option \<Rightarrow> bool" where
  "node_reads c cfg pool e d scripts params rows entries nonce \<longleftrightarrow>
     get_ariadne_parameters c pool e (d_parameter_policy_id scripts) (permissioned_candidates_policy_id scripts) = Ok params
     \<and> (\<exists>b. get_latest_block_for_epoch pool d = Inr (Some b)
         \<and> get_utxos_for_address pool (committee_candidate_address scripts) (db_block_no b) cfg = Inr rows)
     \<and> get_stake_distribution pool d = Inr entries
     \<and> db_get_epoch_nonce pool d = Inr nonce"

lemma candidate_groups:
  assumes "offset_data_epoch e = Inr d" and "node_reads c cfg pool e d scripts params rows entries nonce"
  shows "get_candidates c h iter (Ok cfg) pool e (committee_candidate_address scripts)
    = Ok (map (candidate_group h (make_stake_map entries)) (iter (group_candidates_by_mc_pub_key (convert_utxos_to_candidates c rows))))"
  using assms by (auto simp: node_reads_def get_candidates_def get_epoch_of_data_storage_def get_registered_candidates_def
      get_last_block_for_epoch_def cand_query_def candidate_group_def)

lemma collected_inputs:
  assumes "offset_data_epoch e = Inr d" and "node_reads c cfg pool e d scripts params rows entries nonce"
  shows "inputs_from_mc_data (db_candidate_source c h iter (Ok cfg) pool) e scripts =
    (case ap_permissioned_candidates params of
       None \<Rightarrow> if num_permissioned_candidates (ap_d_parameter params) = 0
         then Ok \<lparr>d_param = ap_d_parameter params, permissioned_candidates = [],
           registered_candidates = map (candidate_group h (make_stake_map entries)) (iter (group_candidates_by_mc_pub_key (convert_utxos_to_candidates c rows))),
           epoch_nonce = (case nonce of Some n \<Rightarrow> n | None \<Rightarrow> [])\<rparr>
         else Err (AriadneParametersQuery e (d_parameter_policy_id scripts) (permissioned_candidates_policy_id scripts) (Inr ()))
     | Some ps \<Rightarrow> Ok \<lparr>d_param = ap_d_parameter params, permissioned_candidates = ps,
           registered_candidates = map (candidate_group h (make_stake_map entries)) (iter (group_candidates_by_mc_pub_key (convert_utxos_to_candidates c rows))),
           epoch_nonce = (case nonce of Some n \<Rightarrow> n | None \<Rightarrow> [])\<rparr>)"
proof -
  have "get_ariadne_parameters c pool e (d_parameter_policy_id scripts) (permissioned_candidates_policy_id scripts) = Ok params"
    "get_epoch_nonce pool e = Ok nonce"
    using assms by (simp_all add: node_reads_def get_epoch_nonce_def get_epoch_of_data_storage_def cand_query_def)
  then show ?thesis using candidate_groups [OF assms]
    by (simp add: inputs_from_mc_data_def db_candidate_source_def split: option.split)
qed

text \<open>
  C1: Nodes agree on the committee. Two nodes, whose databases hold the same registrations, stake, parameters and nonce but return rows and
  transaction inputs in different orders or are configured differently, and whose hash maps iterate in different orders, come to the
  same result of the selection for every Partner Chain epoch, errors included. Relied on: two outputs of the chain differ in block, transaction or index.
\<close>

theorem nodes_agree_on_committee:
  assumes "offset_data_epoch e = Inr d" and "any_order iter" "any_order iter'"
    and "node_reads c cfg pool e d scripts params rows entries nonce"
    and "node_reads c cfg' pool' e d scripts params rows' entries' nonce"
    and "mset (map row_view rows) = mset (map row_view rows')" and "distinct (map row_position rows)"
    and "mset entries = mset entries'"
  shows "and_then (inputs_from_mc_data (db_candidate_source c h iter (Ok cfg) pool) e scripts)
      (\<lambda>inputs. Ok (select_authorities G shuffle E max_authorities genesis_utxo inputs sidechain_epoch))
    = and_then (inputs_from_mc_data (db_candidate_source c h iter' (Ok cfg') pool') e scripts)
      (\<lambda>inputs. Ok (select_authorities G shuffle E max_authorities genesis_utxo inputs sidechain_epoch))"
proof -
  have "distinct (map spe_pool_hash entries)"
    using assms(4) stake_distribution_distinct by (auto simp: node_reads_def)
  then have "candidate_group h (make_stake_map entries) = candidate_group h (make_stake_map entries')"
    using stake_delegation_order [OF _ assms(8)] by (simp add: candidate_group_def fun_eq_iff)
  then have same: "mset (filter_trustless_candidates_registrations E
        (map (candidate_group h (make_stake_map entries)) (iter (group_candidates_by_mc_pub_key (convert_utxos_to_candidates c rows)))) genesis_utxo)
    = mset (filter_trustless_candidates_registrations E
        (map (candidate_group h (make_stake_map entries')) (iter' (group_candidates_by_mc_pub_key (convert_utxos_to_candidates c rows')))) genesis_utxo)"
    using trustless_candidates_order [OF assms(2,3,6,7)] by simp
  show ?thesis
    unfolding collected_inputs [OF assms(1,4)] collected_inputs [OF assms(1,5)]
    by (simp add: select_authorities_def select_candidates_def ariadne_v2_order_independent [OF same refl] split: option.split)
qed

subsection \<open>The inputs are not withheld\<close>

lemma epochs_passed_value:
  assumes "epochs_passed cfg t = Ok n"
  shows "unat (mc_first_epoch_timestamp_millis cfg) \<le> unat t" and "mc_epoch_duration_millis cfg \<noteq> 0"
    and "unat n = (unat t - unat (mc_first_epoch_timestamp_millis cfg)) div unat (mc_epoch_duration_millis cfg)"
proof -
  obtain d where d: "checked_sub t (mc_first_epoch_timestamp_millis cfg) = Some d"
    using assms by (cases "checked_sub t (mc_first_epoch_timestamp_millis cfg)") (simp_all add: epochs_passed_def)
  then show le: "unat (mc_first_epoch_timestamp_millis cfg) \<le> unat t" by (metis checked_sub_None not_le option.distinct(1))
  show nz: "mc_epoch_duration_millis cfg \<noteq> 0"
    using assms d by (auto simp: epochs_passed_def div_or_panic_def)
  have ud: "unat d = unat t - unat (mc_first_epoch_timestamp_millis cfg)"
    using checked_sub_unat [OF le] d by simp
  show "unat n = (unat t - unat (mc_first_epoch_timestamp_millis cfg)) div unat (mc_epoch_duration_millis cfg)"
    using assms d nz unfolding ud [symmetric]
    by (auto simp: epochs_passed_def narrow_def unat_ucast_down unat_div checked_def split: if_splits)
qed

lemma next_mainchain_epoch:
  assumes "timestamp_to_mainchain_epoch cfg s = Ok m" and "timestamp_to_mainchain_epoch cfg t = Ok r"
    and "unat s \<le> unat t + unat (mc_epoch_duration_millis cfg)"
  shows "unat m \<le> unat r + 1"
proof -
  obtain n k where n: "epochs_passed cfg s = Ok n" "m = saturating_add (mc_first_epoch_number cfg) n"
    and k: "epochs_passed cfg t = Ok k" "r = saturating_add (mc_first_epoch_number cfg) k"
    using assms(1,2) by (auto simp: timestamp_to_mainchain_epoch_def and_then_eq_Ok)
  let ?t0 = "unat (mc_first_epoch_timestamp_millis cfg)" and ?D = "unat (mc_epoch_duration_millis cfg)"
  have D: "0 < ?D" using epochs_passed_value(2) [OF k(1)] by (simp add: unat_gt_0)
  have "unat n \<le> (unat t - ?t0 + ?D) div ?D"
    using assms(3) epochs_passed_value(1) [OF k(1)] unfolding epochs_passed_value(3) [OF n(1)] by (intro div_le_mono) linarith
  also have "\<dots> = unat k + 1" using D by (simp add: epochs_passed_value(3) [OF k(1)] div_add_self2)
  finally show ?thesis by (simp add: n(2) k(2) unat_saturating_add)
qed

lemma offset_data_epoch_value: "offset_data_epoch m = Inr d \<Longrightarrow> unat d + 2 = unat m"
  by (auto simp: offset_data_epoch_def data_mc_epoch_offset_def checked_sub_def word_le_nat_alt unat_sub split: if_splits)

text \<open>The Partner Chain epoch the provider collects inputs for.\<close>

definition ariadne_sc_epoch :: "'dur sc_slot_config \<Rightarrow> u64 \<Rightarrow> slot \<Rightarrow> sc_epoch" where
  "ariadne_sc_epoch sc_cfg next_unset_epoch slot =
     (if next_unset_epoch = 1 then slot div ucast (slots_per_epoch sc_cfg) else next_unset_epoch)"

text \<open>
  C31: The inputs of the next committee are never withheld. When the committee is at most one epoch ahead of the slot, the
  referenced main chain block is at most \<open>w\<close> milliseconds older than the slot, and a Partner Chain epoch and \<open>w\<close> together are not longer than a
  main chain epoch, the comparison of the data epoch with the epoch of the referenced block succeeds: the provider returns the inputs or an
  error, never the empty provider.
\<close>

theorem ariadne_inputs_not_withheld:
  assumes timestamps: "\<And>x y. slot_timestamp x (slot_duration sc_cfg) = Some y \<Longrightarrow> unat y = unat x * ms"
    and "slots_per_epoch sc_cfg \<noteq> 0"
    and "unat next_unset_epoch \<le> unat slot div unat (slots_per_epoch sc_cfg) + 1"
    and "unat slot * ms \<le> unat ref_time + w"
    and "unat (slots_per_epoch sc_cfg) * ms + w \<le> unat (mc_epoch_duration_millis mc_cfg)"
    and "timestamp_to_mainchain_epoch mc_cfg ref_time = Ok mc_ref_epoch"
  shows "ariadne_provider_new slot_timestamp (Inr next_unset_epoch) scripts sc_cfg mc_cfg slot (db_candidate_source c h iter cfg pool) mc_ref_epoch \<noteq> Ok None"
proof
  let ?spe = "slots_per_epoch sc_cfg" and ?e = "ariadne_sc_epoch sc_cfg next_unset_epoch slot"
  assume "ariadne_provider_new slot_timestamp (Inr next_unset_epoch) scripts sc_cfg mc_cfg slot (db_candidate_source c h iter cfg pool) mc_ref_epoch = Ok None"
  then obtain m d where m: "sc_epoch_to_mc_epoch slot_timestamp sc_cfg mc_cfg ?e = (Ok m :: (('b, 'c candidate_error) ariadne_creation_error, u32) outcome)"
      and d: "data_epoch m = (Ok d :: ('c candidate_error, u32) outcome)" and late: "\<not> d < mc_ref_epoch"
    using assms(2)
    by (auto simp: ariadne_provider_new_def mc_epoch_for_next_ariadne_cidp_def api_call_def and_then_eq_Ok map_err_eq_Ok
        config_epoch_number_def epoch_number_def ariadne_sc_epoch_def db_candidate_source_def split: if_splits sum.splits)
  obtain s where s: "epoch_start_time slot_timestamp sc_cfg ?e = Some s" "timestamp_to_mainchain_epoch mc_cfg s = Ok m"
    using m by (cases "epoch_start_time slot_timestamp sc_cfg ?e") (auto simp: sc_epoch_to_mc_epoch_def map_err_eq_Ok)
  have "unat ?e \<le> unat slot div unat ?spe + 1"
    using assms(3) by (simp add: ariadne_sc_epoch_def unat_div)
  then have "unat ?e * unat ?spe \<le> (unat slot div unat ?spe + 1) * unat ?spe" by (rule mult_le_mono1)
  also have "\<dots> \<le> unat slot + unat ?spe" by (simp add: add_mult_distrib)
  finally have "unat ?e * unat ?spe \<le> unat slot + unat ?spe" .
  moreover have "unat (?e * ucast ?spe) \<le> unat ?e * unat ?spe"
    by (simp add: unat_word_ariths(2))
  ultimately have "unat (?e * ucast ?spe) * ms \<le> (unat slot + unat ?spe) * ms"
    by (intro mult_le_mono1) linarith
  then have "unat s \<le> unat ref_time + unat (mc_epoch_duration_millis mc_cfg)"
    using timestamps s(1) assms(4,5) by (auto simp: epoch_start_time_def config_first_slot_number_def first_slot_number_def algebra_simps)
  then have "unat m \<le> unat mc_ref_epoch + 1" by (rule next_mainchain_epoch [OF s(2) assms(6)])
  moreover have "unat d + 2 = unat m" using d by (intro offset_data_epoch_value) (simp add: data_epoch_Ok)
  ultimately show False using late by (simp add: word_less_nat_alt)
qed

text \<open>A chain with slots of six seconds and 60 slots per epoch, beside main chain epochs of five days.\<close>

theorem ariadne_inputs_not_withheld_witness:
  "ariadne_provider_new (\<lambda>x dur. if unat x * 6000 < 2 ^ 64 then Some (x * 6000) else None) (Inr 17 :: unit + u64)
      (Inr \<lparr>committee_candidate_address = [7], d_parameter_policy_id = [9], permissioned_candidates_policy_id = [8]\<rparr>)
      \<lparr>slots_per_epoch = 60, slot_duration = ()\<rparr>
      \<lparr>mc_epoch_duration_millis = 432000000, mc_slot_duration_millis = 1000, mc_first_epoch_timestamp_millis = 1000000,
        mc_first_epoch_number = 100, mc_first_slot_number = 0\<rparr> 1000
      (db_candidate_source datum_csl (\<lambda>k. k) (\<lambda>xs. xs) (Ok Consumed) (Inr demo_db)) 100 \<noteq> Ok None"
proof (rule ariadne_inputs_not_withheld [where ms = 6000 and w = 1000 and ref_time = 5999500])
  show "unat y = unat x * 6000"
    if "(if unat x * 6000 < 2 ^ 64 then Some (x * 6000) else None) = Some y" for x y :: u64
    using that by (auto split: if_splits simp: unat_mult_nowrap)
qed (simp_all add: timestamp_to_mainchain_epoch_def epochs_passed_def checked_sub_def narrow_def saturating_add_def)

definition candidate_scripts :: main_chain_scripts where
  "candidate_scripts = \<lparr>committee_candidate_address = [7], d_parameter_policy_id = [9], permissioned_candidates_policy_id = [8]\<rparr>"

text \<open>An environment that accepts every signature.\<close>

definition accepting_env :: "(bytes, bytes) keys_env" where
  "accepting_env = demo_env\<lparr>ed25519_verify := \<lambda>_ _ _. True, ecdsa_verify := \<lambda>_ _ _. True\<rparr>"

theorem nodes_agree_on_committee_witness:
  "and_then (inputs_from_mc_data (db_candidate_source datum_csl (take 1) (\<lambda>xs. xs) (Ok Consumed)
        (Inr (candidate_db (\<lambda>xs. xs) (\<lambda>xs. xs) (\<lambda>xs. xs)))) 4 candidate_scripts)
      (\<lambda>inputs. Ok (select_authorities demo_rng (\<lambda>_ xs. xs) accepting_env 32 demo_utxo inputs 7))
    = and_then (inputs_from_mc_data (db_candidate_source datum_csl (take 1) rev (Ok Enabled) (Inr (candidate_db rev rev rev))) 4 candidate_scripts)
      (\<lambda>inputs. Ok (select_authorities demo_rng (\<lambda>_ xs. xs) accepting_env 32 demo_utxo inputs 7))"
proof (rule nodes_agree_on_committee)
  show "offset_data_epoch 4 = Inr 2" by (simp add: offset_data_epoch_def data_mc_epoch_offset_def checked_sub_def)
  show "node_reads datum_csl Consumed (Inr (candidate_db (\<lambda>xs. xs) (\<lambda>xs. xs) (\<lambda>xs. xs))) 4 2 candidate_scripts
     \<lparr>ap_d_parameter = \<lparr>num_permissioned_candidates = 0, num_registered_candidates = 3\<rparr>, ap_permissioned_candidates = None\<rparr>
     [candidate_row 0 41 [demo_utxo\<lparr>utxo_index := 0\<rparr>, demo_utxo], candidate_row 1 42 [demo_utxo\<lparr>utxo_index := 0\<rparr>, demo_utxo]]
     [\<lparr>spe_pool_hash = [41], spe_stake = 5\<rparr>, \<lparr>spe_pool_hash = [42], spe_stake = 6\<rparr>] (Some [9])"
    by (simp add: node_reads_def candidate_scripts_def candidate_db_simple_reads candidate_db_tokens candidate_db_rows)
  show "node_reads datum_csl Enabled (Inr (candidate_db rev rev rev)) 4 2 candidate_scripts
     \<lparr>ap_d_parameter = \<lparr>num_permissioned_candidates = 0, num_registered_candidates = 3\<rparr>, ap_permissioned_candidates = None\<rparr>
     [candidate_row 1 42 [demo_utxo, demo_utxo\<lparr>utxo_index := 0\<rparr>], candidate_row 0 41 [demo_utxo, demo_utxo\<lparr>utxo_index := 0\<rparr>]]
     [\<lparr>spe_pool_hash = [42], spe_stake = 6\<rparr>, \<lparr>spe_pool_hash = [41], spe_stake = 5\<rparr>] (Some [9])"
    by (simp add: node_reads_def candidate_scripts_def candidate_db_simple_reads candidate_db_tokens candidate_db_rows)
qed (simp_all add: any_order_def row_view_def row_position_def candidate_row_def insert_commute)

end
