(* ===== verification/Stake_Source.thy ===== *)
theory Stake_Source
  imports Block_Source Block_Participation
begin

text \<open>
  The Db-Sync data source of stake pool delegations, \<open>toolkit/data-sources/db-sync/src/stake_distribution/mod.rs\<close>,
  which serves the block participation feature. The cache is behind a lock that may be poisoned (\<open>None\<close>); its
  type is that of the \<open>lru\<close> crate.
\<close>

subsection \<open>Delegators\<close>

datatype delegator_key = StakeKeyHash bytes | ScriptKeyHash bytes bytes

text \<open>The derived order: the variants in the order of their declaration, then the fields.\<close>

definition delegator_rank :: "delegator_key \<Rightarrow> nat \<times> bytes \<times> bytes" where
  "delegator_rank k = (case k of StakeKeyHash h \<Rightarrow> (0, h, []) | ScriptKeyHash h s \<Rightarrow> (1, h, s))"

lemma delegator_rank_inj: "delegator_rank k = delegator_rank k' \<Longrightarrow> k = k'"
  by (cases k; cases k') (simp_all add: delegator_rank_def)

instantiation delegator_key :: linorder
begin

definition less_eq_delegator_key :: "delegator_key \<Rightarrow> delegator_key \<Rightarrow> bool" where
  "less_eq_delegator_key k k' \<longleftrightarrow> delegator_rank k \<le> delegator_rank k'"

definition less_delegator_key :: "delegator_key \<Rightarrow> delegator_key \<Rightarrow> bool" where
  "less_delegator_key k k' \<longleftrightarrow> delegator_rank k < delegator_rank k'"

instance
  by standard (auto simp: less_eq_delegator_key_def less_delegator_key_def intro: delegator_rank_inj)

end

datatype delegator_key_error = MissingScriptHash | InvalidStakeAddress bytes

definition get_delegator_key :: "stake_pool_delegation_output_row \<Rightarrow> (delegator_key_error, delegator_key) outcome" where
  "get_delegator_key row = (case stake_address_hash_raw row of
       b # rest \<Rightarrow>
         if b = 0xe0 \<or> b = 0xe1 then
           (if length rest = 28 then Ok (StakeKeyHash rest) else Panic ExpectFailed)
         else if b = 0xf0 \<or> b = 0xf1 then
           (if length rest = 28 then
              (case stake_address_script_hash row of
                 Some script_hash \<Rightarrow> Ok (ScriptKeyHash rest script_hash)
               | None \<Rightarrow> Err MissingScriptHash)
            else Panic ExpectFailed)
         else Err (InvalidStakeAddress (stake_address_hash_raw row))
     | [] \<Rightarrow> Err (InvalidStakeAddress (stake_address_hash_raw row)))"

subsection \<open>Distributions\<close>

type_synonym pool_distribution = "(bytes \<times> delegator_key pool_delegation) list"

text \<open>\<open>or_insert\<close> keeps the amount of a delegator that is present already; the sum wraps.\<close>

definition add_delegator :: "delegator_key \<Rightarrow> u64 \<Rightarrow> delegator_key pool_delegation \<Rightarrow> delegator_key pool_delegation" where
  "add_delegator k amount pool = pool\<lparr>
     delegators := (if map_of (delegators pool) k = None then btree_insert k amount (delegators pool) else delegators pool),
     total_stake := total_stake pool + amount\<rparr>"

definition pool_or_default :: "delegator_key pool_delegation option \<Rightarrow> delegator_key pool_delegation" where
  "pool_or_default p = (case p of Some p \<Rightarrow> p | None \<Rightarrow> \<lparr>total_stake = 0, delegators = []\<rparr>)"

fun rows_loop :: "stake_pool_delegation_output_row list \<Rightarrow> pool_distribution \<Rightarrow> panic + pool_distribution" where
  "rows_loop [] res = Inr res"
| "rows_loop (row # rows) res = (case get_delegator_key row of
       Ok k \<Rightarrow> rows_loop rows (btree_insert (pool_hash_raw row)
           (add_delegator k (epoch_stake_amount row) (pool_or_default (map_of res (pool_hash_raw row)))) res)
     | Err _ \<Rightarrow> rows_loop rows res
     | Panic p \<Rightarrow> Inl p)"

definition rows_to_distribution :: "stake_pool_delegation_output_row list \<Rightarrow> panic + pool_distribution" where
  "rows_to_distribution rows = rows_loop rows []"

subsection \<open>The source\<close>

type_synonym 'l stake_lru = "('l, u32 \<times> bytes, delegator_key pool_delegation) lru"

definition stake_cache_new :: "'l stake_lru \<Rightarrow> nat \<Rightarrow> panic + 'l option" where
  "stake_cache_new L cache_size = (if cache_size = 0 then Inl ExpectFailed else Inr (Some (lru_new L cache_size)))"

definition get_distribution_for_pool ::
  "'l stake_lru \<Rightarrow> 'l option \<Rightarrow> u32 \<Rightarrow> bytes \<Rightarrow> delegator_key pool_delegation option \<times> 'l option" where
  "get_distribution_for_pool L cache epoch pool_hash = (case cache of
       Some l \<Rightarrow> map_prod id Some (lru_get L l (epoch, pool_hash))
     | None \<Rightarrow> (None, None))"

definition put_distribution_for_pools :: "'l stake_lru \<Rightarrow> 'l option \<Rightarrow> u32 \<Rightarrow> pool_distribution \<Rightarrow> 'l option" where
  "put_distribution_for_pools L cache epoch d =
     map_option (\<lambda>l. foldl (\<lambda>l (pool_hash, pool_delegation). lru_put L l (epoch, pool_hash) pool_delegation) l d) cache"

text \<open>The loop over the pools: what the cache has, and what has to be queried.\<close>

fun split_cached ::
  "'l stake_lru \<Rightarrow> u32 \<Rightarrow> bytes list \<Rightarrow> 'l option \<Rightarrow> bytes list \<Rightarrow> pool_distribution \<Rightarrow> bytes list \<times> pool_distribution \<times> 'l option" where
  "split_cached L epoch [] cache to_query d = (to_query, d, cache)"
| "split_cached L epoch (pool_hash # pool_hashes) cache to_query d = (case get_distribution_for_pool L cache epoch pool_hash of
       (Some pool_delegation, cache) \<Rightarrow> split_cached L epoch pool_hashes cache to_query (btree_insert pool_hash pool_delegation d)
     | (None, cache) \<Rightarrow> split_cached L epoch pool_hashes cache (to_query @ [pool_hash]) d)"

definition btree_append :: "('k::linorder \<times> 'v) list \<Rightarrow> ('k \<times> 'v) list \<Rightarrow> ('k \<times> 'v) list" where
  "btree_append m n = foldl (\<lambda>m (k, v). btree_insert k v m) m n"

definition get_stake_pool_delegation_distribution_for_pools ::
  "'l stake_lru \<Rightarrow> 'pd pg_pool \<Rightarrow> 'l option \<Rightarrow> u32 \<Rightarrow> bytes list \<Rightarrow> (sqlx_error, pool_distribution) outcome \<times> 'l option" where
  "get_stake_pool_delegation_distribution_for_pools L pool cache epoch pool_hashes =
     (case split_cached L epoch pool_hashes cache [] [] of (to_query, d, cache) \<Rightarrow>
        (case get_stake_pool_delegations_for_pools pool epoch to_query of
           Inl e \<Rightarrow> (Err e, cache)
         | Inr rows \<Rightarrow>
             (case rows_to_distribution rows of
                Inl p \<Rightarrow> (Panic p, cache)
              | Inr queried \<Rightarrow> (Ok (btree_append d queried), put_distribution_for_pools L cache epoch queried))))"

subsection \<open>What the tables say\<close>

text \<open>The delegations to pool \<open>p\<close> in the rows, in their order.\<close>

definition pool_rows :: "stake_pool_delegation_output_row list \<Rightarrow> bytes \<Rightarrow> (delegator_key \<times> u64) list" where
  "pool_rows rows p = List.map_filter (\<lambda>row. if pool_hash_raw row = p
     then (case get_delegator_key row of Ok k \<Rightarrow> Some (k, epoch_stake_amount row) | _ \<Rightarrow> None) else None) rows"

text \<open>The delegation of a pool: the sum of the amounts, and for every delegator the first amount.\<close>

definition delegators_of :: "(delegator_key \<times> u64) list \<Rightarrow> (delegator_key \<times> u64) list" where
  "delegators_of ds = entries_of (map_of ds)"

definition delegation_of :: "(delegator_key \<times> u64) list \<Rightarrow> delegator_key pool_delegation option" where
  "delegation_of ds = (if ds = [] then None
     else Some \<lparr>total_stake = sum_list (map snd ds), delegators = delegators_of ds\<rparr>)"

definition delegation_rows :: "'pd db_tables \<Rightarrow> u32 \<Rightarrow> stake_pool_delegation_output_row list" where
  "delegation_rows db epoch =
     [\<lparr>epoch_stake_amount = word_of_nat (es_amount es), pool_hash_raw = ph_hash_raw ph,
       stake_address_hash_raw = sa_hash_raw sa, stake_address_script_hash = sa_script_hash sa\<rparr>.
      es \<leftarrow> epoch_stake_table db,
      sa \<leftarrow> stake_address_table db, es_addr_id es = sa_id sa,
      ph \<leftarrow> pool_hash_table db, es_pool_id es = ph_id ph,
      es_epoch_no es = epoch \<and> es_amount es > 0]"

definition db_pool_delegation :: "'pd db_tables \<Rightarrow> u32 \<Rightarrow> bytes \<Rightarrow> delegator_key pool_delegation option" where
  "db_pool_delegation db epoch p = delegation_of (pool_rows (delegation_rows db epoch) p)"

text \<open>The domains of the columns: \<open>lovelace\<close> is at most 64 bits, \<open>hash_raw\<close> of an address is 29 bytes.\<close>

definition stake_db_ok :: "'pd db_tables \<Rightarrow> bool" where
  "stake_db_ok db \<longleftrightarrow> (\<forall>es \<in> set (epoch_stake_table db). es_amount es < 2 ^ 64)
     \<and> (\<forall>sa \<in> set (stake_address_table db). length (sa_hash_raw sa) = 29)"

definition stake_cache_ok :: "'l stake_lru \<Rightarrow> 'pd db_tables \<Rightarrow> 'l option \<Rightarrow> bool" where
  "stake_cache_ok L db cache \<longleftrightarrow> (\<forall>epoch p v. lru_holds L cache (epoch, p) v \<longrightarrow> db_pool_delegation db epoch p = Some v)"

subsection \<open>Lemmas\<close>

text \<open>Adding a delegation behind the ones that are there.\<close>

lemma delegators_of_ok [simp]: "btree_wf (delegators_of ds)" "map_of (delegators_of ds) = map_of ds"
  by (simp_all add: delegators_of_def finite_dom_map_of)

lemma delegation_snoc:
  "delegation_of (ds @ [(k, a)]) = Some (add_delegator k a (pool_or_default (delegation_of ds)))"
proof -
  have entries: "delegators_of (ds @ [(k, a)]) = (if map_of ds k = None then btree_insert k a (delegators_of ds) else delegators_of ds)"
  proof (rule btree_wf_eqI)
    show "map_of (delegators_of (ds @ [(k, a)])) = map_of (if map_of ds k = None then btree_insert k a (delegators_of ds) else delegators_of ds)"
      by (auto simp: map_add_def fun_eq_iff split: option.splits)
  qed simp_all
  show ?thesis
  proof (cases "ds = []")
    case True
    then show ?thesis using entries by (simp add: delegation_of_def pool_or_default_def add_delegator_def delegators_of_def entries_of_def)
  next
    case False
    then show ?thesis using entries by (simp add: delegation_of_def pool_or_default_def add_delegator_def)
  qed
qed

lemma rows_loop_eq:
  assumes "\<And>row. row \<in> set rows \<Longrightarrow> length (stake_address_hash_raw row) = 29"
    and "btree_wf res" and "\<And>p. map_of res p = delegation_of (pool_rows done p)"
  shows "\<exists>res'. rows_loop rows res = Inr res' \<and> btree_wf res' \<and> (\<forall>p. map_of res' p = delegation_of (pool_rows (done @ rows) p))"
  using assms
proof (induction rows arbitrary: res "done")
  case Nil
  then show ?case by simp
next
  case (Cons row rows)
  have snoc: "pool_rows (done @ [row]) p = pool_rows done p @ (if pool_hash_raw row = p
      then (case get_delegator_key row of Ok k \<Rightarrow> [(k, epoch_stake_amount row)] | _ \<Rightarrow> []) else [])" for p
    by (simp add: pool_rows_def List.map_filter_def split: outcome.split)
  show ?case
  proof (cases "get_delegator_key row")
    case (Ok k)
    let ?res = "btree_insert (pool_hash_raw row) (add_delegator k (epoch_stake_amount row) (pool_or_default (map_of res (pool_hash_raw row)))) res"
    have "map_of ?res p = delegation_of (pool_rows (done @ [row]) p)" for p
      using Cons.prems(2,3) Ok by (simp add: snoc delegation_snoc)
    with Cons.IH [of ?res "done @ [row]"] Cons.prems Ok show ?thesis by simp
  next
    case (Err e)
    have "map_of res p = delegation_of (pool_rows (done @ [row]) p)" for p
      using Cons.prems(3) Err by (simp add: snoc)
    with Cons.IH [of res "done @ [row]"] Cons.prems Err show ?thesis by simp
  next
    case (Panic p)
    have "length (stake_address_hash_raw row) = 29" using Cons.prems(1) by simp
    with Panic show ?thesis by (auto simp: get_delegator_key_def split: list.splits if_splits option.splits)
  qed
qed

lemma btree_append_ok:
  assumes "btree_wf m" and "btree_wf n"
  shows "btree_wf (btree_append m n)" and "map_of (btree_append m n) = map_of m ++ map_of n"
proof -
  have "btree_wf (btree_append m n) \<and> map_of (btree_append m n) = map_of m ++ map_of n"
    using assms(1) btree_wf_distinct [OF assms(2)] unfolding btree_append_def
    by (induction n arbitrary: m) (auto simp: map_add_upd_left dom_map_of_conv_image_fst)
  then show "btree_wf (btree_append m n)" and "map_of (btree_append m n) = map_of m ++ map_of n" by simp_all
qed

lemma delegations_query:
  assumes "stake_db_ok db"
  shows "get_stake_pool_delegations_for_pools (Inr db) epoch ps
    = Inr (filter (\<lambda>r. pool_hash_raw r \<in> set ps) (delegation_rows db epoch))"
proof -
  have amount: "decode_lovelace (es_amount es) = Inr (word_of_nat (es_amount es))" if "es \<in> set (epoch_stake_table db)" for es
    using assms that by (simp add: stake_db_ok_def decode_lovelace_def)
  have "[map_sum id (\<lambda>amount. \<lparr>epoch_stake_amount = amount, pool_hash_raw = ph_hash_raw ph,
            stake_address_hash_raw = sa_hash_raw sa, stake_address_script_hash = sa_script_hash sa\<rparr>)
          (decode_lovelace (es_amount es)).
        es \<leftarrow> epoch_stake_table db,
        sa \<leftarrow> stake_address_table db, es_addr_id es = sa_id sa,
        ph \<leftarrow> pool_hash_table db, es_pool_id es = ph_id ph,
        es_epoch_no es = epoch \<and> es_amount es > 0 \<and> ph_hash_raw ph \<in> set ps]
      = map Inr (filter (\<lambda>r. pool_hash_raw r \<in> set ps) (delegation_rows db epoch))"
    unfolding delegation_rows_def filter_concat map_concat map_map
    by (intro concat_map_cong) (auto simp: amount filter_concat map_concat comp_def intro!: concat_map_cong)
  then show ?thesis
    unfolding get_stake_pool_delegations_for_pools_def fetch_all_def by (simp add: decode_rows_map [where g = "\<lambda>x. x"])
qed

lemma pool_rows_filter:
  "pool_rows (filter (\<lambda>r. pool_hash_raw r \<in> S) rows) p = (if p \<in> S then pool_rows rows p else [])"
  by (induction rows) (auto simp: pool_rows_def List.map_filter_simps split: option.split)

lemma delegation_row_address:
  "stake_db_ok db \<Longrightarrow> row \<in> set (delegation_rows db epoch) \<Longrightarrow> length (stake_address_hash_raw row) = 29"
  by (auto simp: delegation_rows_def stake_db_ok_def split: if_splits)

lemma queried_distribution:
  assumes "stake_db_ok db"
  shows "\<exists>q. rows_to_distribution (filter (\<lambda>r. pool_hash_raw r \<in> set ps) (delegation_rows db epoch)) = Inr q \<and> btree_wf q
    \<and> (\<forall>p. map_of q p = (if p \<in> set ps then db_pool_delegation db epoch p else None))"
proof -
  let ?rows = "filter (\<lambda>r. pool_hash_raw r \<in> set ps) (delegation_rows db epoch)"
  have none: "delegation_of (pool_rows [] p) = None" for p by (simp add: pool_rows_def List.map_filter_simps delegation_of_def)
  obtain q where "rows_loop ?rows [] = Inr q" "btree_wf q" "\<And>p. map_of q p = delegation_of (pool_rows ([] @ ?rows) p)"
    using rows_loop_eq [of ?rows "[]" "[]"] delegation_row_address [OF assms] none by auto
  moreover have "delegation_of (pool_rows ([] @ ?rows) p) = (if p \<in> set ps then db_pool_delegation db epoch p else None)" for p
    by (simp add: pool_rows_filter db_pool_delegation_def delegation_of_def)
  ultimately show ?thesis by (simp add: rows_to_distribution_def)
qed

lemma get_distribution_ok:
  assumes "lru_ok L" and "stake_cache_ok L db cache" and "get_distribution_for_pool L cache epoch p = (r, cache')"
  shows "stake_cache_ok L db cache'" and "r = Some v \<Longrightarrow> db_pool_delegation db epoch p = Some v"
proof -
  have "stake_cache_ok L db cache' \<and> (r = Some v \<longrightarrow> db_pool_delegation db epoch p = Some v)"
  proof (cases cache)
    case (Some l)
    have c: "cache' = Some (snd (lru_get L l (epoch, p)))" "r = fst (lru_get L l (epoch, p))"
      using assms(3) Some by (auto simp: get_distribution_for_pool_def map_prod_def split: prod.splits)
    have "stake_cache_ok L db cache'"
      using assms(2) by (simp add: stake_cache_ok_def c lru_get_keeps [OF assms(1)] Some)
    moreover have "r = Some v \<Longrightarrow> lru_holds L cache (epoch, p) v" by (simp add: lru_holds_def c Some)
    ultimately show ?thesis using assms(2) by (auto simp: stake_cache_ok_def)
  qed (use assms in \<open>simp add: get_distribution_for_pool_def\<close>)
  then show "stake_cache_ok L db cache'" and "r = Some v \<Longrightarrow> db_pool_delegation db epoch p = Some v" by simp_all
qed

lemma put_distribution_ok:
  assumes "lru_ok L" and "stake_cache_ok L db cache" and "\<And>p v. (p, v) \<in> set d \<Longrightarrow> db_pool_delegation db epoch p = Some v"
  shows "stake_cache_ok L db (put_distribution_for_pools L cache epoch d)"
proof (cases cache)
  case (Some l)
  have "stake_cache_ok L db (Some l) \<Longrightarrow> stake_cache_ok L db (Some (foldl (\<lambda>l (p, v). lru_put L l (epoch, p) v) l d))"
    using assms(3)
  proof (induction d arbitrary: l)
    case (Cons e d)
    obtain p v where e: "e = (p, v)" by (cases e)
    have "stake_cache_ok L db (Some (lru_put L l (epoch, p) v))"
      using Cons.prems unfolding stake_cache_ok_def e by (auto dest!: lru_put_holds [OF assms(1)])
    then show ?case using Cons by (simp add: e)
  qed simp
  then show ?thesis using assms(2) Some by (simp add: put_distribution_for_pools_def)
qed (simp add: put_distribution_for_pools_def stake_cache_ok_def lru_holds_def)

text \<open>The partial distribution \<open>d\<close> holds correct entries of the requested pools.\<close>

definition partial_ok :: "'pd db_tables \<Rightarrow> u32 \<Rightarrow> bytes set \<Rightarrow> pool_distribution \<Rightarrow> bool" where
  "partial_ok db epoch P d \<longleftrightarrow> btree_wf d \<and> (\<forall>p v. map_of d p = Some v \<longrightarrow> p \<in> P \<and> db_pool_delegation db epoch p = Some v)"

lemma split_cached_ok:
  assumes "lru_ok L" and "stake_cache_ok L db cache" and "set ps \<subseteq> P" and "partial_ok db epoch P d"
    and "split_cached L epoch ps cache q d = (q', d', cache')"
  shows "stake_cache_ok L db cache' \<and> partial_ok db epoch P d' \<and> set q \<subseteq> set q' \<and> set q' \<subseteq> set q \<union> set ps
    \<and> dom (map_of d) \<subseteq> dom (map_of d') \<and> (\<forall>p \<in> set ps. p \<in> set q' \<or> p \<in> dom (map_of d'))"
  using assms
proof (induction L epoch ps cache q d rule: split_cached.induct)
  case (1 L epoch cache q d)
  then show ?case by simp
next
  case (2 L epoch p ps cache q d)
  obtain r cache1 where r: "get_distribution_for_pool L cache epoch p = (r, cache1)" by fastforce
  note cached = get_distribution_ok [OF 2(3,4) r]
  show ?case
  proof (cases r)
    case None
    have "stake_cache_ok L db cache1 \<Longrightarrow> set ps \<subseteq> P \<Longrightarrow> partial_ok db epoch P d
        \<Longrightarrow> split_cached L epoch ps cache1 (q @ [p]) d = (q', d', cache')
        \<Longrightarrow> stake_cache_ok L db cache' \<and> partial_ok db epoch P d' \<and> set (q @ [p]) \<subseteq> set q' \<and> set q' \<subseteq> set (q @ [p]) \<union> set ps
          \<and> dom (map_of d) \<subseteq> dom (map_of d') \<and> (\<forall>p \<in> set ps. p \<in> set q' \<or> p \<in> dom (map_of d'))"
      using 2(1) [OF r [symmetric]] None 2(3) by blast
    then show ?thesis using 2(5-7) cached(1) r None by auto
  next
    case (Some v)
    have part: "partial_ok db epoch P (btree_insert p v d)"
      using 2(5,6) cached(2) [OF Some] by (auto simp: partial_ok_def)
    have "stake_cache_ok L db cache1 \<Longrightarrow> set ps \<subseteq> P \<Longrightarrow> partial_ok db epoch P (btree_insert p v d)
        \<Longrightarrow> split_cached L epoch ps cache1 q (btree_insert p v d) = (q', d', cache')
        \<Longrightarrow> stake_cache_ok L db cache' \<and> partial_ok db epoch P d' \<and> set q \<subseteq> set q' \<and> set q' \<subseteq> set q \<union> set ps
          \<and> dom (map_of (btree_insert p v d)) \<subseteq> dom (map_of d') \<and> (\<forall>p \<in> set ps. p \<in> set q' \<or> p \<in> dom (map_of d'))"
      using 2(2) [OF r [symmetric]] Some 2(3) by blast
    moreover have "split_cached L epoch ps cache1 q (btree_insert p v d) = (q', d', cache')" using 2(7) r Some by simp
    moreover have "dom (map_of (btree_insert p v d)) = insert p (dom (map_of d))" using 2(6) by (simp add: partial_ok_def)
    ultimately show ?thesis using 2(5) cached(1) part by auto
  qed
qed

lemma stake_distribution_facts:
  assumes "lru_ok L" and "stake_db_ok db" and "stake_cache_ok L db cache"
  shows "\<exists>d cache'. get_stake_pool_delegation_distribution_for_pools L (Inr db) cache epoch ps = (Ok d, cache')
    \<and> stake_cache_ok L db cache' \<and> btree_wf d
    \<and> map_of d = (\<lambda>p. if p \<in> set ps then db_pool_delegation db epoch p else None)"
proof -
  obtain q d1 cache1 where split: "split_cached L epoch ps cache [] [] = (q, d1, cache1)" by (cases "split_cached L epoch ps cache [] []")
  have part: "stake_cache_ok L db cache1" "partial_ok db epoch (set ps) d1" "set q \<subseteq> set ps"
      "\<forall>p \<in> set ps. p \<in> set q \<or> p \<in> dom (map_of d1)"
    using split_cached_ok [OF assms(1,3) subset_refl _ split] by (auto simp: partial_ok_def)
  obtain d2 where d2: "rows_to_distribution (filter (\<lambda>r. pool_hash_raw r \<in> set q) (delegation_rows db epoch)) = Inr d2" "btree_wf d2"
      "\<And>p. map_of d2 p = (if p \<in> set q then db_pool_delegation db epoch p else None)"
    using queried_distribution [OF assms(2)] by blast
  have wf: "btree_wf d1" using part(2) by (simp add: partial_ok_def)
  have entries: "(p, v) \<in> set d2 \<Longrightarrow> db_pool_delegation db epoch p = Some v" for p v
    using d2(3) [of p] btree_wf_distinct [OF d2(2)] by (metis map_of_is_SomeI option.distinct(1))
  have "map_of (btree_append d1 d2) p = (if p \<in> set ps then db_pool_delegation db epoch p else None)" for p
    using part(2-4) d2(3) [of p]
    by (cases "db_pool_delegation db epoch p"; cases "map_of d1 p")
      (auto simp: btree_append_ok(2) [OF wf d2(2)] map_add_def partial_ok_def dom_def split: option.splits)
  moreover have "get_stake_pool_delegation_distribution_for_pools L (Inr db) cache epoch ps
      = (Ok (btree_append d1 d2), put_distribution_for_pools L cache1 epoch d2)"
    by (simp add: get_stake_pool_delegation_distribution_for_pools_def split delegations_query [OF assms(2)] d2(1))
  ultimately show ?thesis
    using btree_append_ok(1) [OF wf d2(2)] put_distribution_ok [OF assms(1) part(1) entries] by (simp add: fun_eq_iff)
qed

text \<open>
  C25: The stake distribution handed to block participation is the one in the Cardano database: for every requested pool with delegations in the epoch
  the entry has the sum of the amounts and the amount of every delegator, other pools have none, and this whatever
  part of it is answered from the cache, whose entries stay correct.
\<close>

theorem stake_distribution_exact:
  assumes "lru_ok L" and "stake_db_ok db" and "stake_cache_ok L db cache"
  shows "\<exists>d cache'. get_stake_pool_delegation_distribution_for_pools L (Inr db) cache epoch ps = (Ok d, cache')
    \<and> stake_cache_ok L db cache' \<and> btree_wf d
    \<and> map_of d = (\<lambda>p. if p \<in> set ps then db_pool_delegation db epoch p else None)"
  by (rule stake_distribution_facts [OF assms])

text \<open>The total of a pool is the sum over its delegators, when no delegator occurs twice.\<close>

lemma delegation_total:
  assumes "delegation_of ds = Some pd" and "distinct (map fst ds)"
  shows "total_stake pd = sum_list (map snd (delegators pd))"
proof -
  have "distinct ds" "distinct (delegators_of ds)"
    using assms(2) btree_wf_distinct [OF delegators_of_ok(1)] by (auto dest: distinct_map [THEN iffD1])
  moreover have "set (delegators_of ds) = set ds"
    using map_of_inject_set [OF btree_wf_distinct [OF delegators_of_ok(1) [of ds]] assms(2)] by simp
  ultimately have "mset (delegators_of ds) = mset ds" by (simp add: set_eq_iff_mset_eq_distinct)
  then have "mset (map snd (delegators_of ds)) = mset (map snd ds)" by simp
  then have "sum_list (map snd (delegators_of ds)) = sum_list (map snd ds)" by (metis sum_mset_sum_list)
  then show ?thesis using assms(1) by (auto simp: delegation_of_def split: if_splits)
qed

text \<open>A cache stays correct when the data of the epochs it holds does not change.\<close>

lemma stake_cache_ok_later:
  assumes "stake_cache_ok L db cache" and "\<And>epoch p v. lru_holds L cache (epoch, p) v \<Longrightarrow> db_pool_delegation db' epoch p = db_pool_delegation db epoch p"
  shows "stake_cache_ok L db' cache"
  using assms unfolding stake_cache_ok_def by metis

text \<open>The source is as block participation needs it: its answer does not depend on the order of the pools.\<close>

lemma stake_source_order:
  assumes "lru_ok L" and "stake_db_ok db" and "stake_cache_ok L db cache" and "stake_cache_ok L db cache'" and "set ps = set qs"
  shows "fst (get_stake_pool_delegation_distribution_for_pools L (Inr db) cache epoch ps)
    = fst (get_stake_pool_delegation_distribution_for_pools L (Inr db) cache' epoch qs)"
  using stake_distribution_facts [OF assms(1,2,3), of epoch ps] stake_distribution_facts [OF assms(1,2,4), of epoch qs] assms(5)
  by (elim exE conjE) (simp add: btree_wf_eqI)

definition db_delegation_distribution :: "'l stake_lru \<Rightarrow> 'pd pg_pool \<Rightarrow> 'l option \<Rightarrow> u32 \<Rightarrow> bytes list
    \<Rightarrow> (sqlx_error + panic) + (bytes, delegator_key) stake_distribution" where
  "db_delegation_distribution L pool cache epoch ps =
     map_sum id map_of (to_result (fst (get_stake_pool_delegation_distribution_for_pools L pool cache epoch ps)))"

lemma db_participation_source_ok:
  assumes "lru_ok L" and "stake_db_ok db" and "stake_cache_ok L db cache"
    and "delegation_distribution E = db_delegation_distribution L (Inr db) cache"
  shows "data_source_ok E"
  unfolding data_source_ok_def assms(4) db_delegation_distribution_def
  using stake_source_order [OF assms(1-3,3)] by metis

definition stake_demo_db :: "datum db_tables" where
  "stake_demo_db = demo_db\<lparr>
     epoch_stake_table := [\<lparr>es_epoch_no = 2, es_addr_id = 1, es_pool_id = 1, es_amount = 5\<rparr>,
       \<lparr>es_epoch_no = 2, es_addr_id = 2, es_pool_id = 1, es_amount = 6\<rparr>],
     pool_hash_table := [\<lparr>ph_id = 1, ph_hash_raw = [41]\<rparr>],
     stake_address_table := [\<lparr>sa_id = 1, sa_hash_raw = 0xe1 # replicate 28 1, sa_script_hash = None\<rparr>,
       \<lparr>sa_id = 2, sa_hash_raw = 0xf1 # replicate 28 2, sa_script_hash = Some [3]\<rparr>]\<rparr>"

lemma stake_demo_pool:
  "db_pool_delegation stake_demo_db 2 [41] = Some \<lparr>total_stake = 11,
     delegators = [(StakeKeyHash (replicate 28 1), 5), (ScriptKeyHash (replicate 28 2) [3], 6)]\<rparr>"
proof -
  have "pool_rows (delegation_rows stake_demo_db 2) [41] = [(StakeKeyHash (replicate 28 1), 5)] @ [(ScriptKeyHash (replicate 28 2) [3], 6)]"
    by (simp add: delegation_rows_def stake_demo_db_def pool_rows_def List.map_filter_simps get_delegator_key_def)
  moreover have "delegation_of [(StakeKeyHash (replicate 28 1), 5)] = Some \<lparr>total_stake = 5, delegators = [(StakeKeyHash (replicate 28 1), 5)]\<rparr>"
    using delegation_snoc [of "[]" "StakeKeyHash (replicate 28 1)" 5] by (simp add: delegation_of_def pool_or_default_def add_delegator_def)
  ultimately show ?thesis
    using delegation_snoc [of "[(StakeKeyHash (replicate 28 1), 5)]" "ScriptKeyHash (replicate 28 2) [3]" 6]
    by (simp add: db_pool_delegation_def pool_or_default_def add_delegator_def less_delegator_key_def delegator_rank_def)
qed

theorem stake_distribution_exact_witness:
  "\<exists>d cache'. get_stake_pool_delegation_distribution_for_pools demo_lru (Inr stake_demo_db) (Some (8, [])) 2 [[40], [41]] = (Ok d, cache')
    \<and> map_of d [40] = None \<and> map_of d [41] = Some \<lparr>total_stake = 11,
     delegators = [(StakeKeyHash (replicate 28 1), 5), (ScriptKeyHash (replicate 28 2) [3], 6)]\<rparr>"
proof -
  have "stake_db_ok stake_demo_db" by (simp add: stake_db_ok_def stake_demo_db_def demo_db_def)
  moreover have "stake_cache_ok demo_lru stake_demo_db (Some (8, []))" by (simp add: stake_cache_ok_def lru_holds_def demo_lru_get)
  ultimately obtain d cache' where "get_stake_pool_delegation_distribution_for_pools demo_lru (Inr stake_demo_db) (Some (8, [])) 2 [[40], [41]] = (Ok d, cache')"
      "map_of d = (\<lambda>p. if p \<in> set [[40], [41]] then db_pool_delegation stake_demo_db 2 p else None)"
    using stake_distribution_exact [OF demo_lru_ok, of stake_demo_db "Some (8, [])" 2 "[[40], [41]]"] by blast
  moreover have "db_pool_delegation stake_demo_db 2 [40] = None"
    by (simp add: db_pool_delegation_def delegation_rows_def stake_demo_db_def pool_rows_def List.map_filter_simps delegation_of_def)
  ultimately show ?thesis by (simp add: stake_demo_pool)
qed

end
