(* ===== verification/Block_Search.thy ===== *)
theory Block_Search
  imports Slots
begin

text \<open>
  Binary search for blocks by Partner Chain slot or epoch, \<open>toolkit/sidechain/sidechain-block-search/src\<close>:
  \<open>binary_search.rs\<close>, the search targets of \<open>lib.rs\<close> and \<open>impl_compare_strategy.rs\<close>, \<open>impl_block_info.rs\<close>
  and \<open>impl_find_block.rs\<close>.

  The search runs on \<open>u32\<close>; the loop may not end for every range, so it is a partial function whose outer
  \<open>None\<close> means that it runs forever. The client of the node is the record \<open>search_client\<close>.
\<close>

datatype ordering = Less | Equal | Greater

definition cmp :: "'a::linorder \<Rightarrow> 'a \<Rightarrow> ordering" where
  "cmp a b = (if a < b then Less else if a = b then Equal else Greater)"

partial_function (option) binary_search_loop :: "(u32 \<Rightarrow> 'e + ordering) \<Rightarrow> u32 \<Rightarrow> u32 \<Rightarrow> u32 option option" where
  "binary_search_loop f left right =
     (if left \<le> right then
        let middle = (left + right) div 2 in
        (case f middle of
           Inl _ \<Rightarrow> Some None
         | Inr Equal \<Rightarrow> Some (Some middle)
         | Inr Less \<Rightarrow> binary_search_loop f (middle + 1) right
         | Inr Greater \<Rightarrow> binary_search_loop f left (middle - 1))
      else Some None)"

definition binary_search_by :: "u32 \<Rightarrow> u32 \<Rightarrow> (u32 \<Rightarrow> 'e + ordering) \<Rightarrow> u32 option option" where
  "binary_search_by start stop f = binary_search_loop f start stop"

subsection \<open>Search targets\<close>

datatype search_target =
    AnyBlockInEpoch u64
  | LastBlockInEpoch u64
  | AnyBlockInSlotRange u64 u64
  | LatestBlockInSlotRange u64 u64 u32

record sidechain_status =
  status_epoch :: u64
  status_slot :: u64

datatype 'api search_error = SearchApi 'api | UnknownBlock u32 | CouldNotFindBlock

record ('h, 'api) search_client =
  best_number :: u32
  hash_of_block :: "u32 \<Rightarrow> 'api + 'h option"
  sidechain_status_at :: "'h \<Rightarrow> 'api + sidechain_status"

definition status_of_block :: "('h, 'api) search_client \<Rightarrow> u32 \<Rightarrow> 'api search_error + sidechain_status" where
  "status_of_block c n = (case hash_of_block c n of
       Inl e \<Rightarrow> Inl (SearchApi e)
     | Inr None \<Rightarrow> Inl (UnknownBlock n)
     | Inr (Some h) \<Rightarrow> (case sidechain_status_at c h of Inl e \<Rightarrow> Inl (SearchApi e) | Inr s \<Rightarrow> Inr s))"

definition get_slot_of_block :: "('h, 'api) search_client \<Rightarrow> u32 \<Rightarrow> 'api search_error + u64" where
  "get_slot_of_block c n = map_sum id status_slot (status_of_block c n)"

definition get_epoch_of_block :: "('h, 'api) search_client \<Rightarrow> u32 \<Rightarrow> 'api search_error + u64" where
  "get_epoch_of_block c n = map_sum id status_epoch (status_of_block c n)"

definition compare_slot_range :: "('h, 'api) search_client \<Rightarrow> u64 \<Rightarrow> u64 \<Rightarrow> u32 \<Rightarrow> 'api search_error + ordering" where
  "compare_slot_range c start stop block = (case get_slot_of_block c block of
       Inl e \<Rightarrow> Inl e
     | Inr slot \<Rightarrow> Inr (if slot < start then Less else if slot \<ge> stop then Greater else Equal))"

fun compare_block :: "('h, 'api) search_client \<Rightarrow> search_target \<Rightarrow> u32 \<Rightarrow> 'api search_error + ordering" where
  "compare_block c (AnyBlockInEpoch epoch) block = map_sum id (\<lambda>e. cmp e epoch) (get_epoch_of_block c block)"
| "compare_block c (LastBlockInEpoch epoch) block = (case get_epoch_of_block c block of
       Inl e \<Rightarrow> Inl e
     | Inr epoch_block \<Rightarrow>
         (case cmp epoch_block epoch of
            Equal \<Rightarrow>
              (case get_epoch_of_block c (block + 1) of
                 Inl e \<Rightarrow> Inl e
               | Inr next_epoch \<Rightarrow> (case cmp next_epoch epoch of Greater \<Rightarrow> Inr Equal | _ \<Rightarrow> Inr Less))
          | o' \<Rightarrow> Inr o'))"
| "compare_block c (AnyBlockInSlotRange start stop) block = compare_slot_range c start stop block"
| "compare_block c (LatestBlockInSlotRange start stop latest_block) block = (case compare_slot_range c start stop block of
       Inl e \<Rightarrow> Inl e
     | Inr Equal \<Rightarrow>
         if block < latest_block then
           (case compare_slot_range c start stop (block + 1) of
              Inl e \<Rightarrow> Inl e
            | Inr Greater \<Rightarrow> Inr Equal
            | Inr _ \<Rightarrow> Inr Less)
         else Inr Equal
     | Inr o' \<Rightarrow> Inr o')"

definition find_block_number :: "('h, 'api) search_client \<Rightarrow> search_target \<Rightarrow> ('api search_error + u32) option" where
  "find_block_number c target = map_option (ok_or CouldNotFindBlock) (binary_search_by 1 (best_number c + 1) (compare_block c target))"

definition find_block :: "('h, 'api) search_client \<Rightarrow> search_target \<Rightarrow> ('api search_error, 'h) outcome option" where
  "find_block c target = (case find_block_number c target of
       None \<Rightarrow> None
     | Some (Inl e) \<Rightarrow> Some (Err e)
     | Some (Inr n) \<Rightarrow> Some (case hash_of_block c n of
           Inl e \<Rightarrow> Err (SearchApi e)
         | Inr None \<Rightarrow> Panic ExpectFailed
         | Inr (Some h) \<Rightarrow> Ok h))"

subsection \<open>The search\<close>

lemma search_middle:
  fixes left right :: u32
  assumes "left \<le> right" and "unat right < 2 ^ 31"
  shows "unat ((left + right) div 2) = (unat left + unat right) div 2"
    and "left \<le> (left + right) div 2" and "(left + right) div 2 \<le> right"
    and "unat ((left + right) div 2 + 1) = (unat left + unat right) div 2 + 1"
proof -
  have le: "unat left \<le> unat right" using assms(1) by (simp add: word_le_nat_alt)
  then have sum: "unat (left + right) = unat left + unat right" using assms(2) by (intro unat_add_nowrap) simp
  then show mid: "unat ((left + right) div 2) = (unat left + unat right) div 2" by (simp add: unat_div)
  show "left \<le> (left + right) div 2" "(left + right) div 2 \<le> right"
    using le by (simp_all add: word_le_nat_alt mid)
  show "unat ((left + right) div 2 + 1) = (unat left + unat right) div 2 + 1"
    using le assms(2) by (subst unat_add_nowrap) (simp_all add: mid)
qed

lemma unat_pred:
  fixes w :: "'w::len word"
  assumes "1 \<le> w"
  shows "unat (w - 1) = unat w - 1"
  using assms by (simp add: unat_sub)

text \<open>On a range that starts above zero and stays below half of \<open>u32\<close> the loop ends, and ends inside the range.\<close>

lemma binary_search_returns:
  assumes "1 \<le> left" and "unat right < 2 ^ 31"
  shows "\<exists>r. binary_search_loop f left right = Some r \<and> (\<forall>m. r = Some m \<longrightarrow> left \<le> m \<and> m \<le> right \<and> f m = Inr Equal)"
  using assms
proof (induction "unat right + 1 - unat left" arbitrary: left right rule: less_induct)
  case less
  show ?case
  proof (cases "left \<le> right")
    case False
    then show ?thesis by (simp add: binary_search_loop.simps)
  next
    case True
    let ?m = "(left + right) div 2"
    note mid = search_middle [OF True less.prems(2)]
    have le: "unat left \<le> unat right" using True by (simp add: word_le_nat_alt)
    have one: "1 \<le> ?m" using less.prems(1) mid(2) by (rule order_trans)
    have pred: "unat (?m - 1) = unat ?m - 1" using one by (rule unat_pred)
    have pos: "1 \<le> unat left" using less.prems(1) by (simp add: word_le_nat_alt)
    consider (stop) e where "f ?m = Inl e" | (equal) "f ?m = Inr Equal" | (up) "f ?m = Inr Less" | (down) "f ?m = Inr Greater"
      by (metis (full_types) ordering.exhaust sum.exhaust)
    then show ?thesis
    proof cases
      case up
      have "1 \<le> ?m + 1" "unat right + 1 - unat (?m + 1) < unat right + 1 - unat left" "left \<le> ?m + 1"
        using mid le by (simp_all add: word_le_nat_alt)
      from less.hyps [OF this(2,1) less.prems(2)] this(3) show ?thesis
        using True up by (auto simp: binary_search_loop.simps [of f left right] Let_def intro: order_trans)
    next
      case down
      have "unat (?m - 1) < 2 ^ 31" "unat (?m - 1) + 1 - unat left < unat right + 1 - unat left" "?m - 1 \<le> right"
        using pred mid(1) le pos less.prems(2) by (simp_all add: word_le_nat_alt)
      from less.hyps [OF this(2) less.prems(1) this(1)] this(3) show ?thesis
        using True down by (auto simp: binary_search_loop.simps [of f left right] Let_def intro: order_trans)
    qed (use True mid in \<open>auto simp: binary_search_loop.simps [of f left right] Let_def\<close>)
  qed
qed

text \<open>A block that compares equal is found when the blocks before it compare less or equal, and those after it, the end of the range apart, greater or equal.\<close>

lemma binary_search_finds:
  assumes "1 \<le> left" and "unat right < 2 ^ 31" and "left \<le> k" and "k \<le> right" and "f k = Inr Equal"
    and "\<And>m. left \<le> m \<Longrightarrow> m < k \<Longrightarrow> f m = Inr Less \<or> f m = Inr Equal"
    and "\<And>m. k < m \<Longrightarrow> m < right \<Longrightarrow> f m = Inr Greater \<or> f m = Inr Equal"
  shows "\<exists>m. binary_search_loop f left right = Some (Some m)"
  using assms
proof (induction "unat right + 1 - unat left" arbitrary: left right rule: less_induct)
  case less
  have True: "left \<le> right" using less.prems(3,4) by (rule order_trans)
  let ?m = "(left + right) div 2"
  note mid = search_middle [OF True less.prems(2)]
  have le: "unat left \<le> unat right" using True by (simp add: word_le_nat_alt)
  have pred: "unat (?m - 1) = unat ?m - 1" using less.prems(1) mid(2) by (intro unat_pred) (rule order_trans)
  have pos: "1 \<le> unat left" using less.prems(1) by (simp add: word_le_nat_alt)
  consider (equal) "f ?m = Inr Equal" | (up) "f ?m = Inr Less" "?m < k" | (down) "f ?m = Inr Greater" "k < ?m"
  proof (cases k ?m rule: linorder_cases)
    case less': less
    then have "?m < right" using mid(1) less.prems(3,4) by (auto simp: word_less_nat_alt word_le_nat_alt)
    then show ?thesis using that less.prems(7) [OF less'] less' by blast
  qed (use that less.prems(5,6) mid(2) in auto)
  then show ?case
  proof cases
    case up
    have "1 \<le> ?m + 1" "unat right + 1 - unat (?m + 1) < unat right + 1 - unat left" "?m + 1 \<le> k"
      using mid le up(2) by (simp_all add: word_le_nat_alt word_less_nat_alt)
    from less.hyps [OF this(2,1) less.prems(2) this(3) less.prems(4,5) _ less.prems(7)] less.prems(6) mid(2,4) show ?thesis
      using True up by (auto simp: binary_search_loop.simps [of f left right] Let_def word_le_nat_alt)
  next
    case down
    have "unat (?m - 1) < 2 ^ 31" "unat (?m - 1) + 1 - unat left < unat right + 1 - unat left" "k \<le> ?m - 1" "\<And>m. m < ?m - 1 \<Longrightarrow> m < right"
      using pred mid(1) le pos less.prems(2) down(2) by (simp_all add: word_le_nat_alt word_less_nat_alt)
    from less.hyps [OF this(2) less.prems(1) this(1) less.prems(3) this(3) less.prems(5,6)] less.prems(7) this(4) show ?thesis
      using True down by (auto simp: binary_search_loop.simps [of f left right] Let_def intro: order_trans)
  qed (use True in \<open>simp add: binary_search_loop.simps [of f left right] Let_def\<close>)
qed

subsection \<open>Searching a chain\<close>

text \<open>
  A client over a chain whose block \<open>n\<close> has the status \<open>st n\<close>: slots and epochs grow with the block number, and the block after the best one is unknown.
\<close>

definition search_chain_ok :: "('h, 'api) search_client \<Rightarrow> (u32 \<Rightarrow> sidechain_status) \<Rightarrow> bool" where
  "search_chain_ok c st \<longleftrightarrow> unat (best_number c) + 1 < 2 ^ 31
     \<and> (\<forall>n \<le> best_number c. \<exists>h. hash_of_block c n = Inr (Some h) \<and> sidechain_status_at c h = Inr (st n))
     \<and> hash_of_block c (best_number c + 1) = Inr None
     \<and> (\<forall>m n. m \<le> n \<and> n \<le> best_number c \<longrightarrow> status_epoch (st m) \<le> status_epoch (st n) \<and> status_slot (st m) \<le> status_slot (st n))"

fun target_matches :: "u32 \<Rightarrow> (u32 \<Rightarrow> sidechain_status) \<Rightarrow> search_target \<Rightarrow> u32 \<Rightarrow> bool" where
  "target_matches best st (AnyBlockInEpoch epoch) n \<longleftrightarrow> status_epoch (st n) = epoch"
| "target_matches best st (LastBlockInEpoch epoch) n \<longleftrightarrow> status_epoch (st n) = epoch \<and> n < best \<and> epoch < status_epoch (st (n + 1))"
| "target_matches best st (AnyBlockInSlotRange start stop) n \<longleftrightarrow> start \<le> status_slot (st n) \<and> status_slot (st n) < stop"
| "target_matches best st (LatestBlockInSlotRange start stop latest) n \<longleftrightarrow>
     start \<le> status_slot (st n) \<and> status_slot (st n) < stop \<and> (n = best \<or> stop \<le> status_slot (st (n + 1)))"

definition latest_is_best :: "('h, 'api) search_client \<Rightarrow> search_target \<Rightarrow> bool" where
  "latest_is_best c target = (case target of LatestBlockInSlotRange _ _ latest \<Rightarrow> latest = best_number c | _ \<Rightarrow> True)"

lemma chain_status:
  assumes "search_chain_ok c st"
  shows "n \<le> best_number c \<Longrightarrow> status_of_block c n = Inr (st n)"
    and "status_of_block c (best_number c + 1) = Inl (UnknownBlock (best_number c + 1))"
  using assms by (auto simp: search_chain_ok_def status_of_block_def)

lemma chain_epochs:
  assumes "search_chain_ok c st"
  shows "m \<le> n \<Longrightarrow> n \<le> best_number c \<Longrightarrow> status_epoch (st m) \<le> status_epoch (st n)"
    and "m \<le> n \<Longrightarrow> n \<le> best_number c \<Longrightarrow> status_slot (st m) \<le> status_slot (st n)"
  using assms by (auto simp: search_chain_ok_def)

lemma next_block: "n < best \<Longrightarrow> n + 1 \<le> best" for n best :: u32
  by (metis inc_le)

lemma compare_beyond:
  assumes "search_chain_ok c st"
  shows "\<exists>e. compare_block c target (best_number c + 1) = Inl e"
  using chain_status(2) [OF assms] by (cases target) (simp_all add: compare_slot_range_def get_slot_of_block_def get_epoch_of_block_def)

lemma compare_within:
  assumes ok: "search_chain_ok c st" and n: "n \<le> best_number c"
    and latest: "latest_is_best c target"
  shows "compare_block c target n = Inr Equal \<longleftrightarrow> target_matches (best_number c) st target n"
proof -
  note st = chain_status(1) [OF ok n]
  show ?thesis
  proof (cases "n < best_number c")
    case True
    then show ?thesis using st chain_status(1) [OF ok next_block [OF True]] latest
      by (cases target) (auto simp: compare_slot_range_def get_slot_of_block_def get_epoch_of_block_def cmp_def latest_is_best_def)
  next
    case False
    then show ?thesis using st chain_status(2) [OF ok] n latest
      by (cases target) (auto simp: compare_slot_range_def get_slot_of_block_def get_epoch_of_block_def cmp_def latest_is_best_def)
  qed
qed

lemma compare_before:
  assumes ok: "search_chain_ok c st" and k: "k \<le> best_number c" "target_matches (best_number c) st target k" and m: "m < k"
    and latest: "latest_is_best c target"
  shows "compare_block c target m = Inr Less \<or> compare_block c target m = Inr Equal"
proof -
  have mb: "m \<le> best_number c" "m < best_number c" using k(1) m by auto
  have mk: "m + 1 \<le> k" using m by (rule next_block)
  note st = chain_status(1) [OF ok mb(1)] chain_status(1) [OF ok order_trans [OF mk k(1)]]
    chain_epochs [OF ok less_imp_le [OF m] k(1)] chain_epochs [OF ok mk k(1)]
  show ?thesis using st k(2) mb(2) latest
    by (cases target) (auto simp: compare_slot_range_def get_slot_of_block_def get_epoch_of_block_def cmp_def latest_is_best_def)
qed

lemma compare_after:
  assumes ok: "search_chain_ok c st" and k: "k < m" "target_matches (best_number c) st target k" and m: "m \<le> best_number c"
    and latest: "latest_is_best c target"
  shows "compare_block c target m = Inr Greater \<or> compare_block c target m = Inr Equal"
proof -
  have "k + 1 \<le> m" using k(1) by (rule next_block)
  note st = chain_status(1) [OF ok m] chain_epochs [OF ok less_imp_le [OF k(1)] m] chain_epochs [OF ok \<open>k + 1 \<le> m\<close> m]
  show ?thesis using st k m latest
    by (cases target) (auto simp: compare_slot_range_def get_slot_of_block_def get_epoch_of_block_def cmp_def latest_is_best_def)
qed

lemma find_block_result:
  assumes "search_chain_ok c st" and "latest_is_best c target"
  shows "if \<exists>k. 1 \<le> k \<and> k \<le> best_number c \<and> target_matches (best_number c) st target k
    then \<exists>n h. find_block c target = Some (Ok h) \<and> hash_of_block c n = Inr (Some h) \<and> 1 \<le> n \<and> n \<le> best_number c
      \<and> target_matches (best_number c) st target n
    else find_block c target = Some (Err CouldNotFindBlock)"
proof -
  let ?best = "best_number c" and ?f = "compare_block c target"
  have next_best: "unat (?best + 1) = unat ?best + 1" "unat (?best + 1) < 2 ^ 31"
    using assms(1) by (simp_all add: search_chain_ok_def unat_add_nowrap)
  obtain r where r: "binary_search_loop ?f 1 (?best + 1) = Some r" "\<And>m. r = Some m \<Longrightarrow> 1 \<le> m \<and> m \<le> ?best + 1 \<and> ?f m = Inr Equal"
    using binary_search_returns [of 1 "?best + 1" ?f] next_best(2) by auto
  have hit: "1 \<le> m \<and> m \<le> ?best \<and> target_matches ?best st target m" if "r = Some m" for m
  proof -
    have "m \<noteq> ?best + 1" using compare_beyond [OF assms(1), of target] r(2) [OF that] by auto
    then have "m \<le> ?best" using r(2) [OF that] next_best(1) by (auto simp: word_le_nat_alt word_unat_eq_iff)
    then show ?thesis using r(2) [OF that] compare_within [OF assms(1) _ assms(2)] by auto
  qed
  show ?thesis
  proof (cases "\<exists>k. 1 \<le> k \<and> k \<le> ?best \<and> target_matches ?best st target k")
    case True
    then obtain k where k: "1 \<le> k" "k \<le> ?best" "target_matches ?best st target k" by blast
    have "k \<le> ?best + 1" "\<And>m. m < ?best + 1 \<Longrightarrow> m \<le> ?best"
      using k(2) next_best(1) by (simp_all add: word_le_nat_alt word_less_nat_alt)
    then have "\<exists>m. binary_search_loop ?f 1 (?best + 1) = Some (Some m)"
      using k compare_within [OF assms(1) k(2) assms(2)] next_best(2) compare_before [OF assms(1) k(2,3) _ assms(2)]
        compare_after [OF assms(1) _ k(3) _ assms(2)]
      by (intro binary_search_finds [of _ _ k]) simp_all
    then obtain n where n: "r = Some n" using r(1) by auto
    obtain h where "hash_of_block c n = Inr (Some h)" using assms(1) hit [OF n] by (auto simp: search_chain_ok_def)
    then show ?thesis using True hit [OF n] r(1) n by (auto simp: find_block_def find_block_number_def binary_search_by_def)
  next
    case False
    then have "r = None" using hit by (cases r) auto
    then show ?thesis using False r(1) by (simp add: find_block_def find_block_number_def binary_search_by_def)
  qed
qed

text \<open>
  C26: The block search ends and is exact. On a chain whose slots and epochs grow, a search for any or the last block of an epoch, or for any or the latest block of a
  slot range, returns the hash of such a block when there is one, and otherwise the error that no block was found; it neither runs forever nor panics.
\<close>

theorem find_block_exact:
  assumes "search_chain_ok c st" and "latest_is_best c target"
  shows "if \<exists>k. 1 \<le> k \<and> k \<le> best_number c \<and> target_matches (best_number c) st target k
    then \<exists>n h. find_block c target = Some (Ok h) \<and> hash_of_block c n = Inr (Some h) \<and> 1 \<le> n \<and> n \<le> best_number c
      \<and> target_matches (best_number c) st target n
    else find_block c target = Some (Err CouldNotFindBlock)"
  by (rule find_block_result [OF assms])

text \<open>A chain of three blocks in the epochs 7, 7 and 8.\<close>

definition demo_status :: "u32 \<Rightarrow> sidechain_status" where
  "demo_status n = \<lparr>status_epoch = (if n \<le> 2 then 7 else 8), status_slot = (if n = 0 then 0 else 418 + ucast n)\<rparr>"

definition demo_client :: "(u32, unit) search_client" where
  "demo_client = \<lparr>best_number = 3, hash_of_block = (\<lambda>n. Inr (if n \<le> 3 then Some n else None)), sidechain_status_at = (\<lambda>n. Inr (demo_status n))\<rparr>"

lemma demo_client_ok: "search_chain_ok demo_client demo_status"
proof -
  have cases: "n = 0 \<or> n = 1 \<or> n = 2 \<or> n = 3" if "n \<le> (3 :: u32)" for n
    using that by (auto simp: word_unat_eq_iff word_le_nat_alt)
  have "status_epoch (demo_status m) \<le> status_epoch (demo_status n) \<and> status_slot (demo_status m) \<le> status_slot (demo_status n)"
    if "m \<le> n" "n \<le> 3" for m n
    using cases [OF that(2)] cases [OF order_trans [OF that]] that(1) by (auto simp: demo_status_def word_le_nat_alt)
  then show ?thesis by (simp add: search_chain_ok_def demo_client_def)
qed

theorem find_block_exact_witness:
  "(\<exists>n h. find_block demo_client (LastBlockInEpoch 7) = Some (Ok h) \<and> 1 \<le> n \<and> n \<le> 3 \<and> hash_of_block demo_client n = Inr (Some h)
      \<and> target_matches 3 demo_status (LastBlockInEpoch 7) n)
    \<and> target_matches 3 demo_status (LastBlockInEpoch 7) 2"
proof -
  have two: "target_matches 3 demo_status (LastBlockInEpoch 7) 2" by (simp add: demo_status_def)
  moreover have "best_number demo_client = 3" "latest_is_best demo_client (LastBlockInEpoch 7)" by (simp_all add: demo_client_def latest_is_best_def)
  moreover have "\<exists>k. 1 \<le> k \<and> k \<le> (3 :: u32) \<and> target_matches 3 demo_status (LastBlockInEpoch 7) k"
    using two by (intro exI [of _ 2]) (simp del: target_matches.simps)
  ultimately show ?thesis
    using find_block_exact [OF demo_client_ok, of "LastBlockInEpoch 7"] by (auto simp del: target_matches.simps)
qed

text \<open>The bound of \<open>LatestBlockInSlotRange\<close> does not bound the number of the block: with the bound 1 the search returns block 2.\<close>

lemma latest_block_bound_ignored: "find_block_number demo_client (LatestBlockInSlotRange 0 1000 1) = Some (Inr 2)"
  by (simp add: find_block_number_def binary_search_by_def binary_search_loop.simps demo_client_def demo_status_def
      compare_slot_range_def get_slot_of_block_def status_of_block_def)

text \<open>From the start 0 the search can run forever: the subtraction wraps.\<close>

lemma binary_search_from_zero: "binary_search_loop (\<lambda>_. Inr Greater) 0 right = None"
proof -
  have "f = (\<lambda>_. Inr Greater) \<longrightarrow> left \<noteq> 0" if "binary_search_loop f left right = Some y" for f :: "u32 \<Rightarrow> 'e + ordering" and left right y
    by (rule binary_search_loop.raw_induct [of "\<lambda>f left right y. f = (\<lambda>_. Inr Greater) \<longrightarrow> left \<noteq> 0", OF _ that])
      (fastforce simp: Let_def split: if_splits)
  then show ?thesis by (metis not_None_eq)
qed

end
