(* ===== verification/Block_Producer_Fees.thy ===== *)
theory Block_Producer_Fees
  imports Prelude
begin

text \<open>
  The block producer fees pallet, \<open>toolkit/block-producer-fees/pallet/src/lib.rs\<close>. A call that fails leaves no trace in the
  storage, so the model of an extrinsic returns the error or the new storage. \<open>ensure_signed\<close> of FRAME is a field of the configuration.
\<close>

type_synonym fee_change = "u64 \<times> u16"

record ('origin, 'acc) fees_config =
  fees_ensure_signed :: "'origin \<Rightarrow> 'acc option"
  historical_changes_per_producer :: u16

type_synonym 'acc fees_storage = "'acc \<rightharpoonup> fee_change list"

datatype fees_error = FeesBadOrigin | FeeNumeratorOutOfRange

text \<open>\<open>FeesChanges::get\<close>, a \<open>ValueQuery\<close>; the front of the queue is the head of the list.\<close>

definition fees_get :: "'acc fees_storage \<Rightarrow> 'acc \<Rightarrow> fee_change list" where
  "fees_get s a = (case s a of Some l \<Rightarrow> l | None \<Rightarrow> [])"

definition set_fee ::
  "('origin, 'acc) fees_config \<Rightarrow> u64 \<Rightarrow> 'origin \<Rightarrow> u16 \<Rightarrow> 'acc fees_storage \<Rightarrow> fees_error + 'acc fees_storage" where
  "set_fee cfg current_slot origin fee_numerator s = (case fees_ensure_signed cfg origin of
       None \<Rightarrow> Inl FeesBadOrigin
     | Some account_id \<Rightarrow>
         if fee_numerator > 10000 then Inl FeeNumeratorOutOfRange
         else let fees_log = fees_get s account_id;
                  fees_log = (if length fees_log > unat (historical_changes_per_producer cfg) then butlast fees_log else fees_log)
              in Inr (s(account_id \<mapsto> (current_slot, fee_numerator) # fees_log)))"

definition fees_get_latest :: "'acc fees_storage \<Rightarrow> 'acc \<Rightarrow> fee_change option" where
  "fees_get_latest s a = (case fees_get s a of [] \<Rightarrow> None | c # _ \<Rightarrow> Some c)"

text \<open>The entries of the storage in the order of its iteration.\<close>

fun fees_get_all_latest :: "('acc \<times> fee_change list) list \<Rightarrow> panic + ('acc \<times> fee_change) list" where
  "fees_get_all_latest [] = Inr []"
| "fees_get_all_latest ((account_id, changes) # entries) = (case changes of
       [] \<Rightarrow> Inl ExpectFailed
     | c # _ \<Rightarrow> (case fees_get_all_latest entries of Inl p \<Rightarrow> Inl p | Inr rest \<Rightarrow> Inr ((account_id, c) # rest)))"

subsection \<open>Sequences of calls\<close>

record 'origin fee_call =
  call_slot :: u64
  call_origin :: 'origin
  call_fee :: u16

definition fees_apply :: "('origin, 'acc) fees_config \<Rightarrow> 'acc fees_storage \<Rightarrow> 'origin fee_call \<Rightarrow> 'acc fees_storage" where
  "fees_apply cfg s c = (case set_fee cfg (call_slot c) (call_origin c) (call_fee c) s of Inl _ \<Rightarrow> s | Inr s' \<Rightarrow> s')"

text \<open>The accepted changes of an account, the newest first.\<close>

definition fee_history :: "('origin, 'acc) fees_config \<Rightarrow> 'origin fee_call list \<Rightarrow> 'acc \<Rightarrow> fee_change list" where
  "fee_history cfg calls a = rev (map (\<lambda>c. (call_slot c, call_fee c))
     (filter (\<lambda>c. fees_ensure_signed cfg (call_origin c) = Some a \<and> call_fee c \<le> 10000) calls))"

lemma fees_apply_accepted:
  assumes "fees_ensure_signed cfg (call_origin c) = Some a" and "call_fee c \<le> 10000"
  shows "fees_apply cfg s c a = Some ((call_slot c, call_fee c) #
    (if length (fees_get s a) > unat (historical_changes_per_producer cfg) then butlast (fees_get s a) else fees_get s a))"
  using assms by (simp add: fees_apply_def set_fee_def Let_def not_less [symmetric])

lemma fees_storage_history:
  "foldl (fees_apply cfg) Map.empty calls a =
    (case fee_history cfg calls a of [] \<Rightarrow> None | h \<Rightarrow> Some (take (unat (historical_changes_per_producer cfg) + 1) h))"
proof (induction calls rule: rev_induct)
  case Nil
  then show ?case by (simp add: fee_history_def)
next
  case (snoc c calls)
  let ?n = "unat (historical_changes_per_producer cfg)" and ?s = "foldl (fees_apply cfg) Map.empty calls"
  show ?case
  proof (cases "fees_ensure_signed cfg (call_origin c) = Some a \<and> call_fee c \<le> 10000")
    case True
    have log: "fees_get ?s a = take (?n + 1) (fee_history cfg calls a)"
      using snoc.IH by (simp add: fees_get_def split: list.splits)
    have "(if length (fees_get ?s a) > ?n then butlast (fees_get ?s a) else fees_get ?s a) = take ?n (fee_history cfg calls a)"
      unfolding log by (cases "length (fee_history cfg calls a) \<le> ?n") (simp_all add: butlast_conv_take)
    then show ?thesis using True by (simp add: fees_apply_accepted) (simp add: fee_history_def)
  next
    case False
    then have "fees_apply cfg ?s c a = ?s a"
      by (auto simp: fees_apply_def set_fee_def Let_def not_le split: option.splits if_splits)
    moreover have "fee_history cfg (calls @ [c]) a = fee_history cfg calls a" using False by (auto simp: fee_history_def)
    ultimately show ?thesis using snoc.IH by simp
  qed
qed

text \<open>
  C36: The fee log of an account is exactly its history. After any calls, accepted or not, the storage holds for each account that
  ever set a fee the accepted changes, newest first, cut to the configured number of past changes and the current one; every fee in it is at most 10000,
  and \<open>get_latest\<close> is the last accepted change.
\<close>

theorem fee_log_exact:
  "fees_get (foldl (fees_apply cfg) Map.empty calls) a = take (unat (historical_changes_per_producer cfg) + 1) (fee_history cfg calls a)
   \<and> length (fees_get (foldl (fees_apply cfg) Map.empty calls) a) \<le> unat (historical_changes_per_producer cfg) + 1
   \<and> list_all (\<lambda>(slot, fee). fee \<le> 10000) (fees_get (foldl (fees_apply cfg) Map.empty calls) a)
   \<and> fees_get_latest (foldl (fees_apply cfg) Map.empty calls) a = (case fee_history cfg calls a of [] \<Rightarrow> None | c # _ \<Rightarrow> Some c)"
proof -
  have log: "fees_get (foldl (fees_apply cfg) Map.empty calls) a = take (unat (historical_changes_per_producer cfg) + 1) (fee_history cfg calls a)"
    by (simp add: fees_get_def fees_storage_history split: list.splits)
  have "list_all (\<lambda>(slot, fee). fee \<le> 10000) (fee_history cfg calls a)"
    by (auto simp: fee_history_def list_all_iff)
  then have "list_all (\<lambda>(slot, fee). fee \<le> 10000) (take (unat (historical_changes_per_producer cfg) + 1) (fee_history cfg calls a))"
    unfolding list_all_iff by (meson in_set_takeD)
  then show ?thesis unfolding fees_get_latest_def log by (simp split: list.splits)
qed

text \<open>No collection in the storage is empty: \<open>get_all_latest\<close> does not panic.\<close>

lemma all_latest_ok:
  assumes "\<And>a l. (a, l) \<in> set entries \<Longrightarrow> foldl (fees_apply cfg) Map.empty calls a = Some l"
  shows "\<exists>r. fees_get_all_latest entries = Inr r"
  using assms
proof (induction entries)
  case (Cons e entries)
  obtain a l where e: "e = (a, l)" by (cases e)
  have "l \<noteq> []" using Cons.prems [of a l] by (auto simp: e fees_storage_history split: list.splits)
  moreover obtain r where "fees_get_all_latest entries = Inr r" using Cons by auto
  ultimately show ?case by (cases l) (simp_all add: e)
qed simp

end
