(* ===== verification/Address_Associations.thy ===== *)
theory Address_Associations
  imports Domain
begin

text \<open>
  The address associations pallet, \<open>toolkit/address-associations/pallet/src/lib.rs\<close>. A call that fails leaves no trace: the model of
  the extrinsic returns the error or the new state. The hash of a stake key, Ed25519 verification, the SCALE encoding of the signed message, the burning of tokens and
  \<open>ensure_signed\<close> are fields of the configuration; calls of \<open>OnNewAssociation\<close> are recorded in order.
\<close>

record 'addr address_association_signed_message =
  aam_stake_public_key :: bytes
  aam_partnerchain_address :: 'addr
  aam_genesis_utxo :: utxo_id

record ('origin, 'acc, 'addr, 'cur) association_config =
  as_ensure_signed :: "'origin \<Rightarrow> 'acc option"
  as_genesis_utxo :: utxo_id
  as_burn_amount :: nat
  as_key_hash :: "bytes \<Rightarrow> bytes"
  as_verify :: "bytes \<Rightarrow> bytes \<Rightarrow> bytes \<Rightarrow> bool"
  as_encode :: "'addr address_association_signed_message \<Rightarrow> bytes"
  as_burn_from :: "'acc \<Rightarrow> nat \<Rightarrow> 'cur \<Rightarrow> 'cur option"

record ('addr, 'cur) association_state =
  address_associations :: "bytes \<rightharpoonup> 'addr"
  as_currency :: 'cur
  new_associations :: "('addr \<times> bytes) list"

datatype association_error =
    AssociationBadOrigin
  | MainchainKeyAlreadyAssociated
  | AssociationInvalidSignature
  | AssociationInsufficientBalance

definition associate_address ::
  "('origin, 'acc, 'addr, 'cur) association_config \<Rightarrow> 'origin \<Rightarrow> 'addr \<Rightarrow> bytes \<Rightarrow> bytes \<Rightarrow> ('addr, 'cur) association_state
     \<Rightarrow> association_error + ('addr, 'cur) association_state" where
  "associate_address cfg origin partnerchain_address signature stake_public_key s = (case as_ensure_signed cfg origin of
       None \<Rightarrow> Inl AssociationBadOrigin
     | Some origin_account_id \<Rightarrow>
         let stake_key_hash = as_key_hash cfg stake_public_key in
         if address_associations s stake_key_hash \<noteq> None then Inl MainchainKeyAlreadyAssociated
         else (case as_burn_from cfg origin_account_id (as_burn_amount cfg) (as_currency s) of
             None \<Rightarrow> Inl AssociationInsufficientBalance
           | Some cur \<Rightarrow>
               let message = \<lparr>aam_stake_public_key = stake_public_key, aam_partnerchain_address = partnerchain_address,
                     aam_genesis_utxo = as_genesis_utxo cfg\<rparr> in
               if \<not> as_verify cfg signature stake_public_key (as_encode cfg message) then Inl AssociationInvalidSignature
               else Inr (s\<lparr>address_associations := (address_associations s)(stake_key_hash \<mapsto> partnerchain_address), as_currency := cur,
                   new_associations := new_associations s @ [(partnerchain_address, stake_key_hash)]\<rparr>)))"

definition get_partner_chain_address_for ::
  "('origin, 'acc, 'addr, 'cur) association_config \<Rightarrow> ('addr, 'cur) association_state \<Rightarrow> bytes \<Rightarrow> 'addr option" where
  "get_partner_chain_address_for cfg s stake_public_key = address_associations s (as_key_hash cfg stake_public_key)"

subsection \<open>Sequences of calls\<close>

record ('origin, 'addr) association_call =
  ac_origin :: 'origin
  ac_address :: 'addr
  ac_signature :: bytes
  ac_public_key :: bytes

definition association_apply ::
  "('origin, 'acc, 'addr, 'cur) association_config \<Rightarrow> ('addr, 'cur) association_state \<Rightarrow> ('origin, 'addr) association_call
     \<Rightarrow> ('addr, 'cur) association_state" where
  "association_apply cfg s c =
     (case associate_address cfg (ac_origin c) (ac_address c) (ac_signature c) (ac_public_key c) s of Inl _ \<Rightarrow> s | Inr s' \<Rightarrow> s')"

text \<open>The address \<open>a\<close> of key hash \<open>k\<close> was signed for this chain by a key with that hash.\<close>

definition association_authorized :: "('origin, 'acc, 'addr, 'cur) association_config \<Rightarrow> bytes \<Rightarrow> 'addr \<Rightarrow> bool" where
  "association_authorized cfg k a \<longleftrightarrow> (\<exists>key signature. as_key_hash cfg key = k \<and> as_verify cfg signature key
     (as_encode cfg \<lparr>aam_stake_public_key = key, aam_partnerchain_address = a, aam_genesis_utxo = as_genesis_utxo cfg\<rparr>))"

lemma association_step:
  shows "address_associations (association_apply cfg s c) = address_associations s \<and> new_associations (association_apply cfg s c) = new_associations s
      \<and> as_currency (association_apply cfg s c) = as_currency s
    \<or> (\<exists>k a who. address_associations s k = None \<and> association_authorized cfg k a
        \<and> as_ensure_signed cfg (ac_origin c) = Some who
        \<and> as_burn_from cfg who (as_burn_amount cfg) (as_currency s) = Some (as_currency (association_apply cfg s c))
        \<and> address_associations (association_apply cfg s c) = (address_associations s)(k \<mapsto> a)
        \<and> new_associations (association_apply cfg s c) = new_associations s @ [(a, k)])"
  by (auto simp: association_apply_def associate_address_def association_authorized_def Let_def split: option.splits)

definition association_inv :: "('origin, 'acc, 'addr, 'cur) association_config \<Rightarrow> ('addr, 'cur) association_state \<Rightarrow> bool" where
  "association_inv cfg s \<longleftrightarrow> (\<forall>k a. address_associations s k = Some a \<longleftrightarrow> (a, k) \<in> set (new_associations s))
     \<and> distinct (map snd (new_associations s))
     \<and> (\<forall>k a. address_associations s k = Some a \<longrightarrow> association_authorized cfg k a)"

lemma association_apply_inv:
  assumes "association_inv cfg s"
  shows "association_inv cfg (association_apply cfg s c)" and "address_associations s \<subseteq>\<^sub>m address_associations (association_apply cfg s c)"
proof -
  have "association_inv cfg (association_apply cfg s c) \<and> address_associations s \<subseteq>\<^sub>m address_associations (association_apply cfg s c)"
    using association_step [of cfg s c]
  proof
    assume "\<exists>k a who. address_associations s k = None \<and> association_authorized cfg k a
        \<and> as_ensure_signed cfg (ac_origin c) = Some who
        \<and> as_burn_from cfg who (as_burn_amount cfg) (as_currency s) = Some (as_currency (association_apply cfg s c))
        \<and> address_associations (association_apply cfg s c) = (address_associations s)(k \<mapsto> a)
        \<and> new_associations (association_apply cfg s c) = new_associations s @ [(a, k)]"
    then obtain k a where k: "address_associations s k = None" "association_authorized cfg k a"
        "address_associations (association_apply cfg s c) = (address_associations s)(k \<mapsto> a)"
        "new_associations (association_apply cfg s c) = new_associations s @ [(a, k)]" by blast
    have "k \<notin> snd ` set (new_associations s)" using assms k(1) by (force simp: association_inv_def)
    moreover from this have "(b, k) \<notin> set (new_associations s)" for b by force
    ultimately show ?thesis using assms k unfolding association_inv_def by (auto simp: map_le_def split: if_splits)
  qed (use assms in \<open>auto simp: association_inv_def\<close>)
  then show "association_inv cfg (association_apply cfg s c)" and "address_associations s \<subseteq>\<^sub>m address_associations (association_apply cfg s c)"
    by simp_all
qed

lemma association_run_inv:
  assumes "association_inv cfg s"
  shows "association_inv cfg (foldl (association_apply cfg) s calls)
    \<and> address_associations s \<subseteq>\<^sub>m address_associations (foldl (association_apply cfg) s calls)"
  using assms
proof (induction calls arbitrary: s)
  case (Cons c calls)
  from association_apply_inv [OF Cons.prems, of c] Cons.IH [of "association_apply cfg s c"] show ?case
    by (auto intro: map_le_trans)
qed (simp add: map_le_def)

text \<open>
  C20: An address association is permanent and authorized. Over any calls, accepted or not, an association that exists keeps its address, every
  association carries a signature of the stake key for this chain and this address, and \<open>OnNewAssociation\<close> is called exactly once for
  each association.
\<close>

theorem associations_permanent:
  assumes "address_associations s = Map.empty" and "new_associations s = []"
  shows "address_associations (foldl (association_apply cfg) s calls) \<subseteq>\<^sub>m address_associations (foldl (association_apply cfg) s (calls @ later))
    \<and> (\<forall>k a. address_associations (foldl (association_apply cfg) s calls) k = Some a \<longrightarrow> association_authorized cfg k a)
    \<and> distinct (map snd (new_associations (foldl (association_apply cfg) s calls)))
    \<and> (\<forall>k a. address_associations (foldl (association_apply cfg) s calls) k = Some a
        \<longleftrightarrow> (a, k) \<in> set (new_associations (foldl (association_apply cfg) s calls)))"
proof -
  have "association_inv cfg s" using assms by (simp add: association_inv_def)
  then have inv: "association_inv cfg (foldl (association_apply cfg) s calls)" using association_run_inv by blast
  from association_run_inv [OF this, of later] inv show ?thesis by (auto simp: association_inv_def)
qed

definition demo_associations :: "(nat, nat, nat, nat) association_config" where
  "demo_associations = \<lparr>as_ensure_signed = Some, as_genesis_utxo = \<lparr>utxo_tx_hash = [], utxo_index = 0\<rparr>, as_burn_amount = 5,
     as_key_hash = take 1, as_verify = (\<lambda>sig key msg. sig = key @ msg), as_encode = (\<lambda>m. [word_of_nat (aam_partnerchain_address m)]),
     as_burn_from = (\<lambda>who n cur. if n \<le> cur then Some (cur - n) else None)\<rparr>"

theorem associations_permanent_witness:
  "let s = foldl (association_apply demo_associations) \<lparr>address_associations = Map.empty, as_currency = 20, new_associations = []\<rparr>
      [\<lparr>ac_origin = 1, ac_address = 9, ac_signature = [3, 9], ac_public_key = [3]\<rparr>,
       \<lparr>ac_origin = 2, ac_address = 8, ac_signature = [3, 8], ac_public_key = [3]\<rparr>]
   in address_associations s [3] = Some 9 \<and> new_associations s = [(9, [3])] \<and> as_currency s = 15
     \<and> association_authorized demo_associations [3] 9"
proof -
  let ?s0 = "\<lparr>address_associations = Map.empty, as_currency = 20, new_associations = []\<rparr> :: (nat, nat) association_state"
  let ?calls = "[\<lparr>ac_origin = 1, ac_address = 9, ac_signature = [3, 9], ac_public_key = [3]\<rparr>,
       \<lparr>ac_origin = 2, ac_address = 8, ac_signature = [3, 8], ac_public_key = [3]\<rparr>]"
  have "address_associations (foldl (association_apply demo_associations) ?s0 ?calls) [3] = Some 9"
    "new_associations (foldl (association_apply demo_associations) ?s0 ?calls) = [(9, [3])]"
    "as_currency (foldl (association_apply demo_associations) ?s0 ?calls) = 15"
    by (simp_all add: association_apply_def associate_address_def demo_associations_def Let_def)
  then show ?thesis using associations_permanent [of ?s0 demo_associations ?calls "[]"] by (simp add: Let_def)
qed

end
