(* ===== verification/Block_Producer_Metadata.thy ===== *)
theory Block_Producer_Metadata
  imports Domain
begin

text \<open>
  The block producer metadata pallet, \<open>toolkit/block-producer-metadata/pallet/src/lib.rs\<close>, and its signed message,
  \<open>toolkit/block-producer-metadata/primitives/src/lib.rs\<close>. A call that fails leaves no trace: the model of an extrinsic returns the error or the new state.

  Outside the repository, and fields of the configuration: \<open>ensure_signed\<close>, the hash of a cross-chain key, ECDSA verification, the SCALE
  encoding of the signed message, and the \<open>hold\<close> and \<open>release\<close> of the currency, which act on a ledger.
\<close>

record ('meta, 'acc) metadata_signed_message =
  msg_cross_chain_pub_key :: bytes
  msg_metadata :: "'meta option"
  msg_genesis_utxo :: utxo_id
  msg_valid_before :: u64
  msg_owner :: 'acc

record ('origin, 'acc, 'meta, 'cur, 'err) metadata_config =
  md_ensure_signed :: "'origin \<Rightarrow> 'acc option"
  md_genesis_utxo :: utxo_id
  md_key_hash :: "bytes \<Rightarrow> bytes"
  md_verify :: "bytes \<Rightarrow> bytes \<Rightarrow> bytes \<Rightarrow> bool"
  md_encode :: "('meta, 'acc) metadata_signed_message \<Rightarrow> bytes"
  md_hold :: "'acc \<Rightarrow> nat \<Rightarrow> 'cur \<Rightarrow> 'err + 'cur"
  md_release :: "'acc \<Rightarrow> nat \<Rightarrow> 'cur \<Rightarrow> 'err + 'cur"

record ('acc, 'meta, 'cur) metadata_state =
  metadata_storage :: "bytes \<rightharpoonup> 'meta \<times> 'acc \<times> nat"
  md_currency :: 'cur

datatype 'err metadata_error =
    MetadataBadOrigin
  | MetadataInvalidMainchainSignature
  | MetadataInsufficientBalance
  | MetadataNotTheOwner
  | MetadataPastValidityTime
  | MetadataCurrencyError 'err

text \<open>\<open>HoldAmount\<close> and \<open>current_time\<close> may differ from call to call and are arguments.\<close>

definition hold_deposit ::
  "('origin, 'acc, 'meta, 'cur, 'err) metadata_config \<Rightarrow> nat \<Rightarrow> 'acc \<Rightarrow> 'cur \<Rightarrow> 'err metadata_error + nat \<times> 'cur" where
  "hold_deposit cfg hold_amount account cur = (case md_hold cfg account hold_amount cur of
       Inl _ \<Rightarrow> Inl MetadataInsufficientBalance
     | Inr cur \<Rightarrow> Inr (hold_amount, cur))"

definition release_deposit ::
  "('origin, 'acc, 'meta, 'cur, 'err) metadata_config \<Rightarrow> 'acc \<Rightarrow> nat \<Rightarrow> 'cur \<Rightarrow> 'err metadata_error + 'cur" where
  "release_deposit cfg depositor amount cur = (case md_release cfg depositor amount cur of
       Inl e \<Rightarrow> Inl (MetadataCurrencyError e)
     | Inr cur \<Rightarrow> Inr cur)"

definition upsert_metadata ::
  "('origin, 'acc, 'meta, 'cur, 'err) metadata_config \<Rightarrow> u64 \<Rightarrow> nat \<Rightarrow> 'origin \<Rightarrow> 'meta \<Rightarrow> bytes \<Rightarrow> bytes \<Rightarrow> u64
     \<Rightarrow> ('acc, 'meta, 'cur) metadata_state \<Rightarrow> 'err metadata_error + ('acc, 'meta, 'cur) metadata_state" where
  "upsert_metadata cfg current_time hold_amount origin metadata signature cross_chain_pub_key valid_before s = (case md_ensure_signed cfg origin of
       None \<Rightarrow> Inl MetadataBadOrigin
     | Some origin_account \<Rightarrow>
         let cross_chain_key_hash = md_key_hash cfg cross_chain_pub_key;
             metadata_message = \<lparr>msg_cross_chain_pub_key = cross_chain_pub_key, msg_metadata = Some metadata,
               msg_genesis_utxo = md_genesis_utxo cfg, msg_valid_before = valid_before, msg_owner = origin_account\<rparr>;
             is_valid_signature = md_verify cfg signature cross_chain_pub_key (md_encode cfg metadata_message)
         in if \<not> current_time \<le> valid_before then Inl MetadataPastValidityTime
            else if \<not> is_valid_signature then Inl MetadataInvalidMainchainSignature
            else (case metadata_storage s cross_chain_key_hash of
                None \<Rightarrow> (case hold_deposit cfg hold_amount origin_account (md_currency s) of
                    Inl e \<Rightarrow> Inl e
                  | Inr (deposit, cur) \<Rightarrow> Inr (s\<lparr>md_currency := cur,
                      metadata_storage := (metadata_storage s)(cross_chain_key_hash \<mapsto> (metadata, origin_account, deposit))\<rparr>))
              | Some (_, owner, deposit) \<Rightarrow>
                  if owner \<noteq> origin_account then Inl MetadataNotTheOwner
                  else Inr (s\<lparr>metadata_storage := (metadata_storage s)(cross_chain_key_hash \<mapsto> (metadata, owner, deposit))\<rparr>)))"

definition delete_metadata ::
  "('origin, 'acc, 'meta, 'cur, 'err) metadata_config \<Rightarrow> u64 \<Rightarrow> 'origin \<Rightarrow> bytes \<Rightarrow> bytes \<Rightarrow> u64
     \<Rightarrow> ('acc, 'meta, 'cur) metadata_state \<Rightarrow> 'err metadata_error + ('acc, 'meta, 'cur) metadata_state" where
  "delete_metadata cfg current_time origin cross_chain_pub_key signature valid_before s = (case md_ensure_signed cfg origin of
       None \<Rightarrow> Inl MetadataBadOrigin
     | Some origin_account \<Rightarrow>
         let metadata_message = \<lparr>msg_cross_chain_pub_key = cross_chain_pub_key, msg_metadata = None,
               msg_genesis_utxo = md_genesis_utxo cfg, msg_valid_before = valid_before, msg_owner = origin_account\<rparr>;
             cross_chain_key_hash = md_key_hash cfg cross_chain_pub_key;
             is_valid_signature = md_verify cfg signature cross_chain_pub_key (md_encode cfg metadata_message)
         in if \<not> current_time \<le> valid_before then Inl MetadataPastValidityTime
            else if \<not> is_valid_signature then Inl MetadataInvalidMainchainSignature
            else (case metadata_storage s cross_chain_key_hash of
                Some (_, owner, deposit) \<Rightarrow>
                  if owner \<noteq> origin_account then Inl MetadataNotTheOwner
                  else (case release_deposit cfg owner deposit (md_currency s) of
                      Inl e \<Rightarrow> Inl e
                    | Inr cur \<Rightarrow> Inr (s\<lparr>md_currency := cur, metadata_storage := (metadata_storage s)(cross_chain_key_hash := None)\<rparr>))
              | None \<Rightarrow> Inr s))"

definition get_metadata_for ::
  "('origin, 'acc, 'meta, 'cur, 'err) metadata_config \<Rightarrow> ('acc, 'meta, 'cur) metadata_state \<Rightarrow> bytes \<Rightarrow> 'meta option" where
  "get_metadata_for cfg s cross_chain_pub_key = map_option fst (metadata_storage s (md_key_hash cfg cross_chain_pub_key))"

subsection \<open>Deposits\<close>

text \<open>
  The documented behaviour of the currency in terms of the amount held from an account for the reason of this pallet:
  \<open>hold\<close> adds the amount, \<open>release\<close> with best-effort precision returns what is held up to the amount.
\<close>

definition currency_ok :: "('origin, 'acc, 'meta, 'cur, 'err) metadata_config \<Rightarrow> ('cur \<Rightarrow> 'acc \<Rightarrow> nat) \<Rightarrow> bool" where
  "currency_ok cfg held \<longleftrightarrow>
     (\<forall>a n cur cur'. md_hold cfg a n cur = Inr cur' \<longrightarrow> held cur' = (held cur)(a := held cur a + n))
     \<and> (\<forall>a n cur. \<exists>cur'. md_release cfg a n cur = Inr cur' \<and> held cur' = (held cur)(a := held cur a - n))"

inductive metadata_reachable ::
  "('origin, 'acc, 'meta, 'cur, 'err) metadata_config \<Rightarrow> 'cur \<Rightarrow> ('acc, 'meta, 'cur) metadata_state \<Rightarrow> bool"
  for cfg cur0 where
  genesis: "metadata_reachable cfg cur0 \<lparr>metadata_storage = Map.empty, md_currency = cur0\<rparr>"
| upsert: "metadata_reachable cfg cur0 s \<Longrightarrow> upsert_metadata cfg t n origin m sig key v s = Inr s' \<Longrightarrow> metadata_reachable cfg cur0 s'"
| delete: "metadata_reachable cfg cur0 s \<Longrightarrow> delete_metadata cfg t origin key sig v s = Inr s' \<Longrightarrow> metadata_reachable cfg cur0 s'"

definition owned_by :: "('acc, 'meta, 'cur) metadata_state \<Rightarrow> 'acc \<Rightarrow> bytes set" where
  "owned_by s a = {k. \<exists>m d. metadata_storage s k = Some (m, a, d)}"

definition deposits :: "('acc, 'meta, 'cur) metadata_state \<Rightarrow> 'acc \<Rightarrow> nat" where
  "deposits s a = (\<Sum>k \<in> owned_by s a. snd (snd (the (metadata_storage s k))))"

text \<open>The metadata of key hash \<open>k\<close> was signed for this chain and this owner by a key with that hash.\<close>

definition metadata_authorized :: "('origin, 'acc, 'meta, 'cur, 'err) metadata_config \<Rightarrow> bytes \<Rightarrow> 'meta \<Rightarrow> 'acc \<Rightarrow> bool" where
  "metadata_authorized cfg k m owner \<longleftrightarrow> (\<exists>key sig v. md_key_hash cfg key = k \<and> md_verify cfg sig key
     (md_encode cfg \<lparr>msg_cross_chain_pub_key = key, msg_metadata = Some m, msg_genesis_utxo = md_genesis_utxo cfg,
        msg_valid_before = v, msg_owner = owner\<rparr>))"

definition metadata_inv :: "('origin, 'acc, 'meta, 'cur, 'err) metadata_config \<Rightarrow> ('cur \<Rightarrow> 'acc \<Rightarrow> nat) \<Rightarrow> ('acc, 'meta, 'cur) metadata_state \<Rightarrow> bool" where
  "metadata_inv cfg held s \<longleftrightarrow> finite (dom (metadata_storage s)) \<and> (\<forall>a. held (md_currency s) a = deposits s a)
     \<and> (\<forall>k m owner d. metadata_storage s k = Some (m, owner, d) \<longrightarrow> metadata_authorized cfg k m owner)"

lemma release_held:
  assumes "currency_ok cfg held"
  shows "\<exists>cur'. md_release cfg a n cur = Inr cur' \<and> held cur' = (held cur)(a := held cur a - n)"
  using assms unfolding currency_ok_def by blast

lemma finite_owned: "finite (dom (metadata_storage s)) \<Longrightarrow> finite (owned_by s a)"
  by (rule finite_subset [of _ "dom (metadata_storage s)"]) (auto simp: owned_by_def)

lemma deposits_insert:
  assumes "finite (dom (metadata_storage s))" and "metadata_storage s k = None"
  shows "deposits (s\<lparr>md_currency := cur, metadata_storage := (metadata_storage s)(k \<mapsto> (m, b, n))\<rparr>) = (deposits s)(b := deposits s b + n)"
proof
  fix a
  let ?s = "s\<lparr>md_currency := cur, metadata_storage := (metadata_storage s)(k \<mapsto> (m, b, n))\<rparr>"
  have owned: "owned_by ?s a = (if a = b then insert k (owned_by s a) else owned_by s a)" "k \<notin> owned_by s a"
    using assms(2) by (auto simp: owned_by_def)
  have same: "(\<Sum>j \<in> owned_by s a. snd (snd (the (metadata_storage ?s j)))) = deposits s a"
    unfolding deposits_def using owned(2) by (intro sum.cong) auto
  have "deposits ?s a = (if a = b then n else 0) + (\<Sum>j \<in> owned_by s a. snd (snd (the (metadata_storage ?s j))))"
    unfolding deposits_def owned(1) using owned(2) finite_owned [OF assms(1), of a] by (cases "a = b") simp_all
  then show "deposits ?s a = ((deposits s)(b := deposits s b + n)) a" using same by simp
qed

lemma deposits_update:
  assumes "metadata_storage s k = Some (m, b, n)"
  shows "deposits (s\<lparr>metadata_storage := (metadata_storage s)(k \<mapsto> (m', b, n))\<rparr>) = deposits s"
proof
  fix a
  let ?s = "s\<lparr>metadata_storage := (metadata_storage s)(k \<mapsto> (m', b, n))\<rparr>"
  have "owned_by ?s a = owned_by s a" using assms by (auto simp: owned_by_def)
  then show "deposits ?s a = deposits s a" unfolding deposits_def using assms by (intro sum.cong) auto
qed

lemma deposits_delete:
  assumes "finite (dom (metadata_storage s))" and "metadata_storage s k = Some (m, b, n)"
  shows "deposits (s\<lparr>md_currency := cur, metadata_storage := (metadata_storage s)(k := None)\<rparr>) = (deposits s)(b := deposits s b - n)"
proof
  fix a
  let ?s = "s\<lparr>md_currency := cur, metadata_storage := (metadata_storage s)(k := None)\<rparr>"
  have owned: "owned_by ?s a = owned_by s a - {k}" "k \<in> owned_by s a \<longleftrightarrow> a = b"
    using assms(2) by (auto simp: owned_by_def)
  have "deposits ?s a = (\<Sum>j \<in> owned_by s a - {k}. snd (snd (the (metadata_storage s j))))"
    unfolding deposits_def owned(1) by (intro sum.cong) auto
  then show "deposits ?s a = ((deposits s)(b := deposits s b - n)) a"
    using owned(2) assms(2) finite_owned [OF assms(1), of a] by (simp add: deposits_def sum_diff1_nat)
qed

lemma upsert_metadata_inv:
  assumes cur: "currency_ok cfg held" and inv: "metadata_inv cfg held s"
    and call: "upsert_metadata cfg t n origin m sig key v s = Inr s'"
  shows "metadata_inv cfg held s'"
proof -
  let ?k = "md_key_hash cfg key"
  obtain a where a: "md_ensure_signed cfg origin = Some a" using call by (auto simp: upsert_metadata_def split: option.splits)
  have auth: "metadata_authorized cfg ?k m a"
    using call a by (auto simp: upsert_metadata_def metadata_authorized_def Let_def split: if_splits)
  show ?thesis
  proof (cases "metadata_storage s ?k")
    case None
    then obtain c where c: "md_hold cfg a n (md_currency s) = Inr c"
        "s' = s\<lparr>md_currency := c, metadata_storage := (metadata_storage s)(?k \<mapsto> (m, a, n))\<rparr>"
      using call a by (auto simp: upsert_metadata_def hold_deposit_def Let_def split: if_splits sum.splits)
    have "held c = (held (md_currency s))(a := held (md_currency s) a + n)" using cur c(1) by (simp add: currency_ok_def)
    then show ?thesis using inv auth deposits_insert [OF _ None] unfolding metadata_inv_def c(2) by simp
  next
    case (Some e)
    then obtain m0 d where e: "metadata_storage s ?k = Some (m0, a, d)" "s' = s\<lparr>metadata_storage := (metadata_storage s)(?k \<mapsto> (m, a, d))\<rparr>"
      using call a by (cases e) (auto simp: upsert_metadata_def Let_def split: if_splits)
    then show ?thesis using inv auth deposits_update [OF e(1)] unfolding metadata_inv_def e(2) by simp
  qed
qed

lemma delete_metadata_inv:
  assumes cur: "currency_ok cfg held" and inv: "metadata_inv cfg held s"
    and call: "delete_metadata cfg t origin key sig v s = Inr s'"
  shows "metadata_inv cfg held s'"
proof (cases "metadata_storage s (md_key_hash cfg key)")
  case None
  then have "s' = s" using call by (auto simp: delete_metadata_def Let_def split: option.splits if_splits)
  then show ?thesis using inv by simp
next
  case (Some e)
  then obtain m a d c where e: "metadata_storage s (md_key_hash cfg key) = Some (m, a, d)" "md_release cfg a d (md_currency s) = Inr c"
      "s' = s\<lparr>md_currency := c, metadata_storage := (metadata_storage s)(md_key_hash cfg key := None)\<rparr>"
    using call by (cases e) (auto simp: delete_metadata_def release_deposit_def Let_def split: option.splits if_splits sum.splits)
  have "held c = (held (md_currency s))(a := held (md_currency s) a - d)" using release_held [OF cur, of a d "md_currency s"] e(2) by auto
  then show ?thesis using inv deposits_delete [OF _ e(1)] unfolding metadata_inv_def e(3) by (simp split: if_splits)
qed

lemma metadata_reachable_inv:
  assumes "currency_ok cfg held" and "\<And>a. held cur0 a = 0" and "metadata_reachable cfg cur0 s"
  shows "metadata_inv cfg held s"
  using assms(3)
proof (induction rule: metadata_reachable.induct)
  case genesis
  then show ?case using assms(2) by (simp add: metadata_inv_def deposits_def owned_by_def)
next
  case (upsert s t n origin m sig key v s')
  then show ?case using upsert_metadata_inv [OF assms(1)] by blast
next
  case (delete s t origin key sig v s')
  then show ?case using delete_metadata_inv [OF assms(1)] by blast
qed

text \<open>
  C19: Deposits are backed and returned. In every reachable state the amount held from an account is the sum of the deposits of the metadata it owns, also when the
  configured amount changes over time; every stored metadata was signed by its key for its owner; and the owner who deletes it in time with a valid
  signature succeeds, gets exactly the stored deposit back and leaves no entry.
\<close>

theorem metadata_deposits_backed:
  assumes "currency_ok cfg held" and "\<And>a. held cur0 a = 0" and "metadata_reachable cfg cur0 s"
  shows "held (md_currency s) a = deposits s a
    \<and> (\<forall>k m d. metadata_storage s k = Some (m, a, d) \<longrightarrow> metadata_authorized cfg k m a
      \<and> (\<forall>key sig t v origin. md_key_hash cfg key = k \<and> md_ensure_signed cfg origin = Some a \<and> t \<le> v
          \<and> md_verify cfg sig key (md_encode cfg \<lparr>msg_cross_chain_pub_key = key, msg_metadata = None,
              msg_genesis_utxo = md_genesis_utxo cfg, msg_valid_before = v, msg_owner = a\<rparr>)
          \<longrightarrow> (\<exists>s'. delete_metadata cfg t origin key sig v s = Inr s' \<and> metadata_storage s' = (metadata_storage s)(k := None)
              \<and> held (md_currency s') a + d = held (md_currency s) a)))"
proof -
  have inv: "metadata_inv cfg held s" by (rule metadata_reachable_inv [OF assms])
  have "\<exists>s'. delete_metadata cfg t origin key sig v s = Inr s' \<and> metadata_storage s' = (metadata_storage s)(md_key_hash cfg key := None)
      \<and> held (md_currency s') a + d = held (md_currency s) a"
    if e: "metadata_storage s (md_key_hash cfg key) = Some (m, a, d)" and "md_ensure_signed cfg origin = Some a" and "t \<le> v"
      and "md_verify cfg sig key (md_encode cfg \<lparr>msg_cross_chain_pub_key = key, msg_metadata = None,
              msg_genesis_utxo = md_genesis_utxo cfg, msg_valid_before = v, msg_owner = a\<rparr>)" for m d key sig t v origin
  proof -
    obtain c where c: "md_release cfg a d (md_currency s) = Inr c" "held c = (held (md_currency s))(a := held (md_currency s) a - d)"
      using release_held [OF assms(1)] by blast
    have fin: "finite (owned_by s a)" using inv by (simp add: metadata_inv_def finite_owned)
    have "md_key_hash cfg key \<in> owned_by s a" using e by (auto simp: owned_by_def)
    then have "d \<le> deposits s a" unfolding deposits_def using e member_le_sum [OF _ _ fin, of "md_key_hash cfg key" "\<lambda>k. snd (snd (the (metadata_storage s k)))"] by simp
    then have "d \<le> held (md_currency s) a" using inv by (simp add: metadata_inv_def)
    then show ?thesis using that c by (simp add: delete_metadata_def release_deposit_def Let_def)
  qed
  then show ?thesis using inv unfolding metadata_inv_def by blast
qed

text \<open>A ledger that records the amounts held from a free balance of 100.\<close>

definition demo_metadata :: "(nat, nat, nat, nat \<Rightarrow> nat, unit) metadata_config" where
  "demo_metadata = \<lparr>md_ensure_signed = Some, md_genesis_utxo = \<lparr>utxo_tx_hash = [], utxo_index = 0\<rparr>, md_key_hash = take 1,
     md_verify = (\<lambda>sig key msg. sig = key @ msg), md_encode = (\<lambda>m. [if msg_metadata m = None then 0 else 1]),
     md_hold = (\<lambda>a n cur. if cur a + n \<le> 100 then Inr (cur(a := cur a + n)) else Inl ()),
     md_release = (\<lambda>a n cur. Inr (cur(a := cur a - n)))\<rparr>"

theorem metadata_deposits_backed_witness:
  "let s = \<lparr>metadata_storage = [[3] \<mapsto> (7, 1, 40)], md_currency = (\<lambda>_. 0)(1 := 40)\<rparr>
   in metadata_reachable demo_metadata (\<lambda>_. 0) s \<and> deposits s 1 = 40
     \<and> (\<exists>s'. delete_metadata demo_metadata 5 1 [3] [3, 0] 9 s = Inr s' \<and> metadata_storage s' = Map.empty)"
proof -
  let ?s = "\<lparr>metadata_storage = [[3] \<mapsto> (7, 1, 40)], md_currency = (\<lambda>_. 0)(1 := 40)\<rparr> :: (nat, nat, nat \<Rightarrow> nat) metadata_state"
  have ok: "currency_ok demo_metadata (\<lambda>cur. cur)" by (simp add: currency_ok_def demo_metadata_def)
  have "upsert_metadata demo_metadata 5 40 1 7 [3, 1] [3] 9 \<lparr>metadata_storage = Map.empty, md_currency = (\<lambda>_. 0)\<rparr> = Inr ?s"
    by (simp add: upsert_metadata_def hold_deposit_def demo_metadata_def Let_def)
  then have reach: "metadata_reachable demo_metadata (\<lambda>_. 0) ?s" by (rule metadata_reachable.upsert [OF metadata_reachable.genesis])
  have "md_key_hash demo_metadata [3] = [3]" "md_ensure_signed demo_metadata 1 = Some 1"
    "md_verify demo_metadata [3, 0] [3] (md_encode demo_metadata \<lparr>msg_cross_chain_pub_key = [3], msg_metadata = None,
       msg_genesis_utxo = md_genesis_utxo demo_metadata, msg_valid_before = 9, msg_owner = 1\<rparr>)"
    by (simp_all add: demo_metadata_def)
  moreover have "metadata_storage ?s [3] = Some (7, 1, 40)" "(5 :: u64) \<le> 9" by simp_all
  ultimately have "\<exists>s'. delete_metadata demo_metadata 5 1 [3] [3, 0] 9 ?s = Inr s' \<and> metadata_storage s' = (metadata_storage ?s)([3] := None)"
    using metadata_deposits_backed [OF ok _ reach, of 1] by blast
  then show ?thesis using metadata_deposits_backed [OF ok _ reach, of 1] reach by (simp add: Let_def)
qed

end
