(* ===== verification/Committee_Query.thy ===== *)
theory Committee_Query
  imports Block_Search Committee_Session Ariadne_Inherent
begin

text \<open>
  The committee queries behind the node's RPC, \<open>toolkit/committee-selection/query/src\<close>: \<open>lib.rs\<close>, \<open>get_registrations.rs\<close>
  and the response types of \<open>types/\<close>, with the runtime's side of the API calls, \<open>demo/runtime/src/lib.rs\<close>.

  The client of the node and its runtime API is the record \<open>query_client\<close>; it also holds \<open>to_hex\<close> of \<open>sp_core\<close> and the SS58 address of an ECDSA
  key. A string is its UTF-8 bytes.
\<close>

record ('h, 'api, 'member) query_client =
  q_chain :: "('h, 'api) search_client"
  q_genesis_hash :: 'h
  q_best_hash :: 'h
  q_api_version :: "'h \<Rightarrow> 'api + u32 option"
  q_current_committee :: "'h \<Rightarrow> 'api + u64 \<times> 'member list"
  q_current_committee_before_version_2 :: "'h \<Rightarrow> 'api + u64 \<times> bytes list"
  q_next_committee :: "'h \<Rightarrow> 'api + (u64 \<times> 'member list) option"
  q_next_committee_before_version_2 :: "'h \<Rightarrow> 'api + (u64 \<times> bytes list) option"
  q_main_chain_scripts :: "'h \<Rightarrow> 'api + main_chain_scripts"
  q_validate_registered :: "'h \<Rightarrow> bytes \<Rightarrow> registration_data \<Rightarrow> 'api + registration_data_error option"
  q_validate_stake :: "'h \<Rightarrow> u64 option \<Rightarrow> 'api + stake_error option"
  q_validate_permissioned :: "'h \<Rightarrow> permissioned_candidate_data \<Rightarrow> 'api + permissioned_candidate_data_error option"
  q_authority_bytes :: "'member \<Rightarrow> bytes"
  q_to_hex :: "bytes \<Rightarrow> bytes"
  q_ss58 :: "bytes \<Rightarrow> bytes"

text \<open>The code formats every error into a string; the model keeps where it comes from.\<close>

datatype 'api query_error =
    QueryApi 'api
  | QuerySearch "'api search_error"
  | NodeNotInArchiveMode 'api
  | OnlyGenesisBlock
  | EarlierThanInitialEpoch u64
  | CommitteeUnknown u64
  | NextCommitteeUnknown u64

datatype ('api, 'e) registrations_error =
    RegistrationsApi 'api
  | RegistrationsSource 'e

definition q_call :: "('api \<Rightarrow> 'err) \<Rightarrow> 'api + 'a \<Rightarrow> ('err, 'a) outcome" where
  "q_call wrap r = (case r of Inl e \<Rightarrow> Err (wrap e) | Inr a \<Rightarrow> Ok a)"

lemma q_call_simps [simp]:
  "q_call wrap (Inl e) = Err (wrap e)"
  "q_call wrap (Inr a) = Ok a"
  by (simp_all add: q_call_def)

subsection \<open>Responses\<close>

record get_committee_response =
  sidechain_epoch :: u64
  committee_response :: "bytes list"

definition committee_response_new :: "('h, 'api, 'member) query_client \<Rightarrow> u64 \<Rightarrow> 'member list \<Rightarrow> get_committee_response" where
  "committee_response_new q epoch members =
     \<lparr>sidechain_epoch = epoch, committee_response = map (\<lambda>m. q_to_hex q (q_authority_bytes q m)) members\<rparr>"

definition committee_response_new_legacy :: "('h, 'api, 'member) query_client \<Rightarrow> u64 \<Rightarrow> bytes list \<Rightarrow> get_committee_response" where
  "committee_response_new_legacy q epoch ids = \<lparr>sidechain_epoch = epoch, committee_response = map (q_to_hex q) ids\<rparr>"

datatype registration_error =
    RegistrationStakeError stake_error
  | InvalidRegistrationData registration_data_error

record candidate_registration_entry =
  entry_sidechain_pub_key :: bytes
  entry_sidechain_account_id :: bytes
  entry_mainchain_pub_key :: bytes
  entry_cross_chain_pub_key :: bytes
  entry_keys :: "bytes \<rightharpoonup> bytes"
  entry_sidechain_signature :: bytes
  entry_mainchain_signature :: bytes
  entry_cross_chain_signature :: bytes
  entry_utxo :: utxo_info
  entry_stake_delegation :: "u64 option"
  entry_is_valid :: bool
  entry_invalid_reasons :: "registration_error option"

type_synonym registrations_response_map = "bytes \<rightharpoonup> candidate_registration_entry list"

definition keys_to_map :: "candidate_keys \<Rightarrow> bytes \<rightharpoonup> bytes" where
  "keys_to_map keys = foldl (\<lambda>m key. m((if utf8_valid (key_id key) then key_id key else map of_char ''<invalid>'') \<mapsto> key_bytes key)) Map.empty keys"

definition sidechain_account_ss58 :: "('h, 'api, 'member) query_client \<Rightarrow> bytes \<Rightarrow> bytes + bytes" where
  "sidechain_account_ss58 q pub_key = (if length pub_key = 33 then Inr (q_ss58 q pub_key) else Inl pub_key)"

definition registration_entry_new ::
  "('h, 'api, 'member) query_client \<Rightarrow> registration_data \<Rightarrow> bytes \<Rightarrow> u64 option \<Rightarrow> registration_data_error option \<Rightarrow> candidate_registration_entry" where
  "registration_entry_new q r pub_key stake invalid = \<lparr>
     entry_sidechain_pub_key = q_to_hex q (sidechain_pub_key r),
     entry_sidechain_account_id = (case sidechain_account_ss58 q (sidechain_pub_key r) of
         Inr address \<Rightarrow> address
       | Inl _ \<Rightarrow> map of_char ''Invalid Sidechain Public Key. Could not decode...''),
     entry_mainchain_pub_key = q_to_hex q pub_key,
     entry_cross_chain_pub_key = q_to_hex q (cross_chain_pub_key r),
     entry_keys = keys_to_map (reg_keys r),
     entry_sidechain_signature = q_to_hex q (sidechain_signature r),
     entry_mainchain_signature = q_to_hex q (mainchain_signature r),
     entry_cross_chain_signature = q_to_hex q (cross_chain_signature r),
     entry_utxo = reg_utxo_info r,
     entry_stake_delegation = stake,
     entry_is_valid = (invalid = None),
     entry_invalid_reasons = map_option InvalidRegistrationData invalid\<rparr>"

record permissioned_entry =
  pe_sidechain_public_key :: bytes
  pe_keys :: "bytes \<rightharpoonup> bytes"
  pe_is_valid :: bool
  pe_invalid_reasons :: "permissioned_candidate_data_error option"

definition permissioned_entry_new :: "permissioned_candidate_data \<Rightarrow> permissioned_candidate_data_error option \<Rightarrow> permissioned_entry" where
  "permissioned_entry_new c invalid = \<lparr>pe_sidechain_public_key = perm_sidechain_public_key c, pe_keys = keys_to_map (perm_keys c),
     pe_is_valid = (invalid = None), pe_invalid_reasons = invalid\<rparr>"

record ariadne_parameters_response =
  resp_d_parameter :: d_parameter
  resp_permissioned_candidates :: "permissioned_entry list option"
  resp_candidate_registrations :: registrations_response_map

subsection \<open>Committees\<close>

definition validator_management_api_version :: "('h, 'api, 'member) query_client \<Rightarrow> 'h \<Rightarrow> ('api query_error, u32) outcome" where
  "validator_management_api_version q block =
     and_then (q_call QueryApi (q_api_version q block)) (\<lambda>version. Ok (case version of Some v \<Rightarrow> v | None \<Rightarrow> 1))"

definition get_current_committee_versioned ::
  "('h, 'api, 'member) query_client \<Rightarrow> 'h \<Rightarrow> ('api query_error, get_committee_response) outcome" where
  "get_current_committee_versioned q block =
     and_then (validator_management_api_version q block) (\<lambda>version.
       if version < 2
       then and_then (q_call QueryApi (q_current_committee_before_version_2 q block)) (\<lambda>(epoch, ids). Ok (committee_response_new_legacy q epoch ids))
       else and_then (q_call QueryApi (q_current_committee q block)) (\<lambda>(epoch, members). Ok (committee_response_new q epoch members)))"

definition get_next_committee_versioned ::
  "('h, 'api, 'member) query_client \<Rightarrow> 'h \<Rightarrow> ('api query_error, get_committee_response option) outcome" where
  "get_next_committee_versioned q block =
     and_then (validator_management_api_version q block) (\<lambda>version.
       if version < 2
       then and_then (q_call QueryApi (q_next_committee_before_version_2 q block)) (\<lambda>r. Ok (map_option (\<lambda>(epoch, ids). committee_response_new_legacy q epoch ids) r))
       else and_then (q_call QueryApi (q_next_committee q block)) (\<lambda>r. Ok (map_option (\<lambda>(epoch, members). committee_response_new q epoch members) r)))"

definition sc_epoch_next :: "u64 \<Rightarrow> u64" where
  "sc_epoch_next epoch = epoch + 1"

definition first_epoch_of_chain :: "('h, 'api, 'member) query_client \<Rightarrow> ('api query_error, u64) outcome" where
  "first_epoch_of_chain q = (case hash_of_block (q_chain q) 1 of
       Inl e \<Rightarrow> Err (NodeNotInArchiveMode e)
     | Inr None \<Rightarrow> Err OnlyGenesisBlock
     | Inr (Some second_block) \<Rightarrow> and_then (q_call QueryApi (sidechain_status_at (q_chain q) second_block)) (\<lambda>s. Ok (status_epoch s)))"

text \<open>As in the block search, the outer \<open>None\<close> means that the search does not end.\<close>

definition get_epoch_committee ::
  "('h, 'api, 'member) query_client \<Rightarrow> u64 \<Rightarrow> ('api query_error, get_committee_response) outcome option" where
  "get_epoch_committee q for_epoch =
     (if for_epoch = 0 then Some (and_then (get_current_committee_versioned q (q_genesis_hash q)) (\<lambda>genesis. Ok (genesis\<lparr>sidechain_epoch := 0\<rparr>)))
      else (case first_epoch_of_chain q of
          Err e \<Rightarrow> Some (Err e)
        | Panic p \<Rightarrow> Some (Panic p)
        | Ok first_epoch \<Rightarrow>
            if for_epoch < first_epoch then Some (Err (EarlierThanInitialEpoch for_epoch))
            else (case get_epoch_of_block (q_chain q) (best_number (q_chain q)) of
                Inl e \<Rightarrow> Some (Err (QuerySearch e))
              | Inr latest \<Rightarrow>
                  if for_epoch > sc_epoch_next latest then Some (Err (CommitteeUnknown for_epoch))
                  else if for_epoch = sc_epoch_next latest
                  then Some (and_then (get_next_committee_versioned q (q_best_hash q)) (checked (NextCommitteeUnknown for_epoch)))
                  else map_option (\<lambda>r. and_then (map_err QuerySearch r) (get_current_committee_versioned q))
                    (find_block (q_chain q) (AnyBlockInEpoch for_epoch)))))"

subsection \<open>Registrations\<close>

fun collect_results :: "('a \<Rightarrow> 'api + 'b) \<Rightarrow> 'a list \<Rightarrow> 'api + 'b list" where
  "collect_results f [] = Inr []"
| "collect_results f (x # xs) = (case f x of
       Inl e \<Rightarrow> Inl e
     | Inr y \<Rightarrow> (case collect_results f xs of Inl e \<Rightarrow> Inl e | Inr ys \<Rightarrow> Inr (y # ys)))"

text \<open>\<open>Iterator::rposition\<close>: the index of the last element that satisfies the predicate.\<close>

fun rposition :: "('a \<Rightarrow> bool) \<Rightarrow> 'a list \<Rightarrow> nat option" where
  "rposition P [] = None"
| "rposition P (x # xs) = (case rposition P xs of
       Some i \<Rightarrow> Some (Suc i)
     | None \<Rightarrow> if P x then Some 0 else None)"

definition latest_entries :: "candidate_registration_entry list \<Rightarrow> candidate_registration_entry list" where
  "latest_entries entries =
     (let sorted_entries = sort_key (\<lambda>entry. ordering_key (entry_utxo entry)) entries;
          latest_valid_or_zero = (case rposition entry_is_valid sorted_entries of Some i \<Rightarrow> i | None \<Rightarrow> 0)
      in drop latest_valid_or_zero sorted_entries)"

definition apply_stake_error :: "stake_error option \<Rightarrow> candidate_registration_entry list \<Rightarrow> candidate_registration_entry list" where
  "apply_stake_error err entries = (case (err, entries) of
       (Some e, first # rest) \<Rightarrow>
         (if entry_is_valid first then first\<lparr>entry_is_valid := False, entry_invalid_reasons := Some (RegistrationStakeError e)\<rparr> else first) # rest
     | _ \<Rightarrow> entries)"

fun get_registrations_response_map ::
  "('h, 'api, 'member) query_client \<Rightarrow> (bytes \<Rightarrow> registration_data \<Rightarrow> 'api + registration_data_error option)
     \<Rightarrow> (u64 option \<Rightarrow> 'api + stake_error option) \<Rightarrow> candidate_registrations list \<Rightarrow> registrations_response_map
     \<Rightarrow> 'api + registrations_response_map" where
  "get_registrations_response_map q check_data check_stake [] m = Inr m"
| "get_registrations_response_map q check_data check_stake (candidate # candidates) m =
     (case collect_results (\<lambda>r. map_sum id (registration_entry_new q r (stake_pool_public_key candidate) (stake_delegation candidate))
             (check_data (stake_pool_public_key candidate) r)) (registrations candidate) of
        Inl e \<Rightarrow> Inl e
      | Inr entries \<Rightarrow>
          (case check_stake (stake_delegation candidate) of
             Inl e \<Rightarrow> Inl e
           | Inr err \<Rightarrow> get_registrations_response_map q check_data check_stake candidates
               (m(q_to_hex q (stake_pool_public_key candidate) \<mapsto> apply_stake_error err (latest_entries entries)))))"

definition registrations_to_rpc_response ::
  "('h, 'api, 'member) query_client \<Rightarrow> candidate_registrations list \<Rightarrow> (('api, 'e) registrations_error, registrations_response_map) outcome" where
  "registrations_to_rpc_response q candidates =
     q_call RegistrationsApi (get_registrations_response_map q (q_validate_registered q (q_best_hash q)) (q_validate_stake q (q_best_hash q)) candidates Map.empty)"

definition candidates_registrations_for_epoch ::
  "('h, 'api, 'member) query_client \<Rightarrow> 'e authority_selection_data_source \<Rightarrow> u32 \<Rightarrow> bytes
     \<Rightarrow> (('api, 'e) registrations_error, registrations_response_map) outcome" where
  "candidates_registrations_for_epoch q D mc_epoch address =
     and_then (map_err RegistrationsSource (ads_get_candidates D mc_epoch address)) (registrations_to_rpc_response q)"

definition get_registrations ::
  "('h, 'api, 'member) query_client \<Rightarrow> 'e authority_selection_data_source \<Rightarrow> u32 \<Rightarrow> bytes
     \<Rightarrow> (('api, 'e) registrations_error, candidate_registration_entry list) outcome" where
  "get_registrations q D mc_epoch pub_key =
     and_then (q_call RegistrationsApi (q_main_chain_scripts q (q_best_hash q))) (\<lambda>scripts.
     and_then (candidates_registrations_for_epoch q D mc_epoch (committee_candidate_address scripts)) (\<lambda>m.
       Ok (case m (q_to_hex q pub_key) of Some entries \<Rightarrow> entries | None \<Rightarrow> [])))"

definition query_ariadne_parameters ::
  "('h, 'api, 'member) query_client \<Rightarrow> 'e authority_selection_data_source \<Rightarrow> u32
     \<Rightarrow> (('api, 'e) registrations_error, ariadne_parameters_response) outcome" where
  "query_ariadne_parameters q D for_epoch =
     and_then (q_call RegistrationsApi (q_main_chain_scripts q (q_best_hash q))) (\<lambda>scripts.
     and_then (map_err RegistrationsSource (ads_get_ariadne_parameters D for_epoch (d_parameter_policy_id scripts)
         (permissioned_candidates_policy_id scripts))) (\<lambda>response.
     and_then (candidates_registrations_for_epoch q D for_epoch (committee_candidate_address scripts)) (\<lambda>candidate_registrations.
     and_then (case ap_permissioned_candidates response of
         None \<Rightarrow> Ok None
       | Some cs \<Rightarrow> and_then (q_call RegistrationsApi (collect_results (\<lambda>c. map_sum id (permissioned_entry_new c) (q_validate_permissioned q (q_best_hash q) c)) cs))
           (\<lambda>entries. Ok (Some entries))) (\<lambda>permissioned.
       Ok \<lparr>resp_d_parameter = ap_d_parameter response, resp_permissioned_candidates = permissioned,
         resp_candidate_registrations = candidate_registrations\<rparr>))))"

subsection \<open>The runtime's side\<close>

definition err_of :: "'e + 'a \<Rightarrow> 'e option" where
  "err_of r = (case r of Inl e \<Rightarrow> Some e | Inr _ \<Rightarrow> None)"

definition runtime_validate_registered_candidate_data ::
  "('acc, 'keys) keys_env \<Rightarrow> utxo_id \<Rightarrow> bytes \<Rightarrow> registration_data \<Rightarrow> registration_data_error option" where
  "runtime_validate_registered_candidate_data E genesis_utxo pub_key r = err_of (validate_registration_data E pub_key r genesis_utxo)"

definition runtime_validate_stake :: "u64 option \<Rightarrow> stake_error option" where
  "runtime_validate_stake stake = err_of (validate_stake stake)"

definition runtime_validate_permissioned_candidate_data ::
  "('acc, 'keys) keys_env \<Rightarrow> permissioned_candidate_data \<Rightarrow> permissioned_candidate_data_error option" where
  "runtime_validate_permissioned_candidate_data E c = err_of (validate_permissioned_candidate_data E c)"

definition runtime_get_current_committee :: "'member committee_state \<Rightarrow> u64 \<times> 'member list" where
  "runtime_get_current_committee s = as_pair (current_committee s)"

definition runtime_get_next_committee :: "'member committee_state \<Rightarrow> (u64 \<times> 'member list) option" where
  "runtime_get_next_committee s = map_option as_pair (next_committee_info s)"

subsection \<open>Registrations and selection\<close>

lemma rposition_None: "rposition P xs = None \<longleftrightarrow> (\<forall>x \<in> set xs. \<not> P x)"
  by (induction xs) (auto split: option.splits)

lemma drop_rposition:
  assumes "rposition P xs = Some i"
  shows "\<exists>rest. drop i xs = last (filter P xs) # rest \<and> (\<forall>x \<in> set rest. \<not> P x) \<and> filter P xs \<noteq> []"
  using assms
proof (induction xs arbitrary: i)
  case Nil
  then show ?case by simp
next
  case (Cons x xs)
  show ?case
  proof (cases "rposition P xs")
    case None
    then have "filter P xs = []" "\<forall>y \<in> set xs. \<not> P y" by (simp_all add: rposition_None)
    then show ?thesis using Cons.prems None by (auto split: if_splits)
  next
    case (Some j)
    then show ?thesis using Cons.IH [OF Some] Cons.prems by auto
  qed
qed

lemma filter_sort_key: "filter P (sort_key f xs) = sort_key f (filter P xs)"
  by (rule filter_sort)

text \<open>The stable sort leaves last what \<open>max_by_key\<close> picks: the last of the elements with the largest key.\<close>

lemma max_by_key_last:
  fixes f :: "'a \<Rightarrow> 'k::linorder"
  assumes "max_by_key f xs = Some m"
  shows "m = last (filter (\<lambda>x. f x = f m) xs)"
proof -
  have fold: "foldl (\<lambda>m y. if f m \<le> f y then y else m) x ys
      = last (filter (\<lambda>z. f z = f (foldl (\<lambda>m y. if f m \<le> f y then y else m) x ys)) (x # ys))" for x ys
  proof (induction ys rule: rev_induct)
    case Nil
    then show ?case by simp
  next
    case (snoc y ys)
    then show ?case by (auto split: if_splits)
  qed
  obtain x ys where "xs = x # ys" using assms by (cases xs) auto
  then show ?thesis using assms fold [of x ys] by simp
qed

lemma last_sort_key:
  fixes f :: "'a \<Rightarrow> 'k::linorder"
  assumes "xs \<noteq> []"
  shows "max_by_key f xs = Some (last (sort_key f xs))"
proof -
  obtain m where m: "max_by_key f xs = Some m" using assms by (cases xs) auto
  let ?l = "last (sort_key f xs)"
  have ne: "sort_key f xs \<noteq> []" using assms by (metis length_0_conv length_sort)
  have "m \<in> set xs" "\<forall>x \<in> set xs. f x \<le> f m" using max_by_key_Some [OF m] by auto
  moreover have "\<forall>x \<in> set xs. f x \<le> f ?l"
  proof
    fix x assume "x \<in> set xs"
    then obtain i where "i < length (sort_key f xs)" "x = sort_key f xs ! i" by (metis in_set_conv_nth set_sort)
    then show "f x \<le> f ?l" using sorted_nth_mono [OF sorted_sort_key [of f xs], of i "length xs - 1"] ne by (simp add: last_conv_nth)
  qed
  moreover have "?l \<in> set xs" using last_in_set [OF ne] by simp
  ultimately have key: "f ?l = f m" by (meson order_antisym)
  have "?l = last (filter (\<lambda>x. f x = f m) (sort_key f xs))"
    using ne key by (cases "sort_key f xs" rule: rev_cases) auto
  also have "\<dots> = m" using max_by_key_last [OF m] by (simp add: sort_key_stable)
  finally show ?thesis using m by simp
qed

lemma rposition_map: "rposition P (map g xs) = rposition (P \<circ> g) xs"
  by (induction xs) (simp_all split: option.split)

lemma max_by_key_map: "max_by_key f (map g xs) = map_option g (max_by_key (f \<circ> g) xs)"
proof -
  have "foldl (\<lambda>m y. if f m \<le> f y then y else m) (g x) (map g ys) = g (foldl (\<lambda>m y. if f (g m) \<le> f (g y) then y else m) x ys)" for x ys
    by (induction ys arbitrary: x) simp_all
  then show ?thesis by (cases xs) simp_all
qed

lemma collect_results_Inr: "collect_results (\<lambda>x. Inr (g x)) xs = Inr (map g xs)"
  by (induction xs) simp_all

definition registration_ok :: "('acc, 'keys) keys_env \<Rightarrow> bytes \<Rightarrow> utxo_id \<Rightarrow> registration_data \<Rightarrow> bool" where
  "registration_ok E pub_key genesis r \<longleftrightarrow> runtime_validate_registered_candidate_data E genesis pub_key r = None"

definition registration_order :: "registration_data \<Rightarrow> utxo_info_ordering_key" where
  "registration_order r = ordering_key (reg_utxo_info r)"

lemma valid_registrations_eq:
  "valid_registrations E pub_key genesis rs
     = map (\<lambda>r. (projr (validate_registration_data E pub_key r genesis), reg_utxo_info r)) (filter (registration_ok E pub_key genesis) rs)"
proof (induction rs)
  case Nil
  then show ?case by (simp add: valid_registrations_def List.map_filter_simps)
next
  case (Cons r rs)
  then show ?case
    by (cases "validate_registration_data E pub_key r genesis")
      (simp_all add: valid_registrations_def List.map_filter_simps registration_ok_def runtime_validate_registered_candidate_data_def err_of_def)
qed

lemma registration_ok_projr:
  assumes "registration_ok E pub_key genesis r"
  shows "fst (projr (validate_registration_data E pub_key r genesis)) = sidechain_pub_key r
    \<and> maybe_from E (reg_keys r) = Some (snd (projr (validate_registration_data E pub_key r genesis)))"
proof (cases "validate_registration_data E pub_key r genesis")
  case (Inl e)
  then show ?thesis using assms by (simp add: registration_ok_def runtime_validate_registered_candidate_data_def err_of_def)
next
  case (Inr kv)
  then obtain k keys where "validate_registration_data E pub_key r genesis = Inr (k, keys)" by (cases kv) auto
  then show ?thesis using validate_registration_data_Inr [of E pub_key r genesis k keys] by (simp add: registration_valid_def Let_def)
qed

text \<open>The registration that stands for a candidate, in the words of the query: the last valid one in a stable sort.\<close>

lemma select_latest_valid_candidate_eq:
  "select_latest_valid_candidate E cr genesis =
     (let oks = filter (registration_ok E (stake_pool_public_key cr) genesis) (registrations cr) in
      if runtime_validate_stake (stake_delegation cr) \<noteq> None \<or> oks = [] then None
      else let r = last (sort_key registration_order oks) in
        Some \<lparr>cws_stake_pool_pub_key = stake_pool_public_key cr, cws_stake_delegation = the (stake_delegation cr),
          cws_account_id = account_of E (sidechain_pub_key r), cws_account_keys = the (maybe_from E (reg_keys r))\<rparr>)"
proof -
  let ?pk = "stake_pool_public_key cr"
  let ?oks = "filter (registration_ok E ?pk genesis) (registrations cr)"
  let ?v = "\<lambda>r. projr (validate_registration_data E ?pk r genesis)"
  have order: "(\<lambda>(_, i). ordering_key i) \<circ> (\<lambda>r. (?v r, reg_utxo_info r)) = registration_order"
    by (simp add: fun_eq_iff registration_order_def)
  have sel: "max_by_key (\<lambda>(_, i). ordering_key i) (valid_registrations E ?pk genesis (registrations cr))
      = map_option (\<lambda>r. (?v r, reg_utxo_info r)) (max_by_key registration_order ?oks)"
    unfolding valid_registrations_eq max_by_key_map order ..
  show ?thesis
  proof (cases "validate_stake (stake_delegation cr)")
    case (Inl e)
    then show ?thesis by (simp add: select_latest_valid_candidate_def runtime_validate_stake_def err_of_def Let_def)
  next
    case (Inr stake)
    then have st: "stake_delegation cr = Some stake" "runtime_validate_stake (stake_delegation cr) = None"
      by (simp_all add: runtime_validate_stake_def err_of_def) (simp add: validate_stake_Inr)
    show ?thesis
    proof (cases "?oks = []")
      case True
      then show ?thesis using Inr by (simp add: select_latest_valid_candidate_def sel Let_def)
    next
      case False
      let ?r = "last (sort_key registration_order ?oks)"
      have "sort_key registration_order ?oks \<noteq> []" using False by (metis length_0_conv length_sort)
      then have "?r \<in> set ?oks" using last_in_set [of "sort_key registration_order ?oks"] by simp
      then have "fst (?v ?r) = sidechain_pub_key ?r" "maybe_from E (reg_keys ?r) = Some (snd (?v ?r))"
        using registration_ok_projr [of E ?pk genesis ?r] by auto
      then show ?thesis using Inr st False last_sort_key [OF False, of registration_order]
        by (simp add: select_latest_valid_candidate_def sel Let_def split_beta)
    qed
  qed
qed

definition shown_entry :: "('h, 'api, 'member) query_client \<Rightarrow> ('acc, 'keys) keys_env \<Rightarrow> utxo_id \<Rightarrow> candidate_registrations \<Rightarrow> registration_data
     \<Rightarrow> candidate_registration_entry" where
  "shown_entry q E genesis cr r = registration_entry_new q r (stake_pool_public_key cr) (stake_delegation cr)
     (runtime_validate_registered_candidate_data E genesis (stake_pool_public_key cr) r)"

lemma shown_entry_simps [simp]:
  "entry_is_valid (shown_entry q E genesis cr r) \<longleftrightarrow> registration_ok E (stake_pool_public_key cr) genesis r"
  "entry_utxo (shown_entry q E genesis cr r) = reg_utxo_info r"
  by (simp_all add: shown_entry_def registration_entry_new_def registration_ok_def)

lemma response_map_entry:
  assumes "\<And>pk r. check_data pk r = Inr (runtime_validate_registered_candidate_data E genesis pk r)"
    and "\<And>st. check_stake st = Inr (runtime_validate_stake st)"
    and "inj (q_to_hex q)" and "distinct (map stake_pool_public_key crs)"
  shows "\<exists>m'. get_registrations_response_map q check_data check_stake crs m = Inr m'
    \<and> (\<forall>cr \<in> set crs. m' (q_to_hex q (stake_pool_public_key cr))
        = Some (apply_stake_error (runtime_validate_stake (stake_delegation cr)) (latest_entries (map (shown_entry q E genesis cr) (registrations cr)))))
    \<and> (\<forall>pk. pk \<notin> stake_pool_public_key ` set crs \<longrightarrow> m' (q_to_hex q pk) = m (q_to_hex q pk))"
  using assms(4)
proof (induction crs arbitrary: m)
  case Nil
  then show ?case by simp
next
  case (Cons cr crs)
  let ?es = "map (shown_entry q E genesis cr) (registrations cr)"
  let ?m = "m(q_to_hex q (stake_pool_public_key cr) \<mapsto> apply_stake_error (runtime_validate_stake (stake_delegation cr)) (latest_entries ?es))"
  have "collect_results (\<lambda>r. map_sum id (registration_entry_new q r (stake_pool_public_key cr) (stake_delegation cr))
      (check_data (stake_pool_public_key cr) r)) (registrations cr) = Inr ?es"
    by (simp add: assms(1) collect_results_Inr shown_entry_def)
  then have run: "get_registrations_response_map q check_data check_stake (cr # crs) m = get_registrations_response_map q check_data check_stake crs ?m"
    by (simp add: assms(2))
  have tail: "distinct (map stake_pool_public_key crs)" using Cons.prems by simp
  obtain m' where m': "get_registrations_response_map q check_data check_stake crs ?m = Inr m'"
    "\<forall>cr \<in> set crs. m' (q_to_hex q (stake_pool_public_key cr))
        = Some (apply_stake_error (runtime_validate_stake (stake_delegation cr)) (latest_entries (map (shown_entry q E genesis cr) (registrations cr))))"
    "\<forall>pk. pk \<notin> stake_pool_public_key ` set crs \<longrightarrow> m' (q_to_hex q pk) = ?m (q_to_hex q pk)"
    using Cons.IH [OF tail, of ?m] by blast
  then show ?case unfolding run using Cons.prems assms(3) by (auto simp: inj_eq)
qed

lemma latest_entries_shown:
  assumes "ok = registration_ok E (stake_pool_public_key cr) genesis"
  shows "\<exists>older shown. sort_key registration_order rs = older @ shown \<and> latest_entries (map (shown_entry q E genesis cr) rs) = map (shown_entry q E genesis cr) shown
    \<and> (if filter ok rs = [] then older = [] \<and> (\<forall>r \<in> set shown. \<not> ok r)
       else \<exists>newer. shown = last (sort_key registration_order (filter ok rs)) # newer \<and> ok (hd shown) \<and> (\<forall>r \<in> set newer. \<not> ok r))"
proof -
  let ?S = "sort_key registration_order rs"
  have "(\<lambda>entry. ordering_key (entry_utxo entry)) \<circ> shown_entry q E genesis cr = registration_order"
    by (simp add: fun_eq_iff registration_order_def)
  moreover have "entry_is_valid \<circ> shown_entry q E genesis cr = ok" by (simp add: fun_eq_iff assms)
  ultimately have latest: "latest_entries (map (shown_entry q E genesis cr) rs)
      = map (shown_entry q E genesis cr) (drop (case rposition ok ?S of Some i \<Rightarrow> i | None \<Rightarrow> 0) ?S)"
    by (simp add: latest_entries_def sort_key_map rposition_map drop_map Let_def)
  show ?thesis
  proof (cases "rposition ok ?S")
    case None
    then have "\<forall>r \<in> set rs. \<not> ok r" by (simp add: rposition_None)
    then show ?thesis using None by (intro exI [of _ "[]"] exI [of _ ?S]) (simp add: latest)
  next
    case (Some i)
    obtain rest where rest: "drop i ?S = last (filter ok ?S) # rest" "\<forall>x \<in> set rest. \<not> ok x" "filter ok ?S \<noteq> []"
      using drop_rposition [OF Some] by blast
    have "ok (last (filter ok ?S))" using last_in_set [OF rest(3)] by simp
    moreover have "filter ok rs \<noteq> []" using rest(3) by (auto simp: filter_empty_conv)
    ultimately show ?thesis using Some rest append_take_drop_id [of i ?S]
      by (rule_tac exI [of _ "take i ?S"], rule_tac exI [of _ "drop i ?S"]) (simp add: latest filter_sort_key [symmetric])
  qed
qed

lemma shown_agrees:
  fixes cr :: candidate_registrations and E :: "('acc, 'keys) keys_env"
  assumes shown: "if filter (registration_ok E (stake_pool_public_key cr) genesis) (registrations cr) = []
       then older = [] \<and> (\<forall>r \<in> set shown. \<not> registration_ok E (stake_pool_public_key cr) genesis r)
       else \<exists>newer. shown = last (sort_key registration_order (filter (registration_ok E (stake_pool_public_key cr) genesis) (registrations cr))) # newer
         \<and> registration_ok E (stake_pool_public_key cr) genesis (hd shown) \<and> (\<forall>r \<in> set newer. \<not> registration_ok E (stake_pool_public_key cr) genesis r)"
  shows "(older = [] \<or> registration_ok E (stake_pool_public_key cr) genesis (hd shown)) \<and> (case select_latest_valid_candidate E cr genesis of
         None \<Rightarrow> list_all (\<lambda>e. \<not> entry_is_valid e) (apply_stake_error (runtime_validate_stake (stake_delegation cr)) (map (shown_entry q E genesis cr) shown))
       | Some c \<Rightarrow> \<exists>r newer. shown = r # newer \<and> (apply_stake_error (runtime_validate_stake (stake_delegation cr)) (map (shown_entry q E genesis cr) shown)) = map (shown_entry q E genesis cr) shown \<and> entry_is_valid (hd (apply_stake_error (runtime_validate_stake (stake_delegation cr)) (map (shown_entry q E genesis cr) shown))) \<and> list_all (\<lambda>e. \<not> entry_is_valid e) (tl (apply_stake_error (runtime_validate_stake (stake_delegation cr)) (map (shown_entry q E genesis cr) shown)))
           \<and> cws_account_id c = account_of E (sidechain_pub_key r) \<and> maybe_from E (reg_keys r) = Some (cws_account_keys c))"
proof -
  let ?pk = "stake_pool_public_key cr" and ?err = "runtime_validate_stake (stake_delegation cr)"
  let ?ok = "registration_ok E ?pk genesis" and ?show = "shown_entry q E genesis cr"
  let ?oks = "filter ?ok (registrations cr)" and ?es = "apply_stake_error ?err (map (shown_entry q E genesis cr) shown)"
  show ?thesis
  proof (cases "?oks = []")
    case True
    then have "older = []" "\<forall>r \<in> set shown. \<not> ?ok r" using shown by simp_all
    moreover have "list_all (\<lambda>e. \<not> entry_is_valid e) ?es"
      using calculation(2) by (cases ?err; cases shown) (simp_all add: apply_stake_error_def list_all_iff)
    moreover have "select_latest_valid_candidate E cr genesis = None" using True by (simp add: select_latest_valid_candidate_eq)
    ultimately show ?thesis by simp
  next
    case False
    then obtain newer where newer: "shown = last (sort_key registration_order ?oks) # newer" "?ok (hd shown)" "\<forall>r \<in> set newer. \<not> ?ok r"
      using shown unfolding if_not_P [OF False] by blast
    obtain keys where keys: "maybe_from E (reg_keys (hd shown)) = Some keys" using registration_ok_projr [OF newer(2)] by blast
    show ?thesis
    proof (cases ?err)
      case None
      then show ?thesis using newer keys False by (simp add: select_latest_valid_candidate_eq apply_stake_error_def list_all_iff)
    next
      case (Some e)
      then show ?thesis using newer by (simp add: select_latest_valid_candidate_eq apply_stake_error_def list_all_iff)
    qed
  qed
qed

text \<open>The runtime behind the client validates as the runtime of this chain does.\<close>

definition validates_as_runtime :: "('h, 'api, 'member) query_client \<Rightarrow> ('acc, 'keys) keys_env \<Rightarrow> utxo_id \<Rightarrow> bool" where
  "validates_as_runtime q E genesis \<longleftrightarrow>
     (\<forall>pk r. q_validate_registered q (q_best_hash q) pk r = Inr (runtime_validate_registered_candidate_data E genesis pk r))
     \<and> (\<forall>stake. q_validate_stake q (q_best_hash q) stake = Inr (runtime_validate_stake stake))"

text \<open>
  C18: The registrations the query shows agree with committee selection. For a stake pool the query shows its registrations in the order of their UTXOs, leaving out
  only those older than one that is valid by itself. When selection takes the pool as a candidate, the first entry is the registration whose keys selection uses, it is
  shown valid, and all newer ones are invalid; when selection does not, no entry is shown valid.
\<close>

theorem registrations_match_selection:
  assumes "validates_as_runtime q E genesis" and "inj (q_to_hex q)" and "q_main_chain_scripts q (q_best_hash q) = Inr scripts"
    and "ads_get_candidates D mc_epoch (committee_candidate_address scripts) = Ok crs"
    and "distinct (map stake_pool_public_key crs)" and "cr \<in> set crs"
  shows "\<exists>es older shown. get_registrations q D mc_epoch (stake_pool_public_key cr) = Ok es
    \<and> sort_key registration_order (registrations cr) = older @ shown \<and> map entry_utxo es = map reg_utxo_info shown
    \<and> (older = [] \<or> registration_ok E (stake_pool_public_key cr) genesis (hd shown))
    \<and> (case select_latest_valid_candidate E cr genesis of
         None \<Rightarrow> list_all (\<lambda>e. \<not> entry_is_valid e) es
       | Some c \<Rightarrow> \<exists>r newer. shown = r # newer \<and> es = map (shown_entry q E genesis cr) shown \<and> entry_is_valid (hd es) \<and> list_all (\<lambda>e. \<not> entry_is_valid e) (tl es)
           \<and> cws_account_id c = account_of E (sidechain_pub_key r) \<and> maybe_from E (reg_keys r) = Some (cws_account_keys c))"
proof -
  let ?pk = "stake_pool_public_key cr" and ?err = "runtime_validate_stake (stake_delegation cr)"
  let ?ok = "registration_ok E ?pk genesis" and ?show = "shown_entry q E genesis cr"
  let ?oks = "filter ?ok (registrations cr)"
  obtain m' where "get_registrations_response_map q (q_validate_registered q (q_best_hash q)) (q_validate_stake q (q_best_hash q)) crs Map.empty = Inr m'"
      "m' (q_to_hex q ?pk) = Some (apply_stake_error ?err (latest_entries (map ?show (registrations cr))))"
    using response_map_entry [OF _ _ assms(2,5), of "q_validate_registered q (q_best_hash q)" E genesis "q_validate_stake q (q_best_hash q)"]
      assms(1,6) unfolding validates_as_runtime_def by blast
  then have get: "get_registrations q D mc_epoch ?pk = Ok (apply_stake_error ?err (latest_entries (map ?show (registrations cr))))"
    by (simp add: get_registrations_def candidates_registrations_for_epoch_def registrations_to_rpc_response_def assms(3,4))
  obtain older shown where shown: "sort_key registration_order (registrations cr) = older @ shown"
      "latest_entries (map ?show (registrations cr)) = map ?show shown"
      "if ?oks = [] then older = [] \<and> (\<forall>r \<in> set shown. \<not> ?ok r)
       else \<exists>newer. shown = last (sort_key registration_order ?oks) # newer \<and> ?ok (hd shown) \<and> (\<forall>r \<in> set newer. \<not> ?ok r)"
    using latest_entries_shown [OF refl, of "registrations cr" q E genesis cr] by blast
  have utxos: "map entry_utxo (apply_stake_error ?err (map ?show shown)) = map reg_utxo_info shown"
    by (auto simp: apply_stake_error_def comp_def split: option.split list.split)
  let ?es = "apply_stake_error ?err (map ?show shown)"
  note final = shown_agrees [OF shown(3), of q]
  show ?thesis
    by (rule exI [of _ ?es], rule exI [of _ older], rule exI [of _ shown], rule conjI [OF get [unfolded shown(2)]], rule conjI [OF shown(1)],
      rule conjI [OF utxos final])
qed

subsection \<open>Committees of a chain\<close>

text \<open>The calls in a block after its inherents, as far as they touch the committee and session pallets.\<close>

inductive extrinsics ::
  "('v, 'k, 'acc::linorder, 'origin, 'input, 'member, 'hash, 'sys) runtime \<Rightarrow> ('v, 'k, 'member, 'sys) chain_state \<Rightarrow> ('v, 'k, 'member, 'sys) chain_state \<Rightarrow> bool"
  for R where
  no_calls: "extrinsics R st st"
| set_scripts: "extrinsics R st st' \<Longrightarrow> committee_set_main_chain_scripts (rt_committee R) (chain_committee st') origin a d p = Inr c
    \<Longrightarrow> extrinsics R st (st'\<lparr>chain_committee := c\<rparr>)"
| disable: "extrinsics R st st' \<Longrightarrow> disable_index i (chain_session st') = (b, s) \<Longrightarrow> extrinsics R st (st'\<lparr>chain_session := s\<rparr>)"

text \<open>The states \<open>st 0\<close> to \<open>st N\<close> after the blocks of a chain, block \<open>n\<close> in epoch \<open>es n\<close>; consecutive blocks are at most one epoch apart.\<close>

definition chain_history ::
  "('v, 'k, 'acc::linorder, 'origin, 'input, 'member, 'hash, 'sys) runtime \<Rightarrow> (nat \<Rightarrow> ('v, 'k, 'member, 'sys) chain_state) \<Rightarrow> (nat \<Rightarrow> u64) \<Rightarrow> nat \<Rightarrow> bool" where
  "chain_history R st es N \<longleftrightarrow> (\<exists>members scripts sys. chain_genesis R members scripts sys = Inr (st 0))
     \<and> (\<forall>n < N. \<exists>data st'. author_block R (es (Suc n)) data (st n) = Inr st' \<and> extrinsics R st' (st (Suc n)))
     \<and> (\<forall>n. 1 \<le> n \<and> n < N \<longrightarrow> es n \<le> es (Suc n) \<and> unat (es (Suc n)) \<le> unat (es n) + 1)"

lemma history_block:
  assumes "chain_history R st es N" and "n < N"
  obtains data st' where "author_block R (es (Suc n)) data (st n) = Inr st'" "extrinsics R st' (st (Suc n))"
  using assms unfolding chain_history_def by blast

lemma genesis_block_zero: "chain_genesis R members scripts sys = Inr st \<Longrightarrow> chain_block st = 0"
  by (auto simp: chain_genesis_def Let_def split: sum.splits)

lemma extrinsics_keep:
  assumes "extrinsics R st st'"
  shows "chain_block st' = chain_block st \<and> current_committee (chain_committee st') = current_committee (chain_committee st)"
  using assms
proof (induction rule: extrinsics.induct)
  case (set_scripts st st' origin a d p c)
  then show ?case by (auto simp: committee_set_main_chain_scripts_def split: if_splits)
qed simp_all

lemma extrinsics_reachable:
  assumes "extrinsics R st st'" and "chain_reachable R st"
  shows "chain_reachable R st'"
  using assms by (induction rule: extrinsics.induct) (auto intro: chain_reachable.scripts chain_reachable.disabling)

lemma history_reachable:
  assumes "chain_history R st es N" and "n \<le> N"
  shows "chain_reachable R (st n)"
  using assms(2)
proof (induction n)
  case 0
  then show ?case using assms(1) by (auto simp: chain_history_def intro: chain_reachable.genesis)
next
  case (Suc n)
  obtain data st' where "author_block R (es (Suc n)) data (st n) = Inr st'" "extrinsics R st' (st (Suc n))"
    using history_block [OF assms(1), of n] Suc.prems by auto
  then show ?case using Suc by (auto intro: extrinsics_reachable chain_reachable.block)
qed

lemma author_block_current:
  assumes "author_block R epoch data st = Inr st'"
  shows "chain_block st' = chain_block st + 1 \<and> current_committee (chain_committee st') =
    (let c = committee_on_initialize (chain_block st + 1) epoch (chain_committee st) in
     case next_committee_info c of
       Some info \<Rightarrow> if epoch > ci_epoch (current_committee c) then info else current_committee c
     | None \<Rightarrow> current_committee c)"
proof -
  let ?c = "committee_on_initialize (chain_block st + 1) epoch (chain_committee st)"
  obtain st1 where st1: "initialize_block R epoch st = Inr st1" using assms by (auto simp: author_block_def split: sum.splits)
  have "chain_block st1 = chain_block st + 1 \<and> current_committee (chain_committee st1) =
      (case next_committee_info ?c of
         Some info \<Rightarrow> if epoch > ci_epoch (current_committee ?c) then info else current_committee ?c
       | None \<Rightarrow> current_committee ?c)"
  proof (cases "rotates epoch ?c")
    case True
    then obtain info where info: "epoch > ci_epoch (current_committee ?c)" "next_committee_info ?c = Some info" unfolding rotates_def by blast
    show ?thesis using initialize_block_rotating [OF refl info, of R] info st1 by auto
  next
    case False
    then show ?thesis using initialize_block_keeping [OF refl False, of R] st1 by (auto simp: rotates_def split: option.split)
  qed
  moreover have "chain_block st' = chain_block st1 \<and> current_committee (chain_committee st') = current_committee (chain_committee st1)"
  proof (cases "committee_create_inherent (rt_committee R) (chain_committee st1) data")
    case (Inl p)
    then show ?thesis using assms st1 by (simp add: author_block_def)
  next
    case (Inr r)
    then show ?thesis using assms st1
      by (auto simp: author_block_def committee_set_def Let_def elim!: create_inherent_SetCommittee split: option.splits sum.splits if_splits)
  qed
  ultimately show ?thesis by (simp only: Let_def simp_thms)
qed

text \<open>In such a chain the committee of the state after a block is that of the block's epoch.\<close>

lemma history_epochs:
  assumes hist: "chain_history R st es N" and bounded: "selection_bounded (rt_committee R)" and "1 \<le> n" "n \<le> N"
  shows "chain_block (st n) = n \<and> ci_epoch (current_committee (chain_committee (st n))) = es n
    \<and> (1 < n \<and> es (n - 1) = es n \<longrightarrow> current_committee (chain_committee (st n)) = current_committee (chain_committee (st (n - 1))))"
  using assms(3,4)
proof (induction n rule: nat_induct_at_least)
  case base
  obtain data st' where blk: "author_block R (es 1) data (st 0) = Inr st'" "extrinsics R st' (st 1)"
    using history_block [OF hist, of 0] base by auto
  have "chain_inv R (st 0)" using hist by (auto simp: chain_history_def intro: chain_genesis_inv)
  moreover have "chain_block (st 0) = 0" using hist by (auto simp: chain_history_def intro: genesis_block_zero)
  ultimately show ?case using author_block_current [OF blk(1)] extrinsics_keep [OF blk(2)]
    by (simp add: chain_inv_def Let_def)
next
  case (Suc n)
  obtain data st' where blk: "author_block R (es (Suc n)) data (st n) = Inr st'" "extrinsics R st' (st (Suc n))"
    using history_block [OF hist, of n] Suc.prems by auto
  have n: "chain_block (st n) = n" "ci_epoch (current_committee (chain_committee (st n))) = es n" using Suc by simp_all
  have inv: "chain_inv R (st n)" using chain_reachable_inv [OF history_reachable [OF hist] bounded] Suc.prems by simp
  then obtain info where info: "next_committee_info (chain_committee (st n)) = Some info" "ci_epoch info = es n + 1"
    using n Suc.hyps by (auto simp: chain_inv_def committee_inv_def split: option.splits)
  have step: "es n \<le> es (Suc n)" "unat (es (Suc n)) \<le> unat (es n) + 1" using hist Suc by (simp_all add: chain_history_def)
  have "es (Suc n) = es n + 1" if "es n < es (Suc n)"
  proof -
    have "unat (es n) + 1 \<le> unat (es (Suc n))" using that by (simp add: word_less_nat_alt)
    then have "unat (es (Suc n)) = unat (es n) + 1" using step(2) by simp
    moreover have "unat (es n + 1) = unat (es n) + 1" using calculation unat_bound [of "es (Suc n)"] by (subst unat_add_nowrap) simp_all
    ultimately show ?thesis by (simp add: word_unat_eq_iff)
  qed
  moreover have "committee_on_initialize (chain_block (st n) + 1) (es (Suc n)) (chain_committee (st n)) = chain_committee (st n)"
    using n Suc.hyps by (simp add: committee_on_initialize_def)
  ultimately show ?case using author_block_current [OF blk(1)] extrinsics_keep [OF blk(2)] n info step(1)
    by (auto simp: Let_def)
qed

lemma history_same_committee:
  assumes hist: "chain_history R st es N" and bounded: "selection_bounded (rt_committee R)" and "1 \<le> m" "m \<le> n" "n \<le> N" "es m = es n"
  shows "current_committee (chain_committee (st n)) = current_committee (chain_committee (st m))"
  using assms(4-6)
proof (induction n rule: dec_induct)
  case base
  then show ?case by simp
next
  case (step n)
  have mono: "es i \<le> es j" if "m \<le> i" "i \<le> j" "j \<le> N" for i j
    using that(2,3) by (induction rule: dec_induct) (use hist assms(3) that(1) in \<open>auto simp: chain_history_def intro: order_trans\<close>)
  have "es n = es (Suc n)" using mono [of m n] mono [of n "Suc n"] step.prems step.hyps by auto
  then show ?case using history_epochs [OF hist bounded, of "Suc n"] step assms(3) by auto
qed

text \<open>A client of a node that has this chain: the API answers at a block from the state after it.\<close>

definition serves_chain ::
  "('h, 'api, 'member) query_client \<Rightarrow> (u32 \<Rightarrow> sidechain_status) \<Rightarrow> (nat \<Rightarrow> ('v, 'k, 'member, 'sys) chain_state) \<Rightarrow> (nat \<Rightarrow> u64) \<Rightarrow> nat \<Rightarrow> bool" where
  "serves_chain q status st es N \<longleftrightarrow> search_chain_ok (q_chain q) status \<and> unat (best_number (q_chain q)) = N
     \<and> hash_of_block (q_chain q) (best_number (q_chain q)) = Inr (Some (q_best_hash q))
     \<and> (\<forall>n h. n \<le> best_number (q_chain q) \<and> hash_of_block (q_chain q) n = Inr (Some h) \<longrightarrow> status_epoch (status n) = es (unat n)
         \<and> (\<exists>v \<ge> 2. q_api_version q h = Inr (Some v))
         \<and> q_current_committee q h = Inr (runtime_get_current_committee (chain_committee (st (unat n))))
         \<and> q_next_committee q h = Inr (runtime_get_next_committee (chain_committee (st (unat n)))))"

lemma serves_current:
  assumes "serves_chain q status st es N" and "n \<le> best_number (q_chain q)" and "hash_of_block (q_chain q) n = Inr (Some h)"
  shows "get_current_committee_versioned q h
    = Ok (committee_response_new q (ci_epoch (current_committee (chain_committee (st (unat n))))) (committee (current_committee (chain_committee (st (unat n))))))"
proof -
  obtain v where "v \<ge> 2" "q_api_version q h = Inr (Some v)"
    "q_current_committee q h = Inr (runtime_get_current_committee (chain_committee (st (unat n))))"
    using assms unfolding serves_chain_def by blast
  then show ?thesis by (auto simp: get_current_committee_versioned_def validator_management_api_version_def runtime_get_current_committee_def as_pair_def)
qed

lemma serves_next:
  assumes "serves_chain q status st es N"
  shows "get_next_committee_versioned q (q_best_hash q)
    = Ok (map_option (\<lambda>info. committee_response_new q (ci_epoch info) (committee info)) (next_committee_info (chain_committee (st N))))"
proof -
  have best: "hash_of_block (q_chain q) (best_number (q_chain q)) = Inr (Some (q_best_hash q))" "unat (best_number (q_chain q)) = N"
    using assms by (simp_all add: serves_chain_def)
  then obtain v where "v \<ge> 2" "q_api_version q (q_best_hash q) = Inr (Some v)"
    "q_next_committee q (q_best_hash q) = Inr (runtime_get_next_committee (chain_committee (st N)))"
    using assms unfolding serves_chain_def by blast
  then show ?thesis
    by (auto simp: get_next_committee_versioned_def validator_management_api_version_def runtime_get_next_committee_def as_pair_def
        option.map_comp comp_def)
qed

lemma serves_epoch:
  assumes "serves_chain q status st es N" and "n \<le> N"
  shows "\<exists>h. hash_of_block (q_chain q) (word_of_nat n) = Inr (Some h) \<and> sidechain_status_at (q_chain q) h = Inr (status (word_of_nat n))
    \<and> unat (word_of_nat n :: u32) = n \<and> word_of_nat n \<le> best_number (q_chain q) \<and> status_epoch (status (word_of_nat n)) = es n"
proof -
  have N: "unat (best_number (q_chain q)) = N" "N < 2 ^ 32" using assms(1) unat_bound [of "best_number (q_chain q)"] by (auto simp: serves_chain_def)
  then have n: "unat (word_of_nat n :: u32) = n" using assms(2) by (simp add: unat_word_of_nat_small)
  then have "word_of_nat n \<le> best_number (q_chain q)" using N assms(2) by (simp add: word_le_nat_alt)
  then show ?thesis using assms(1) n unfolding serves_chain_def search_chain_ok_def by metis
qed

lemma history_epochs_mono:
  assumes "chain_history R st es N" and "1 \<le> m" "m \<le> n" "n \<le> N"
  shows "es m \<le> es n"
  using assms(3,4) by (induction rule: dec_induct) (use assms(1,2) in \<open>auto simp: chain_history_def intro: order_trans\<close>)

lemma committee_of_past_epoch:
  assumes hist: "chain_history R st es N" and serves: "serves_chain q status st es N" and bounded: "selection_bounded (rt_committee R)"
    and n: "1 \<le> n" "n \<le> N"
  shows "map_option (\<lambda>r. and_then (map_err QuerySearch r) (get_current_committee_versioned q)) (find_block (q_chain q) (AnyBlockInEpoch (es n)))
      = Some (Ok (committee_response_new q (es n) (committee (current_committee (chain_committee (st n))))))"
proof -
  let ?c = "q_chain q" and ?t = "AnyBlockInEpoch (es n)"
  have ok: "search_chain_ok ?c status" "unat (best_number ?c) = N" using serves by (simp_all add: serves_chain_def)
  obtain h where "word_of_nat n \<le> best_number ?c" "status_epoch (status (word_of_nat n)) = es n" "unat (word_of_nat n :: u32) = n"
    using serves_epoch [OF serves n(2)] by blast
  then have "\<exists>k. 1 \<le> k \<and> k \<le> best_number ?c \<and> target_matches (best_number ?c) status ?t k"
    using n(1) by (intro exI [of _ "word_of_nat n"]) (simp add: word_le_nat_alt)
  then obtain k h where k: "find_block ?c ?t = Some (Ok h)" "hash_of_block ?c k = Inr (Some h)" "1 \<le> k" "k \<le> best_number ?c" "status_epoch (status k) = es n"
    using find_block_result [OF ok(1), of ?t] by (auto simp: latest_is_best_def)
  have bounds: "1 \<le> unat k" "unat k \<le> N" using k(3,4) ok(2) by (simp_all add: word_le_nat_alt)
  have same_epoch: "es (unat k) = es n" using serves k(2,4,5) unfolding serves_chain_def by metis
  have "current_committee (chain_committee (st (unat k))) = current_committee (chain_committee (st n))"
    using history_same_committee [OF hist bounded bounds(1) _ n(2) same_epoch] history_same_committee [OF hist bounded n(1) _ bounds(2) same_epoch [symmetric]]
    by (cases "unat k \<le> n") simp_all
  then show ?thesis using k(1) serves_current [OF serves k(4,2)] history_epochs [OF hist bounded n] by simp
qed

lemma get_epoch_committee_served:
  assumes "serves_chain q status st es N" and "1 \<le> N"
  shows "get_epoch_committee q e =
     (if e = 0 then get_epoch_committee q 0
      else if e < es 1 then Some (Err (EarlierThanInitialEpoch e))
      else if e > es N + 1 then Some (Err (CommitteeUnknown e))
      else if e = es N + 1 then Some (checked (NextCommitteeUnknown e)
        (map_option (\<lambda>info. committee_response_new q (ci_epoch info) (committee info)) (next_committee_info (chain_committee (st N)))))
      else map_option (\<lambda>r. and_then (map_err QuerySearch r) (get_current_committee_versioned q)) (find_block (q_chain q) (AnyBlockInEpoch e)))"
proof -
  let ?c = "q_chain q"
  obtain h where "hash_of_block ?c 1 = Inr (Some h)" "sidechain_status_at ?c h = Inr (status 1)" "status_epoch (status 1) = es 1"
    using serves_epoch [OF assms] by auto
  moreover obtain h where "hash_of_block ?c (best_number ?c) = Inr (Some h)" "sidechain_status_at ?c h = Inr (status (best_number ?c))"
      "status_epoch (status (best_number ?c)) = es N"
    using serves_epoch [OF assms(1), of N] assms(1) by (auto simp: serves_chain_def)
  ultimately show ?thesis
    by (auto simp: get_epoch_committee_def first_epoch_of_chain_def get_epoch_of_block_def status_of_block_def sc_epoch_next_def serves_next [OF assms(1)])
qed

text \<open>
  C17: The query reports the committee that was in session. On a chain whose consecutive blocks are at most one epoch apart, the committee returned for the epoch of any block is
  the one whose members are the session validators after that block, under the number of that epoch; for the epoch after the latest block it is the stored next committee. Epochs
  further ahead and epochs before the first block give the errors for them. The query always returns.
\<close>

theorem epoch_committee_in_session:
  assumes "chain_history R st es N" and "serves_chain q status st es N" and "selection_bounded (rt_committee R)"
    and "1 \<le> N" and "unat (es N) + 1 < 2 ^ 64"
  shows "(1 \<le> n \<and> n \<le> N \<and> es n \<noteq> 0 \<longrightarrow> (\<exists>ms. get_epoch_committee q (es n) = Some (Ok (committee_response_new q (es n) ms))
      \<and> validators_and_keys (chain_session (st n)) = members_and_keys (rt_member_id R) (rt_member_keys R) ms))
    \<and> (\<exists>info. next_committee_info (chain_committee (st N)) = Some info
        \<and> get_epoch_committee q (es N + 1) = Some (Ok (committee_response_new q (es N + 1) (committee info))))
    \<and> (e > es N + 1 \<longrightarrow> get_epoch_committee q e = Some (Err (CommitteeUnknown e)))
    \<and> (0 < e \<and> e < es 1 \<longrightarrow> get_epoch_committee q e = Some (Err (EarlierThanInitialEpoch e)))"
proof -
  have next_N: "unat (es N + 1) = unat (es N) + 1" using assms(5) by (simp add: unat_add_nowrap)
  have ord: "es 1 \<le> es N" using history_epochs_mono [OF assms(1) _ assms(4)] by simp
  have inv: "chain_inv R (st n)" if "n \<le> N" for n using chain_reachable_inv [OF history_reachable [OF assms(1) that] assms(3)] .
  have "chain_block (st N) = N" "ci_epoch (current_committee (chain_committee (st N))) = es N" using history_epochs [OF assms(1,3,4)] by simp_all
  then obtain info where info: "next_committee_info (chain_committee (st N)) = Some info" "ci_epoch info = es N + 1"
    using inv [of N] assms(4) by (auto simp: chain_inv_def committee_inv_def split: option.splits)
  note served = get_epoch_committee_served [OF assms(2,4)]
  show ?thesis
  proof (intro conjI impI)
    assume n: "1 \<le> n \<and> n \<le> N \<and> es n \<noteq> 0"
    then have "\<not> es n < es 1" "\<not> es n > es N + 1" "es n \<noteq> es N + 1"
      using history_epochs_mono [OF assms(1), of 1 n] history_epochs_mono [OF assms(1), of n N] next_N by (auto simp: word_le_nat_alt word_less_nat_alt)
    then show "\<exists>ms. get_epoch_committee q (es n) = Some (Ok (committee_response_new q (es n) ms))
        \<and> validators_and_keys (chain_session (st n)) = members_and_keys (rt_member_id R) (rt_member_keys R) ms"
      using n inv [of n] committee_of_past_epoch [OF assms(1-3), of n]
      by (intro exI [of _ "committee (current_committee (chain_committee (st n)))"], subst served) (simp add: chain_inv_def)
  next
    have "es N + 1 \<noteq> 0" "\<not> es N + 1 < es 1" using next_N ord by (auto simp: word_le_nat_alt word_less_nat_alt)
    then show "\<exists>info. next_committee_info (chain_committee (st N)) = Some info
        \<and> get_epoch_committee q (es N + 1) = Some (Ok (committee_response_new q (es N + 1) (committee info)))"
      using info by (subst served) simp
  next
    assume "e > es N + 1"
    moreover from this have "e \<noteq> 0" "\<not> e < es 1" using next_N ord by (auto simp: word_le_nat_alt word_less_nat_alt)
    ultimately show "get_epoch_committee q e = Some (Err (CommitteeUnknown e))" by (subst served) simp
  next
    assume "0 < e \<and> e < es 1"
    then show "get_epoch_committee q e = Some (Err (EarlierThanInitialEpoch e))" by (subst served) auto
  qed
qed

subsection \<open>A node with four blocks\<close>

definition demo_chain2 :: "(string, nat, string, unit) chain_state" where
  "demo_chain2 = demo_chain1\<lparr>chain_block := 2\<rparr>"

definition demo_chain3 :: "(string, nat, string, unit) chain_state" where
  "demo_chain3 = projr (author_block demo_runtime 8 (Inr (Some 1)) demo_chain2)"

definition demo_states :: "nat \<Rightarrow> (string, nat, string, unit) chain_state" where
  "demo_states n = (if n = 0 then demo_chain0 else if n = 1 then demo_chain1 else if n = 2 then demo_chain2 else demo_chain3)"

definition demo_epochs :: "nat \<Rightarrow> u64" where
  "demo_epochs n = (if n \<le> 2 then 7 else 8)"

definition demo_query :: "(u32, unit, string) query_client" where
  "demo_query = \<lparr>q_chain = demo_client, q_genesis_hash = 0, q_best_hash = 3, q_api_version = (\<lambda>_. Inr (Some 2)),
     q_current_committee = (\<lambda>h. Inr (runtime_get_current_committee (chain_committee (demo_states (unat h))))),
     q_current_committee_before_version_2 = (\<lambda>_. Inl ()),
     q_next_committee = (\<lambda>h. Inr (runtime_get_next_committee (chain_committee (demo_states (unat h))))),
     q_next_committee_before_version_2 = (\<lambda>_. Inl ()), q_main_chain_scripts = (\<lambda>_. Inr demo_scripts),
     q_validate_registered = (\<lambda>_ pk r. Inr (runtime_validate_registered_candidate_data accepting_env demo_utxo pk r)),
     q_validate_stake = (\<lambda>_ stake. Inr (runtime_validate_stake stake)),
     q_validate_permissioned = (\<lambda>_ c. Inr (runtime_validate_permissioned_candidate_data accepting_env c)),
     q_authority_bytes = map of_char, q_to_hex = (\<lambda>b. b), q_ss58 = (\<lambda>b. b)\<rparr>"

lemma demo_block3: "author_block demo_runtime 8 (Inr (Some 1)) demo_chain2 = Inr demo_chain3"
  using author_block_step [of demo_runtime demo_chain2 "\<lparr>ci_epoch = 8, committee = [''b'', ''c'']\<rparr>" "Inr (Some 1)" 1 8]
  by (auto simp: demo_chain3_def) (auto simp: demo_chain2_def demo_chain1_def demo_runtime_def)

lemma demo_history: "chain_history demo_runtime demo_states demo_epochs 3"
proof -
  have "author_block demo_runtime 7 (Inr (Some 1)) demo_chain1 = Inr demo_chain2"
    by (simp add: demo_block_simps demo_chain2_def)
  then have "\<exists>data st'. author_block demo_runtime (demo_epochs (Suc n)) data (demo_states n) = Inr st' \<and> extrinsics demo_runtime st' (demo_states (Suc n))"
    if "n < 3" for n
    using that demo_block demo_block3 by (auto simp: demo_states_def demo_epochs_def less_Suc_eq numeral_3_eq_3 intro: extrinsics.no_calls)
  moreover have "\<exists>members scripts sys. chain_genesis demo_runtime members scripts sys = Inr (demo_states 0)"
    using demo_genesis by (auto simp: demo_states_def)
  ultimately show ?thesis by (simp add: chain_history_def demo_epochs_def)
qed

lemma demo_serves: "serves_chain demo_query demo_status demo_states demo_epochs 3"
  using demo_client_ok
  by (auto simp: serves_chain_def demo_query_def demo_status_def demo_epochs_def word_le_nat_alt) (auto simp: demo_client_def split: if_splits)

theorem epoch_committee_in_session_witness:
  "(\<exists>ms. get_epoch_committee demo_query 7 = Some (Ok (committee_response_new demo_query 7 ms))
      \<and> validators_and_keys (chain_session demo_chain2) = members_and_keys (rt_member_id demo_runtime) (rt_member_keys demo_runtime) ms)
    \<and> get_epoch_committee demo_query 12 = Some (Err (CommitteeUnknown 12))
    \<and> get_epoch_committee demo_query 6 = Some (Err (EarlierThanInitialEpoch 6))"
  using epoch_committee_in_session [OF demo_history demo_serves demo_bounded, of 2 12] epoch_committee_in_session [OF demo_history demo_serves demo_bounded, of 2 6]
  by (simp add: demo_epochs_def demo_states_def)

text \<open>A pool whose newer registration does not spend the UTXO it names.\<close>

definition query_registration :: "u32 \<Rightarrow> utxo_id list \<Rightarrow> registration_data" where
  "query_registration block inputs = \<lparr>registration_utxo = demo_utxo, sidechain_signature = replicate 64 0, mainchain_signature = replicate 64 0,
     cross_chain_signature = [], sidechain_pub_key = replicate 33 1, cross_chain_pub_key = [],
     reg_utxo_info = \<lparr>info_utxo_id = demo_utxo, info_epoch_number = 1, info_block_number = block, info_slot_number = 0, info_tx_index_within_block = 0\<rparr>,
     tx_inputs = inputs, reg_keys = [\<lparr>key_id = aura_id, key_bytes = [1]\<rparr>]\<rparr>"

definition query_pool :: candidate_registrations where
  "query_pool = \<lparr>stake_pool_public_key = [5], registrations = [query_registration 9 [], query_registration 4 [demo_utxo]], stake_delegation = Some 70\<rparr>"

definition query_source :: "unit authority_selection_data_source" where
  "query_source = \<lparr>ads_get_ariadne_parameters = (\<lambda>_ _ _. Err ()), ads_get_candidates = (\<lambda>_ _. Ok [query_pool]), ads_get_epoch_nonce = (\<lambda>_. Err ()),
     ads_data_epoch = (\<lambda>_. Err ())\<rparr>"

lemma query_registration_ok:
  "registration_ok accepting_env [5] demo_utxo (query_registration 4 [demo_utxo])"
  "\<not> registration_ok accepting_env [5] demo_utxo (query_registration 9 [])"
  by (simp_all add: registration_ok_def runtime_validate_registered_candidate_data_def err_of_def validate_registration_data_def query_registration_def
      accepting_env_def demo_env_def maybe_from_def verify_stake_pool_signature_def verify_sidechain_signature_def verify_tx_inputs_def Let_def)

theorem registrations_match_selection_witness:
  "\<exists>es. get_registrations demo_query query_source 3 [5] = Ok es \<and> length es = 2 \<and> entry_is_valid (hd es) \<and> list_all (\<lambda>e. \<not> entry_is_valid e) (tl es)"
proof -
  have "validates_as_runtime demo_query accepting_env demo_utxo" "inj (q_to_hex demo_query)"
    "q_main_chain_scripts demo_query (q_best_hash demo_query) = Inr demo_scripts"
    by (simp_all add: validates_as_runtime_def demo_query_def inj_def)
  moreover have "ads_get_candidates query_source 3 (committee_candidate_address demo_scripts) = Ok [query_pool]" by (simp add: query_source_def)
  ultimately obtain es older shown where es: "get_registrations demo_query query_source 3 (stake_pool_public_key query_pool) = Ok es"
      "sort_key registration_order (registrations query_pool) = older @ shown" "map entry_utxo es = map reg_utxo_info shown"
      "case select_latest_valid_candidate accepting_env query_pool demo_utxo of
         None \<Rightarrow> list_all (\<lambda>e. \<not> entry_is_valid e) es
       | Some c \<Rightarrow> \<exists>r newer. shown = r # newer \<and> es = map (shown_entry demo_query accepting_env demo_utxo query_pool) shown
           \<and> entry_is_valid (hd es) \<and> list_all (\<lambda>e. \<not> entry_is_valid e) (tl es)
           \<and> cws_account_id c = account_of accepting_env (sidechain_pub_key r) \<and> maybe_from accepting_env (reg_keys r) = Some (cws_account_keys c)"
    using registrations_match_selection [of demo_query accepting_env demo_utxo demo_scripts query_source 3 "[query_pool]" query_pool] by auto
  let ?old = "query_registration 4 [demo_utxo]" and ?new = "query_registration 9 []"
  have sorted: "sort_key registration_order (registrations query_pool) = [?old, ?new]"
    by (simp add: query_pool_def registration_order_def ordering_key_def query_registration_def)
  obtain c where "select_latest_valid_candidate accepting_env query_pool demo_utxo = Some c"
    using query_registration_ok by (simp add: select_latest_valid_candidate_eq query_pool_def runtime_validate_stake_def err_of_def validate_stake_def Let_def)
  then obtain r newer where r: "shown = r # newer" "es = map (shown_entry demo_query accepting_env demo_utxo query_pool) shown"
      "entry_is_valid (hd es)" "list_all (\<lambda>e. \<not> entry_is_valid e) (tl es)"
    using es(4) by auto
  have "r \<noteq> ?new" using r(1-3) query_registration_ok(2) by (auto simp: query_pool_def)
  then have "shown = [?old, ?new]" using es(2) r(1) unfolding sorted by (cases older; cases "tl older") auto
  then show ?thesis using es(1) r by (intro exI [of _ es]) (simp add: query_pool_def)
qed

end
