(* ===== verification/Aura.thy ===== *)
theory Aura
  imports Mc_Hash
begin

text \<open>
  The extension of Aura that puts a part of the inherent data into the header of a block, \<open>substrate-extensions/aura\<close>: the proposer of
  \<open>primitives/src/block_proposal.rs\<close>, the worker of \<open>consensus/src/lib.rs\<close> and the verifier of \<open>consensus/src/import_queue.rs\<close>.

  As in the code, the verifier is generic in the providers of the inherent data (\<open>CIDP\<close>) and in the inherent digest (\<open>ID\<close>); both are arguments.
  \<open>sc_consensus_aura::standalone\<close>, the client with its runtime API and the keystore are fields of \<open>aura_env\<close>. Logging and telemetry are left out.
\<close>

datatype fork_choice = LongestChain | CustomForkChoice bool

record 'hash chain_header =
  hd_number :: u32
  hd_parent :: 'hash
  hd_digest :: "digest_item list"

record ('hash, 'body) block_import_params =
  bi_with_state :: bool
  bi_skip_execution_checks :: bool
  bi_header :: "'hash chain_header"
  bi_body :: "'body option"
  bi_post_digests :: "digest_item list"
  bi_fork_choice :: "fork_choice option"
  bi_post_hash :: "'hash option"

datatype ('hash, 'e) seal_verification_error =
    Deferred "'hash chain_header" slot
  | Unsealed
  | BadSeal
  | BadSignature
  | SealSlotAuthorNotFound
  | InvalidPreDigest 'e

datatype compatibility_mode = NoCompatibility | UseInitializeBlock u32

record ('hash, 'auth, 'body, 'data, 'e) aura_env =
  header_hash :: "'hash chain_header \<Rightarrow> 'hash"
  check_header_slot_and_seal :: "slot \<Rightarrow> 'hash chain_header \<Rightarrow> 'auth list \<Rightarrow> ('hash, 'e) seal_verification_error + ('hash chain_header \<times> slot \<times> digest_item)"
  slot_author :: "slot \<Rightarrow> 'auth list \<Rightarrow> 'auth option"
  check_equivocation :: "slot \<Rightarrow> slot \<Rightarrow> 'hash chain_header \<Rightarrow> 'auth \<Rightarrow> 'e + unit option"
  api_initialize_block :: "'hash \<Rightarrow> u32 \<Rightarrow> 'e + unit"
  api_authorities :: "'hash \<Rightarrow> 'e + 'auth list"
  api_checks_inherents :: "'hash \<Rightarrow> 'e + bool"
  check_inherents_with_data :: "'hash \<Rightarrow> 'hash chain_header \<Rightarrow> 'body \<Rightarrow> 'data \<Rightarrow> 'e option"
  aura_pre_digest :: "slot \<Rightarrow> digest_item"
  aura_seal :: "'hash \<Rightarrow> 'auth \<Rightarrow> 'e + digest_item"
  find_pre_digest :: "digest_item list \<Rightarrow> 'e + slot"
  aura_compatibility_mode :: compatibility_mode
  check_for_equivocation :: bool

subsection \<open>The proposer\<close>

text \<open>The inherent digest: what is put into the header, and how a verifier reads it back.\<close>

record ('data, 'v, 'de) inherent_digest =
  id_from_inherent_data :: "'data \<Rightarrow> 'de + digest_item list"
  id_value_from_digest :: "digest_item list \<Rightarrow> 'de + 'v"

definition propose :: "('data, 'v, 'de) inherent_digest \<Rightarrow> ('data \<Rightarrow> digest_item list \<Rightarrow> 'r) \<Rightarrow> 'data \<Rightarrow> digest_item list \<Rightarrow> panic + 'r" where
  "propose I proposer inherent_data inherent_digests = (case id_from_inherent_data I inherent_data of
       Inl _ \<Rightarrow> Inl ExpectFailed
     | Inr inherent_logs \<Rightarrow> Inr (proposer inherent_data (inherent_digests @ inherent_logs)))"

subsection \<open>The worker\<close>

definition aura_authorities :: "('hash, 'auth, 'body, 'data, 'e) aura_env \<Rightarrow> 'hash \<Rightarrow> u32 \<Rightarrow> 'auth list option" where
  "aura_authorities E parent_hash context_block_number =
     (case (case aura_compatibility_mode E of
          NoCompatibility \<Rightarrow> Some ()
        | UseInitializeBlock until \<Rightarrow>
            if until > context_block_number
            then (case api_initialize_block E parent_hash context_block_number of Inl _ \<Rightarrow> None | Inr _ \<Rightarrow> Some ())
            else Some ()) of
        None \<Rightarrow> None
      | Some _ \<Rightarrow> (case api_authorities E parent_hash of Inl _ \<Rightarrow> None | Inr authorities \<Rightarrow> Some authorities))"

definition aura_aux_data :: "('hash, 'auth, 'body, 'data, 'e) aura_env \<Rightarrow> 'hash chain_header \<Rightarrow> 'auth list option" where
  "aura_aux_data E header = aura_authorities E (header_hash E header) (hd_number header + 1)"

definition aura_pre_digest_data :: "('hash, 'auth, 'body, 'data, 'e) aura_env \<Rightarrow> slot \<Rightarrow> digest_item list" where
  "aura_pre_digest_data E slot = [aura_pre_digest E slot]"

definition aura_block_import_params ::
  "('hash, 'auth, 'body, 'data, 'e) aura_env \<Rightarrow> 'hash chain_header \<Rightarrow> 'hash \<Rightarrow> 'body \<Rightarrow> 'auth \<Rightarrow> 'e + ('hash, 'body) block_import_params" where
  "aura_block_import_params E header h body public = (case aura_seal E h public of
       Inl e \<Rightarrow> Inl e
     | Inr signature_digest_item \<Rightarrow> Inr \<lparr>bi_with_state = False, bi_skip_execution_checks = False, bi_header = header, bi_body = Some body,
         bi_post_digests = [signature_digest_item], bi_fork_choice = Some LongestChain, bi_post_hash = None\<rparr>)"

definition aura_should_backoff ::
  "('hash, 'auth, 'body, 'data, 'e) aura_env \<Rightarrow> (u32 \<Rightarrow> slot \<Rightarrow> u32 \<Rightarrow> slot \<Rightarrow> bool) option \<Rightarrow> u32 \<Rightarrow> slot \<Rightarrow> 'hash chain_header \<Rightarrow> bool" where
  "aura_should_backoff E backoff finalized_number slot chain_head = (case backoff of
       None \<Rightarrow> False
     | Some strategy \<Rightarrow> (case find_pre_digest E (hd_digest chain_head) of
           Inl _ \<Rightarrow> False
         | Inr chain_head_slot \<Rightarrow> strategy (hd_number chain_head) chain_head_slot finalized_number slot))"

subsection \<open>The verifier\<close>

datatype 'hash checked_header = Checked "'hash chain_header" slot digest_item | DeferredHeader "'hash chain_header" slot

datatype ('hash, 'e) header_check_error =
    HeaderUnsealed 'hash
  | HeaderBadSeal 'hash
  | HeaderBadSignature 'hash
  | SlotAuthorNotFound
  | HeaderPreDigest 'e
  | HeaderClient 'e

definition check_header ::
  "('hash, 'auth, 'body, 'data, 'e) aura_env \<Rightarrow> slot \<Rightarrow> 'hash chain_header \<Rightarrow> 'hash \<Rightarrow> 'auth list
     \<Rightarrow> (('hash, 'e) header_check_error, 'hash checked_header) outcome" where
  "check_header E slot_now header h authorities = (case check_header_slot_and_seal E slot_now header authorities of
       Inr (header, slot, seal) \<Rightarrow>
         (case (check_for_equivocation E, slot_author E slot authorities) of
            (True, Some expected) \<Rightarrow>
              (case check_equivocation E slot_now slot header expected of
                 Inl e \<Rightarrow> Err (HeaderClient e)
               | Inr _ \<Rightarrow> Ok (Checked header slot seal))
          | _ \<Rightarrow> Ok (Checked header slot seal))
     | Inl (Deferred header slot) \<Rightarrow> Ok (DeferredHeader header slot)
     | Inl Unsealed \<Rightarrow> Err (HeaderUnsealed h)
     | Inl BadSeal \<Rightarrow> Err (HeaderBadSeal h)
     | Inl BadSignature \<Rightarrow> Err (HeaderBadSignature h)
     | Inl SealSlotAuthorNotFound \<Rightarrow> Err SlotAuthorNotFound
     | Inl (InvalidPreDigest e) \<Rightarrow> Err (HeaderPreDigest e))"

datatype ('hash, 'e, 'de, 'pe) verify_error =
    AuthoritiesUnavailable 'hash
  | HeaderCheckFailed "('hash, 'e) header_check_error"
  | InherentDigestMissing 'hash 'de
  | InherentProvidersFailed 'pe
  | VerifyApi 'e
  | InherentDataFailed 'pe
  | InherentsRejected 'e
  | TooFarInFuture 'hash

definition check_block_inherents ::
  "('hash, 'auth, 'body, 'data, 'e) aura_env \<Rightarrow> ('hash \<Rightarrow> slot \<times> 'v \<Rightarrow> ('pe, 'prov) outcome) \<Rightarrow> ('prov \<Rightarrow> 'pe + 'data)
     \<Rightarrow> 'hash \<Rightarrow> 'hash chain_header \<Rightarrow> 'body \<Rightarrow> slot \<Rightarrow> 'v \<Rightarrow> (('hash, 'e, 'de, 'pe) verify_error, unit) outcome" where
  "check_block_inherents E cidp create_inherent_data parent_hash pre_header body slot inherent_digest =
     and_then (map_err InherentProvidersFailed (cidp parent_hash (slot, inherent_digest))) (\<lambda>providers.
       case api_checks_inherents E parent_hash of
         Inl e \<Rightarrow> Err (VerifyApi e)
       | Inr False \<Rightarrow> Ok ()
       | Inr True \<Rightarrow> (case create_inherent_data providers of
             Inl e \<Rightarrow> Err (InherentDataFailed e)
           | Inr data \<Rightarrow> (case check_inherents_with_data E parent_hash pre_header body data of
                 Some e \<Rightarrow> Err (InherentsRejected e)
               | None \<Rightarrow> Ok ())))"

definition verify ::
  "('hash, 'auth, 'body, 'data, 'e) aura_env \<Rightarrow> ('data, 'v, 'de) inherent_digest \<Rightarrow> slot
     \<Rightarrow> ('hash \<Rightarrow> slot \<times> 'v \<Rightarrow> ('pe, 'prov) outcome) \<Rightarrow> ('prov \<Rightarrow> 'pe + 'data) \<Rightarrow> ('hash, 'body) block_import_params
     \<Rightarrow> (('hash, 'e, 'de, 'pe) verify_error, ('hash, 'body) block_import_params) outcome" where
  "verify E I current_slot cidp create_inherent_data block =
     (if bi_with_state block \<or> bi_skip_execution_checks block
      then Ok (block\<lparr>bi_fork_choice := Some (CustomForkChoice (bi_with_state block))\<rparr>)
      else let h = header_hash E (bi_header block); parent_hash = hd_parent (bi_header block) in
     and_then (checked (AuthoritiesUnavailable parent_hash) (aura_authorities E parent_hash (hd_number (bi_header block)))) (\<lambda>authorities.
     and_then (map_err HeaderCheckFailed (check_header E (current_slot + 1) (bi_header block) h authorities)) (\<lambda>checked_header.
     and_then (case id_value_from_digest I (hd_digest (bi_header block)) of
         Inl e \<Rightarrow> Err (InherentDigestMissing parent_hash e)
       | Inr v \<Rightarrow> Ok v) (\<lambda>inherent_digest.
       case checked_header of
         Checked pre_header slot seal \<Rightarrow>
           and_then (case bi_body block of
               None \<Rightarrow> Ok ()
             | Some body \<Rightarrow> check_block_inherents E cidp create_inherent_data parent_hash pre_header body slot inherent_digest) (\<lambda>_.
             Ok (block\<lparr>bi_header := pre_header, bi_post_digests := bi_post_digests block @ [seal],
               bi_fork_choice := Some LongestChain, bi_post_hash := Some h\<rparr>))
       | DeferredHeader _ _ \<Rightarrow> Err (TooFarInFuture h)))))"

lemma check_block_inherents_Ok:
  "check_block_inherents E cidp create_inherent_data parent_hash pre_header body slot v = Ok u
    \<longleftrightarrow> (\<exists>providers. cidp parent_hash (slot, v) = Ok providers \<and> (api_checks_inherents E parent_hash = Inr False
      \<or> api_checks_inherents E parent_hash = Inr True \<and> (\<exists>data. create_inherent_data providers = Inr data
          \<and> check_inherents_with_data E parent_hash pre_header body data = None)))"
proof (cases "cidp parent_hash (slot, v)")
  case (Ok providers)
  show ?thesis
  proof (cases "api_checks_inherents E parent_hash")
    case (Inl e)
    then show ?thesis by (simp add: check_block_inherents_def Ok)
  next
    case (Inr b)
    then show ?thesis
      by (cases b; cases "create_inherent_data providers") (simp_all add: check_block_inherents_def Ok split: option.split)
  qed
qed (simp_all add: check_block_inherents_def)

lemma check_header_Ok:
  assumes "check_header E slot_now header h authorities = Ok (Checked pre_header slot seal)"
  shows "check_header_slot_and_seal E slot_now header authorities = Inr (pre_header, slot, seal)"
  using assms by (auto simp: check_header_def split: sum.splits prod.splits seal_verification_error.splits bool.splits option.splits)

lemma check_header_Checked:
  assumes "check_header_slot_and_seal E slot_now header authorities = Inr (pre_header, slot, seal)"
    and "\<And>expected. check_for_equivocation E \<Longrightarrow> slot_author E slot authorities = Some expected
      \<Longrightarrow> \<exists>r. check_equivocation E slot_now slot pre_header expected = Inr r"
  shows "check_header E slot_now header h authorities = Ok (Checked pre_header slot seal)"
proof (cases "check_for_equivocation E")
  case False
  then show ?thesis using assms(1) by (simp add: check_header_def)
next
  case True
  then show ?thesis using assms by (cases "slot_author E slot authorities") (auto simp: check_header_def)
qed

lemma verify_accepts:
  assumes "\<not> bi_with_state block" and "\<not> bi_skip_execution_checks block" and "bi_body block = Some body"
    and "aura_authorities E (hd_parent (bi_header block)) (hd_number (bi_header block)) = Some authorities"
    and "check_header_slot_and_seal E (current_slot + 1) (bi_header block) authorities = Inr (pre_header, slot, seal)"
    and "\<forall>expected. \<exists>r. check_equivocation E (current_slot + 1) slot pre_header expected = Inr r"
    and "id_value_from_digest I (hd_digest (bi_header block)) = Inr v"
    and "cidp (hd_parent (bi_header block)) (slot, v) = Ok providers" and "create_inherent_data providers = Inr data"
    and "\<exists>b. api_checks_inherents E (hd_parent (bi_header block)) = Inr b"
    and "check_inherents_with_data E (hd_parent (bi_header block)) pre_header body data = None"
  shows "verify E I current_slot cidp create_inherent_data block
    = Ok (block\<lparr>bi_header := pre_header, bi_post_digests := bi_post_digests block @ [seal],
        bi_fork_choice := Some LongestChain, bi_post_hash := Some (header_hash E (bi_header block))\<rparr>)"
proof -
  obtain b where b: "api_checks_inherents E (hd_parent (bi_header block)) = Inr b" using assms(10) by blast
  show ?thesis using assms(1-4,7-9,11) b check_header_Checked [OF assms(5), of "header_hash E (bi_header block)"] assms(6)
    by (cases b) (simp_all add: verify_def check_block_inherents_def Let_def)
qed

text \<open>
  C21: Only a block that passes every check is imported with execution. When the verifier accepts a block it was not told to import without checks, the seal was valid for the
  authorities of the parent at a slot not after the next one, the header carries an inherent digest, and, if the block has a body and the runtime checks inherents,
  the providers were created for exactly that slot and digest and the runtime accepted the body with their data. The block handed on has its body, the header without the seal, the seal as
  its last post digest and the hash of the sealed header.
\<close>

theorem verified_block_checked:
  assumes "verify E I current_slot cidp create_inherent_data block = Ok block'"
    and "\<not> bi_with_state block" and "\<not> bi_skip_execution_checks block"
  shows "\<exists>authorities pre_header slot seal v.
      aura_authorities E (hd_parent (bi_header block)) (hd_number (bi_header block)) = Some authorities
    \<and> check_header_slot_and_seal E (current_slot + 1) (bi_header block) authorities = Inr (pre_header, slot, seal)
    \<and> id_value_from_digest I (hd_digest (bi_header block)) = Inr v
    \<and> (case bi_body block of None \<Rightarrow> True | Some body \<Rightarrow> (\<exists>providers. cidp (hd_parent (bi_header block)) (slot, v) = Ok providers
        \<and> (api_checks_inherents E (hd_parent (bi_header block)) = Inr False
           \<or> (\<exists>data. create_inherent_data providers = Inr data
               \<and> check_inherents_with_data E (hd_parent (bi_header block)) pre_header body data = None))))
    \<and> block' = block\<lparr>bi_header := pre_header, bi_post_digests := bi_post_digests block @ [seal],
        bi_fork_choice := Some LongestChain, bi_post_hash := Some (header_hash E (bi_header block))\<rparr>"
proof -
  let ?hd = "bi_header block"
  obtain authorities c v where *: "aura_authorities E (hd_parent ?hd) (hd_number ?hd) = Some authorities"
      "check_header E (current_slot + 1) ?hd (header_hash E ?hd) authorities = Ok c" "id_value_from_digest I (hd_digest ?hd) = Inr v"
    using assms by (auto simp: verify_def Let_def and_then_eq_Ok map_err_eq_Ok checked_def split: option.splits sum.splits)
  then obtain pre_header slot seal where c: "c = Checked pre_header slot seal"
    using assms by (cases c) (auto simp: verify_def Let_def)
  have "and_then (case bi_body block of
        None \<Rightarrow> Ok ()
      | Some body \<Rightarrow> check_block_inherents E cidp create_inherent_data (hd_parent ?hd) pre_header body slot v)
      (\<lambda>_. Ok (block\<lparr>bi_header := pre_header, bi_post_digests := bi_post_digests block @ [seal],
        bi_fork_choice := Some LongestChain, bi_post_hash := Some (header_hash E ?hd)\<rparr>)) = verify E I current_slot cidp create_inherent_data block"
    using assms(2,3) * by (simp add: verify_def Let_def c)
  then show ?thesis using assms(1) * check_header_Ok [OF *(2) [unfolded c]]
    by (cases "bi_body block") (auto simp: and_then_eq_Ok check_block_inherents_Ok)
qed

definition demo_aura :: "(nat, nat, unit, bytes, unit) aura_env" where
  "demo_aura = \<lparr>header_hash = (\<lambda>h. unat (hd_number h)), check_header_slot_and_seal = (\<lambda>now h auths. if 9 \<le> now then Inr (h, 9, OtherDigestItem [1]) else Inl (Deferred h 9)),
     slot_author = (\<lambda>s auths. Some (auths ! (unat s mod length auths))), check_equivocation = (\<lambda>_ _ _ _. Inr None), api_initialize_block = (\<lambda>_ _. Inr ()),
     api_authorities = (\<lambda>_. Inr [1, 2]), api_checks_inherents = (\<lambda>_. Inr True), check_inherents_with_data = (\<lambda>_ _ _ d. if d = replicate 32 7 then None else Some ()),
     aura_pre_digest = (\<lambda>_. PreRuntime [97] []), aura_seal = (\<lambda>_ _. Inr (OtherDigestItem [1])), find_pre_digest = (\<lambda>_. Inl ()),
     aura_compatibility_mode = NoCompatibility, check_for_equivocation = True\<rparr>"

definition demo_import :: "(nat, unit) block_import_params" where
  "demo_import = \<lparr>bi_with_state = False, bi_skip_execution_checks = False,
     bi_header = \<lparr>hd_number = 5, hd_parent = 4, hd_digest = [PreRuntime mc_hash_digest_id (replicate 32 7)]\<rparr>, bi_body = Some (),
     bi_post_digests = [], bi_fork_choice = None, bi_post_hash = None\<rparr>"

definition demo_digest :: "(bytes, bytes, digest_error) inherent_digest" where
  "demo_digest = \<lparr>id_from_inherent_data = (\<lambda>d. Inr (from_mc_block_hash d)), id_value_from_digest = value_from_digest\<rparr>"

theorem verified_block_checked_witness:
  "\<exists>block' authorities pre_header slot seal v.
      verify demo_aura demo_digest 8 (\<lambda>_ (_, v). Ok v) Inr demo_import = (Ok block' :: ((nat, unit, digest_error, unit) verify_error, _) outcome)
    \<and> aura_authorities demo_aura 4 5 = Some authorities
    \<and> check_header_slot_and_seal demo_aura 9 (bi_header demo_import) authorities = Inr (pre_header, slot, seal)
    \<and> id_value_from_digest demo_digest (hd_digest (bi_header demo_import)) = Inr v \<and> last (bi_post_digests block') = seal"
proof -
  obtain block' where ok: "verify demo_aura demo_digest 8 (\<lambda>_ (_, v). Ok v) Inr demo_import = (Ok block' :: ((nat, unit, digest_error, unit) verify_error, _) outcome)"
    by (simp add: verify_def Let_def demo_import_def demo_aura_def demo_digest_def aura_authorities_def check_header_def check_block_inherents_def mc_hash_digest_id_def)
  then show ?thesis using verified_block_checked [OF ok] by (auto simp: demo_import_def)
qed

end
