(* ===== verification/Node_Inherents.thy ===== *)
theory Node_Inherents
  imports Aura Ariadne_Inherent Block_Participation Governed_Map Bridge
begin

text \<open>
  The inherent data of the demo node, \<open>demo/node/src/inherent_data.rs\<close>: which providers the author of a block creates, \<open>ProposalCIDP\<close>, and which a node that
  verifies the block creates from the slot and the main chain hash in its header, \<open>VerifierCIDP\<close>. Together with the verifier of \<open>Aura\<close> this is the path of a block
  from its author to an importing node.

  The runtime API at the parent block is the record \<open>parent_api\<close>, the data sources of a node are the record \<open>node_sources\<close>; every source returns errors of the one boxed
  type, \<open>'ds\<close>. \<open>Slot::timestamp\<close>, \<open>Slot::from_timestamp\<close> and \<open>find_pre_digest\<close> are fields of \<open>node_env\<close>.
\<close>

record ('dur, 'member, 'author, 'pool, 'k, 'd, 'api) node_env =
  ne_mc_epoch_config :: mainchain_epoch_config
  ne_sc_slot_config :: "'dur sc_slot_config"
  ne_slot_timestamp :: "slot \<Rightarrow> 'dur \<Rightarrow> u64 option"
  ne_slot_from_timestamp :: "u64 \<Rightarrow> 'dur \<Rightarrow> slot"
  ne_find_pre_digest :: "digest_item list \<Rightarrow> 'api + slot"
  ne_author_from :: "'member \<Rightarrow> 'author"
  ne_as_cardano_spo :: "'author \<Rightarrow> 'pool option"
  ne_from_delegator_key :: "'k \<Rightarrow> 'd"

record ('api, 'member, 'author, 'id) parent_api =
  pa_header :: "'api + block_header"
  pa_next_unset_epoch :: "'api + u64"
  pa_main_chain_scripts :: "'api + main_chain_scripts"
  pa_has_log_api :: "'api + bool"
  pa_get_author :: "slot \<Rightarrow> 'api + 'member option"
  pa_participation :: "('api, 'id, 'author) participation_api"
  pa_governed_map :: "'api gm_api"
  pa_bridge :: "'api bridge_api"

record ('s, 'pool, 'k, 'author, 'r, 'ds) node_sources =
  ns_mc_hash :: "('s, 'ds) mc_hash_data_source"
  ns_mc_state :: 's
  ns_candidates :: "'ds authority_selection_data_source"
  ns_delegations :: "u32 \<Rightarrow> 'pool list \<Rightarrow> 'ds + ('pool, 'k) stake_distribution"
  ns_hash_iteration :: "'author hash_iteration"
  ns_governed_map :: "(bytes, 'ds) gm_data_source"
  ns_bridge :: "('r, bytes, 'ds) bridge_data_source"

datatype ('api, 'ds, 'author) node_error =
    NodeHeader 'api
  | NodePreDigest 'api
  | NodeMcHash "'ds mc_hash_inherent_error"
  | NodeAriadne "('api, 'ds) ariadne_creation_error"
  | NodeAuthor 'api
  | NodeParticipation "('api, 'ds, 'author) participation_creation_error"
  | NodeGovernedMap "('api, 'ds) gm_creation_error"
  | NodeBridge "('api, 'ds) bridge_creation_error"

definition lift_err :: "('e \<Rightarrow> 'err) \<Rightarrow> 'e + 'a \<Rightarrow> ('err, 'a) outcome" where
  "lift_err wrap r = (case r of Inl e \<Rightarrow> Err (wrap e) | Inr a \<Rightarrow> Ok a)"

lemma lift_err_simps [simp]: "lift_err wrap (Inl e) = Err (wrap e)" "lift_err wrap (Inr a) = Ok a"
  by (simp_all add: lift_err_def)

lemma lift_err_Ok: "lift_err wrap r = Ok a \<longleftrightarrow> r = Inr a"
  by (cases r) simp_all

definition timestamp_and_slot_cidp :: "('dur, 'member, 'author, 'pool, 'k, 'd, 'api) node_env \<Rightarrow> u64 \<Rightarrow> slot \<times> u64" where
  "timestamp_and_slot_cidp N now = (ne_slot_from_timestamp N now (slot_duration (ne_sc_slot_config N)), now)"

definition verifier_slot :: "('dur, 'member, 'author, 'pool, 'k, 'd, 'api) node_env \<Rightarrow> u64 \<Rightarrow> slot" where
  "verifier_slot N now = fst (timestamp_and_slot_cidp N now)"

definition slot_from_predigest :: "('dur, 'member, 'author, 'pool, 'k, 'd, 'api) node_env \<Rightarrow> block_header \<Rightarrow> 'api + slot option" where
  "slot_from_predigest N header =
     (if header_number header = 0 then Inr None else map_sum id Some (ne_find_pre_digest N (header_digest header)))"

subsection \<open>Providers\<close>

record ('author, 'id, 'd, 'r) common_providers =
  cp_ariadne :: "authority_selection_inputs option"
  cp_author :: "'author option"
  cp_payouts :: "('id, 'author, 'd) participation_provider"
  cp_governed_map :: gm_provider
  cp_bridge :: "'r bridge_provider"

definition participation_env_of ::
  "('dur, 'member, 'author, 'pool, 'k, 'd, 'api) node_env \<Rightarrow> ('s, 'pool, 'k, 'author, 'r, 'ds) node_sources
     \<Rightarrow> ('dur, 'pool, 'k, 'author, 'd, 'ds) participation_env" where
  "participation_env_of N S = \<lparr>slot_timestamp = ne_slot_timestamp N, slot_dur = slot_duration (ne_sc_slot_config N), mc_config = ne_mc_epoch_config N,
     as_cardano_spo = ne_as_cardano_spo N, from_delegator_key = ne_from_delegator_key N, delegation_distribution = ns_delegations S\<rparr>"

text \<open>The providers both sides create, from the main chain reference: its epoch, its hash and the hash of the previous reference.\<close>

definition create_common_providers ::
  "('dur, 'member, 'author::linorder, 'pool, 'k, 'd::linorder, 'api) node_env \<Rightarrow> ('api, 'member, 'author, 'id) parent_api
     \<Rightarrow> ('s, 'pool, 'k, 'author, 'r, 'ds) node_sources \<Rightarrow> slot \<Rightarrow> u32 \<Rightarrow> bytes \<Rightarrow> bytes option
     \<Rightarrow> (('api, 'ds, 'author) node_error, ('author, 'id, 'd, 'r) common_providers) outcome" where
  "create_common_providers N P S slot mc_epoch hash prev_hash =
     and_then (map_err NodeAriadne (ariadne_provider_new (ne_slot_timestamp N) (pa_next_unset_epoch P) (pa_main_chain_scripts P)
         (ne_sc_slot_config N) (ne_mc_epoch_config N) slot (ns_candidates S) mc_epoch)) (\<lambda>ariadne.
     and_then (lift_err NodeAuthor (author_provider_new (pa_has_log_api P) (pa_get_author P slot) (ne_author_from N))) (\<lambda>author.
     and_then (map_err NodeParticipation (participation_provider_new (ns_hash_iteration S) (participation_env_of N S) (pa_participation P) slot)) (\<lambda>payouts.
     and_then (lift_err NodeGovernedMap (gm_provider_new (ns_governed_map S) (pa_governed_map P) hash prev_hash)) (\<lambda>governed_map.
     and_then (lift_err NodeBridge (bridge_provider_new (ns_bridge S) (pa_bridge P) hash)) (\<lambda>bridge.
       Ok \<lparr>cp_ariadne = ariadne, cp_author = author, cp_payouts = payouts, cp_governed_map = governed_map, cp_bridge = bridge\<rparr>)))))"

record ('author, 'id, 'd, 'r) proposal_providers =
  pp_slot :: slot
  pp_timestamp :: u64
  pp_mc_hash :: mc_hash_provider
  pp_common :: "('author, 'id, 'd, 'r) common_providers"

definition proposal_cidp ::
  "('dur, 'member, 'author::linorder, 'pool, 'k, 'd::linorder, 'api) node_env \<Rightarrow> ('api, 'member, 'author, 'id) parent_api
     \<Rightarrow> ('s, 'pool, 'k, 'author, 'r, 'ds) node_sources \<Rightarrow> u64
     \<Rightarrow> (('api, 'ds, 'author) node_error, ('author, 'id, 'd, 'r) proposal_providers) outcome" where
  "proposal_cidp N P S now =
     (let (slot, timestamp) = timestamp_and_slot_cidp N now in
     and_then (lift_err NodeHeader (pa_header P)) (\<lambda>parent_header.
     and_then (map_err NodeMcHash (new_proposal (ne_slot_timestamp N) (header_digest parent_header) (ns_mc_hash S) (ns_mc_state S) slot
         (slot_duration (ne_sc_slot_config N)))) (\<lambda>mc.
     and_then (create_common_providers N P S slot (mc_reference_epoch mc) (mc_hash mc) (previous_mc_hash mc)) (\<lambda>common.
       Ok \<lparr>pp_slot = slot, pp_timestamp = timestamp, pp_mc_hash = mc, pp_common = common\<rparr>))))"

record ('author, 'id, 'd, 'r, 's) verifier_providers =
  vp_timestamp :: u64
  vp_common :: "('author, 'id, 'd, 'r) common_providers"
  vp_mc_state :: 's

definition verifier_cidp ::
  "('dur, 'member, 'author::linorder, 'pool, 'k, 'd::linorder, 'api) node_env \<Rightarrow> ('api, 'member, 'author, 'id) parent_api
     \<Rightarrow> ('s, 'pool, 'k, 'author, 'r, 'ds) node_sources \<Rightarrow> u64 \<Rightarrow> slot \<times> bytes
     \<Rightarrow> (('api, 'ds, 'author) node_error, ('author, 'id, 'd, 'r, 's) verifier_providers) outcome" where
  "verifier_cidp N P S now sm =
     (let (verified_block_slot, hash) = sm; timestamp = now in
     and_then (lift_err NodeHeader (pa_header P)) (\<lambda>parent_header.
     and_then (lift_err NodePreDigest (slot_from_predigest N parent_header)) (\<lambda>parent_slot.
     and_then (map_err NodeMcHash (new_verification (ne_slot_timestamp N) (header_digest parent_header) parent_slot verified_block_slot hash
         (slot_duration (ne_sc_slot_config N)) (ns_mc_hash S) (ns_mc_state S))) (\<lambda>(mc, s').
     and_then (create_common_providers N P S verified_block_slot (mc_reference_epoch mc) hash (previous_mc_hash mc)) (\<lambda>common.
       Ok \<lparr>vp_timestamp = timestamp, vp_common = common, vp_mc_state = s'\<rparr>)))))"

subsection \<open>Inherent data\<close>

text \<open>The items of the inherent data; only the author provides a slot and a main chain hash.\<close>

record ('author, 'id, 'd, 'r) node_inherent_data =
  nd_timestamp :: u64
  nd_slot :: "slot option"
  nd_mc_hash :: "bytes inherent_item"
  nd_ariadne :: "authority_selection_inputs inherent_item"
  nd_author :: "'author inherent_item"
  nd_payouts :: "('id \<times> ('author, 'd) block_production_data) option \<times> u64 inherent_item"
  nd_governed_map :: "gm_changes inherent_item"
  nd_bridge :: "'r token_bridge_transfers inherent_item"

definition common_inherent_data :: "u64 \<Rightarrow> slot option \<Rightarrow> bytes inherent_item \<Rightarrow> ('author, 'id, 'd, 'r) common_providers \<Rightarrow> ('author, 'id, 'd, 'r) node_inherent_data" where
  "common_inherent_data timestamp slot mc_hash_item c = \<lparr>nd_timestamp = timestamp, nd_slot = slot, nd_mc_hash = mc_hash_item,
     nd_ariadne = ariadne_provide_inherent_data (cp_ariadne c), nd_author = author_provide_inherent_data (cp_author c), nd_payouts = participation_provide_inherent_data (cp_payouts c),
     nd_governed_map = gm_provide_inherent_data (cp_governed_map c), nd_bridge = bridge_provide_inherent_data (cp_bridge c)\<rparr>"

definition proposal_inherent_data :: "('author, 'id, 'd, 'r) proposal_providers \<Rightarrow> ('author, 'id, 'd, 'r) node_inherent_data" where
  "proposal_inherent_data p = common_inherent_data (pp_timestamp p) (Some (pp_slot p)) (mc_hash_provide_inherent_data (pp_mc_hash p)) (pp_common p)"

definition verifier_inherent_data :: "('author, 'id, 'd, 'r, 's) verifier_providers \<Rightarrow> ('author, 'id, 'd, 'r) node_inherent_data" where
  "verifier_inherent_data v = common_inherent_data (vp_timestamp v) None (Inr None) (vp_common v)"

definition mc_hash_inherent_digest :: "(('author, 'id, 'd, 'r) node_inherent_data, bytes, inherent_digest_error + digest_error) inherent_digest" where
  "mc_hash_inherent_digest = \<lparr>id_from_inherent_data = (\<lambda>d. map_sum Inl id (from_inherent_data (nd_mc_hash d))),
     id_value_from_digest = (\<lambda>logs. map_sum Inr id (value_from_digest logs))\<rparr>"

subsection \<open>From the author to the importer\<close>

text \<open>
  Two nodes read the same from Cardano up to the main chain reference \<open>p\<close>. They may have seen different blocks after it, and their hash maps may iterate differently.
\<close>

definition sources_agree ::
  "mc_hash_provider \<Rightarrow> ('s, 'pool, 'k, 'author, 'r, 'ds) node_sources \<Rightarrow> ('s, 'pool, 'k, 'author, 'r, 'ds) node_sources \<Rightarrow> bool" where
  "sources_agree p A V \<longleftrightarrow> ns_candidates A = ns_candidates V \<and> ns_delegations A = ns_delegations V
     \<and> (\<forall>scripts. get_state_at_block (ns_governed_map A) (mc_hash p) scripts = get_state_at_block (ns_governed_map V) (mc_hash p) scripts
         \<and> get_mapping_changes (ns_governed_map A) (previous_mc_hash p) (mc_hash p) scripts
           = get_mapping_changes (ns_governed_map V) (previous_mc_hash p) (mc_hash p) scripts)
     \<and> (\<forall>scripts cp n. ns_bridge A scripts cp n (mc_hash p) = ns_bridge V scripts cp n (mc_hash p))"

lemma common_providers_agree:
  assumes "sources_agree p A V" and "iteration_ok (ns_hash_iteration A)" "iteration_ok (ns_hash_iteration V)"
    and "data_source_ok (participation_env_of N A)"
    and "create_common_providers N P A slot e (mc_hash p) (previous_mc_hash p) = Ok c"
  shows "create_common_providers N P V slot e (mc_hash p) (previous_mc_hash p) = Ok c"
proof -
  have env: "participation_env_of N V = participation_env_of N A" using assms(1) by (simp add: participation_env_of_def sources_agree_def)
  have "gm_provider_new (ns_governed_map V) (pa_governed_map P) (mc_hash p) (previous_mc_hash p)
      = gm_provider_new (ns_governed_map A) (pa_governed_map P) (mc_hash p) (previous_mc_hash p)"
    using assms(1) by (simp add: sources_agree_def gm_provider_new_def gm_provider_new_v1_def cong: sum.case_cong option.case_cong bool.case_cong if_cong)
  moreover have "bridge_provider_new (ns_bridge V) (pa_bridge P) (mc_hash p) = bridge_provider_new (ns_bridge A) (pa_bridge P) (mc_hash p)"
    using assms(1) by (simp add: sources_agree_def bridge_provider_new_def bridge_provider_new_v1_def cong: sum.case_cong option.case_cong if_cong)
  moreover have "participation_provider_new (ns_hash_iteration V) (participation_env_of N A) (pa_participation P) slot = Ok r"
    if "participation_provider_new (ns_hash_iteration A) (participation_env_of N A) (pa_participation P) slot = Ok r" for r
    by (rule participation_provider_order [OF assms(2-4) that])
  moreover have "ns_candidates V = ns_candidates A" using assms(1) by (simp add: sources_agree_def)
  ultimately show ?thesis using assms(5) by (auto simp: create_common_providers_def env and_then_eq_Ok map_err_eq_Ok)
qed

lemma verifier_recreates_providers:
  assumes sources: "ns_mc_hash A = db_mc_hash_source D" "ns_mc_hash V = db_mc_hash_source D"
    and nodes: "node_inv D (ns_mc_state A)" "node_inv D (ns_mc_state V)" "node_ext D (ns_mc_state A) (ns_mc_state V)"
    and parent: "pa_header P = Inr header" "slot_from_predigest N header = Inr parent_slot"
      "parent_referenced (ne_slot_timestamp N) (header_digest header) parent_slot (pp_slot p) (slot_duration (ne_sc_slot_config N))
         (db_mc_hash_source D) (ns_mc_state V)"
    and agree: "sources_agree (pp_mc_hash p) A V" "iteration_ok (ns_hash_iteration A)" "iteration_ok (ns_hash_iteration V)"
      "data_source_ok (participation_env_of N A)"
    and proposed: "proposal_cidp N P A now = Ok p"
  shows "\<exists>s'. verifier_cidp N P V later (pp_slot p, mc_hash (pp_mc_hash p)) = Ok \<lparr>vp_timestamp = later, vp_common = pp_common p, vp_mc_state = s'\<rparr>"
proof -
  let ?mc = "pp_mc_hash p"
  have made: "new_proposal (ne_slot_timestamp N) (header_digest header) (db_mc_hash_source D) (ns_mc_state A) (pp_slot p) (slot_duration (ne_sc_slot_config N)) = Ok ?mc"
      "create_common_providers N P A (pp_slot p) (mc_reference_epoch ?mc) (mc_hash ?mc) (previous_mc_hash ?mc) = Ok (pp_common p)"
    using proposed parent(1) sources(1)
    by (auto simp: proposal_cidp_def timestamp_and_slot_cidp_def Let_def and_then_eq_Ok map_err_eq_Ok)
  obtain s' where "new_verification (ne_slot_timestamp N) (header_digest header) parent_slot (pp_slot p) (mc_hash ?mc) (slot_duration (ne_sc_slot_config N))
      (db_mc_hash_source D) (ns_mc_state V) = Ok (?mc, s')"
    using db.proposal_verified [OF nodes made(1) parent(3)] by blast
  then show ?thesis using parent(1,2) sources(2) common_providers_agree [OF agree made(2)]
    by (simp add: verifier_cidp_def Let_def)
qed

text \<open>The header of a block an honest author makes, as the importer gets it, and what it needs of Substrate to be imported.\<close>

definition honest_header :: "('hash, 'auth, 'body, ('author, 'id, 'd, 'r) node_inherent_data, 'e) aura_env \<Rightarrow> ('author, 'id, 'd, 'r) proposal_providers \<Rightarrow> digest_item
     \<Rightarrow> 'hash chain_header \<Rightarrow> bool" where
  "honest_header E p seal header \<longleftrightarrow> (\<exists>logs. propose mc_hash_inherent_digest (\<lambda>_ logs. logs) (proposal_inherent_data p) (aura_pre_digest_data E (pp_slot p)) = Inr logs
     \<and> hd_digest header = logs @ [seal])"

definition substrate_accepts ::
  "('hash, 'auth, 'body, ('author, 'id, 'd, 'r) node_inherent_data, 'e) aura_env \<Rightarrow> ('author, 'id, 'd, 'r) proposal_providers \<Rightarrow> digest_item \<Rightarrow> slot \<Rightarrow> u64
     \<Rightarrow> 'hash chain_header \<Rightarrow> 'hash chain_header \<Rightarrow> 'body \<Rightarrow> bool" where
  "substrate_accepts E p seal current_slot later header pre_header body \<longleftrightarrow>
     value_from_digest [aura_pre_digest E (pp_slot p)] = Inl McHashMissing
     \<and> (\<exists>authorities. aura_authorities E (hd_parent header) (hd_number header) = Some authorities
         \<and> check_header_slot_and_seal E (current_slot + 1) header authorities = Inr (pre_header, pp_slot p, seal)
         \<and> (\<forall>expected. \<exists>r. check_equivocation E (current_slot + 1) (pp_slot p) pre_header expected = Inr r))
     \<and> (\<exists>b. api_checks_inherents E (hd_parent header) = Inr b)
     \<and> check_inherents_with_data E (hd_parent header) pre_header body
         ((proposal_inherent_data p)\<lparr>nd_timestamp := later, nd_slot := None, nd_mc_hash := Inr None\<rparr>) = None"

lemma value_from_digest_skip:
  assumes "value_from_digest [d] = Inl McHashMissing"
  shows "value_from_digest (d # rest) = value_from_digest rest"
  using assms by (cases d) (auto split: if_splits)

lemma honest_digest:
  assumes "honest_header E p seal header" and "value_from_digest [aura_pre_digest E (pp_slot p)] = Inl McHashMissing"
    and "length (mc_hash (pp_mc_hash p)) = 32"
  shows "id_value_from_digest mc_hash_inherent_digest (hd_digest header) = Inr (mc_hash (pp_mc_hash p))"
proof -
  have "hd_digest header = aura_pre_digest E (pp_slot p) # PreRuntime mc_hash_digest_id (mc_hash (pp_mc_hash p)) # [seal]"
    using assms(1) by (auto simp: honest_header_def propose_def mc_hash_inherent_digest_def proposal_inherent_data_def common_inherent_data_def
        mc_hash_provide_inherent_data_def from_inherent_data_def from_mc_block_hash_def aura_pre_digest_data_def mc_hash_def)
  then show ?thesis using assms(2,3) by (simp add: mc_hash_inherent_digest_def value_from_digest_skip)
qed

lemma same_items:
  "verifier_inherent_data \<lparr>vp_timestamp = later, vp_common = pp_common p, vp_mc_state = s'\<rparr>
    = (proposal_inherent_data p)\<lparr>nd_timestamp := later, nd_slot := None, nd_mc_hash := Inr None\<rparr>"
  by (simp add: verifier_inherent_data_def proposal_inherent_data_def common_inherent_data_def)

subsection \<open>Two nodes\<close>

definition reference_hash :: bytes where
  "reference_hash = replicate 32 1"

definition reference_block :: db_block where
  "reference_block = \<lparr>db_block_no = 10, db_block_hash = reference_hash, db_epoch_no = 3, db_slot_no = 100, db_time = 1000\<rparr>"

definition node_db :: "datum db_tables" where
  "node_db = demo_db\<lparr>block_table := [
       \<lparr>block_id = 1, block_no_col = Some 10, block_hash_col = reference_hash, block_epoch_no_col = Some 3, block_slot_no_col = Some 100, block_time_col = 1000\<rparr>,
       \<lparr>block_id = 2, block_no_col = Some 11, block_hash_col = [2], block_epoch_no_col = Some 3, block_slot_no_col = Some 120, block_time_col = 1020\<rparr>]\<rparr>"

lemma reference_hash_ok: "length reference_hash = 32" "reference_hash \<noteq> [2]" "[2] \<noteq> reference_hash"
proof -
  show l: "length reference_hash = 32" by (simp add: reference_hash_def)
  show "reference_hash \<noteq> [2]" using l by (metis length_Cons list.size(3) numeral_eq_one_iff One_nat_def semiring_norm(85))
  then show "[2] \<noteq> reference_hash" by simp
qed

lemma node_db_blocks:
  "db_blocks node_db = {reference_block, \<lparr>db_block_no = 11, db_block_hash = [2], db_epoch_no = 3, db_slot_no = 120, db_time = 1020\<rparr>}"
  by (auto simp: db_blocks_def node_db_def decode_block_def reference_block_def)

lemma node_chain_ok: "chain_ok node_db"
  unfolding chain_ok_def node_db_blocks by (simp add: node_db_def reference_block_def reference_hash_ok)

lemma node_db_inv: "node_inv demo_block_source (Inr node_db, Some [])"
  by (auto simp: node_chain_ok cache_sound_def deep_def node_db_blocks reference_block_def demo_block_source_def)

lemma node_db_latest_stable: "bds_get_latest_stable_block_for demo_block_source (Inr node_db) 1500 = Ok (Some (the_mainchain_block reference_block))"
  by (simp add: bds_get_latest_stable_block_for_def timestamp_to_db_type_def demo_block_source_def
      bds_get_latest_block_info_def get_latest_block_info_def fetch_optional_def order_by_desc_def node_db_def decode_block_def
      mainchain_block_from_def query_def get_latest_block_def min_block_allowed_time_def max_allowed_block_time_def date_time_sub_def
      date_time_to_slot_def timestamp_to_mainchain_slot_number_def demo_epoch_config_def checked_sub_def get_highest_block_def
      into_mainchain_block_def the_mainchain_block_def reference_block_def Let_def saturating_sub_def div_or_panic_def)

end
