(* ===== verification/Offchain.thy ===== *)
theory Offchain
  imports Plutus_Codecs Collections "HOL-Library.Product_Lexorder"
begin

text \<open>
  The transactions of the smart contracts, \<open>toolkit/smart-contracts/offchain/src\<close>: the context and
  the construction of a transaction (\<open>csl.rs\<close>, \<open>plutus_script.rs\<close>), the governance of a Partner
  Chain (\<open>governance.rs\<close>), submission by one key or for many signatures (\<open>multisig.rs\<close>) and the wait
  for the output of a transaction (\<open>await_tx.rs\<close>).

  Cardano and time are a state that every call to the Ogmios client may change: an operation is a
  function from that state to an outcome and the next state. The library
  cardano-serialization-lib is the record \<open>tx_lib\<close>; its transaction builder, transaction body and
  protocol parameters are types of the library, and a call to the builder returns the builder it leaves.
  An error of the library is its text. Adding an input to a \<open>TxInputsBuilder\<close> appends to a list, whose
  invalid entries are refused when the list is set. The conversion of protocol parameters to
  a builder configuration is part of \<open>new_builder\<close>. Log messages and debug assertions are left out,
  and of the file of a temporary wallet only its name and the key in it are kept.
\<close>

subsection \<open>Operations on the outside world\<close>

datatype offchain_error =
    ClientError string
  | CslError string
  | CouldNotBalance string
  | SubmitFailed string
  | RetriesExceeded
  | ScriptError string
  | GovernanceNotFound
  | NoScriptInGovernanceUtxo
  | NotAMultisigPolicy
  | WalletFileError string
  | FailedToCreateTemporaryWallet offchain_error
  | FailedToCreateTransaction offchain_error
  | ValueAlreadyStored
  | CannotUpdateNonexistentKey
  | UnexpectedCurrentValue
  | MultipleUtxos
  | NoDatum
  | CouldNotDecodeDatum
  | RegistrationUtxoNotFound

type_synonym 'a result = "(offchain_error, 'a) outcome"

type_synonym ('w, 'a) io = "'w \<Rightarrow> 'a result \<times> 'w"

definition io_of :: "'a result \<Rightarrow> ('w, 'a) io" where
  "io_of r w = (r, w)"

definition io_then :: "('w, 'a) io \<Rightarrow> ('a \<Rightarrow> ('w, 'b) io) \<Rightarrow> ('w, 'b) io" where
  "io_then m f w = (case m w of (Ok a, w') \<Rightarrow> f a w' | (Err e, w') \<Rightarrow> (Err e, w') | (Panic p, w') \<Rightarrow> (Panic p, w'))"

definition io_map_err :: "(offchain_error \<Rightarrow> offchain_error) \<Rightarrow> ('w, 'a) io \<Rightarrow> ('w, 'a) io" where
  "io_map_err f m w = apfst (map_err f) (m w)"

definition csl_result :: "string + 'a \<Rightarrow> 'a result" where
  "csl_result r = (case r of Inl e \<Rightarrow> Err (CslError e) | Inr a \<Rightarrow> Ok a)"

definition client_result :: "('w \<Rightarrow> (string + 'a) \<times> 'w) \<Rightarrow> ('w, 'a) io" where
  "client_result q w = apfst (\<lambda>r. case r of Inl e \<Rightarrow> Err (ClientError e) | Inr a \<Rightarrow> Ok a) (q w)"

subsection \<open>Scripts, values and outputs\<close>

datatype network = Mainnet | Testnet

datatype language = PlutusV1 | PlutusV2 | PlutusV3

record plutus_script =
  ps_bytes :: bytes
  ps_language :: language

record ogmios_asset =
  oa_name :: bytes
  oa_amount :: u64

text \<open>The map of native tokens is a list of its entries.\<close>

record ogmios_value =
  lovelace :: u64
  native_tokens :: "(bytes \<times> ogmios_asset list) list"

datatype native_script =
    Signature bytes
  | AllOf "native_script list"
  | AnyOf "native_script list"
  | SomeOf "native_script list" u32
  | Before u64

record ogmios_script =
  os_language :: string
  os_cbor :: bytes
  os_json :: "native_script option"

record ogmios_utxo =
  ou_transaction :: bytes
  ou_index :: u16
  ou_address :: string
  ou_value :: ogmios_value
  ou_datum :: "bytes option"
  ou_script :: "ogmios_script option"

definition ou_utxo_id :: "ogmios_utxo \<Rightarrow> utxo_id" where
  "ou_utxo_id u = \<lparr>utxo_tx_hash = ou_transaction u, utxo_index = ou_index u\<rparr>"

datatype credential = FromKeyhash bytes | FromScripthash bytes

datatype script_ref = PlutusRef plutus_script | NativeRef bytes

record 'pd tx_output =
  out_address :: bytes
  out_value :: ogmios_value
  out_plutus_data :: "'pd option"
  out_script_ref :: "script_ref option"

type_synonym ex_units = "u64 \<times> u64"

datatype 'pd input_call =
    PlutusScriptInput plutus_script 'pd ex_units utxo_id ogmios_value
  | RegularUtxo utxo_id "'pd tx_output"
  | RegularInput bytes utxo_id ogmios_value

text \<open>The source of a minting policy: a script, a reference input (with the size of the script) or a native script.\<close>

datatype 'pd mint_source =
    PlutusSource plutus_script 'pd ex_units
  | PlutusRefInput bytes utxo_id language nat 'pd ex_units
  | NativeSource native_script

record witness_set =
  ws_bootstraps :: "bytes option"
  ws_plutus_data :: "bytes option"
  ws_plutus_scripts :: "bytes option"
  ws_redeemers :: "bytes option"
  ws_native_scripts :: "bytes option"
  ws_vkeys :: "(bytes \<times> bytes) list option"

record 'body transaction =
  tx_body :: 'body
  tx_witness_set :: witness_set
  tx_auxiliary_data :: "bytes option"

record ('pp, 'b, 'body, 'pd) tx_lib =
  pd_from_bytes :: "bytes \<Rightarrow> 'pd option"
  enterprise_address :: "u8 \<Rightarrow> credential \<Rightarrow> bytes"
  to_bech32 :: "bytes \<Rightarrow> string + string"
  from_bech32 :: "string \<Rightarrow> string + bytes"
  asset_name_ok :: "bytes \<Rightarrow> bool"
  native_script_ok :: "bytes \<Rightarrow> bool"
  blake2b_224 :: "bytes \<Rightarrow> bytes"
  blake2b_256 :: "bytes \<Rightarrow> bytes"
  to_public :: "bytes \<Rightarrow> bytes"
  public_hash :: "bytes \<Rightarrow> bytes"
  key_sign :: "bytes \<Rightarrow> bytes \<Rightarrow> bytes"
  body_to_bytes :: "'body \<Rightarrow> bytes"
  body_mint_keys :: "'body \<Rightarrow> bytes list option"
  body_inputs :: "'body \<Rightarrow> utxo_id list"
  body_outputs :: "'body \<Rightarrow> 'pd tx_output list"
  max_collateral_inputs :: "'pp \<Rightarrow> u32"
  collateral_percentage :: "'pp \<Rightarrow> u32"
  new_builder :: "'pp \<Rightarrow> string + 'b"
  calculate_ada :: "'pp \<Rightarrow> 'pd tx_output \<Rightarrow> string + u64"
  add_mint :: "'pd mint_source \<Rightarrow> bytes \<Rightarrow> int \<Rightarrow> 'b \<Rightarrow> string + 'b"
  add_reference_input :: "utxo_id \<Rightarrow> 'b \<Rightarrow> 'b"
  set_inputs :: "'pd input_call list \<Rightarrow> 'b \<Rightarrow> string + 'b"
  add_output :: "'pd tx_output \<Rightarrow> 'b \<Rightarrow> string + 'b"
  add_required_signer :: "bytes \<Rightarrow> 'b \<Rightarrow> 'b"
  set_collateral :: "'pd input_call list \<Rightarrow> 'b \<Rightarrow> string + 'b"
  set_script_data_hash :: "bytes \<Rightarrow> 'b \<Rightarrow> 'b"
  calc_script_data_hash :: "'pp \<Rightarrow> 'b \<Rightarrow> string + 'b"
  add_inputs_from_and_change :: "(utxo_id \<times> 'pd tx_output) list \<Rightarrow> bytes \<Rightarrow> 'b \<Rightarrow> string + 'b"
  add_inputs_from_and_change_with_collateral_return :: "(utxo_id \<times> 'pd tx_output) list \<Rightarrow> bytes \<Rightarrow> u32 \<Rightarrow> 'b \<Rightarrow> string + 'b"
  build_tx :: "'b \<Rightarrow> string + 'body transaction"
  value_checked_add :: "ogmios_value \<Rightarrow> ogmios_value \<Rightarrow> string + ogmios_value"
  value_clamped_sub :: "ogmios_value \<Rightarrow> ogmios_value \<Rightarrow> ogmios_value"

fun network_id_kind_to_u8 :: "network \<Rightarrow> u8" where
  "network_id_kind_to_u8 Mainnet = 1"
| "network_id_kind_to_u8 Testnet = 0"

fun language_to_u8 :: "language \<Rightarrow> u8" where
  "language_to_u8 PlutusV1 = 1"
| "language_to_u8 PlutusV2 = 2"
| "language_to_u8 PlutusV3 = 3"

definition plutus_script_hash :: "('pp, 'b, 'body, 'pd) tx_lib \<Rightarrow> plutus_script \<Rightarrow> bytes" where
  "plutus_script_hash L s = blake2b_224 L (language_to_u8 (ps_language s) # ps_bytes s)"

definition script_address :: "('pp, 'b, 'body, 'pd) tx_lib \<Rightarrow> plutus_script \<Rightarrow> network \<Rightarrow> bytes" where
  "script_address L s n = enterprise_address L (network_id_kind_to_u8 n) (FromScripthash (plutus_script_hash L s))"

definition key_hash_address :: "('pp, 'b, 'body, 'pd) tx_lib \<Rightarrow> bytes \<Rightarrow> network \<Rightarrow> bytes" where
  "key_hash_address L key_hash n = enterprise_address L (network_id_kind_to_u8 n) (FromKeyhash key_hash)"

definition ogmios_value_to_csl :: "('pp, 'b, 'body, 'pd) tx_lib \<Rightarrow> ogmios_value \<Rightarrow> ogmios_value result" where
  "ogmios_value_to_csl L v =
     (if list_all (\<lambda>(_, assets). list_all (\<lambda>a. asset_name_ok L (oa_name a)) assets) (native_tokens v) then Ok v
      else Err (CslError ''Could not convert Ogmios UTXO value, asset name is invalid''))"

definition get_asset_amount :: "ogmios_utxo \<Rightarrow> asset_id \<Rightarrow> u64" where
  "get_asset_amount u a =
     (case map_of (native_tokens (ou_value u)) (aid_policy_id a) of
        None \<Rightarrow> 0
      | Some assets \<Rightarrow> (case find (\<lambda>x. oa_name x = aid_asset_name a) assets of None \<Rightarrow> 0 | Some x \<Rightarrow> oa_amount x))"

definition get_plutus_data :: "('pp, 'b, 'body, 'pd) tx_lib \<Rightarrow> ogmios_utxo \<Rightarrow> 'pd option" where
  "get_plutus_data L u = Option.bind (ou_datum u) (pd_from_bytes L)"

definition plutus_script_try_from :: "ogmios_script \<Rightarrow> plutus_script option" where
  "plutus_script_try_from s =
     (if os_language s = ''plutus:v1'' then Some \<lparr>ps_bytes = os_cbor s, ps_language = PlutusV1\<rparr>
      else if os_language s = ''plutus:v2'' then Some \<lparr>ps_bytes = os_cbor s, ps_language = PlutusV2\<rparr>
      else if os_language s = ''plutus:v3'' then Some \<lparr>ps_bytes = os_cbor s, ps_language = PlutusV3\<rparr>
      else None)"

definition ogmios_utxo_to_csl :: "('pp, 'b, 'body, 'pd) tx_lib \<Rightarrow> ogmios_utxo \<Rightarrow> (utxo_id \<times> 'pd tx_output) result" where
  "ogmios_utxo_to_csl L u =
     and_then (csl_result (from_bech32 L (ou_address u))) (\<lambda>address.
     and_then (ogmios_value_to_csl L (ou_value u)) (\<lambda>v.
     Ok (ou_utxo_id u,
       \<lparr>out_address = address, out_value = v, out_plutus_data = get_plutus_data L u,
        out_script_ref = Option.bind (ou_script u) (\<lambda>s.
          case plutus_script_try_from s of
            Some p \<Rightarrow> Some (PlutusRef p)
          | None \<Rightarrow> if native_script_ok L (os_cbor s) then Some (NativeRef (os_cbor s)) else None)\<rparr>)))"

fun ogmios_utxos_to_csl :: "('pp, 'b, 'body, 'pd) tx_lib \<Rightarrow> ogmios_utxo list \<Rightarrow> (utxo_id \<times> 'pd tx_output) list result" where
  "ogmios_utxos_to_csl L [] = Ok []"
| "ogmios_utxos_to_csl L (u # us) =
     and_then (ogmios_utxo_to_csl L u) (\<lambda>x. and_then (ogmios_utxos_to_csl L us) (\<lambda>xs. Ok (x # xs)))"

subsection \<open>Execution costs\<close>

text \<open>The maps of the costs are lists of their entries; \<open>hash_order\<close> is the order in which the keys of a map come.\<close>

datatype costs = ZeroCosts | Costs (mints: "(bytes \<times> ex_units) list") (spends: "(u32 \<times> ex_units) list")

record ogmios_evaluation =
  ev_index :: u32
  ev_purpose :: string
  ev_budget :: ex_units

record ('w, 'pp, 'body) ogmios_client =
  shelley_genesis_network :: "'w \<Rightarrow> (string + network) \<times> 'w"
  query_protocol_parameters :: "'w \<Rightarrow> (string + 'pp) \<times> 'w"
  query_utxos :: "string \<Rightarrow> 'w \<Rightarrow> (string + ogmios_utxo list) \<times> 'w"
  query_utxo_by_id :: "utxo_id \<Rightarrow> 'w \<Rightarrow> (string + ogmios_utxo option) \<times> 'w"
  evaluate_transaction :: "'body transaction \<Rightarrow> 'w \<Rightarrow> (string + ogmios_evaluation list) \<times> 'w"
  submit_transaction :: "'body transaction \<Rightarrow> 'w \<Rightarrow> (string + bytes) \<times> 'w"

definition get_mint :: "('pp, 'b, 'body, 'pd) tx_lib \<Rightarrow> costs \<Rightarrow> plutus_script \<Rightarrow> ex_units result" where
  "get_mint L c s = (case c of
       ZeroCosts \<Rightarrow> Ok (0, 0)
     | Costs ms _ \<Rightarrow> (case map_of ms (plutus_script_hash L s) of None \<Rightarrow> Panic ExpectFailed | Some x \<Rightarrow> Ok x))"

definition get_spend :: "costs \<Rightarrow> u32 \<Rightarrow> ex_units result" where
  "get_spend c i = (case c of
       ZeroCosts \<Rightarrow> Ok (0, 0)
     | Costs _ ss \<Rightarrow> (case map_of ss i of None \<Rightarrow> Panic ExpectFailed | Some x \<Rightarrow> Ok x))"

definition get_one_spend :: "costs \<Rightarrow> ex_units result" where
  "get_one_spend c = (case c of
       ZeroCosts \<Rightarrow> Ok (0, 0)
     | Costs _ ss \<Rightarrow> (case ss of [(_, x)] \<Rightarrow> Ok x | _ \<Rightarrow> Panic ExplicitPanic))"

definition get_spend_indices :: "(u32 list \<Rightarrow> u32 list) \<Rightarrow> costs \<Rightarrow> u32 list" where
  "get_spend_indices hash_order c = (case c of ZeroCosts \<Rightarrow> [] | Costs _ ss \<Rightarrow> hash_order (map fst ss))"

text \<open>\<open>HashMap::insert\<close>\<close>

definition hash_insert :: "'k \<Rightarrow> 'v \<Rightarrow> ('k \<times> 'v) list \<Rightarrow> ('k \<times> 'v) list" where
  "hash_insert k v m = filter (\<lambda>e. fst e \<noteq> k) m @ [(k, v)]"

fun collect_costs :: "bytes list option \<Rightarrow> ogmios_evaluation list \<Rightarrow> (bytes \<times> ex_units) list \<Rightarrow> (u32 \<times> ex_units) list \<Rightarrow> costs result" where
  "collect_costs mint_keys [] ms ss = Ok (Costs ms ss)"
| "collect_costs mint_keys (er # ers) ms ss =
     (if ev_purpose er = ''mint'' then
        (case mint_keys of
           None \<Rightarrow> Panic ExpectFailed
         | Some keys \<Rightarrow>
             if unat (ev_index er) < length keys
             then collect_costs mint_keys ers (hash_insert (keys ! unat (ev_index er)) (ev_budget er) ms) ss
             else Panic IndexOutOfBounds)
      else if ev_purpose er = ''spend'' then collect_costs mint_keys ers ms (hash_insert (ev_index er) (ev_budget er) ss)
      else collect_costs mint_keys ers ms ss)"

definition from_ogmios :: "('pp, 'b, 'body, 'pd) tx_lib \<Rightarrow> ('w, 'pp, 'body) ogmios_client \<Rightarrow> 'body transaction \<Rightarrow> ('w, costs) io" where
  "from_ogmios L C tx =
     io_then (client_result (evaluate_transaction C tx)) (\<lambda>evaluate_response.
     io_of (collect_costs (body_mint_keys L (tx_body tx)) evaluate_response [] []))"

definition calculate_costs ::
  "('pp, 'b, 'body, 'pd) tx_lib \<Rightarrow> ('w, 'pp, 'body) ogmios_client \<Rightarrow> (costs \<Rightarrow> 'body transaction result) \<Rightarrow> ('w, 'body transaction) io" where
  "calculate_costs L C make_tx =
     io_then (io_of (make_tx ZeroCosts)) (\<lambda>tx.
     io_then (from_ogmios L C tx) (\<lambda>costs.
     io_then (io_of (make_tx costs)) (\<lambda>tx.
     io_then (from_ogmios L C tx) (\<lambda>costs.
     io_of (make_tx costs)))))"

subsection \<open>The context of a transaction\<close>

record 'pp transaction_context =
  payment_key :: bytes
  payment_key_utxos :: "ogmios_utxo list"
  ctx_network :: network
  protocol_parameters :: 'pp
  change_address :: bytes

definition payment_key_hash :: "('pp, 'b, 'body, 'pd) tx_lib \<Rightarrow> 'pp transaction_context \<Rightarrow> bytes" where
  "payment_key_hash L ctx = public_hash L (to_public L (payment_key ctx))"

definition for_payment_key ::
  "('pp, 'b, 'body, 'pd) tx_lib \<Rightarrow> ('w, 'pp, 'body) ogmios_client \<Rightarrow> bytes \<Rightarrow> ('w, 'pp transaction_context) io" where
  "for_payment_key L C key =
     io_then (client_result (shelley_genesis_network C)) (\<lambda>n.
     io_then (client_result (query_protocol_parameters C)) (\<lambda>pp.
     let payment_address = key_hash_address L (public_hash L (to_public L key)) n in
     io_then (io_of (csl_result (to_bech32 L payment_address))) (\<lambda>a.
     io_then (client_result (query_utxos C a)) (\<lambda>utxos.
     io_of (Ok \<lparr>payment_key = key, payment_key_utxos = utxos, ctx_network = n, protocol_parameters = pp,
       change_address = payment_address\<rparr>)))))"

definition ctx_sign :: "('pp, 'b, 'body, 'pd) tx_lib \<Rightarrow> 'pp transaction_context \<Rightarrow> 'body transaction \<Rightarrow> 'body transaction" where
  "ctx_sign L ctx tx =
     (let tx_hash = blake2b_256 L (body_to_bytes L (tx_body tx));
          signature = key_sign L (payment_key ctx) tx_hash;
          ws = tx_witness_set tx;
          vkeys = (case ws_vkeys ws of None \<Rightarrow> [] | Some v \<Rightarrow> v)
      in tx\<lparr>tx_witness_set := ws\<lparr>ws_vkeys := Some (vkeys @ [(to_public L (payment_key ctx), signature)])\<rparr>\<rparr>)"

definition remove_native_script_witnesses :: "'body transaction \<Rightarrow> 'body transaction" where
  "remove_native_script_witnesses tx = tx\<lparr>tx_witness_set := (tx_witness_set tx)\<lparr>ws_native_scripts := None\<rparr>\<rparr>"

subsection \<open>Building a transaction\<close>

definition unit_plutus_data :: "'pd csl \<Rightarrow> 'pd" where
  "unit_plutus_data c = new_constr c 0 []"

text \<open>The output of a builder with its least amount of Ada, and one that holds one token of a policy besides.\<close>

definition with_minimum_ada :: "('pp, 'b, 'body, 'pd) tx_lib \<Rightarrow> 'pp transaction_context \<Rightarrow> 'pd tx_output \<Rightarrow> 'pd tx_output result" where
  "with_minimum_ada L ctx out =
     and_then (csl_result (calculate_ada L (protocol_parameters ctx) (out\<lparr>out_value := (out_value out)\<lparr>lovelace := 0\<rparr>\<rparr>))) (\<lambda>min_ada.
     Ok (out\<lparr>out_value := (out_value out)\<lparr>lovelace := min_ada\<rparr>\<rparr>))"

definition add_output_with_one_script_token ::
  "('pp, 'b, 'body, 'pd) tx_lib \<Rightarrow> plutus_script \<Rightarrow> plutus_script \<Rightarrow> 'pd \<Rightarrow> 'pp transaction_context \<Rightarrow> 'b \<Rightarrow> 'b result" where
  "add_output_with_one_script_token L validator policy datum ctx b =
     and_then (with_minimum_ada L ctx
       \<lparr>out_address = script_address L validator (ctx_network ctx),
        out_value = \<lparr>lovelace = 0, native_tokens = [(plutus_script_hash L policy, [\<lparr>oa_name = [], oa_amount = 1\<rparr>])]\<rparr>,
        out_plutus_data = Some datum, out_script_ref = None\<rparr>) (\<lambda>output.
     csl_result (add_output L output b))"

definition add_mint_script_tokens ::
  "('pp, 'b, 'body, 'pd) tx_lib \<Rightarrow> plutus_script \<Rightarrow> bytes \<Rightarrow> 'pd \<Rightarrow> ex_units \<Rightarrow> int \<Rightarrow> 'b \<Rightarrow> 'b result" where
  "add_mint_script_tokens L script asset_name redeemer_data units amount b =
     csl_result (add_mint L (PlutusSource script redeemer_data units) asset_name amount b)"

definition add_mint_one_script_token ::
  "('pp, 'b, 'body, 'pd) tx_lib \<Rightarrow> plutus_script \<Rightarrow> bytes \<Rightarrow> 'pd \<Rightarrow> ex_units \<Rightarrow> 'b \<Rightarrow> 'b result" where
  "add_mint_one_script_token L script asset_name redeemer_data units b =
     csl_result (add_mint L (PlutusSource script redeemer_data units) asset_name 1 b)"

datatype script = PlutusScript plutus_script | NativeScript native_script

definition add_mint_script_token_using_reference_script ::
  "('pp, 'b, 'body, 'pd) tx_lib \<Rightarrow> 'pd csl \<Rightarrow> script \<Rightarrow> utxo_id \<Rightarrow> int \<Rightarrow> costs \<Rightarrow> 'b \<Rightarrow> 'b result" where
  "add_mint_script_token_using_reference_script L c script ref_input amount costs b = (case script of
       PlutusScript s \<Rightarrow>
         and_then (get_mint L costs s) (\<lambda>units.
         csl_result (add_mint L (PlutusRefInput (plutus_script_hash L s) ref_input (ps_language s) (length (ps_bytes s))
           (unit_plutus_data c) units) [] amount b))
     | NativeScript s \<Rightarrow>
         and_then (csl_result (add_mint L (NativeSource s) [] amount b)) (\<lambda>b.
         Ok (add_reference_input L ref_input b)))"

definition script_utxo_input ::
  "('pp, 'b, 'body, 'pd) tx_lib \<Rightarrow> ogmios_utxo \<Rightarrow> plutus_script \<Rightarrow> 'pd \<Rightarrow> ex_units \<Rightarrow> 'pd input_call result" where
  "script_utxo_input L u script data units =
     and_then (ogmios_value_to_csl L (ou_value u)) (\<lambda>amount.
     Ok (PlutusScriptInput script data units (ou_utxo_id u) amount))"

definition max_possible_collaterals :: "('pp, 'b, 'body, 'pd) tx_lib \<Rightarrow> 'pp transaction_context \<Rightarrow> ogmios_utxo list" where
  "max_possible_collaterals L ctx =
     take (unat (max_collateral_inputs L (protocol_parameters ctx)))
       (sort_key (\<lambda>u. - uint (lovelace (ou_value u))) (payment_key_utxos ctx))"

fun collateral_inputs ::
  "('pp, 'b, 'body, 'pd) tx_lib \<Rightarrow> 'pp transaction_context \<Rightarrow> ogmios_utxo list \<Rightarrow> 'pd input_call list result" where
  "collateral_inputs L ctx [] = Ok []"
| "collateral_inputs L ctx (u # us) =
     and_then (ogmios_value_to_csl L (ou_value u)) (\<lambda>v.
     and_then (collateral_inputs L ctx us) (\<lambda>is.
     Ok (RegularInput (key_hash_address L (payment_key_hash L ctx) (ctx_network ctx)) (ou_utxo_id u) v # is)))"

definition try_balance ::
  "('pp, 'b, 'body, 'pd) tx_lib \<Rightarrow> 'pp transaction_context \<Rightarrow> ogmios_utxo list \<Rightarrow> 'b \<Rightarrow> 'body transaction result" where
  "try_balance L ctx collateral b =
     (let b = add_required_signer L (payment_key_hash L ctx) b in
      and_then
       (if collateral = [] then
          and_then (ogmios_utxos_to_csl L (payment_key_utxos ctx)) (\<lambda>utxos.
          csl_result (add_inputs_from_and_change L utxos (change_address ctx) b))
        else
          and_then (collateral_inputs L ctx collateral) (\<lambda>inputs.
          and_then (csl_result (set_collateral L inputs b)) (\<lambda>b.
          let b = set_script_data_hash L (replicate 32 0) b in
          and_then (ogmios_utxos_to_csl L (payment_key_utxos ctx)) (\<lambda>utxos.
          and_then (csl_result (add_inputs_from_and_change_with_collateral_return L utxos (change_address ctx)
            (collateral_percentage L (protocol_parameters ctx)) b)) (\<lambda>b.
          csl_result (calc_script_data_hash L (protocol_parameters ctx) b))))))
       (\<lambda>b. csl_result (build_tx L b)))"

text \<open>The error of the last attempt is wrapped; a failed attempt only leads to one more collateral input.\<close>

definition could_not_balance :: "offchain_error \<Rightarrow> offchain_error" where
  "could_not_balance e = CouldNotBalance (case e of CslError m \<Rightarrow> m | _ \<Rightarrow> [])"

fun balance_loop ::
  "('pp, 'b, 'body, 'pd) tx_lib \<Rightarrow> 'pp transaction_context \<Rightarrow> 'b \<Rightarrow> ogmios_utxo list \<Rightarrow> ogmios_utxo list \<Rightarrow> 'body transaction result" where
  "balance_loop L ctx b [] selected = map_err could_not_balance (try_balance L ctx selected b)"
| "balance_loop L ctx b (input # rest) selected = (case try_balance L ctx selected b of
       Ok tx \<Rightarrow> Ok tx
     | Err _ \<Rightarrow> balance_loop L ctx b rest (selected @ [input])
     | Panic p \<Rightarrow> Panic p)"

definition balance_update_and_build ::
  "('pp, 'b, 'body, 'pd) tx_lib \<Rightarrow> 'pp transaction_context \<Rightarrow> 'b \<Rightarrow> 'body transaction result" where
  "balance_update_and_build L ctx b = balance_loop L ctx b (max_possible_collaterals L ctx) []"

subsection \<open>The environment of an operation\<close>

text \<open>
  Besides the libraries and the client: the scripts of the smart contracts and the numbers of \<open>ScriptId\<close> (crate \<open>raw-scripts\<close>),
  application of a script to an argument and the last argument of a script (crate \<open>uplc\<close>; \<open>Inl\<close> if the script is not valid, where
  the code unwraps), the generator of keys, the file system and the delay between two probes.
\<close>

datatype script_name =
    VersionOracleValidator | VersionOraclePolicy | GovernedMapValidator | GovernedMapPolicy | DParameterValidator | DParameterPolicy
  | PermissionedCandidatesValidator | PermissionedCandidatesPolicy | CommitteeCandidateValidator

datatype script_arg = DatumArg datum | AddressArg bytes

record ('w, 'pp, 'b, 'body, 'pd) offchain =
  lib :: "('pp, 'b, 'body, 'pd) tx_lib"
  csl :: "'pd csl"
  client :: "('w, 'pp, 'body) ogmios_client"
  raw_script :: "script_name \<Rightarrow> bytes"
  governed_map_validator_id :: u32
  governed_map_policy_id :: u32
  governance_policy_id :: u32
  apply_data :: "bytes \<Rightarrow> script_arg \<Rightarrow> string + bytes"
  last_argument :: "bytes \<Rightarrow> string + 'pd option"
  hash_order :: "u32 list \<Rightarrow> u32 list"
  generate_ed25519 :: "'w \<Rightarrow> (string + bytes) \<times> 'w"
  write_file :: "string \<Rightarrow> bytes \<Rightarrow> 'w \<Rightarrow> (string + unit) \<times> 'w"
  sleep :: "'w \<Rightarrow> 'w"
  retries :: nat

subsection \<open>Scripts of the Partner Chain\<close>

record plutus_script_data =
  psd_validator :: plutus_script
  psd_validator_address :: string
  psd_policy :: plutus_script

fun apply_arguments :: "(bytes \<Rightarrow> script_arg \<Rightarrow> string + bytes) \<Rightarrow> plutus_script \<Rightarrow> script_arg list \<Rightarrow> plutus_script result" where
  "apply_arguments app s [] = Ok s"
| "apply_arguments app s (arg # args) = (case app (ps_bytes s) arg of
       Inl e \<Rightarrow> Err (ScriptError e)
     | Inr b \<Rightarrow> apply_arguments app (s\<lparr>ps_bytes := b\<rparr>) args)"

definition plutus_script_of ::
  "('w, 'pp, 'b, 'body, 'pd) offchain \<Rightarrow> script_name \<Rightarrow> script_arg list \<Rightarrow> plutus_script result" where
  "plutus_script_of E name args = apply_arguments (apply_data E) \<lparr>ps_bytes = raw_script E name, ps_language = PlutusV2\<rparr> args"

definition address_bech32 :: "('w, 'pp, 'b, 'body, 'pd) offchain \<Rightarrow> plutus_script \<Rightarrow> network \<Rightarrow> string result" where
  "address_bech32 E s n = csl_result (to_bech32 (lib E) (script_address (lib E) s n))"

definition policy_arg :: "('w, 'pp, 'b, 'body, 'pd) offchain \<Rightarrow> plutus_script_data \<Rightarrow> script_arg" where
  "policy_arg E d = DatumArg (derive_to_datum False [bytes_to_datum (plutus_script_hash (lib E) (psd_policy d))])"

definition version_oracle_scripts :: "('w, 'pp, 'b, 'body, 'pd) offchain \<Rightarrow> utxo_id \<Rightarrow> network \<Rightarrow> plutus_script_data result" where
  "version_oracle_scripts E genesis_utxo n =
     and_then (plutus_script_of E VersionOracleValidator [DatumArg (utxo_id_to_datum genesis_utxo)]) (\<lambda>validator.
     and_then (address_bech32 E validator n) (\<lambda>address.
     and_then (plutus_script_of E VersionOraclePolicy [DatumArg (utxo_id_to_datum genesis_utxo), AddressArg (script_address (lib E) validator n)]) (\<lambda>policy.
     Ok \<lparr>psd_validator = validator, psd_validator_address = address, psd_policy = policy\<rparr>)))"

definition governed_map_scripts :: "('w, 'pp, 'b, 'body, 'pd) offchain \<Rightarrow> utxo_id \<Rightarrow> network \<Rightarrow> plutus_script_data result" where
  "governed_map_scripts E genesis_utxo n =
     and_then (version_oracle_scripts E genesis_utxo n) (\<lambda>vo.
     and_then (plutus_script_of E GovernedMapValidator
       [DatumArg (uint_to_datum (governed_map_validator_id E)), DatumArg (utxo_id_to_datum genesis_utxo), policy_arg E vo]) (\<lambda>validator.
     and_then (address_bech32 E validator n) (\<lambda>address.
     and_then (plutus_script_of E GovernedMapPolicy
       [DatumArg (uint_to_datum (governed_map_policy_id E)), DatumArg (utxo_id_to_datum genesis_utxo), policy_arg E vo]) (\<lambda>policy.
     Ok \<lparr>psd_validator = validator, psd_validator_address = address, psd_policy = policy\<rparr>))))"

definition d_parameter_scripts :: "('w, 'pp, 'b, 'body, 'pd) offchain \<Rightarrow> utxo_id \<Rightarrow> network \<Rightarrow> plutus_script_data result" where
  "d_parameter_scripts E genesis_utxo n =
     and_then (version_oracle_scripts E genesis_utxo n) (\<lambda>vo.
     and_then (plutus_script_of E DParameterValidator [DatumArg (utxo_id_to_datum genesis_utxo), policy_arg E vo]) (\<lambda>validator.
     and_then (address_bech32 E validator n) (\<lambda>address.
     and_then (plutus_script_of E DParameterPolicy
       [DatumArg (utxo_id_to_datum genesis_utxo), policy_arg E vo, AddressArg (script_address (lib E) validator n)]) (\<lambda>policy.
     Ok \<lparr>psd_validator = validator, psd_validator_address = address, psd_policy = policy\<rparr>))))"

definition permissioned_candidates_scripts :: "('w, 'pp, 'b, 'body, 'pd) offchain \<Rightarrow> utxo_id \<Rightarrow> network \<Rightarrow> plutus_script_data result" where
  "permissioned_candidates_scripts E genesis_utxo n =
     and_then (version_oracle_scripts E genesis_utxo n) (\<lambda>vo.
     and_then (plutus_script_of E PermissionedCandidatesValidator [DatumArg (utxo_id_to_datum genesis_utxo), policy_arg E vo]) (\<lambda>validator.
     and_then (address_bech32 E validator n) (\<lambda>address.
     and_then (plutus_script_of E PermissionedCandidatesPolicy
       [DatumArg (utxo_id_to_datum genesis_utxo), policy_arg E vo, AddressArg (script_address (lib E) validator n)]) (\<lambda>policy.
     Ok \<lparr>psd_validator = validator, psd_validator_address = address, psd_policy = policy\<rparr>))))"

subsection \<open>Governance\<close>

datatype governance_policy =
    MultiSig plutus_script "bytes list" u32
  | AtLeastN u32 "bytes list"

record governance_data =
  gov_policy :: governance_policy
  gov_utxo :: ogmios_utxo

fun governance_script :: "governance_policy \<Rightarrow> script" where
  "governance_script (MultiSig s _ _) = PlutusScript s"
| "governance_script (AtLeastN threshold key_hashes) = NativeScript (SomeOf (map Signature key_hashes) threshold)"

fun is_single_key_policy_for :: "governance_policy \<Rightarrow> bytes \<Rightarrow> bool" where
  "is_single_key_policy_for (MultiSig _ key_hashes threshold) k = (threshold = 1 \<and> length key_hashes = 1 \<and> k \<in> set key_hashes)"
| "is_single_key_policy_for (AtLeastN threshold key_hashes) k = (threshold = 1 \<and> length key_hashes = 1 \<and> k \<in> set key_hashes)"

fun contains_authority :: "governance_policy \<Rightarrow> bytes \<Rightarrow> bool" where
  "contains_authority (MultiSig _ key_hashes _) k = (k \<in> set key_hashes)"
| "contains_authority (AtLeastN _ key_hashes) k = (k \<in> set key_hashes)"

definition parse_pc_multisig :: "('w, 'pp, 'b, 'body, 'pd) offchain \<Rightarrow> plutus_script \<Rightarrow> governance_policy option result" where
  "parse_pc_multisig E s = (case last_argument E (ps_bytes s) of
       Inl _ \<Rightarrow> Panic ExpectFailed
     | Inr arg \<Rightarrow> Ok (do {
         d \<leftarrow> arg;
         l \<leftarrow> as_list (csl E) d;
         (first, rest) \<leftarrow> iter_next l;
         hashes \<leftarrow> as_list (csl E) first;
         (second, _) \<leftarrow> iter_next rest;
         threshold \<leftarrow> as_u32 (csl E) second;
         Some (MultiSig s (List.map_filter (\<lambda>i. Option.bind (as_bytes (csl E) i) (to_array 28)) hashes) threshold) }))"

definition parse_simple_at_least_n_native_script :: "ogmios_script \<Rightarrow> governance_policy option" where
  "parse_simple_at_least_n_native_script s = (case os_json s of
       Some (SomeOf from at_least) \<Rightarrow>
         map_option (AtLeastN at_least) (those (map (\<lambda>x. case x of Signature h \<Rightarrow> Some h | _ \<Rightarrow> None) from))
     | _ \<Rightarrow> None)"

definition read_policy :: "('w, 'pp, 'b, 'body, 'pd) offchain \<Rightarrow> ogmios_utxo \<Rightarrow> governance_policy result" where
  "read_policy E u = (case ou_script u of
       None \<Rightarrow> Err NoScriptInGovernanceUtxo
     | Some s \<Rightarrow>
         and_then (case plutus_script_try_from s of None \<Rightarrow> Ok None | Some p \<Rightarrow> parse_pc_multisig E p) (\<lambda>plutus_multisig.
         checked NotAMultisigPolicy (case plutus_multisig of
             Some p \<Rightarrow> Some p
           | None \<Rightarrow> parse_simple_at_least_n_native_script s)))"

definition get_governance_utxo :: "('w, 'pp, 'b, 'body, 'pd) offchain \<Rightarrow> utxo_id \<Rightarrow> ('w, ogmios_utxo option) io" where
  "get_governance_utxo E genesis_utxo =
     io_then (client_result (shelley_genesis_network (client E))) (\<lambda>n.
     io_then (io_of (version_oracle_scripts E genesis_utxo n)) (\<lambda>vo.
     io_then (client_result (query_utxos (client E) (psd_validator_address vo))) (\<lambda>utxos.
     io_of (Ok (find (\<lambda>u.
         (case Option.bind (get_plutus_data (lib E) u) (\<lambda>d. result_ok (version_oracle_datum_try_from (csl E) d)) of
            None \<Rightarrow> False
          | Some d \<Rightarrow> vod_version_oracle d = governance_policy_id E)
         \<and> map_of (native_tokens (ou_value u)) (plutus_script_hash (lib E) (psd_policy vo)) \<noteq> None) utxos)))))"

definition governance_get :: "('w, 'pp, 'b, 'body, 'pd) offchain \<Rightarrow> utxo_id \<Rightarrow> ('w, governance_data) io" where
  "governance_get E genesis_utxo =
     io_then (get_governance_utxo E genesis_utxo) (\<lambda>found.
     io_then (io_of (checked GovernanceNotFound found)) (\<lambda>u.
     io_then (io_of (read_policy E u)) (\<lambda>policy.
     io_of (Ok \<lparr>gov_policy = policy, gov_utxo = u\<rparr>))))"

definition add_governance_mint ::
  "('w, 'pp, 'b, 'body, 'pd) offchain \<Rightarrow> governance_data \<Rightarrow> costs \<Rightarrow> 'b \<Rightarrow> 'b result" where
  "add_governance_mint E g costs b = add_mint_script_token_using_reference_script (lib E) (csl E)
     (governance_script (gov_policy g)) (ou_utxo_id (gov_utxo g)) 1 costs b"

subsection \<open>Waiting for a transaction\<close>

primrec await_loop :: "('w, 'pp, 'b, 'body, 'pd) offchain \<Rightarrow> utxo_id \<Rightarrow> nat \<Rightarrow> ('w, unit) io" where
  "await_loop E u 0 = (\<lambda>w. case query_utxo_by_id (client E) u w of
       (Inr (Some _), w') \<Rightarrow> (Ok (), w')
     | (_, w') \<Rightarrow> (Err RetriesExceeded, w'))"
| "await_loop E u (Suc n) = (\<lambda>w. case query_utxo_by_id (client E) u w of
       (Inr (Some _), w') \<Rightarrow> (Ok (), w')
     | (_, w') \<Rightarrow> await_loop E u n (sleep E w'))"

definition await_tx_output :: "('w, 'pp, 'b, 'body, 'pd) offchain \<Rightarrow> bytes \<Rightarrow> ('w, unit) io" where
  "await_tx_output E tx_hash = await_loop E \<lparr>utxo_tx_hash = tx_hash, utxo_index = 0\<rparr> (retries E)"

subsection \<open>Submission\<close>

record temporary_wallet =
  tw_address :: bytes
  tw_private_key :: bytes

datatype 'body multisig_result =
    TransactionSubmitted bytes
  | TransactionToSign string string bytes "'body transaction"

definition wallet_bech32 :: "('w, 'pp, 'b, 'body, 'pd) offchain \<Rightarrow> temporary_wallet \<Rightarrow> string result" where
  "wallet_bech32 E wallet = (case to_bech32 (lib E) (tw_address wallet) of Inl _ \<Rightarrow> Panic ExpectFailed | Inr a \<Rightarrow> Ok a)"

definition create_temporary_wallet :: "('w, 'pp, 'b, 'body, 'pd) offchain \<Rightarrow> network \<Rightarrow> ('w, temporary_wallet) io" where
  "create_temporary_wallet E n =
     io_then (\<lambda>w. apfst csl_result (generate_ed25519 E w)) (\<lambda>key.
     io_of (Ok \<lparr>tw_address = key_hash_address (lib E) (public_hash (lib E) (to_public (lib E) key)) n, tw_private_key = key\<rparr>))"

fun checked_sum :: "('pp, 'b, 'body, 'pd) tx_lib \<Rightarrow> ogmios_value \<Rightarrow> ogmios_value list \<Rightarrow> ogmios_value result" where
  "checked_sum L acc [] = Ok acc"
| "checked_sum L acc (v # vs) = and_then (csl_result (value_checked_add L acc v)) (\<lambda>acc. checked_sum L acc vs)"

definition ada_value :: "u64 \<Rightarrow> ogmios_value" where
  "ada_value n = \<lparr>lovelace = n, native_tokens = []\<rparr>"

text \<open>An input that is not among the payment UTXOs does not count; one that is, is converted first.\<close>

fun total_inputs ::
  "('pp, 'b, 'body, 'pd) tx_lib \<Rightarrow> ogmios_utxo list \<Rightarrow> ogmios_value \<Rightarrow> utxo_id list \<Rightarrow> ogmios_value result" where
  "total_inputs L utxos acc [] = Ok acc"
| "total_inputs L utxos acc (i # is) = (case find (\<lambda>u. ou_utxo_id u = i) utxos of
       None \<Rightarrow> total_inputs L utxos acc is
     | Some u \<Rightarrow>
         and_then (ogmios_utxo_to_csl L u) (\<lambda>(_, out).
         and_then (csl_result (value_checked_add L acc (out_value out))) (\<lambda>acc.
         total_inputs L utxos acc is)))"

definition estimate_required_value ::
  "('pp, 'b, 'body, 'pd) tx_lib \<Rightarrow> 'body \<Rightarrow> 'pp transaction_context \<Rightarrow> ogmios_value result" where
  "estimate_required_value L body ctx =
     and_then (checked_sum L (ada_value 0) (map out_value (filter (\<lambda>out. out_address out = change_address ctx) (body_outputs L body)))) (\<lambda>change.
     and_then (total_inputs L (payment_key_utxos ctx) (ada_value 0) (body_inputs L body)) (\<lambda>total_input.
     csl_result (value_checked_add L (value_clamped_sub L total_input change) (ada_value 5000000))))"

definition transfer_to_temporary_wallet ::
  "('w, 'pp, 'b, 'body, 'pd) offchain \<Rightarrow> 'pp transaction_context \<Rightarrow> bytes \<Rightarrow> ogmios_value \<Rightarrow> ('w, unit) io" where
  "transfer_to_temporary_wallet E ctx address v =
     io_then (io_of (
       and_then (csl_result (new_builder (lib E) (protocol_parameters ctx))) (\<lambda>b.
       and_then (csl_result (add_output (lib E)
         \<lparr>out_address = address, out_value = v, out_plutus_data = None, out_script_ref = None\<rparr> b)) (\<lambda>b.
       balance_update_and_build (lib E) ctx b)))) (\<lambda>funding_tx.
     io_then (client_result (submit_transaction (client E) (ctx_sign (lib E) ctx funding_tx))) (\<lambda>_.
     await_tx_output E (blake2b_256 (lib E) (body_to_bytes (lib E) (tx_body funding_tx)))))"

definition fund_temporary_wallet ::
  "('w, 'pp, 'b, 'body, 'pd) offchain \<Rightarrow> (costs \<Rightarrow> 'pp transaction_context \<Rightarrow> 'body transaction result)
     \<Rightarrow> 'pp transaction_context \<Rightarrow> ('w, temporary_wallet) io" where
  "fund_temporary_wallet E make_tx ctx =
     io_then (create_temporary_wallet E (ctx_network ctx)) (\<lambda>wallet.
     io_then (calculate_costs (lib E) (client E) (\<lambda>c. make_tx c ctx)) (\<lambda>tx.
     io_then (io_of (estimate_required_value (lib E) (tx_body tx) ctx)) (\<lambda>v.
     io_then (io_of (wallet_bech32 E wallet)) (\<lambda>file_name.
     io_then (\<lambda>w. apfst (\<lambda>r. case r of Inl e \<Rightarrow> Err (WalletFileError e) | Inr u \<Rightarrow> Ok u)
       (write_file E (file_name @ ''.skey'') (tw_private_key wallet) w)) (\<lambda>_.
     io_then (transfer_to_temporary_wallet E ctx (tw_address wallet) v) (\<lambda>_.
     io_of (Ok wallet)))))))"

definition submit_single_governance_key_tx ::
  "('w, 'pp, 'b, 'body, 'pd) offchain \<Rightarrow> 'pp transaction_context \<Rightarrow> (costs \<Rightarrow> 'pp transaction_context \<Rightarrow> 'body transaction result)
     \<Rightarrow> ('w, bytes) io" where
  "submit_single_governance_key_tx E ctx make_tx =
     io_then (calculate_costs (lib E) (client E) (\<lambda>c. make_tx c ctx)) (\<lambda>tx.
     io_then (io_map_err (\<lambda>e. SubmitFailed (case e of ClientError m \<Rightarrow> m | _ \<Rightarrow> []))
       (client_result (submit_transaction (client E) (ctx_sign (lib E) ctx tx)))) (\<lambda>tx_id.
     io_then (await_tx_output E tx_id) (\<lambda>_.
     io_of (Ok tx_id))))"

definition create_transaction_to_sign ::
  "('w, 'pp, 'b, 'body, 'pd) offchain \<Rightarrow> 'pp transaction_context \<Rightarrow> (costs \<Rightarrow> 'pp transaction_context \<Rightarrow> 'body transaction result)
     \<Rightarrow> governance_data \<Rightarrow> string \<Rightarrow> ('w, 'body multisig_result) io" where
  "create_transaction_to_sign E ctx make_tx g tx_name =
     io_then (io_map_err FailedToCreateTemporaryWallet (fund_temporary_wallet E make_tx ctx)) (\<lambda>wallet.
     io_then (for_payment_key (lib E) (client E) (tw_private_key wallet)) (\<lambda>wallet_ctx.
     let wallet_ctx = wallet_ctx\<lparr>change_address := change_address ctx\<rparr> in
     io_then (io_map_err FailedToCreateTransaction (calculate_costs (lib E) (client E) (\<lambda>c. make_tx c wallet_ctx))) (\<lambda>tx.
     let signed_by_caller = (if contains_authority (gov_policy g) (payment_key_hash (lib E) ctx) then ctx_sign (lib E) ctx tx else tx);
         signed = ctx_sign (lib E) wallet_ctx signed_by_caller in
     io_then (io_of (wallet_bech32 E wallet)) (\<lambda>address.
     io_of (Ok (TransactionToSign tx_name address (public_hash (lib E) (to_public (lib E) (tw_private_key wallet))) signed))))))"

definition submit_or_create_tx_to_sign ::
  "('w, 'pp, 'b, 'body, 'pd) offchain \<Rightarrow> governance_data \<Rightarrow> 'pp transaction_context
     \<Rightarrow> (costs \<Rightarrow> 'pp transaction_context \<Rightarrow> 'body transaction result) \<Rightarrow> string \<Rightarrow> ('w, 'body multisig_result) io" where
  "submit_or_create_tx_to_sign E g ctx make_tx tx_name =
     (if is_single_key_policy_for (gov_policy g) (payment_key_hash (lib E) ctx)
      then io_then (submit_single_governance_key_tx E ctx make_tx) (\<lambda>tx_id. io_of (Ok (TransactionSubmitted tx_id)))
      else create_transaction_to_sign E ctx make_tx g tx_name)"

end
