(* ===== verification/Offchain_Ops.thy ===== *)
theory Offchain_Ops
  imports Offchain
begin

text \<open>
  The operations that change the data of a Partner Chain on Cardano, \<open>toolkit/smart-contracts/offchain/src\<close>: the
  governed map (\<open>governed_map/mod.rs\<close>), the D-parameter (\<open>d_param/mod.rs\<close>), the permissioned candidates
  (\<open>permissioned_candidates.rs\<close>) and the registration of a candidate (\<open>register.rs\<close>). What a submitted transaction
  does to the UTXOs at an address is the ledger rule \<open>apply_tx\<close>; the laws of the transaction builder that
  the code relies on are \<open>tx_lib_ok\<close>.
\<close>

subsection \<open>The governed map\<close>

text \<open>A decoder may panic, so the iteration over the UTXOs is an explicit recursion that stops where the iterator does.\<close>

definition governed_map_utxo ::
  "('w, 'pp, 'b, 'body, 'pd) offchain \<Rightarrow> bytes \<Rightarrow> ogmios_utxo \<Rightarrow> governed_map_datum option result" where
  "governed_map_utxo E token u =
     (case map_of (native_tokens (ou_value u)) token of
        None \<Rightarrow> Ok None
      | Some _ \<Rightarrow> (case get_plutus_data (lib E) u of
          None \<Rightarrow> Ok None
        | Some d \<Rightarrow> (case governed_map_datum_try_from (csl E) d of
            Ok g \<Rightarrow> Ok (Some g)
          | Err _ \<Rightarrow> Ok None
          | Panic p \<Rightarrow> Panic p)))"

fun get_current_value ::
  "('w, 'pp, 'b, 'body, 'pd) offchain \<Rightarrow> ogmios_utxo list \<Rightarrow> bytes \<Rightarrow> bytes \<Rightarrow> bytes option result" where
  "get_current_value E [] key token = Ok None"
| "get_current_value E (u # us) key token =
     and_then (governed_map_utxo E token u) (\<lambda>g. case g of
       Some g \<Rightarrow> if gmd_key g = key then Ok (Some (gmd_value g)) else get_current_value E us key token
     | None \<Rightarrow> get_current_value E us key token)"

fun governed_map_utxos ::
  "('w, 'pp, 'b, 'body, 'pd) offchain \<Rightarrow> ogmios_utxo list \<Rightarrow> bytes \<Rightarrow> (ogmios_utxo \<times> governed_map_datum) list result" where
  "governed_map_utxos E [] token = Ok []"
| "governed_map_utxos E (u # us) token =
     and_then (governed_map_utxo E token u) (\<lambda>g.
     and_then (governed_map_utxos E us token) (\<lambda>es.
     Ok (case g of Some g \<Rightarrow> (u, g) # es | None \<Rightarrow> es)))"

definition get_utxos_for_key ::
  "('w, 'pp, 'b, 'body, 'pd) offchain \<Rightarrow> ogmios_utxo list \<Rightarrow> bytes \<Rightarrow> bytes \<Rightarrow> ogmios_utxo list result" where
  "get_utxos_for_key E utxos key token =
     and_then (governed_map_utxos E utxos token) (\<lambda>es. Ok (map fst (filter (\<lambda>(_, g). gmd_key g = key) es)))"

definition insert_key_value_tx ::
  "('w, 'pp, 'b, 'body, 'pd) offchain \<Rightarrow> plutus_script_data \<Rightarrow> bytes \<Rightarrow> bytes \<Rightarrow> governance_data \<Rightarrow> costs
     \<Rightarrow> 'pp transaction_context \<Rightarrow> 'body transaction result" where
  "insert_key_value_tx E scripts key val g costs ctx =
     and_then (csl_result (new_builder (lib E) (protocol_parameters ctx))) (\<lambda>b.
     and_then (get_mint (lib E) costs (psd_policy scripts)) (\<lambda>units.
     and_then (add_mint_one_script_token (lib E) (psd_policy scripts) [] (unit_plutus_data (csl E)) units b) (\<lambda>b.
     and_then (add_output_with_one_script_token (lib E) (psd_validator scripts) (psd_policy scripts)
       (governed_map_datum_to_plutus_data (csl E) \<lparr>gmd_key = key, gmd_value = val\<rparr>) ctx b) (\<lambda>b.
     and_then (add_governance_mint E g costs b) (\<lambda>b.
     and_then (balance_update_and_build (lib E) ctx b) (\<lambda>tx.
     Ok (remove_native_script_witnesses tx)))))))"

text \<open>The inputs that spend UTXOs of a validator, with the cost at the index that has the position of the UTXO.\<close>

fun script_inputs_from ::
  "('w, 'pp, 'b, 'body, 'pd) offchain \<Rightarrow> plutus_script \<Rightarrow> 'pd \<Rightarrow> costs \<Rightarrow> nat \<Rightarrow> ogmios_utxo list \<Rightarrow> 'pd input_call list result" where
  "script_inputs_from E validator redeemer costs ix [] = Ok []"
| "script_inputs_from E validator redeemer costs ix (u # us) =
     (let spend_indices = get_spend_indices (hash_order E) costs in
      and_then (get_spend costs (if ix < length spend_indices then spend_indices ! ix else 0)) (\<lambda>units.
      and_then (script_utxo_input (lib E) u validator redeemer units) (\<lambda>i.
      and_then (script_inputs_from E validator redeemer costs (ix + 1) us) (\<lambda>is.
      Ok (i # is)))))"

definition update_key_value_tx ::
  "('w, 'pp, 'b, 'body, 'pd) offchain \<Rightarrow> plutus_script_data \<Rightarrow> bytes \<Rightarrow> bytes \<Rightarrow> ogmios_utxo list \<Rightarrow> governance_data \<Rightarrow> costs
     \<Rightarrow> 'pp transaction_context \<Rightarrow> 'body transaction result" where
  "update_key_value_tx E scripts key val utxos_for_key g costs ctx =
     and_then (csl_result (new_builder (lib E) (protocol_parameters ctx))) (\<lambda>b.
     and_then (add_governance_mint E g costs b) (\<lambda>b.
     and_then (script_inputs_from E (psd_validator scripts) (new_bytes (csl E) []) costs 0 utxos_for_key) (\<lambda>inputs.
     and_then (csl_result (set_inputs (lib E) inputs b)) (\<lambda>b.
     and_then
       (if 1 < length utxos_for_key then
          and_then (get_mint (lib E) costs (psd_policy scripts)) (\<lambda>units.
          add_mint_script_tokens (lib E) (psd_policy scripts) [] (unit_plutus_data (csl E)) units
            (sint (- (word_of_nat (length utxos_for_key) - 1 :: 32 word))) b)
        else Ok b) (\<lambda>b.
     and_then (add_output_with_one_script_token (lib E) (psd_validator scripts) (psd_policy scripts)
       (governed_map_datum_to_plutus_data (csl E) \<lparr>gmd_key = key, gmd_value = val\<rparr>) ctx b) (\<lambda>b.
     and_then (balance_update_and_build (lib E) ctx b) (\<lambda>tx.
     Ok (remove_native_script_witnesses tx))))))))"

definition remove_key_value_tx ::
  "('w, 'pp, 'b, 'body, 'pd) offchain \<Rightarrow> plutus_script_data \<Rightarrow> ogmios_utxo list \<Rightarrow> governance_data \<Rightarrow> costs
     \<Rightarrow> 'pp transaction_context \<Rightarrow> 'body transaction result" where
  "remove_key_value_tx E scripts utxos_for_key g costs ctx =
     and_then (csl_result (new_builder (lib E) (protocol_parameters ctx))) (\<lambda>b.
     and_then (add_governance_mint E g costs b) (\<lambda>b.
     and_then (script_inputs_from E (psd_validator scripts) (unit_plutus_data (csl E)) costs 0 utxos_for_key) (\<lambda>inputs.
     and_then (csl_result (set_inputs (lib E) inputs b)) (\<lambda>b.
     and_then (get_mint (lib E) costs (psd_policy scripts)) (\<lambda>units.
     and_then (add_mint_script_tokens (lib E) (psd_policy scripts) [] (unit_plutus_data (csl E)) units
       (sint (- word_of_nat (length utxos_for_key) :: 32 word)) b) (\<lambda>b.
     and_then (balance_update_and_build (lib E) ctx b) (\<lambda>tx.
     Ok (remove_native_script_witnesses tx))))))))"

text \<open>The end of every operation: the output of a submitted transaction is awaited.\<close>

definition await_submitted ::
  "('w, 'pp, 'b, 'body, 'pd) offchain \<Rightarrow> 'body multisig_result option \<Rightarrow> ('w, 'body multisig_result option) io" where
  "await_submitted E r = (case r of
       Some (TransactionSubmitted tx_hash) \<Rightarrow> io_then (await_tx_output E tx_hash) (\<lambda>_. io_of (Ok r))
     | _ \<Rightarrow> io_of (Ok r))"

definition governed_submit ::
  "('w, 'pp, 'b, 'body, 'pd) offchain \<Rightarrow> utxo_id \<Rightarrow> 'pp transaction_context
     \<Rightarrow> (governance_data \<Rightarrow> costs \<Rightarrow> 'pp transaction_context \<Rightarrow> 'body transaction result) \<Rightarrow> string
     \<Rightarrow> ('w, 'body multisig_result option) io" where
  "governed_submit E genesis_utxo ctx make_tx tx_name =
     io_then (governance_get E genesis_utxo) (\<lambda>g.
     io_then (submit_or_create_tx_to_sign E g ctx (make_tx g) tx_name) (\<lambda>r.
     io_of (Ok (Some r))))"

definition run_insert ::
  "('w, 'pp, 'b, 'body, 'pd) offchain \<Rightarrow> utxo_id \<Rightarrow> bytes \<Rightarrow> bytes \<Rightarrow> bytes \<Rightarrow> ('w, 'body multisig_result option) io" where
  "run_insert E genesis_utxo key val payment_signing_key =
     io_then (for_payment_key (lib E) (client E) payment_signing_key) (\<lambda>ctx.
     io_then (io_of (governed_map_scripts E genesis_utxo (ctx_network ctx))) (\<lambda>scripts.
     io_then (client_result (query_utxos (client E) (psd_validator_address scripts))) (\<lambda>validator_utxos.
     io_then (io_of (get_current_value E validator_utxos key (plutus_script_hash (lib E) (psd_policy scripts)))) (\<lambda>current.
     io_then (case current of
         Some current_value \<Rightarrow> if current_value \<noteq> val then io_of (Err ValueAlreadyStored) else io_of (Ok None)
       | None \<Rightarrow> governed_submit E genesis_utxo ctx (insert_key_value_tx E scripts key val) ''Insert Key-Value pair'')
     (await_submitted E)))))"

text \<open>An insert that does not look for the key, which allows a key to be stored twice.\<close>

definition run_insert_with_force ::
  "('w, 'pp, 'b, 'body, 'pd) offchain \<Rightarrow> utxo_id \<Rightarrow> bytes \<Rightarrow> bytes \<Rightarrow> bytes \<Rightarrow> ('w, 'body multisig_result option) io" where
  "run_insert_with_force E genesis_utxo key val payment_signing_key =
     io_then (for_payment_key (lib E) (client E) payment_signing_key) (\<lambda>ctx.
     io_then (io_of (governed_map_scripts E genesis_utxo (ctx_network ctx))) (\<lambda>scripts.
     io_then (governed_submit E genesis_utxo ctx (insert_key_value_tx E scripts key val) ''Insert Key-Value pair'')
     (await_submitted E)))"

definition run_update ::
  "('w, 'pp, 'b, 'body, 'pd) offchain \<Rightarrow> utxo_id \<Rightarrow> bytes \<Rightarrow> bytes \<Rightarrow> bytes option \<Rightarrow> bytes
     \<Rightarrow> ('w, 'body multisig_result option) io" where
  "run_update E genesis_utxo key val expected_current_value payment_signing_key =
     io_then (for_payment_key (lib E) (client E) payment_signing_key) (\<lambda>ctx.
     io_then (io_of (governed_map_scripts E genesis_utxo (ctx_network ctx))) (\<lambda>scripts.
     io_then (client_result (query_utxos (client E) (psd_validator_address scripts))) (\<lambda>validator_utxos.
     io_then (io_of (get_utxos_for_key E validator_utxos key (plutus_script_hash (lib E) (psd_policy scripts)))) (\<lambda>utxos_for_key.
     io_then (io_of (get_current_value E validator_utxos key (plutus_script_hash (lib E) (psd_policy scripts)))) (\<lambda>current.
     case current of
       None \<Rightarrow> io_of (Err CannotUpdateNonexistentKey)
     | Some actual_current_value \<Rightarrow>
         if expected_current_value \<noteq> None \<and> expected_current_value \<noteq> Some actual_current_value then io_of (Err UnexpectedCurrentValue)
         else io_then
           (if actual_current_value \<noteq> val
            then governed_submit E genesis_utxo ctx (update_key_value_tx E scripts key val utxos_for_key) ''Update Key-Value pair''
            else io_of (Ok None))
           (await_submitted E))))))"

definition run_remove ::
  "('w, 'pp, 'b, 'body, 'pd) offchain \<Rightarrow> utxo_id \<Rightarrow> bytes \<Rightarrow> bytes \<Rightarrow> ('w, 'body multisig_result option) io" where
  "run_remove E genesis_utxo key payment_signing_key =
     io_then (for_payment_key (lib E) (client E) payment_signing_key) (\<lambda>ctx.
     io_then (io_of (governed_map_scripts E genesis_utxo (ctx_network ctx))) (\<lambda>scripts.
     io_then (client_result (query_utxos (client E) (psd_validator_address scripts))) (\<lambda>validator_utxos.
     io_then (io_of (get_utxos_for_key E validator_utxos key (plutus_script_hash (lib E) (psd_policy scripts)))) (\<lambda>utxos_for_key.
     io_then
       (if length utxos_for_key = 0 then io_of (Ok None)
        else governed_submit E genesis_utxo ctx (remove_key_value_tx E scripts utxos_for_key) ''Remove Key-Value pair'')
     (await_submitted E)))))"

definition run_list ::
  "('w, 'pp, 'b, 'body, 'pd) offchain \<Rightarrow> utxo_id \<Rightarrow> ('w, governed_map_datum list) io" where
  "run_list E genesis_utxo =
     io_then (client_result (shelley_genesis_network (client E))) (\<lambda>n.
     io_then (io_of (governed_map_scripts E genesis_utxo n)) (\<lambda>scripts.
     io_then (client_result (query_utxos (client E) (psd_validator_address scripts))) (\<lambda>validator_utxos.
     io_then (io_of (governed_map_utxos E validator_utxos (plutus_script_hash (lib E) (psd_policy scripts)))) (\<lambda>es.
     io_of (Ok (map snd es))))))"

definition run_get ::
  "('w, 'pp, 'b, 'body, 'pd) offchain \<Rightarrow> utxo_id \<Rightarrow> bytes \<Rightarrow> ('w, bytes option) io" where
  "run_get E genesis_utxo key =
     io_then (client_result (shelley_genesis_network (client E))) (\<lambda>n.
     io_then (io_of (governed_map_scripts E genesis_utxo n)) (\<lambda>scripts.
     io_then (client_result (query_utxos (client E) (psd_validator_address scripts))) (\<lambda>validator_utxos.
     io_of (get_current_value E validator_utxos key (plutus_script_hash (lib E) (psd_policy scripts))))))"

subsection \<open>The D-parameter and the permissioned candidates\<close>

text \<open>The one UTXO with the token of a policy, and its datum, as both files read it.\<close>

definition token_utxos :: "bytes \<Rightarrow> ogmios_utxo list \<Rightarrow> ogmios_utxo list" where
  "token_utxos token utxos = filter (\<lambda>u. map_of (native_tokens (ou_value u)) token \<noteq> None) utxos"

definition token_datum :: "('w, 'pp, 'b, 'body, 'pd) offchain \<Rightarrow> ogmios_utxo \<Rightarrow> 'pd result" where
  "token_datum E u =
     and_then (checked NoDatum (ou_datum u)) (\<lambda>datum.
     checked CouldNotDecodeDatum (pd_from_bytes (lib E) datum))"

definition get_current_d_parameter ::
  "('w, 'pp, 'b, 'body, 'pd) offchain \<Rightarrow> ogmios_utxo list \<Rightarrow> plutus_script_data \<Rightarrow> (ogmios_utxo \<times> d_parameter) option result" where
  "get_current_d_parameter E validator_utxos scripts =
     (let utxos = token_utxos (plutus_script_hash (lib E) (psd_policy scripts)) validator_utxos in
      if 1 < length utxos then Err MultipleUtxos
      else case utxos of
        [] \<Rightarrow> Ok None
      | u # _ \<Rightarrow>
          and_then (token_datum E u) (\<lambda>d.
          and_then (checked CouldNotDecodeDatum (result_ok (d_param_decode (csl E) d))) (\<lambda>p.
          Ok (Some (u, d_param_datum_into p)))))"

text \<open>\<open>Ord\<close> of \<open>PermissionedCandidateData\<close> compares the Partner Chain key, then the keys.\<close>

definition permissioned_order :: "permissioned_candidate_data \<Rightarrow> bytes \<times> (bytes \<times> bytes) list" where
  "permissioned_order p = (perm_sidechain_public_key p, map (\<lambda>k. (key_id k, key_bytes k)) (perm_keys p))"

definition get_current_permissioned_candidates ::
  "('w, 'pp, 'b, 'body, 'pd) offchain \<Rightarrow> ogmios_utxo list \<Rightarrow> plutus_script_data
     \<Rightarrow> (ogmios_utxo \<times> permissioned_candidate_data list) option result" where
  "get_current_permissioned_candidates E validator_utxos scripts =
     (let utxos = token_utxos (plutus_script_hash (lib E) (psd_policy scripts)) validator_utxos in
      if 1 < length utxos then Err MultipleUtxos
      else case utxos of
        [] \<Rightarrow> Ok None
      | u # _ \<Rightarrow>
          and_then (token_datum E u) (\<lambda>d.
          and_then (checked CouldNotDecodeDatum (result_ok (permissioned_decode (csl E) d))) (\<lambda>p.
          Ok (Some (u, sort_key permissioned_order (permissioned_candidate_datums_into p))))))"

text \<open>The transactions of both: a datum with a new token, or in place of the UTXO that holds the token.\<close>

definition mint_token_tx ::
  "('w, 'pp, 'b, 'body, 'pd) offchain \<Rightarrow> plutus_script_data \<Rightarrow> 'pd \<Rightarrow> 'pd \<Rightarrow> governance_data \<Rightarrow> costs
     \<Rightarrow> 'pp transaction_context \<Rightarrow> 'body transaction result" where
  "mint_token_tx E scripts redeemer datum g costs ctx =
     and_then (csl_result (new_builder (lib E) (protocol_parameters ctx))) (\<lambda>b.
     and_then (get_mint (lib E) costs (psd_policy scripts)) (\<lambda>units.
     and_then (add_mint_one_script_token (lib E) (psd_policy scripts) [] redeemer units b) (\<lambda>b.
     and_then (add_output_with_one_script_token (lib E) (psd_validator scripts) (psd_policy scripts) datum ctx b) (\<lambda>b.
     and_then (add_governance_mint E g costs b) (\<lambda>b.
     and_then (balance_update_and_build (lib E) ctx b) (\<lambda>tx.
     Ok (remove_native_script_witnesses tx)))))))"

definition replace_token_tx ::
  "('w, 'pp, 'b, 'body, 'pd) offchain \<Rightarrow> plutus_script_data \<Rightarrow> 'pd \<Rightarrow> 'pd \<Rightarrow> ogmios_utxo \<Rightarrow> governance_data \<Rightarrow> costs
     \<Rightarrow> 'pp transaction_context \<Rightarrow> 'body transaction result" where
  "replace_token_tx E scripts redeemer datum script_utxo g costs ctx =
     and_then (csl_result (new_builder (lib E) (protocol_parameters ctx))) (\<lambda>b.
     and_then (get_one_spend costs) (\<lambda>units.
     and_then (script_utxo_input (lib E) script_utxo (psd_validator scripts) redeemer units) (\<lambda>i.
     and_then (csl_result (set_inputs (lib E) [i] b)) (\<lambda>b.
     and_then (add_output_with_one_script_token (lib E) (psd_validator scripts) (psd_policy scripts) datum ctx b) (\<lambda>b.
     and_then (add_governance_mint E g costs b) (\<lambda>b.
     and_then (balance_update_and_build (lib E) ctx b) (\<lambda>tx.
     Ok (remove_native_script_witnesses tx))))))))"

definition mint_d_param_token_tx where
  "mint_d_param_token_tx E scripts d_parameter =
     mint_token_tx E scripts (unit_plutus_data (csl E)) (d_parameter_to_plutus_data (csl E) d_parameter)"

definition update_d_param_tx where
  "update_d_param_tx E scripts d_parameter =
     replace_token_tx E scripts (unit_plutus_data (csl E)) (d_parameter_to_plutus_data (csl E) d_parameter)"

definition mint_permissioned_candidates_token_tx where
  "mint_permissioned_candidates_token_tx E scripts candidates =
     mint_token_tx E scripts (new_integer (csl E) 0) (permissioned_candidates_to_plutus_data (csl E) candidates)"

definition update_permissioned_candidates_tx where
  "update_permissioned_candidates_tx E scripts candidates =
     replace_token_tx E scripts (new_integer (csl E) 0) (permissioned_candidates_to_plutus_data (csl E) candidates)"

definition upsert_d_param ::
  "('w, 'pp, 'b, 'body, 'pd) offchain \<Rightarrow> utxo_id \<Rightarrow> d_parameter \<Rightarrow> bytes \<Rightarrow> ('w, 'body multisig_result option) io" where
  "upsert_d_param E genesis_utxo d payment_signing_key =
     io_then (for_payment_key (lib E) (client E) payment_signing_key) (\<lambda>ctx.
     io_then (io_of (d_parameter_scripts E genesis_utxo (ctx_network ctx))) (\<lambda>scripts.
     io_then (client_result (query_utxos (client E) (psd_validator_address scripts))) (\<lambda>validator_utxos.
     io_then (io_of (get_current_d_parameter E validator_utxos scripts)) (\<lambda>current.
     io_then (case current of
         Some (current_utxo, current_d_param) \<Rightarrow>
           if current_d_param = d then io_of (Ok None)
           else governed_submit E genesis_utxo ctx (update_d_param_tx E scripts d current_utxo) ''Update D-parameter''
       | None \<Rightarrow> governed_submit E genesis_utxo ctx (mint_d_param_token_tx E scripts d) ''Insert D-parameter'')
     (await_submitted E)))))"

definition get_d_param :: "('w, 'pp, 'b, 'body, 'pd) offchain \<Rightarrow> utxo_id \<Rightarrow> ('w, d_parameter option) io" where
  "get_d_param E genesis_utxo =
     io_then (client_result (shelley_genesis_network (client E))) (\<lambda>n.
     io_then (io_of (d_parameter_scripts E genesis_utxo n)) (\<lambda>scripts.
     io_then (client_result (query_utxos (client E) (psd_validator_address scripts))) (\<lambda>validator_utxos.
     io_then (io_of (get_current_d_parameter E validator_utxos scripts)) (\<lambda>current.
     io_of (Ok (map_option snd current))))))"

text \<open>Governance is read before the current list, and the output of a submitted transaction is awaited only by the submission.\<close>

definition upsert_permissioned_candidates ::
  "('w, 'pp, 'b, 'body, 'pd) offchain \<Rightarrow> utxo_id \<Rightarrow> permissioned_candidate_data list \<Rightarrow> bytes
     \<Rightarrow> ('w, 'body multisig_result option) io" where
  "upsert_permissioned_candidates E genesis_utxo candidates payment_signing_key =
     io_then (for_payment_key (lib E) (client E) payment_signing_key) (\<lambda>ctx.
     io_then (io_of (permissioned_candidates_scripts E genesis_utxo (ctx_network ctx))) (\<lambda>scripts.
     io_then (governance_get E genesis_utxo) (\<lambda>g.
     io_then (client_result (query_utxos (client E) (psd_validator_address scripts))) (\<lambda>validator_utxos.
     let candidates = sort_key permissioned_order candidates in
     io_then (io_of (get_current_permissioned_candidates E validator_utxos scripts)) (\<lambda>current.
     case current of
       Some (current_utxo, current_permissioned_candidates) \<Rightarrow>
         if current_permissioned_candidates = candidates then io_of (Ok None)
         else io_then (submit_or_create_tx_to_sign E g ctx (update_permissioned_candidates_tx E scripts candidates current_utxo g)
           ''Update Permissioned Candidates'') (\<lambda>r. io_of (Ok (Some r)))
     | None \<Rightarrow> io_then (submit_or_create_tx_to_sign E g ctx (mint_permissioned_candidates_token_tx E scripts candidates g)
           ''Insert Permissioned Candidates'') (\<lambda>r. io_of (Ok (Some r))))))))"

definition get_permissioned_candidates ::
  "('w, 'pp, 'b, 'body, 'pd) offchain \<Rightarrow> utxo_id \<Rightarrow> network \<Rightarrow> ('w, permissioned_candidate_data list option) io" where
  "get_permissioned_candidates E genesis_utxo n =
     io_then (io_of (permissioned_candidates_scripts E genesis_utxo n)) (\<lambda>scripts.
     io_then (client_result (query_utxos (client E) (psd_validator_address scripts))) (\<lambda>validator_utxos.
     io_then (io_of (get_current_permissioned_candidates E validator_utxos scripts)) (\<lambda>current.
     io_of (Ok (map_option snd current)))))"

subsection \<open>Registration of a candidate\<close>

definition matches_keys :: "candidate_registration \<Rightarrow> candidate_registration \<Rightarrow> bool" where
  "matches_keys r other \<longleftrightarrow> cr_stake_ownership r = cr_stake_ownership other
     \<and> cr_partner_chain_pub_key r = cr_partner_chain_pub_key other
     \<and> cr_partner_chain_signature r = cr_partner_chain_signature other
     \<and> list_all (\<lambda>k. k \<in> set (cr_keys other)) (cr_keys r)"

definition get_candidate_registration ::
  "('w, 'pp, 'b, 'body, 'pd) offchain \<Rightarrow> ogmios_utxo \<Rightarrow> candidate_registration result" where
  "get_candidate_registration E u =
     and_then (token_datum E u) (\<lambda>d.
     and_then (checked CouldNotDecodeDatum (result_ok (register_validator_decode (csl E) d))) (\<lambda>r.
     Ok (register_validator_datum_into r)))"

definition get_own_registrations ::
  "('w, 'pp, 'b, 'body, 'pd) offchain \<Rightarrow> bytes \<Rightarrow> bytes \<Rightarrow> ogmios_utxo list \<Rightarrow> (ogmios_utxo \<times> candidate_registration) list" where
  "get_own_registrations E own_pkh spo_pub_key validator_utxos = List.map_filter (\<lambda>u.
     case get_candidate_registration E u of
       Ok r \<Rightarrow> if abs_pub_key (cr_stake_ownership r) = spo_pub_key \<and> cr_own_pkh r = own_pkh then Some (u, r) else None
     | _ \<Rightarrow> None) validator_utxos"

fun one_spend_inputs ::
  "('w, 'pp, 'b, 'body, 'pd) offchain \<Rightarrow> plutus_script \<Rightarrow> costs \<Rightarrow> ogmios_utxo list \<Rightarrow> 'pd input_call list result" where
  "one_spend_inputs E validator costs [] = Ok []"
| "one_spend_inputs E validator costs (u # us) =
     and_then (get_one_spend costs) (\<lambda>units.
     and_then (script_utxo_input (lib E) u validator (unit_plutus_data (csl E)) units) (\<lambda>i.
     and_then (one_spend_inputs E validator costs us) (\<lambda>is.
     Ok (i # is))))"

definition register_tx ::
  "('w, 'pp, 'b, 'body, 'pd) offchain \<Rightarrow> plutus_script \<Rightarrow> candidate_registration \<Rightarrow> ogmios_utxo \<Rightarrow> ogmios_utxo list \<Rightarrow> costs
     \<Rightarrow> 'pp transaction_context \<Rightarrow> 'body transaction result" where
  "register_tx E validator r reg_utxo own_registration_utxos costs ctx =
     and_then (csl_result (new_builder (lib E) (protocol_parameters ctx))) (\<lambda>b.
     and_then (one_spend_inputs E validator costs own_registration_utxos) (\<lambda>inputs.
     and_then (ogmios_utxo_to_csl (lib E) reg_utxo) (\<lambda>(id, out).
     and_then (csl_result (set_inputs (lib E) (inputs @ [RegularUtxo id out]) b)) (\<lambda>b.
     and_then (with_minimum_ada (lib E) ctx
       \<lparr>out_address = script_address (lib E) validator (ctx_network ctx), out_value = ada_value 0,
        out_plutus_data = Some (candidate_registration_to_plutus_data (csl E) r), out_script_ref = None\<rparr>) (\<lambda>output.
     and_then (csl_result (add_output (lib E) output b)) (\<lambda>b.
     balance_update_and_build (lib E) ctx b))))))"

definition deregister_tx ::
  "('w, 'pp, 'b, 'body, 'pd) offchain \<Rightarrow> plutus_script \<Rightarrow> ogmios_utxo list \<Rightarrow> costs \<Rightarrow> 'pp transaction_context \<Rightarrow> 'body transaction result" where
  "deregister_tx E validator own_registration_utxos costs ctx =
     and_then (csl_result (new_builder (lib E) (protocol_parameters ctx))) (\<lambda>b.
     and_then (one_spend_inputs E validator costs own_registration_utxos) (\<lambda>inputs.
     and_then (csl_result (set_inputs (lib E) inputs b)) (\<lambda>b.
     balance_update_and_build (lib E) ctx b)))"

definition submit_and_await ::
  "('w, 'pp, 'b, 'body, 'pd) offchain \<Rightarrow> 'pp transaction_context \<Rightarrow> (costs \<Rightarrow> 'body transaction result) \<Rightarrow> ('w, bytes option) io" where
  "submit_and_await E ctx make_tx =
     io_then (calculate_costs (lib E) (client E) make_tx) (\<lambda>tx.
     io_then (io_map_err (\<lambda>e. SubmitFailed (case e of ClientError m \<Rightarrow> m | _ \<Rightarrow> []))
       (client_result (submit_transaction (client E) (ctx_sign (lib E) ctx tx)))) (\<lambda>tx_id.
     io_then (await_tx_output E tx_id) (\<lambda>_.
     io_of (Ok (Some tx_id)))))"

definition run_register ::
  "('w, 'pp, 'b, 'body, 'pd) offchain \<Rightarrow> utxo_id \<Rightarrow> candidate_registration \<Rightarrow> bytes \<Rightarrow> ('w, bytes option) io" where
  "run_register E genesis_utxo r payment_signing_key =
     io_then (for_payment_key (lib E) (client E) payment_signing_key) (\<lambda>ctx.
     io_then (io_of (plutus_script_of E CommitteeCandidateValidator [DatumArg (utxo_id_to_datum genesis_utxo)])) (\<lambda>validator.
     io_then (io_of (address_bech32 E validator (ctx_network ctx))) (\<lambda>validator_address.
     io_then (io_of (checked RegistrationUtxoNotFound
       (find (\<lambda>u. ou_utxo_id u = cr_registration_utxo r) (payment_key_utxos ctx)))) (\<lambda>reg_utxo.
     io_then (client_result (query_utxos (client E) validator_address)) (\<lambda>all_registration_utxos.
     let own_registrations = get_own_registrations E (cr_own_pkh r) (abs_pub_key (cr_stake_ownership r)) all_registration_utxos in
     if list_ex (\<lambda>(_, existing). matches_keys r existing) own_registrations then io_of (Ok None)
     else submit_and_await E ctx (\<lambda>costs. register_tx E validator r reg_utxo (map fst own_registrations) costs ctx))))))"

definition run_deregister ::
  "('w, 'pp, 'b, 'body, 'pd) offchain \<Rightarrow> utxo_id \<Rightarrow> bytes \<Rightarrow> bytes \<Rightarrow> ('w, bytes option) io" where
  "run_deregister E genesis_utxo payment_signing_key stake_ownership_pub_key =
     io_then (for_payment_key (lib E) (client E) payment_signing_key) (\<lambda>ctx.
     io_then (io_of (plutus_script_of E CommitteeCandidateValidator [DatumArg (utxo_id_to_datum genesis_utxo)])) (\<lambda>validator.
     io_then (io_of (address_bech32 E validator (ctx_network ctx))) (\<lambda>validator_address.
     io_then (client_result (query_utxos (client E) validator_address)) (\<lambda>all_registration_utxos.
     let own_registrations = get_own_registrations E (public_hash (lib E) (to_public (lib E) payment_signing_key))
           stake_ownership_pub_key all_registration_utxos in
     if own_registrations = [] then io_of (Ok None)
     else submit_and_await E ctx (\<lambda>costs. deregister_tx E validator (map fst own_registrations) costs ctx)))))"

end
