(* ===== verification/Offchain_Ledger.thy ===== *)
theory Offchain_Ledger
  imports Offchain_Ops "HOL-Library.Multiset" "HOL-Library.Countable"
begin

text \<open>
  What the off-chain operations do to the data on Cardano. The ledger rule is \<open>apply_tx\<close>: the UTXOs at an address after a
  transaction are those it does not spend and its outputs at that address. \<open>tx_lib_ok\<close> are the documented laws of the transaction builder
  in terms of the inputs, outputs and minted amounts of a builder, \<open>client_ok\<close> those of the ledger behind the client: the network does not change,
  a UTXO has one address, a query returns it once, and the id of a submitted transaction identifies its body.
\<close>

subsection \<open>Laws\<close>

record ('b, 'body, 'pd) builder_view =
  view_inputs :: "'b \<Rightarrow> utxo_id list"
  view_outputs :: "'b \<Rightarrow> 'pd tx_output list"
  view_mint :: "'b \<Rightarrow> bytes \<Rightarrow> int"
  body_mint :: "'body \<Rightarrow> bytes \<Rightarrow> int"
  native_hash :: "native_script \<Rightarrow> bytes"
  pd_to_bytes :: "'pd \<Rightarrow> bytes"

fun input_id :: "'pd input_call \<Rightarrow> utxo_id" where
  "input_id (PlutusScriptInput _ _ _ i _) = i"
| "input_id (RegularUtxo i _) = i"
| "input_id (RegularInput _ i _) = i"

fun source_policy :: "('pp, 'b, 'body, 'pd) tx_lib \<Rightarrow> ('b, 'body, 'pd) builder_view \<Rightarrow> 'pd mint_source \<Rightarrow> bytes" where
  "source_policy L V (PlutusSource s _ _) = plutus_script_hash L s"
| "source_policy L V (PlutusRefInput h _ _ _ _ _) = h"
| "source_policy L V (NativeSource s) = native_hash V s"

definition same_view :: "('b, 'body, 'pd) builder_view \<Rightarrow> 'b \<Rightarrow> 'b \<Rightarrow> bool" where
  "same_view V b b' \<longleftrightarrow> view_inputs V b' = view_inputs V b \<and> view_outputs V b' = view_outputs V b \<and> view_mint V b' = view_mint V b"

definition balances :: "('b, 'body, 'pd) builder_view \<Rightarrow> utxo_id list \<Rightarrow> bytes \<Rightarrow> 'b \<Rightarrow> 'b \<Rightarrow> bool" where
  "balances V available change_addr b b' \<longleftrightarrow> (\<exists>more change. view_inputs V b' = view_inputs V b @ more \<and> set more \<subseteq> set available
     \<and> view_outputs V b' = view_outputs V b @ change \<and> (\<forall>out \<in> set change. out_address out = change_addr)) \<and> view_mint V b' = view_mint V b"

definition tx_lib_ok :: "('pp, 'b, 'body, 'pd) tx_lib \<Rightarrow> ('b, 'body, 'pd) builder_view \<Rightarrow> bool" where
  "tx_lib_ok L V \<longleftrightarrow>
     (\<forall>pp b. new_builder L pp = Inr b \<longrightarrow> view_inputs V b = [] \<and> view_outputs V b = [] \<and> view_mint V b = (\<lambda>_. 0))
   \<and> (\<forall>src n b b'. add_mint L src [] n b = Inr b' \<longrightarrow> view_inputs V b' = view_inputs V b \<and> view_outputs V b' = view_outputs V b
        \<and> view_mint V b' = (view_mint V b)(source_policy L V src := view_mint V b (source_policy L V src) + n))
   \<and> (\<forall>i b. same_view V b (add_reference_input L i b))
   \<and> (\<forall>is b b'. set_inputs L is b = Inr b' \<longrightarrow>
        view_inputs V b' = map input_id is \<and> view_outputs V b' = view_outputs V b \<and> view_mint V b' = view_mint V b)
   \<and> (\<forall>out b b'. add_output L out b = Inr b' \<longrightarrow>
        view_inputs V b' = view_inputs V b \<and> view_outputs V b' = view_outputs V b @ [out] \<and> view_mint V b' = view_mint V b)
   \<and> (\<forall>k b. same_view V b (add_required_signer L k b))
   \<and> (\<forall>is b b'. set_collateral L is b = Inr b' \<longrightarrow> same_view V b b')
   \<and> (\<forall>h b. same_view V b (set_script_data_hash L h b))
   \<and> (\<forall>pp b b'. calc_script_data_hash L pp b = Inr b' \<longrightarrow> same_view V b b')
   \<and> (\<forall>us a b b'. add_inputs_from_and_change L us a b = Inr b' \<longrightarrow> balances V (map fst us) a b b')
   \<and> (\<forall>us a p b b'. add_inputs_from_and_change_with_collateral_return L us a p b = Inr b' \<longrightarrow> balances V (map fst us) a b b')
   \<and> (\<forall>b tx. build_tx L b = Inr tx \<longrightarrow> set (body_inputs L (tx_body tx)) = set (view_inputs V b)
        \<and> body_outputs L (tx_body tx) = view_outputs V b \<and> body_mint V (tx_body tx) = view_mint V b)
   \<and> (\<forall>d. pd_from_bytes L (pd_to_bytes V d) = Some d)
   \<and> (\<forall>i j c d a. to_bech32 L (enterprise_address L i (FromKeyhash c)) = Inr a \<longrightarrow> to_bech32 L (enterprise_address L j (FromScripthash d)) \<noteq> Inr a)"

definition client_ok :: "('w, 'pp, 'body) ogmios_client \<Rightarrow> network \<Rightarrow> bool" where
  "client_ok C n \<longleftrightarrow>
     (\<forall>w m w'. shelley_genesis_network C w = (Inr m, w') \<longrightarrow> m = n)
   \<and> (\<forall>a w us w'. query_utxos C a w = (Inr us, w') \<longrightarrow> distinct (map ou_utxo_id us))
   \<and> (\<forall>a w us w' b v vs v'. query_utxos C a w = (Inr us, w') \<longrightarrow> query_utxos C b v = (Inr vs, v') \<longrightarrow> a \<noteq> b
        \<longrightarrow> set (map ou_utxo_id us) \<inter> set (map ou_utxo_id vs) = {})
   \<and> (\<forall>tx w tx_id w' tx' v v'. submit_transaction C tx w = (Inr tx_id, w') \<longrightarrow> submit_transaction C tx' v = (Inr tx_id, v') \<longrightarrow> tx_body tx = tx_body tx')"

subsection \<open>The ledger rule\<close>

definition ledger_utxo :: "('b, 'body, 'pd) builder_view \<Rightarrow> string \<Rightarrow> bytes \<Rightarrow> nat \<times> 'pd tx_output \<Rightarrow> ogmios_utxo" where
  "ledger_utxo V address tx_id out = \<lparr>ou_transaction = tx_id, ou_index = word_of_nat (fst out), ou_address = address,
     ou_value = out_value (snd out), ou_datum = map_option (pd_to_bytes V) (out_plutus_data (snd out)), ou_script = None\<rparr>"

definition apply_tx ::
  "('pp, 'b, 'body, 'pd) tx_lib \<Rightarrow> ('b, 'body, 'pd) builder_view \<Rightarrow> bytes \<Rightarrow> string \<Rightarrow> bytes \<Rightarrow> 'body \<Rightarrow> ogmios_utxo list \<Rightarrow> ogmios_utxo list" where
  "apply_tx L V addr address tx_id body utxos =
     filter (\<lambda>u. ou_utxo_id u \<notin> set (body_inputs L body)) utxos
     @ map (ledger_utxo V address tx_id) (filter (\<lambda>out. out_address (snd out) = addr) (enumerate 0 (body_outputs L body)))"

text \<open>A body that spends the given UTXOs, creates the given outputs and mints the given amounts; the rest comes from the payer of a context and goes to its change address.\<close>

definition does ::
  "('pp, 'b, 'body, 'pd) tx_lib \<Rightarrow> ('b, 'body, 'pd) builder_view \<Rightarrow> 'pp transaction_context \<Rightarrow> utxo_id list \<Rightarrow> 'pd tx_output list
     \<Rightarrow> (bytes \<Rightarrow> int) \<Rightarrow> 'body \<Rightarrow> bool" where
  "does L V ctx spent outs minted body \<longleftrightarrow> (\<exists>more change. set (body_inputs L body) = set spent \<union> set more
     \<and> set more \<subseteq> ou_utxo_id ` set (payment_key_utxos ctx)
     \<and> body_outputs L body = outs @ change \<and> (\<forall>out \<in> set change. out_address out = change_address ctx)
     \<and> body_mint V body = minted)"

definition payer :: "('w, 'pp, 'b, 'body, 'pd) offchain \<Rightarrow> network \<Rightarrow> 'pp transaction_context \<Rightarrow> bool" where
  "payer E n ctx \<longleftrightarrow> ctx_network ctx = n
     \<and> (\<exists>k a. change_address ctx = key_hash_address (lib E) k n \<and> to_bech32 (lib E) (change_address ctx) = Inr a)
     \<and> (\<exists>k a w w'. to_bech32 (lib E) (key_hash_address (lib E) k n) = Inr a \<and> query_utxos (client E) a w = (Inr (payment_key_utxos ctx), w'))"

definition governance_hash :: "('w, 'pp, 'b, 'body, 'pd) offchain \<Rightarrow> ('b, 'body, 'pd) builder_view \<Rightarrow> governance_data \<Rightarrow> bytes" where
  "governance_hash E V g = (case governance_script (gov_policy g) of
       PlutusScript s \<Rightarrow> plutus_script_hash (lib E) s
     | NativeScript s \<Rightarrow> native_hash V s)"

text \<open>The transaction that a result stands for: the one that was submitted, or the one to be signed.\<close>

fun issued :: "('w, 'pp, 'b, 'body, 'pd) offchain \<Rightarrow> 'body multisig_result \<Rightarrow> 'body \<Rightarrow> bool" where
  "issued E (TransactionSubmitted tx_id) body \<longleftrightarrow>
     (\<exists>tx w w'. submit_transaction (client E) tx w = (Inr tx_id, w') \<and> tx_body tx = body)"
| "issued E (TransactionToSign _ _ _ tx) body \<longleftrightarrow> tx_body tx = body"

subsection \<open>Operations\<close>

lemma io_then_Ok: "io_then m f w = (Ok b, w') \<longleftrightarrow> (\<exists>a w''. m w = (Ok a, w'') \<and> f a w'' = (Ok b, w'))"
  by (auto simp: io_then_def split: prod.splits outcome.splits)

lemma io_of_Ok [simp]: "io_of r w = (Ok a, w') \<longleftrightarrow> r = Ok a \<and> w' = w"
  by (auto simp: io_of_def)

lemma io_map_err_Ok [simp]: "io_map_err f m w = (Ok a, w') \<longleftrightarrow> m w = (Ok a, w')"
  by (cases "m w") (auto simp: io_map_err_def)

lemma client_result_Ok [simp]: "client_result q w = (Ok a, w') \<longleftrightarrow> q w = (Inr a, w')"
  by (cases "q w") (auto simp: client_result_def split: sum.splits)

lemma csl_result_Ok [simp]: "csl_result r = Ok a \<longleftrightarrow> r = Inr a"
  by (cases r) (auto simp: csl_result_def)

lemma checked_Ok [simp]: "checked e x = Ok a \<longleftrightarrow> x = Some a"
  by (cases x) simp_all

lemmas io_simps = io_then_Ok and_then_eq_Ok

lemma calculate_costs_Ok: "calculate_costs L C f w = (Ok tx, w') \<Longrightarrow> \<exists>costs. f costs = Ok tx"
  by (auto simp: calculate_costs_def io_simps)

lemma sign_body [simp]: "tx_body (ctx_sign L ctx tx) = tx_body tx"
  by (simp add: ctx_sign_def Let_def)

lemma remove_native_body [simp]: "tx_body (remove_native_script_witnesses tx) = tx_body tx"
  by (simp add: remove_native_script_witnesses_def)

lemma for_payment_key_payer:
  assumes "client_ok (client E) n" and "for_payment_key (lib E) (client E) key w = (Ok ctx, w')"
  shows "payer E n ctx"
  using assms unfolding for_payment_key_def client_ok_def payer_def
  by (fastforce simp: io_simps Let_def)

lemma to_sign_issues:
  assumes "create_transaction_to_sign E ctx make_tx g tx_name w = (Ok r, w')"
  shows "\<exists>key wallet_ctx tx w1 w2 w3. for_payment_key (lib E) (client E) key w1 = (Ok wallet_ctx, w2)
    \<and> calculate_costs (lib E) (client E) (\<lambda>c. make_tx c (wallet_ctx\<lparr>change_address := change_address ctx\<rparr>)) w2 = (Ok tx, w3)
    \<and> issued E r (tx_body tx)"
  using assms unfolding create_transaction_to_sign_def io_then_Ok Let_def io_map_err_Ok io_of_Ok outcome.inject
  apply (elim exE conjE)
  subgoal for wallet w1 wallet_ctx w2 tx w3
    by (rule exI [of _ "tw_private_key wallet"], rule exI [of _ wallet_ctx], rule exI [of _ tx], rule exI [of _ w1], rule exI [of _ w2], rule exI [of _ w3]) auto
  done

text \<open>Whoever pays, a transaction that is submitted or handed out for signing was built by the given function.\<close>

lemma submit_or_create_issues:
  assumes "client_ok (client E) n" and "payer E n ctx"
    and "submit_or_create_tx_to_sign E g ctx make_tx tx_name w = (Ok r, w')"
  shows "\<exists>costs ctx' tx. make_tx costs ctx' = Ok tx \<and> payer E n ctx' \<and> issued E r (tx_body tx)"
proof (cases "is_single_key_policy_for (gov_policy g) (payment_key_hash (lib E) ctx)")
  case True
  then obtain tx tx_id w1 w2 w3 where "calculate_costs (lib E) (client E) (\<lambda>c. make_tx c ctx) w = (Ok tx, w1)"
      "submit_transaction (client E) (ctx_sign (lib E) ctx tx) w1 = (Inr tx_id, w2)" "r = TransactionSubmitted tx_id"
    using assms(3) by (auto simp: submit_or_create_tx_to_sign_def submit_single_governance_key_tx_def io_simps)
  moreover obtain costs where "make_tx costs ctx = Ok tx" using calculate_costs_Ok [OF calculation(1)] by blast
  ultimately show ?thesis using assms(2) by (metis issued.simps(1) sign_body)
next
  case False
  then have "create_transaction_to_sign E ctx make_tx g tx_name w = (Ok r, w')"
    using assms(3) by (simp add: submit_or_create_tx_to_sign_def)
  then obtain key wallet_ctx tx w1 w2 w3 where
      wallet: "for_payment_key (lib E) (client E) key w1 = (Ok wallet_ctx, w2)"
    and tx: "calculate_costs (lib E) (client E) (\<lambda>c. make_tx c (wallet_ctx\<lparr>change_address := change_address ctx\<rparr>)) w2 = (Ok tx, w3)"
    and r: "issued E r (tx_body tx)"
    using to_sign_issues [of E ctx make_tx g tx_name w r w'] by blast
  obtain costs where "make_tx costs (wallet_ctx\<lparr>change_address := change_address ctx\<rparr>) = Ok tx"
    using calculate_costs_Ok [OF tx] by blast
  moreover have "payer E n (wallet_ctx\<lparr>change_address := change_address ctx\<rparr>)"
    using for_payment_key_payer [OF assms(1) wallet] assms(2) by (simp add: payer_def)
  ultimately show ?thesis using r by fastforce
qed

subsection \<open>Building a transaction\<close>

lemma tx_lib_okD:
  assumes "tx_lib_ok L V"
  shows "new_builder L pp = Inr b \<Longrightarrow> view_inputs V b = [] \<and> view_outputs V b = [] \<and> view_mint V b = (\<lambda>_. 0)"
    and "add_mint L src [] n b = Inr b' \<Longrightarrow> view_inputs V b' = view_inputs V b \<and> view_outputs V b' = view_outputs V b
        \<and> view_mint V b' = (view_mint V b)(source_policy L V src := view_mint V b (source_policy L V src) + n)"
    and "same_view V b (add_reference_input L i b)"
    and "set_inputs L is b = Inr b' \<Longrightarrow>
        view_inputs V b' = map input_id is \<and> view_outputs V b' = view_outputs V b \<and> view_mint V b' = view_mint V b"
    and "add_output L out b = Inr b' \<Longrightarrow>
        view_inputs V b' = view_inputs V b \<and> view_outputs V b' = view_outputs V b @ [out] \<and> view_mint V b' = view_mint V b"
    and "same_view V b (add_required_signer L k b)"
    and "set_collateral L is b = Inr b' \<Longrightarrow> same_view V b b'"
    and "same_view V b (set_script_data_hash L h b)"
    and "calc_script_data_hash L pp b = Inr b' \<Longrightarrow> same_view V b b'"
    and "add_inputs_from_and_change L us a b = Inr b' \<Longrightarrow> balances V (map fst us) a b b'"
    and "add_inputs_from_and_change_with_collateral_return L us a p b = Inr b' \<Longrightarrow> balances V (map fst us) a b b'"
    and "build_tx L b = Inr tx \<Longrightarrow> set (body_inputs L (tx_body tx)) = set (view_inputs V b)
        \<and> body_outputs L (tx_body tx) = view_outputs V b \<and> body_mint V (tx_body tx) = view_mint V b"
    and "pd_from_bytes L (pd_to_bytes V d) = Some d"
  using assms unfolding tx_lib_ok_def by - (elim conjE, simp)+

lemma tx_lib_ok_addresses:
  assumes "tx_lib_ok L V" and "to_bech32 L (key_hash_address L k n) = Inr a"
  shows "to_bech32 L (script_address L s m) \<noteq> Inr a" "script_address L s m \<noteq> key_hash_address L k n"
proof -
  have "\<forall>i j c d a. to_bech32 L (enterprise_address L i (FromKeyhash c)) = Inr a \<longrightarrow> to_bech32 L (enterprise_address L j (FromScripthash d)) \<noteq> Inr a"
    using assms(1) unfolding tx_lib_ok_def by (elim conjE) assumption
  then show "to_bech32 L (script_address L s m) \<noteq> Inr a" "script_address L s m \<noteq> key_hash_address L k n"
    using assms(2) unfolding script_address_def key_hash_address_def by metis+
qed

lemma utxos_to_csl_ids: "ogmios_utxos_to_csl L us = Ok xs \<Longrightarrow> map fst xs = map ou_utxo_id us"
  by (induction us arbitrary: xs) (auto simp: and_then_eq_Ok ogmios_utxo_to_csl_def)

lemma same_view_trans: "same_view V a b \<Longrightarrow> same_view V b c \<Longrightarrow> same_view V a c"
  by (simp add: same_view_def)

lemma balances_same:
  "same_view V a b \<Longrightarrow> balances V us addr b c \<Longrightarrow> balances V us addr a c"
  "balances V us addr a b \<Longrightarrow> same_view V b c \<Longrightarrow> balances V us addr a c"
  by (simp_all add: balances_def same_view_def)

lemma balances_does:
  assumes "tx_lib_ok L V" and "balances V (map ou_utxo_id (payment_key_utxos ctx)) (change_address ctx) b b'"
    and "build_tx L b' = Inr tx"
  shows "does L V ctx (view_inputs V b) (view_outputs V b) (view_mint V b) (tx_body tx)"
  using tx_lib_okD(12) [OF assms(1,3)] assms(2) by (auto simp: balances_def does_def)

lemma try_balance_does:
  assumes ok: "tx_lib_ok L V" and "try_balance L ctx collateral b = Ok tx"
  shows "does L V ctx (view_inputs V b) (view_outputs V b) (view_mint V b) (tx_body tx)"
proof (cases "collateral = []")
  case True
  then obtain utxos b' where "ogmios_utxos_to_csl L (payment_key_utxos ctx) = Ok utxos"
      "add_inputs_from_and_change L utxos (change_address ctx) (add_required_signer L (payment_key_hash L ctx) b) = Inr b'"
      "build_tx L b' = Inr tx"
    using assms(2) by (auto simp: try_balance_def and_then_eq_Ok)
  then show ?thesis
    using balances_does [OF ok] balances_same(1) [OF tx_lib_okD(6) [OF ok]] tx_lib_okD(10) [OF ok] utxos_to_csl_ids by metis
next
  case False
  then obtain inputs b1 utxos b2 b3 where
      b1: "set_collateral L inputs (add_required_signer L (payment_key_hash L ctx) b) = Inr b1"
    and utxos: "ogmios_utxos_to_csl L (payment_key_utxos ctx) = Ok utxos"
    and b2: "add_inputs_from_and_change_with_collateral_return L utxos (change_address ctx)
        (collateral_percentage L (protocol_parameters ctx)) (set_script_data_hash L (replicate 32 0) b1) = Inr b2"
    and b3: "calc_script_data_hash L (protocol_parameters ctx) b2 = Inr b3" and tx: "build_tx L b3 = Inr tx"
    using assms(2) by (auto simp: try_balance_def and_then_eq_Ok Let_def)
  have "same_view V b (set_script_data_hash L (replicate 32 0) b1)"
    using tx_lib_okD(6-8) [OF ok] b1 same_view_trans by metis
  moreover have "balances V (map ou_utxo_id (payment_key_utxos ctx)) (change_address ctx) (set_script_data_hash L (replicate 32 0) b1) b3"
    using tx_lib_okD(11) [OF ok b2] tx_lib_okD(9) [OF ok b3] utxos_to_csl_ids [OF utxos] balances_same(2) by metis
  ultimately show ?thesis using balances_does [OF ok _ tx] balances_same(1) by metis
qed

lemma balance_does:
  assumes "tx_lib_ok L V" and "balance_update_and_build L ctx b = Ok tx"
  shows "does L V ctx (view_inputs V b) (view_outputs V b) (view_mint V b) (tx_body tx)"
proof -
  have "does L V ctx (view_inputs V b) (view_outputs V b) (view_mint V b) (tx_body tx)"
    if "balance_loop L ctx b rest selected = Ok tx" for rest selected
    using that try_balance_does [OF assms(1)]
    by (induction L ctx b rest selected rule: balance_loop.induct) (auto split: outcome.splits)
  then show ?thesis using assms(2) by (simp add: balance_update_and_build_def)
qed

lemma governance_mint_view:
  assumes ok: "tx_lib_ok (lib E) V" and "add_governance_mint E g costs b = Ok b'"
  shows "view_inputs V b' = view_inputs V b \<and> view_outputs V b' = view_outputs V b
    \<and> view_mint V b' = (view_mint V b)(governance_hash E V g := view_mint V b (governance_hash E V g) + 1)"
proof (cases "governance_script (gov_policy g)")
  case (PlutusScript s)
  then show ?thesis
    using assms(2) tx_lib_okD(2) [OF ok]
    by (auto simp: add_governance_mint_def add_mint_script_token_using_reference_script_def and_then_eq_Ok governance_hash_def)
next
  case (NativeScript s)
  then obtain b1 where "add_mint (lib E) (NativeSource s) [] 1 b = Inr b1" "b' = add_reference_input (lib E) (ou_utxo_id (gov_utxo g)) b1"
    using assms(2) by (auto simp: add_governance_mint_def add_mint_script_token_using_reference_script_def and_then_eq_Ok)
  then show ?thesis using NativeScript tx_lib_okD(2) [OF ok] tx_lib_okD(3) [OF ok] by (fastforce simp: same_view_def governance_hash_def)
qed

text \<open>An output at a validator with one token of a policy and a datum.\<close>

definition token_output ::
  "('pp, 'b, 'body, 'pd) tx_lib \<Rightarrow> plutus_script_data \<Rightarrow> network \<Rightarrow> 'pd \<Rightarrow> 'pd tx_output \<Rightarrow> bool" where
  "token_output L scripts n datum out \<longleftrightarrow> out_address out = script_address L (psd_validator scripts) n
     \<and> native_tokens (out_value out) = [(plutus_script_hash L (psd_policy scripts), [\<lparr>oa_name = [], oa_amount = 1\<rparr>])]
     \<and> out_plutus_data out = Some datum"

lemma token_output_view:
  assumes "tx_lib_ok L V"
    and "add_output_with_one_script_token L (psd_validator scripts) (psd_policy scripts) datum ctx b = Ok b'"
  shows "\<exists>out. token_output L scripts (ctx_network ctx) datum out \<and> view_inputs V b' = view_inputs V b
    \<and> view_outputs V b' = view_outputs V b @ [out] \<and> view_mint V b' = view_mint V b"
  using assms(2) tx_lib_okD(5) [OF assms(1)]
  by (fastforce simp: add_output_with_one_script_token_def with_minimum_ada_def and_then_eq_Ok token_output_def)

lemma script_inputs_ids: "script_inputs_from E v red costs ix us = Ok is \<Longrightarrow> map input_id is = map ou_utxo_id us"
  by (induction us arbitrary: ix "is") (auto simp: Let_def and_then_eq_Ok script_utxo_input_def)

lemma one_spend_ids: "one_spend_inputs E v costs us = Ok is \<Longrightarrow> map input_id is = map ou_utxo_id us"
  by (induction us arbitrary: "is") (auto simp: and_then_eq_Ok script_utxo_input_def)

lemma mint_token_does:
  assumes ok: "tx_lib_ok (lib E) V" and "mint_token_tx E scripts red datum g costs ctx = Ok tx"
  shows "\<exists>out. token_output (lib E) scripts (ctx_network ctx) datum out
    \<and> does (lib E) V ctx [] [out] ((\<lambda>p. if p = plutus_script_hash (lib E) (psd_policy scripts) then 1 else 0)
        (governance_hash E V g := (if governance_hash E V g = plutus_script_hash (lib E) (psd_policy scripts) then 1 else 0) + 1)) (tx_body tx)"
proof -
  obtain b1 units b2 b3 b4 tx' where b: "new_builder (lib E) (protocol_parameters ctx) = Inr b1"
      "add_mint (lib E) (PlutusSource (psd_policy scripts) red units) [] 1 b1 = Inr b2"
      "add_output_with_one_script_token (lib E) (psd_validator scripts) (psd_policy scripts) datum ctx b2 = Ok b3"
      "add_governance_mint E g costs b3 = Ok b4" "balance_update_and_build (lib E) ctx b4 = Ok tx'"
      "tx = remove_native_script_witnesses tx'"
    using assms(2) by (auto simp: mint_token_tx_def and_then_eq_Ok add_mint_one_script_token_def)
  obtain out where out: "token_output (lib E) scripts (ctx_network ctx) datum out" "view_inputs V b3 = view_inputs V b2"
      "view_outputs V b3 = view_outputs V b2 @ [out]" "view_mint V b3 = view_mint V b2"
    using token_output_view [OF ok b(3)] by blast
  have "view_inputs V b4 = []" "view_outputs V b4 = [out]"
    "view_mint V b4 = (\<lambda>p. if p = plutus_script_hash (lib E) (psd_policy scripts) then 1 else 0)
        (governance_hash E V g := (if governance_hash E V g = plutus_script_hash (lib E) (psd_policy scripts) then 1 else 0) + 1)"
    using governance_mint_view [OF ok b(4)] tx_lib_okD(2) [OF ok b(2)] tx_lib_okD(1) [OF ok b(1)] out by (auto simp: fun_eq_iff)
  then show ?thesis using balance_does [OF ok b(5)] out(1) b(6) by auto
qed

lemma insert_is_mint:
  "insert_key_value_tx E scripts key val = mint_token_tx E scripts (unit_plutus_data (csl E))
     (governed_map_datum_to_plutus_data (csl E) \<lparr>gmd_key = key, gmd_value = val\<rparr>)"
  by (simp add: fun_eq_iff insert_key_value_tx_def mint_token_tx_def)

lemma replace_token_does:
  assumes ok: "tx_lib_ok (lib E) V" and "replace_token_tx E scripts red datum u g costs ctx = Ok tx"
  shows "\<exists>out. token_output (lib E) scripts (ctx_network ctx) datum out
    \<and> does (lib E) V ctx [ou_utxo_id u] [out] ((\<lambda>_. 0)(governance_hash E V g := 1)) (tx_body tx)"
proof -
  obtain b1 units i b2 b3 b4 tx' where b: "new_builder (lib E) (protocol_parameters ctx) = Inr b1"
      "script_utxo_input (lib E) u (psd_validator scripts) red units = Ok i"
      "set_inputs (lib E) [i] b1 = Inr b2"
      "add_output_with_one_script_token (lib E) (psd_validator scripts) (psd_policy scripts) datum ctx b2 = Ok b3"
      "add_governance_mint E g costs b3 = Ok b4" "balance_update_and_build (lib E) ctx b4 = Ok tx'"
      "tx = remove_native_script_witnesses tx'"
    using assms(2) by (auto simp: replace_token_tx_def and_then_eq_Ok)
  obtain out where out: "token_output (lib E) scripts (ctx_network ctx) datum out" "view_inputs V b3 = view_inputs V b2"
      "view_outputs V b3 = view_outputs V b2 @ [out]" "view_mint V b3 = view_mint V b2"
    using token_output_view [OF ok b(4)] by blast
  have "input_id i = ou_utxo_id u" using b(2) by (auto simp: script_utxo_input_def and_then_eq_Ok)
  then have "view_inputs V b4 = [ou_utxo_id u]" "view_outputs V b4 = [out]" "view_mint V b4 = (\<lambda>_. 0)(governance_hash E V g := 1)"
    using governance_mint_view [OF ok b(5)] tx_lib_okD(4) [OF ok b(3)] tx_lib_okD(1) [OF ok b(1)] out by (auto simp: fun_eq_iff)
  then show ?thesis using balance_does [OF ok b(6)] out(1) b(7) by auto
qed

lemma sint_neg_length:
  assumes "n < 2 ^ 31"
  shows "sint (- (word_of_nat n :: 32 word)) = - int n"
proof -
  have "signed_take_bit 31 (- int n) = - int n" using assms by (intro signed_take_bit_int_eq_self) auto
  moreover have "(- word_of_nat n :: 32 word) = word_of_int (- int n)" by simp
  ultimately show ?thesis by (simp only: signed_of_int) simp
qed

lemma update_does:
  assumes ok: "tx_lib_ok (lib E) V" and "update_key_value_tx E scripts key val us g costs ctx = Ok tx"
    and "us \<noteq> []"
  shows "\<exists>out minted. token_output (lib E) scripts (ctx_network ctx) (governed_map_datum_to_plutus_data (csl E) \<lparr>gmd_key = key, gmd_value = val\<rparr>) out
    \<and> does (lib E) V ctx (map ou_utxo_id us) [out] minted (tx_body tx)
    \<and> (governance_hash E V g \<noteq> plutus_script_hash (lib E) (psd_policy scripts) \<longrightarrow> length us < 2 ^ 31
        \<longrightarrow> minted (plutus_script_hash (lib E) (psd_policy scripts)) = 1 - int (length us))"
proof -
  let ?p = "plutus_script_hash (lib E) (psd_policy scripts)"
    and ?d = "governed_map_datum_to_plutus_data (csl E) \<lparr>gmd_key = key, gmd_value = val\<rparr>"
  obtain b1 b2 inputs b3 b4 b5 tx' where b: "new_builder (lib E) (protocol_parameters ctx) = Inr b1"
      "add_governance_mint E g costs b1 = Ok b2"
      "script_inputs_from E (psd_validator scripts) (new_bytes (csl E) []) costs 0 us = Ok inputs"
      "set_inputs (lib E) inputs b2 = Inr b3"
      "(if 1 < length us then and_then (get_mint (lib E) costs (psd_policy scripts)) (\<lambda>units.
          add_mint_script_tokens (lib E) (psd_policy scripts) [] (unit_plutus_data (csl E)) units
            (sint (- (word_of_nat (length us) - 1 :: 32 word))) b3) else Ok b3) = Ok b4"
      "add_output_with_one_script_token (lib E) (psd_validator scripts) (psd_policy scripts) ?d ctx b4 = Ok b5"
      "balance_update_and_build (lib E) ctx b5 = Ok tx'" "tx = remove_native_script_witnesses tx'"
    using assms(2) by (auto simp: update_key_value_tx_def and_then_eq_Ok)
  have "sint (- (word_of_nat (length us) - 1 :: 32 word)) = 1 - int (length us)" if "length us < 2 ^ 31"
    using sint_neg_length [of "length us - 1"] assms(3) that by (cases us) simp_all
  then have "view_inputs V b4 = view_inputs V b3 \<and> view_outputs V b4 = view_outputs V b3
      \<and> (length us < 2 ^ 31 \<longrightarrow> view_mint V b4 ?p = view_mint V b3 ?p + 1 - int (length us))"
    using b(5) assms(3) tx_lib_okD(2) [OF ok]
    by (cases "1 < length us") (auto simp: and_then_eq_Ok add_mint_script_tokens_def not_less le_Suc_eq)
  moreover obtain out where "token_output (lib E) scripts (ctx_network ctx) ?d out" "view_inputs V b5 = view_inputs V b4"
      "view_outputs V b5 = view_outputs V b4 @ [out]" "view_mint V b5 = view_mint V b4"
    using token_output_view [OF ok b(6)] by blast
  moreover have "view_inputs V b3 = map ou_utxo_id us" "view_outputs V b3 = []" "view_mint V b3 = (\<lambda>_. 0)(governance_hash E V g := 1)"
    using tx_lib_okD(4) [OF ok b(4)] script_inputs_ids [OF b(3)] governance_mint_view [OF ok b(2)] tx_lib_okD(1) [OF ok b(1)] by auto
  ultimately show ?thesis using balance_does [OF ok b(7)] b(8) by (auto intro!: exI [of _ out] exI [of _ "view_mint V b5"])
qed

lemma remove_does:
  assumes ok: "tx_lib_ok (lib E) V" and "remove_key_value_tx E scripts us g costs ctx = Ok tx"
  shows "\<exists>minted. does (lib E) V ctx (map ou_utxo_id us) [] minted (tx_body tx)
    \<and> (governance_hash E V g \<noteq> plutus_script_hash (lib E) (psd_policy scripts) \<longrightarrow> length us < 2 ^ 31
        \<longrightarrow> minted (plutus_script_hash (lib E) (psd_policy scripts)) = - int (length us))"
proof -
  let ?p = "plutus_script_hash (lib E) (psd_policy scripts)"
  obtain b1 b2 inputs b3 units b4 tx' where b: "new_builder (lib E) (protocol_parameters ctx) = Inr b1"
      "add_governance_mint E g costs b1 = Ok b2"
      "script_inputs_from E (psd_validator scripts) (unit_plutus_data (csl E)) costs 0 us = Ok inputs"
      "set_inputs (lib E) inputs b2 = Inr b3"
      "add_mint (lib E) (PlutusSource (psd_policy scripts) (unit_plutus_data (csl E)) units) []
         (sint (- word_of_nat (length us) :: 32 word)) b3 = Inr b4"
      "balance_update_and_build (lib E) ctx b4 = Ok tx'" "tx = remove_native_script_witnesses tx'"
    using assms(2) by (auto simp: remove_key_value_tx_def and_then_eq_Ok add_mint_script_tokens_def)
  have "view_inputs V b3 = map ou_utxo_id us" "view_outputs V b3 = []" "view_mint V b3 = (\<lambda>_. 0)(governance_hash E V g := 1)"
    using tx_lib_okD(4) [OF ok b(4)] script_inputs_ids [OF b(3)] governance_mint_view [OF ok b(2)] tx_lib_okD(1) [OF ok b(1)] by auto
  then show ?thesis
    using balance_does [OF ok b(6)] b(7) tx_lib_okD(2) [OF ok b(5)] sint_neg_length [of "length us"]
    by (auto intro!: exI [of _ "view_mint V b4"])
qed

subsection \<open>The UTXOs after a transaction\<close>

lemma payer_elsewhere:
  assumes "tx_lib_ok (lib E) V" and "client_ok (client E) n" and "payer E n ctx"
    and "query_utxos (client E) address w = (Inr utxos, w')" and "to_bech32 (lib E) (script_address (lib E) s n) = Inr address"
  shows "ou_utxo_id ` set (payment_key_utxos ctx) \<inter> ou_utxo_id ` set utxos = {}" "change_address ctx \<noteq> script_address (lib E) s n"
proof -
  obtain k a v v' where "to_bech32 (lib E) (key_hash_address (lib E) k n) = Inr a" "query_utxos (client E) a v = (Inr (payment_key_utxos ctx), v')"
    using assms(3) by (auto simp: payer_def)
  moreover from this have "a \<noteq> address" using tx_lib_ok_addresses(1) [OF assms(1)] assms(5) by metis
  ultimately show "ou_utxo_id ` set (payment_key_utxos ctx) \<inter> ou_utxo_id ` set utxos = {}"
    using assms(2,4) unfolding client_ok_def by (metis list.set_map)
  show "change_address ctx \<noteq> script_address (lib E) s n"
    using assms(3) tx_lib_ok_addresses(2) [OF assms(1)] unfolding payer_def by metis
qed

lemma apply_tx_does:
  assumes "tx_lib_ok (lib E) V" and "client_ok (client E) n" and "payer E n ctx"
    and "query_utxos (client E) address w = (Inr utxos, w')" and "to_bech32 (lib E) (script_address (lib E) s n) = Inr address"
    and "does (lib E) V ctx spent outs minted body" and "\<forall>out \<in> set outs. out_address out = script_address (lib E) s n"
  shows "apply_tx (lib E) V (script_address (lib E) s n) address tx_id body utxos
    = filter (\<lambda>u. ou_utxo_id u \<notin> set spent) utxos @ map (ledger_utxo V address tx_id) (enumerate 0 outs)"
proof -
  let ?a = "script_address (lib E) s n"
  obtain more change where d: "set (body_inputs (lib E) body) = set spent \<union> set more"
      "set more \<subseteq> ou_utxo_id ` set (payment_key_utxos ctx)" "body_outputs (lib E) body = outs @ change"
      "\<forall>out \<in> set change. out_address out = change_address ctx"
    using assms(6) unfolding does_def by blast
  note elsewhere = payer_elsewhere [OF assms(1-5)]
  have "filter (\<lambda>u. ou_utxo_id u \<notin> set (body_inputs (lib E) body)) utxos = filter (\<lambda>u. ou_utxo_id u \<notin> set spent) utxos"
    using d(1,2) elsewhere(1) by (intro filter_cong) auto
  moreover have "filter (\<lambda>out. out_address (snd out) = ?a) (enumerate 0 (outs @ change)) = enumerate 0 outs"
  proof -
    have "filter (\<lambda>out. out_address (snd out) = ?a) (enumerate 0 outs) = enumerate 0 outs"
      using assms(7) by (intro filter_True) (auto simp: enumerate_eq_zip dest: set_zip_rightD)
    moreover have "filter (\<lambda>out. out_address (snd out) = ?a) (enumerate (length outs) change) = []"
      using d(4) elsewhere(2) by (intro filter_False) (auto simp: enumerate_eq_zip dest!: set_zip_rightD)
    ultimately show ?thesis by (simp add: enumerate_append_eq)
  qed
  ultimately show ?thesis by (simp add: apply_tx_def d(3))
qed

subsection \<open>The entries of the governed map\<close>

definition entry_of :: "('w, 'pp, 'b, 'body, 'pd) offchain \<Rightarrow> bytes \<Rightarrow> ogmios_utxo \<Rightarrow> governed_map_datum option" where
  "entry_of E token u = (case governed_map_utxo E token u of Ok g \<Rightarrow> g | _ \<Rightarrow> None)"

lemma governed_map_utxos_Ok:
  "governed_map_utxos E us token = Ok es \<longleftrightarrow> (\<forall>u \<in> set us. \<exists>g. governed_map_utxo E token u = Ok g)
     \<and> es = List.map_filter (\<lambda>u. map_option (Pair u) (entry_of E token u)) us"
proof (induction us arbitrary: es)
  case (Cons u us)
  then show ?case
    by (cases "governed_map_utxo E token u") (auto simp: and_then_eq_Ok map_filter_simps entry_of_def split: option.splits)
qed (auto simp: map_filter_simps)

lemma map_filter_as_map: "List.map_filter f xs = map (\<lambda>x. the (f x)) (filter (\<lambda>x. f x \<noteq> None) xs)"
  by (induction xs) (auto simp: map_filter_simps)

lemma map_filter_append: "List.map_filter f (xs @ ys) = List.map_filter f xs @ List.map_filter f ys"
  by (simp add: map_filter_as_map)

lemma entries_snd: "map snd (List.map_filter (\<lambda>u. map_option (Pair u) (f u)) us) = List.map_filter f us"
  by (induction us) (auto simp: map_filter_simps split: option.splits)

lemma map_filter_mset_cong: "mset xs = mset ys \<Longrightarrow> mset (List.map_filter f xs) = mset (List.map_filter f ys)"
  by (simp add: map_filter_as_map mset_filter)

lemma map_filter_unspent:
  "List.map_filter f (filter (\<lambda>u. \<not> (\<exists>g. f u = Some g \<and> P g)) us) = filter (\<lambda>g. \<not> P g) (List.map_filter f us)"
  by (induction us) (auto simp: map_filter_simps split: option.splits)

lemma get_current_value_None:
  assumes "get_current_value E us key token = Ok None"
  shows "\<exists>es. governed_map_utxos E us token = Ok es \<and> filter (\<lambda>g. gmd_key g \<noteq> key) (map snd es) = map snd es"
  using assms
proof (induction us)
  case (Cons u us)
  then obtain g where g: "governed_map_utxo E token u = Ok g" by (auto simp: and_then_eq_Ok)
  then obtain es where "governed_map_utxos E us token = Ok es" "filter (\<lambda>g. gmd_key g \<noteq> key) (map snd es) = map snd es"
    using Cons by (auto split: option.splits if_splits)
  then show ?case using g Cons.prems by (auto split: option.splits if_splits)
qed simp

lemma get_current_value_Some:
  assumes "get_current_value E us key token = Ok (Some v)" and "governed_map_utxos E us token = Ok es"
  shows "\<lparr>gmd_key = key, gmd_value = v\<rparr> \<in> set (map snd es)"
  using assms
proof (induction us arbitrary: es)
  case (Cons u us)
  then show ?case by (fastforce simp: and_then_eq_Ok split: option.splits if_splits)
qed simp

text \<open>Spending the UTXOs of a key leaves the entries of the other keys.\<close>

lemma unspent_entries:
  assumes "distinct (map ou_utxo_id utxos)" and "get_utxos_for_key E utxos key token = Ok us"
  shows "filter (\<lambda>u. ou_utxo_id u \<notin> set (map ou_utxo_id us)) utxos
    = filter (\<lambda>u. \<not> (\<exists>g. entry_of E token u = Some g \<and> gmd_key g = key)) utxos"
proof (rule filter_cong [OF refl])
  fix u assume u: "u \<in> set utxos"
  obtain es where es: "governed_map_utxos E utxos token = Ok es" "us = map fst (filter (\<lambda>(_, g). gmd_key g = key) es)"
    using assms(2) by (auto simp: get_utxos_for_key_def and_then_eq_Ok)
  have "x \<in> set us \<longleftrightarrow> x \<in> set utxos \<and> (\<exists>g. entry_of E token x = Some g \<and> gmd_key g = key)" for x
    using es by (force simp: governed_map_utxos_Ok map_filter_as_map)
  then have "set us \<subseteq> set utxos" "u \<in> set us \<longleftrightarrow> (\<exists>g. entry_of E token u = Some g \<and> gmd_key g = key)" using u by blast+
  moreover have "inj_on ou_utxo_id (set utxos)" using assms(1) by (simp add: distinct_map)
  ultimately show "ou_utxo_id u \<notin> set (map ou_utxo_id us) \<longleftrightarrow> \<not> (\<exists>g. entry_of E token u = Some g \<and> gmd_key g = key)"
    using u by (simp add: inj_on_image_mem_iff)
qed

lemma new_entry:
  assumes "csl_ok (csl E)" and "tx_lib_ok (lib E) V" and "utf8_valid key"
    and "token_output (lib E) scripts n (governed_map_datum_to_plutus_data (csl E) \<lparr>gmd_key = key, gmd_value = val\<rparr>) out"
  shows "governed_map_utxo E (plutus_script_hash (lib E) (psd_policy scripts)) (ledger_utxo V address tx_id (i, out))
    = Ok (Some \<lparr>gmd_key = key, gmd_value = val\<rparr>)"
  using assms governed_map_datum_plutus [OF assms(1), of "\<lparr>gmd_key = key, gmd_value = val\<rparr>"] tx_lib_okD(13) [OF assms(2)]
  by (simp add: governed_map_utxo_def token_output_def ledger_utxo_def get_plutus_data_def)

text \<open>The entries of UTXOs that are, in any order, those without a key and new ones.\<close>

lemma entries_after:
  assumes "governed_map_utxos E utxos token = Ok es" and "\<forall>u \<in> set new. \<exists>g. governed_map_utxo E token u = Ok (Some g)"
    and "mset after = mset (filter (\<lambda>u. \<not> (\<exists>g. entry_of E token u = Some g \<and> gmd_key g = key)) utxos @ new)"
  shows "\<exists>es'. governed_map_utxos E after token = Ok es'
    \<and> mset (map snd es') = mset (filter (\<lambda>g. gmd_key g \<noteq> key) (map snd es)) + mset (List.map_filter (entry_of E token) new)"
proof -
  have "set after = set (filter (\<lambda>u. \<not> (\<exists>g. entry_of E token u = Some g \<and> gmd_key g = key)) utxos @ new)"
    by (rule mset_eq_setD [OF assms(3)])
  then have "governed_map_utxos E after token = Ok (List.map_filter (\<lambda>u. map_option (Pair u) (entry_of E token u)) after)"
    using assms(1,2) by (auto simp: governed_map_utxos_Ok)
  moreover have "mset (List.map_filter (entry_of E token) after)
      = mset (filter (\<lambda>g. gmd_key g \<noteq> key) (List.map_filter (entry_of E token) utxos)) + mset (List.map_filter (entry_of E token) new)"
    unfolding map_filter_mset_cong [OF assms(3)] map_filter_append map_filter_unspent mset_append ..
  moreover have "map snd es = List.map_filter (entry_of E token) utxos" using assms(1) by (simp only: governed_map_utxos_Ok entries_snd)
  ultimately show ?thesis
    by (intro exI [of _ "List.map_filter (\<lambda>u. map_option (Pair u) (entry_of E token u)) after"]) (simp only: entries_snd)
qed

subsection \<open>Properties\<close>

datatype map_operation = InsertKey bytes bytes | UpdateKey bytes bytes "bytes option" | RemoveKey bytes

fun run_operation ::
  "('w, 'pp, 'b, 'body, 'pd) offchain \<Rightarrow> utxo_id \<Rightarrow> map_operation \<Rightarrow> bytes \<Rightarrow> ('w, 'body multisig_result option) io" where
  "run_operation E genesis_utxo (InsertKey key val) signing_key = run_insert E genesis_utxo key val signing_key"
| "run_operation E genesis_utxo (UpdateKey key val expected) signing_key = run_update E genesis_utxo key val expected signing_key"
| "run_operation E genesis_utxo (RemoveKey key) signing_key = run_remove E genesis_utxo key signing_key"

fun operation_key :: "map_operation \<Rightarrow> bytes" where
  "operation_key (InsertKey key _) = key"
| "operation_key (UpdateKey key _ _) = key"
| "operation_key (RemoveKey key) = key"

fun operation_entries :: "map_operation \<Rightarrow> governed_map_datum list" where
  "operation_entries (InsertKey key val) = [\<lparr>gmd_key = key, gmd_value = val\<rparr>]"
| "operation_entries (UpdateKey key val _) = [\<lparr>gmd_key = key, gmd_value = val\<rparr>]"
| "operation_entries (RemoveKey key) = []"

text \<open>
  A transaction has the effect of an operation: whatever its hash, and in whatever order its outputs are listed, the map afterwards has the entries
  of the other keys and those of the operation, and the transaction mints as many map tokens as the number of entries changes.
\<close>

definition has_effect ::
  "('w, 'pp, 'b, 'body, 'pd) offchain \<Rightarrow> ('b, 'body, 'pd) builder_view \<Rightarrow> network \<Rightarrow> plutus_script_data \<Rightarrow> ogmios_utxo list
     \<Rightarrow> governed_map_datum list \<Rightarrow> map_operation \<Rightarrow> governance_data \<Rightarrow> 'body \<Rightarrow> bool" where
  "has_effect E V n scripts utxos entries operation g body \<longleftrightarrow>
     (let token = plutus_script_hash (lib E) (psd_policy scripts);
          entries' = filter (\<lambda>e. gmd_key e \<noteq> operation_key operation) entries @ operation_entries operation in
      (\<forall>tx_id after. mset after = mset (apply_tx (lib E) V (script_address (lib E) (psd_validator scripts) n)
           (psd_validator_address scripts) tx_id body utxos)
         \<longrightarrow> (\<exists>es. governed_map_utxos E after token = Ok es \<and> mset (map snd es) = mset entries'))
      \<and> (governance_hash E V g \<noteq> token \<longrightarrow> length utxos < 2 ^ 31 \<longrightarrow> body_mint V body token = int (length entries') - int (length entries)))"

lemma effect_of:
  assumes ok: "csl_ok (csl E)" "tx_lib_ok (lib E) V" "client_ok (client E) n" and payer: "payer E n ctx"
    and query: "query_utxos (client E) (psd_validator_address scripts) w = (Inr utxos, w')"
    and address: "to_bech32 (lib E) (script_address (lib E) (psd_validator scripts) n) = Inr (psd_validator_address scripts)"
    and es: "governed_map_utxos E utxos (plutus_script_hash (lib E) (psd_policy scripts)) = Ok es"
    and us: "get_utxos_for_key E utxos (operation_key operation) (plutus_script_hash (lib E) (psd_policy scripts)) = Ok us"
    and does: "does (lib E) V ctx (map ou_utxo_id us) outs minted body"
    and outs: "list_all2 (\<lambda>out e. token_output (lib E) scripts n (governed_map_datum_to_plutus_data (csl E) e) out) outs (operation_entries operation)"
    and key: "utf8_valid (operation_key operation)"
    and mint: "governance_hash E V g \<noteq> plutus_script_hash (lib E) (psd_policy scripts) \<longrightarrow> length us < 2 ^ 31
      \<longrightarrow> minted (plutus_script_hash (lib E) (psd_policy scripts)) = int (length outs) - int (length us)"
  shows "has_effect E V n scripts utxos (map snd es) operation g body"
proof -
  let ?t = "plutus_script_hash (lib E) (psd_policy scripts)" and ?k = "operation_key operation"
  have new: "\<forall>u \<in> set (map (ledger_utxo V a tx_id) (enumerate i outs)). \<exists>e. governed_map_utxo E ?t u = Ok (Some e)"
    "List.map_filter (entry_of E ?t) (map (ledger_utxo V a tx_id) (enumerate i outs)) = operation_entries operation" for a tx_id i
    using outs key new_entry [OF ok(1,2)]
    by (cases operation; auto simp: list_all2_Cons2 map_filter_simps entry_of_def)+
  have "\<forall>out \<in> set outs. out_address out = script_address (lib E) (psd_validator scripts) n"
    using outs by (auto simp: token_output_def list_all2_conv_all_nth in_set_conv_nth)
  note applied = apply_tx_does [OF ok(2,3) payer query address does this]
  have "distinct (map ou_utxo_id utxos)" using ok(3) query unfolding client_ok_def by blast
  note unspent = unspent_entries [OF this us]
  have "\<exists>es'. governed_map_utxos E after ?t = Ok es' \<and> mset (map snd es') = mset (filter (\<lambda>e. gmd_key e \<noteq> ?k) (map snd es) @ operation_entries operation)"
    if "mset after = mset (apply_tx (lib E) V (script_address (lib E) (psd_validator scripts) n) (psd_validator_address scripts) tx_id body utxos)"
    for tx_id after
    using entries_after [OF es new(1) that [unfolded applied unspent]] by (simp add: new(2))
  moreover have "length us = length (filter (\<lambda>e. gmd_key e = ?k) (map snd es))"
    using us es by (auto simp: get_utxos_for_key_def filter_map o_def case_prod_unfold)
  moreover from this have "length us \<le> length utxos"
    using length_filter_le [of "\<lambda>e. gmd_key e = ?k" "map snd es"] es by (auto simp: governed_map_utxos_Ok map_filter_as_map intro: le_trans)
  moreover have "int (length (filter (\<lambda>e. gmd_key e \<noteq> ?k) (map snd es))) - int (length (map snd es)) = - int (length us)"
    using calculation(2) sum_length_filter_compl [of "\<lambda>e. gmd_key e = ?k" "map snd es"] by simp
  moreover have "length outs = length (operation_entries operation)" using outs by (rule list_all2_lengthD)
  moreover have "body_mint V body = minted" using does by (auto simp: does_def)
  ultimately show ?thesis using mint by (auto simp: has_effect_def Let_def)
qed

lemma governed_submit_issues:
  assumes "client_ok (client E) n" and "payer E n ctx" and "governed_submit E genesis_utxo ctx make_tx name w = (Ok r, w')"
  shows "\<exists>r' g w1 costs ctx' tx. r = Some r' \<and> governance_get E genesis_utxo w = (Ok g, w1) \<and> make_tx g costs ctx' = Ok tx
    \<and> payer E n ctx' \<and> issued E r' (tx_body tx)"
proof -
  obtain g w1 r' where g: "governance_get E genesis_utxo w = (Ok g, w1)"
      "submit_or_create_tx_to_sign E g ctx (make_tx g) name w1 = (Ok r', w')" "r = Some r'"
    using assms(3) by (auto simp: governed_submit_def io_simps)
  obtain costs ctx' tx where "make_tx g costs ctx' = Ok tx" "payer E n ctx'" "issued E r' (tx_body tx)"
    using submit_or_create_issues [OF assms(1,2) g(2)] by blast
  then show ?thesis using g(1,3) by blast
qed

lemma await_submitted_Ok: "await_submitted E r w = (Ok r', w') \<Longrightarrow> r' = r"
  by (auto simp: await_submitted_def io_simps split: option.splits multisig_result.splits)

lemma governed_map_address:
  "governed_map_scripts E genesis_utxo n = Ok scripts
    \<Longrightarrow> to_bech32 (lib E) (script_address (lib E) (psd_validator scripts) n) = Inr (psd_validator_address scripts)"
  by (auto simp: governed_map_scripts_def and_then_eq_Ok address_bech32_def)

fun settled :: "('w, 'pp, 'b, 'body, 'pd) offchain \<Rightarrow> bytes \<Rightarrow> ogmios_utxo list \<Rightarrow> map_operation \<Rightarrow> bool" where
  "settled E token utxos (InsertKey key val) \<longleftrightarrow> get_current_value E utxos key token = Ok (Some val)"
| "settled E token utxos (UpdateKey key val _) \<longleftrightarrow> get_current_value E utxos key token = Ok (Some val)"
| "settled E token utxos (RemoveKey key) \<longleftrightarrow> get_utxos_for_key E utxos key token = Ok []"

text \<open>The map is the one read after the payer was found, in the world that the operation starts from; the governance is read next.\<close>

definition operation_done ::
  "('w, 'pp, 'b, 'body, 'pd) offchain \<Rightarrow> ('b, 'body, 'pd) builder_view \<Rightarrow> network \<Rightarrow> utxo_id \<Rightarrow> map_operation \<Rightarrow> bytes \<Rightarrow> 'w
     \<Rightarrow> 'body multisig_result option \<Rightarrow> bool" where
  "operation_done E V n genesis_utxo operation signing_key w result \<longleftrightarrow> (\<exists>scripts utxos w1.
     governed_map_scripts E genesis_utxo n = Ok scripts
     \<and> query_utxos (client E) (psd_validator_address scripts) (snd (for_payment_key (lib E) (client E) signing_key w)) = (Inr utxos, w1)
     \<and> (case result of
          None \<Rightarrow> settled E (plutus_script_hash (lib E) (psd_policy scripts)) utxos operation
        | Some r \<Rightarrow> \<exists>es g w2 body. governed_map_utxos E utxos (plutus_script_hash (lib E) (psd_policy scripts)) = Ok es
            \<and> governance_get E genesis_utxo w1 = (Ok g, w2) \<and> issued E r body
            \<and> has_effect E V n scripts utxos (map snd es) operation g body))"

text \<open>An operation that submits a transaction is done if the transaction spends the UTXOs of the key and creates the entries of the operation.\<close>

lemma submitted_operation_done:
  assumes ok: "csl_ok (csl E)" "tx_lib_ok (lib E) V" "client_ok (client E) n" and key: "utf8_valid (operation_key operation)"
    and ctx: "for_payment_key (lib E) (client E) signing_key w = (Ok ctx, w1)" and scripts: "governed_map_scripts E genesis_utxo n = Ok scripts"
    and query: "query_utxos (client E) (psd_validator_address scripts) w1 = (Inr utxos, w2)"
    and us: "get_utxos_for_key E utxos (operation_key operation) (plutus_script_hash (lib E) (psd_policy scripts)) = Ok us"
    and submit: "governed_submit E genesis_utxo ctx make_tx name w2 = (Ok result, w')"
    and builds: "\<And>g costs ctx' tx. make_tx g costs ctx' = Ok tx \<Longrightarrow> \<exists>outs minted. does (lib E) V ctx' (map ou_utxo_id us) outs minted (tx_body tx)
      \<and> list_all2 (\<lambda>out e. token_output (lib E) scripts (ctx_network ctx') (governed_map_datum_to_plutus_data (csl E) e) out) outs (operation_entries operation)
      \<and> (governance_hash E V g \<noteq> plutus_script_hash (lib E) (psd_policy scripts) \<longrightarrow> length us < 2 ^ 31
          \<longrightarrow> minted (plutus_script_hash (lib E) (psd_policy scripts)) = int (length outs) - int (length us))"
  shows "operation_done E V n genesis_utxo operation signing_key w result"
proof -
  obtain r g v costs ctx' tx where r: "result = Some r" "governance_get E genesis_utxo w2 = (Ok g, v)"
      "make_tx g costs ctx' = Ok tx" and p: "payer E n ctx'" and i: "issued E r (tx_body tx)"
    using governed_submit_issues [OF ok(3) for_payment_key_payer [OF ok(3) ctx] submit] by blast
  obtain es where es: "governed_map_utxos E utxos (plutus_script_hash (lib E) (psd_policy scripts)) = Ok es"
    using us by (auto simp: get_utxos_for_key_def and_then_eq_Ok)
  have n: "ctx_network ctx' = n" using p by (simp add: payer_def)
  obtain outs minted where b: "does (lib E) V ctx' (map ou_utxo_id us) outs minted (tx_body tx)"
      "list_all2 (\<lambda>out e. token_output (lib E) scripts n (governed_map_datum_to_plutus_data (csl E) e) out) outs (operation_entries operation)"
      "governance_hash E V g \<noteq> plutus_script_hash (lib E) (psd_policy scripts) \<longrightarrow> length us < 2 ^ 31
        \<longrightarrow> minted (plutus_script_hash (lib E) (psd_policy scripts)) = int (length outs) - int (length us)"
    using builds [OF r(3)] unfolding n by blast
  have effect: "has_effect E V n scripts utxos (map snd es) operation g (tx_body tx)"
    by (rule effect_of [OF ok p query governed_map_address [OF scripts] es us b(1,2) key b(3)])
  have "query_utxos (client E) (psd_validator_address scripts) (snd (for_payment_key (lib E) (client E) signing_key w)) = (Inr utxos, w2)"
    using ctx query by simp
  then show ?thesis using effect scripts es r(2) i unfolding operation_done_def r(1) option.case by blast
qed

lemma run_insert_done:
  assumes ok: "csl_ok (csl E)" "tx_lib_ok (lib E) V" "client_ok (client E) n" and key: "utf8_valid key"
    and run: "run_insert E genesis_utxo key val signing_key w = (Ok result, w')"
  shows "operation_done E V n genesis_utxo (InsertKey key val) signing_key w result"
proof -
  obtain ctx scripts utxos current w1 w2 w3 where ctx: "for_payment_key (lib E) (client E) signing_key w = (Ok ctx, w1)"
    and scripts: "governed_map_scripts E genesis_utxo (ctx_network ctx) = Ok scripts"
    and query: "query_utxos (client E) (psd_validator_address scripts) w1 = (Inr utxos, w2)"
    and current: "get_current_value E utxos key (plutus_script_hash (lib E) (psd_policy scripts)) = Ok current"
    and rest: "(case current of
         Some current_value \<Rightarrow> if current_value \<noteq> val then io_of (Err ValueAlreadyStored) else io_of (Ok None)
       | None \<Rightarrow> governed_submit E genesis_utxo ctx (insert_key_value_tx E scripts key val) ''Insert Key-Value pair'') w2 = (Ok result, w3)"
    using run by (auto simp: run_insert_def io_simps dest: await_submitted_Ok)
  note payer = for_payment_key_payer [OF ok(3) ctx]
  have n: "ctx_network ctx = n" using payer by (simp add: payer_def)
  show ?thesis
  proof (cases current)
    case None
    then have submit: "governed_submit E genesis_utxo ctx (insert_key_value_tx E scripts key val) ''Insert Key-Value pair'' w2 = (Ok result, w3)"
      using rest by simp
    obtain es where "governed_map_utxos E utxos (plutus_script_hash (lib E) (psd_policy scripts)) = Ok es" "filter (\<lambda>g. gmd_key g \<noteq> key) (map snd es) = map snd es"
      using get_current_value_None [OF current [unfolded None]] by blast
    then have us: "get_utxos_for_key E utxos (operation_key (InsertKey key val)) (plutus_script_hash (lib E) (psd_policy scripts)) = Ok []"
      by (auto simp: get_utxos_for_key_def filter_id_conv filter_empty_conv)
    show ?thesis
      using mint_token_does [OF ok(2)] key
      by (intro submitted_operation_done [OF ok _ ctx scripts [unfolded n] query us submit]) (fastforce simp: insert_is_mint)+
  next
    case (Some v)
    then show ?thesis using rest ctx scripts query current unfolding operation_done_def n by (auto split: if_splits)
  qed
qed

lemma run_update_done:
  assumes ok: "csl_ok (csl E)" "tx_lib_ok (lib E) V" "client_ok (client E) n" and key: "utf8_valid key"
    and run: "run_update E genesis_utxo key val expected signing_key w = (Ok result, w')"
  shows "operation_done E V n genesis_utxo (UpdateKey key val expected) signing_key w result"
proof -
  obtain ctx scripts utxos us current w1 w2 where ctx: "for_payment_key (lib E) (client E) signing_key w = (Ok ctx, w1)"
    and scripts: "governed_map_scripts E genesis_utxo (ctx_network ctx) = Ok scripts"
    and query: "query_utxos (client E) (psd_validator_address scripts) w1 = (Inr utxos, w2)"
    and us: "get_utxos_for_key E utxos key (plutus_script_hash (lib E) (psd_policy scripts)) = Ok us"
    and found: "get_current_value E utxos key (plutus_script_hash (lib E) (psd_policy scripts)) = Ok current"
    and "(case current of
       None \<Rightarrow> io_of (Err CannotUpdateNonexistentKey)
     | Some actual_current_value \<Rightarrow>
         if expected \<noteq> None \<and> expected \<noteq> Some actual_current_value then io_of (Err UnexpectedCurrentValue)
         else io_then
           (if actual_current_value \<noteq> val
            then governed_submit E genesis_utxo ctx (update_key_value_tx E scripts key val us) ''Update Key-Value pair''
            else io_of (Ok None))
           (await_submitted E)) w2 = (Ok result, w')"
    using run unfolding run_update_def io_then_Ok client_result_Ok io_of_Ok by blast
  then obtain v w3 where current: "get_current_value E utxos key (plutus_script_hash (lib E) (psd_policy scripts)) = Ok (Some v)"
    and rest: "(if v \<noteq> val
       then governed_submit E genesis_utxo ctx (update_key_value_tx E scripts key val us) ''Update Key-Value pair'' else io_of (Ok None)) w2
       = (Ok result, w3)"
    by (cases current) (auto simp: io_simps dest: await_submitted_Ok split: if_splits)
  note payer = for_payment_key_payer [OF ok(3) ctx]
  have n: "ctx_network ctx = n" using payer by (simp add: payer_def)
  have us': "get_utxos_for_key E utxos (operation_key (UpdateKey key val expected)) (plutus_script_hash (lib E) (psd_policy scripts)) = Ok us"
    using us by simp
  have "us \<noteq> []"
    using us get_current_value_Some [OF current] by (fastforce simp: get_utxos_for_key_def and_then_eq_Ok filter_empty_conv)
  note builds = update_does [OF ok(2) _ this]
  show ?thesis
  proof (cases "v = val")
    case False
    then have submit: "governed_submit E genesis_utxo ctx (update_key_value_tx E scripts key val us) ''Update Key-Value pair'' w2 = (Ok result, w3)"
      using rest by simp
    show ?thesis
      using builds key
      by (intro submitted_operation_done [OF ok _ ctx scripts [unfolded n] query us' submit]) fastforce+
  next
    case True
    then show ?thesis using rest ctx scripts query current unfolding operation_done_def n by auto
  qed
qed

lemma run_remove_done:
  assumes ok: "csl_ok (csl E)" "tx_lib_ok (lib E) V" "client_ok (client E) n" and key: "utf8_valid key"
    and run: "run_remove E genesis_utxo key signing_key w = (Ok result, w')"
  shows "operation_done E V n genesis_utxo (RemoveKey key) signing_key w result"
proof -
  obtain ctx scripts utxos us w1 w2 w3 where ctx: "for_payment_key (lib E) (client E) signing_key w = (Ok ctx, w1)"
    and scripts: "governed_map_scripts E genesis_utxo (ctx_network ctx) = Ok scripts"
    and query: "query_utxos (client E) (psd_validator_address scripts) w1 = (Inr utxos, w2)"
    and us: "get_utxos_for_key E utxos key (plutus_script_hash (lib E) (psd_policy scripts)) = Ok us"
    and rest: "(if length us = 0 then io_of (Ok None)
        else governed_submit E genesis_utxo ctx (remove_key_value_tx E scripts us) ''Remove Key-Value pair'') w2 = (Ok result, w3)"
    using run by (auto simp: run_remove_def io_simps dest: await_submitted_Ok)
  note payer = for_payment_key_payer [OF ok(3) ctx]
  have n: "ctx_network ctx = n" using payer by (simp add: payer_def)
  have us': "get_utxos_for_key E utxos (operation_key (RemoveKey key)) (plutus_script_hash (lib E) (psd_policy scripts)) = Ok us"
    using us by simp
  show ?thesis
  proof (cases "us = []")
    case False
    then have submit: "governed_submit E genesis_utxo ctx (remove_key_value_tx E scripts us) ''Remove Key-Value pair'' w2 = (Ok result, w3)"
      using rest by simp
    show ?thesis
      using remove_does [OF ok(2)] key
      by (intro submitted_operation_done [OF ok _ ctx scripts [unfolded n] query us' submit]) fastforce+
  next
    case True
    then show ?thesis using rest ctx scripts query us unfolding operation_done_def n by auto
  qed
qed

text \<open>
  C11: The governed map operations do what they say. If inserting, updating or removing a key returns normally, then either no transaction was needed because
  the map on Cardano was already as asked, or the transaction that was submitted or handed out for signatures turns the map that was read into the one
  where the key has exactly the given value (or none, even if it was stored several times) and all other entries are unchanged; and the
  transaction mints or burns exactly the difference in map tokens, provided that the governance policy is not the policy of the map and there are fewer than two to the power 31 UTXOs.
  Relied on: the laws of the transaction builder, of Plutus data and of the ledger behind the client.
\<close>

theorem governed_map_operations:
  assumes "csl_ok (csl E)" "tx_lib_ok (lib E) V" "client_ok (client E) n" and "utf8_valid (operation_key operation)"
    and "run_operation E genesis_utxo operation signing_key w = (Ok result, w')"
  shows "operation_done E V n genesis_utxo operation signing_key w result"
  using assms run_insert_done run_update_done run_remove_done by (cases operation) fastforce+

subsubsection \<open>The D-parameter and the permissioned candidates\<close>

lemma token_utxos_after:
  assumes ok: "tx_lib_ok (lib E) V" "client_ok (client E) n" and payer: "payer E n ctx"
    and query: "query_utxos (client E) (psd_validator_address scripts) w = (Inr utxos, w')"
    and address: "to_bech32 (lib E) (script_address (lib E) (psd_validator scripts) n) = Inr (psd_validator_address scripts)"
    and spent: "set spent = ou_utxo_id ` set (token_utxos (plutus_script_hash (lib E) (psd_policy scripts)) utxos)"
    and out: "token_output (lib E) scripts n datum out" and does: "does (lib E) V ctx spent [out] minted body"
    and after: "mset after = mset (apply_tx (lib E) V (script_address (lib E) (psd_validator scripts) n) (psd_validator_address scripts) tx_id body utxos)"
  shows "\<exists>u. token_utxos (plutus_script_hash (lib E) (psd_policy scripts)) after = [u] \<and> token_datum E u = Ok datum"
proof -
  let ?t = "plutus_script_hash (lib E) (psd_policy scripts)" and ?u = "ledger_utxo V (psd_validator_address scripts) tx_id (0, out)"
  have "\<forall>out \<in> set [out]. out_address out = script_address (lib E) (psd_validator scripts) n" using out by (simp add: token_output_def)
  then have "mset after = mset (filter (\<lambda>u. ou_utxo_id u \<notin> set spent) utxos @ [?u])"
    using after apply_tx_does [OF ok payer query address does] by simp
  then have "mset (token_utxos ?t after) = mset (token_utxos ?t (filter (\<lambda>u. ou_utxo_id u \<notin> set spent) utxos @ [?u]))"
    by (simp only: token_utxos_def mset_filter)
  moreover have "token_utxos ?t (filter (\<lambda>u. ou_utxo_id u \<notin> set spent) utxos @ [?u]) = [?u]"
    using out by (auto simp: spent token_utxos_def token_output_def ledger_utxo_def filter_empty_conv)
  moreover have "token_datum E ?u = Ok datum"
    using out tx_lib_okD(13) [OF ok(1)] by (simp add: token_datum_def token_output_def ledger_utxo_def)
  ultimately show ?thesis by auto
qed

text \<open>
  The result of an upsert that reads the UTXOs in a world: nothing was needed because the value was read, or whatever the hash of the transaction and the order of
  its outputs, the value is read afterwards.
\<close>

definition upsert_done ::
  "('w, 'pp, 'b, 'body, 'pd) offchain \<Rightarrow> ('b, 'body, 'pd) builder_view \<Rightarrow> network \<Rightarrow> plutus_script_data result
     \<Rightarrow> (ogmios_utxo list \<Rightarrow> plutus_script_data \<Rightarrow> (ogmios_utxo \<times> 'v) option result) \<Rightarrow> 'v \<Rightarrow> 'w \<Rightarrow> 'body multisig_result option \<Rightarrow> bool" where
  "upsert_done E V n scripts_result get_current val w result \<longleftrightarrow> (\<exists>scripts utxos w'.
     scripts_result = Ok scripts \<and> query_utxos (client E) (psd_validator_address scripts) w = (Inr utxos, w')
     \<and> (case result of
          None \<Rightarrow> \<exists>u. get_current utxos scripts = Ok (Some (u, val))
        | Some r \<Rightarrow> \<exists>body. issued E r body
            \<and> (\<forall>tx_id after. mset after = mset (apply_tx (lib E) V (script_address (lib E) (psd_validator scripts) n)
                 (psd_validator_address scripts) tx_id body utxos) \<longrightarrow> (\<exists>u. get_current after scripts = Ok (Some (u, val))))))"

text \<open>Both transactions of an upsert replace what holds the token by the datum.\<close>

lemma upsert_tx_settles:
  assumes ok: "tx_lib_ok (lib E) V" "client_ok (client E) n" and payer: "payer E n ctx"
    and query: "query_utxos (client E) (psd_validator_address scripts) w = (Inr utxos, w')"
    and address: "to_bech32 (lib E) (script_address (lib E) (psd_validator scripts) n) = Inr (psd_validator_address scripts)"
    and tx: "token_utxos (plutus_script_hash (lib E) (psd_policy scripts)) utxos = [] \<and> mint_token_tx E scripts red datum g costs ctx = Ok tx
      \<or> token_utxos (plutus_script_hash (lib E) (psd_policy scripts)) utxos = [u] \<and> replace_token_tx E scripts red datum u g costs ctx = Ok tx"
    and after: "mset after = mset (apply_tx (lib E) V (script_address (lib E) (psd_validator scripts) n) (psd_validator_address scripts) tx_id (tx_body tx) utxos)"
  shows "\<exists>u. token_utxos (plutus_script_hash (lib E) (psd_policy scripts)) after = [u] \<and> token_datum E u = Ok datum"
proof -
  have n: "ctx_network ctx = n" using payer by (simp add: payer_def)
  from tx show ?thesis
  proof (elim disjE conjE)
    assume t: "token_utxos (plutus_script_hash (lib E) (psd_policy scripts)) utxos = []" "mint_token_tx E scripts red datum g costs ctx = Ok tx"
    obtain out minted where "token_output (lib E) scripts n datum out" "does (lib E) V ctx [] [out] minted (tx_body tx)"
      using mint_token_does [OF ok(1) t(2)] unfolding n by blast
    then show ?thesis by (rule token_utxos_after [OF ok payer query address _ _ _ after, rotated]) (simp add: t(1))
  next
    assume t: "token_utxos (plutus_script_hash (lib E) (psd_policy scripts)) utxos = [u]" "replace_token_tx E scripts red datum u g costs ctx = Ok tx"
    obtain out minted where "token_output (lib E) scripts n datum out" "does (lib E) V ctx [ou_utxo_id u] [out] minted (tx_body tx)"
      using replace_token_does [OF ok(1) t(2)] unfolding n by blast
    then show ?thesis by (rule token_utxos_after [OF ok payer query address _ _ _ after, rotated]) (simp add: t(1))
  qed
qed

lemma d_param_read_back:
  assumes "csl_ok (csl E)" and "token_utxos (plutus_script_hash (lib E) (psd_policy scripts)) utxos = [u]"
    and "token_datum E u = Ok (d_parameter_to_plutus_data (csl E) d)"
  shows "get_current_d_parameter E utxos scripts = Ok (Some (u, d))"
proof -
  obtain x where "d_param_decode (csl E) (d_parameter_to_plutus_data (csl E) d) = Inr x" "d_param_datum_into x = d"
    using d_parameter_plutus [OF assms(1), of d] by (cases "d_param_decode (csl E) (d_parameter_to_plutus_data (csl E) d)") auto
  then show ?thesis using assms(2,3) by (simp add: get_current_d_parameter_def result_ok_def)
qed

text \<open>The lists of candidates that the encoder and the decoder keep: their keys are written in version one, or the Aura key comes first.\<close>

definition candidates_kept :: "permissioned_candidate_data list \<Rightarrow> bool" where
  "candidates_kept cs \<longleftrightarrow> list_all (\<lambda>p. list_all (\<lambda>k. length (key_id k) = 4) (perm_keys p)) cs
     \<and> (list_ex (\<lambda>p. \<not> has_only_aura_and_grandpa_keys (perm_keys p)) cs \<or> list_all (\<lambda>p. map key_id (perm_keys p) = [aura_id, grandpa_id]) cs)"

lemma candidates_read_back:
  assumes "csl_ok c" and "candidates_kept cs"
  shows "map_sum id permissioned_candidate_datums_into (permissioned_decode c (permissioned_candidates_to_plutus_data c cs)) = Inr cs"
proof (cases "list_all (\<lambda>p. has_only_aura_and_grandpa_keys (perm_keys p)) cs")
  case True
  then have two: "list_all (\<lambda>p. length (perm_keys p) = 2) cs" by (auto simp: list_all_iff only_length)
  have "\<not> list_ex (\<lambda>p. \<not> has_only_aura_and_grandpa_keys (perm_keys p)) cs" using True by (auto simp: list_all_iff list_ex_iff)
  then have "map (\<lambda>p. p\<lparr>perm_keys := relabelled_keys (perm_keys p)\<rparr>) cs = cs"
    using assms(2) map_relabelled_id [OF two] by (simp add: candidates_kept_def)
  then show ?thesis using True by (simp add: permissioned_candidates_to_plutus_data_def permissioned_plutus_v0 [OF assms(1) two])
next
  case False
  then show ?thesis using assms by (simp add: permissioned_candidates_to_plutus_data_def permissioned_plutus_v1 candidates_kept_def)
qed

lemma candidates_kept_sort: "candidates_kept (sort_key f cs) = candidates_kept cs"
  by (simp add: candidates_kept_def list_all_iff list_ex_iff)

lemma permissioned_read_back:
  assumes "csl_ok (csl E)" and "candidates_kept cs" and "token_utxos (plutus_script_hash (lib E) (psd_policy scripts)) utxos = [u]"
    and "token_datum E u = Ok (permissioned_candidates_to_plutus_data (csl E) (sort_key permissioned_order cs))"
  shows "get_current_permissioned_candidates E utxos scripts = Ok (Some (u, sort_key permissioned_order cs))"
proof -
  obtain x where "permissioned_decode (csl E) (permissioned_candidates_to_plutus_data (csl E) (sort_key permissioned_order cs)) = Inr x"
      "permissioned_candidate_datums_into x = sort_key permissioned_order cs"
    using candidates_read_back [OF assms(1), of "sort_key permissioned_order cs"] assms(2)
    by (cases "permissioned_decode (csl E) (permissioned_candidates_to_plutus_data (csl E) (sort_key permissioned_order cs))")
      (auto simp: candidates_kept_sort)
  then show ?thesis
    using assms(3,4) by (simp add: get_current_permissioned_candidates_def result_ok_def sort_key_id_if_sorted)
qed

lemma d_parameter_address:
  "d_parameter_scripts E genesis_utxo n = Ok scripts
    \<Longrightarrow> to_bech32 (lib E) (script_address (lib E) (psd_validator scripts) n) = Inr (psd_validator_address scripts)"
  by (auto simp: d_parameter_scripts_def and_then_eq_Ok address_bech32_def)

lemma permissioned_address:
  "permissioned_candidates_scripts E genesis_utxo n = Ok scripts
    \<Longrightarrow> to_bech32 (lib E) (script_address (lib E) (psd_validator scripts) n) = Inr (psd_validator_address scripts)"
  by (auto simp: permissioned_candidates_scripts_def and_then_eq_Ok address_bech32_def)

lemma current_d_parameter_utxos:
  assumes "get_current_d_parameter E utxos scripts = Ok current"
  shows "token_utxos (plutus_script_hash (lib E) (psd_policy scripts)) utxos = (case current of None \<Rightarrow> [] | Some (u, _) \<Rightarrow> [u])"
  using assms
  by (cases "token_utxos (plutus_script_hash (lib E) (psd_policy scripts)) utxos")
    (auto simp: get_current_d_parameter_def Let_def and_then_eq_Ok split: if_splits)

lemma current_permissioned_utxos:
  assumes "get_current_permissioned_candidates E utxos scripts = Ok current"
  shows "token_utxos (plutus_script_hash (lib E) (psd_policy scripts)) utxos = (case current of None \<Rightarrow> [] | Some (u, _) \<Rightarrow> [u])"
  using assms
  by (cases "token_utxos (plutus_script_hash (lib E) (psd_policy scripts)) utxos")
    (auto simp: get_current_permissioned_candidates_def Let_def and_then_eq_Ok split: if_splits)

text \<open>The transaction that an upsert builds for the value it has read.\<close>

definition upsert_tx where
  "upsert_tx E scripts red datum current g costs ctx = (case current of
       None \<Rightarrow> mint_token_tx E scripts red datum g costs ctx
     | Some (u, _) \<Rightarrow> replace_token_tx E scripts red datum u g costs ctx)"

lemma upsert_issued_done:
  assumes ok: "tx_lib_ok (lib E) V" "client_ok (client E) n" and payer: "payer E n ctx"
    and scripts: "scripts_result = Ok scripts" and query: "query_utxos (client E) (psd_validator_address scripts) w = (Inr utxos, w')"
    and address: "to_bech32 (lib E) (script_address (lib E) (psd_validator scripts) n) = Inr (psd_validator_address scripts)"
    and utxos: "token_utxos (plutus_script_hash (lib E) (psd_policy scripts)) utxos = (case current of None \<Rightarrow> [] | Some (u, _) \<Rightarrow> [u])"
    and tx: "upsert_tx E scripts red datum current g costs ctx = Ok tx" and issued: "issued E r (tx_body tx)"
    and read: "\<And>after u. token_utxos (plutus_script_hash (lib E) (psd_policy scripts)) after = [u] \<Longrightarrow> token_datum E u = Ok datum
      \<Longrightarrow> get_current after scripts = Ok (Some (u, val))"
  shows "upsert_done E V n scripts_result get_current val w (Some r)"
proof -
  obtain u where "token_utxos (plutus_script_hash (lib E) (psd_policy scripts)) utxos = [] \<and> mint_token_tx E scripts red datum g costs ctx = Ok tx
      \<or> token_utxos (plutus_script_hash (lib E) (psd_policy scripts)) utxos = [u] \<and> replace_token_tx E scripts red datum u g costs ctx = Ok tx"
    using utxos tx by (auto simp: upsert_tx_def split: option.splits)
  note settles = upsert_tx_settles [OF ok payer query address this]
  have "\<exists>u. get_current after scripts = Ok (Some (u, val))"
    if "mset after = mset (apply_tx (lib E) V (script_address (lib E) (psd_validator scripts) n) (psd_validator_address scripts) tx_id (tx_body tx) utxos)"
    for tx_id after
    using settles [OF that] read by blast
  then show ?thesis using scripts query issued unfolding upsert_done_def option.case by blast
qed

lemma upsert_d_param_done:
  assumes ok: "csl_ok (csl E)" "tx_lib_ok (lib E) V" "client_ok (client E) n"
    and run: "upsert_d_param E genesis_utxo d signing_key w = (Ok result, w')"
  shows "upsert_done E V n (d_parameter_scripts E genesis_utxo n) (get_current_d_parameter E) d (snd (for_payment_key (lib E) (client E) signing_key w)) result"
proof -
  obtain ctx scripts utxos current w1 w2 r w3 where ctx: "for_payment_key (lib E) (client E) signing_key w = (Ok ctx, w1)"
    and scripts: "d_parameter_scripts E genesis_utxo (ctx_network ctx) = Ok scripts"
    and query: "query_utxos (client E) (psd_validator_address scripts) w1 = (Inr utxos, w2)"
    and current: "get_current_d_parameter E utxos scripts = Ok current"
    and rest: "(case current of
         Some (current_utxo, current_d_param) \<Rightarrow>
           if current_d_param = d then io_of (Ok None)
           else governed_submit E genesis_utxo ctx (update_d_param_tx E scripts d current_utxo) ''Update D-parameter''
       | None \<Rightarrow> governed_submit E genesis_utxo ctx (mint_d_param_token_tx E scripts d) ''Insert D-parameter'') w2 = (Ok r, w3)"
      "await_submitted E r w3 = (Ok result, w')"
    using run unfolding upsert_d_param_def io_then_Ok client_result_Ok io_of_Ok by blast
  have r: "r = result" using await_submitted_Ok [OF rest(2)] by simp
  note payer = for_payment_key_payer [OF ok(3) ctx]
  have n: "ctx_network ctx = n" using payer by (simp add: payer_def)
  have read: "snd (for_payment_key (lib E) (client E) signing_key w) = w1" using ctx by simp
  show ?thesis
  proof (cases "\<exists>u. current = Some (u, d)")
    case True
    then have none: "result = None" using rest(1) r by auto
    show ?thesis using True scripts query current unfolding read upsert_done_def n none option.case by blast
  next
    case False
    then have "\<exists>name. governed_submit E genesis_utxo ctx
        (upsert_tx E scripts (unit_plutus_data (csl E)) (d_parameter_to_plutus_data (csl E) d) current) name w2 = (Ok result, w3)"
      using rest(1) unfolding r
      by (auto simp: upsert_tx_def [abs_def] update_d_param_tx_def mint_d_param_token_tx_def split: option.splits prod.splits if_splits)
    then obtain name where "governed_submit E genesis_utxo ctx
        (upsert_tx E scripts (unit_plutus_data (csl E)) (d_parameter_to_plutus_data (csl E) d) current) name w2 = (Ok result, w3)" ..
    then obtain r' g costs ctx' tx where i: "result = Some r'" "payer E n ctx'" "issued E r' (tx_body tx)"
        "upsert_tx E scripts (unit_plutus_data (csl E)) (d_parameter_to_plutus_data (csl E) d) current g costs ctx' = Ok tx"
      using governed_submit_issues [OF ok(3) payer] by blast
    show ?thesis unfolding i(1) read
      by (rule upsert_issued_done [OF ok(2,3) i(2) scripts [unfolded n] query d_parameter_address [OF scripts [unfolded n]]
            current_d_parameter_utxos [OF current] i(4,3) d_param_read_back [OF ok(1)]])
  qed
qed

lemma upsert_permissioned_done:
  assumes ok: "csl_ok (csl E)" "tx_lib_ok (lib E) V" "client_ok (client E) n" and kept: "candidates_kept cs"
    and run: "upsert_permissioned_candidates E genesis_utxo cs signing_key w = (Ok result, w')"
  shows "upsert_done E V n (permissioned_candidates_scripts E genesis_utxo n) (get_current_permissioned_candidates E)
    (sort_key permissioned_order cs) (snd (governance_get E genesis_utxo (snd (for_payment_key (lib E) (client E) signing_key w)))) result"
proof -
  let ?cs = "sort_key permissioned_order cs"
  obtain ctx scripts g utxos current w1 w2 w3 where ctx: "for_payment_key (lib E) (client E) signing_key w = (Ok ctx, w1)"
    and scripts: "permissioned_candidates_scripts E genesis_utxo (ctx_network ctx) = Ok scripts"
    and g: "governance_get E genesis_utxo w1 = (Ok g, w2)"
    and query: "query_utxos (client E) (psd_validator_address scripts) w2 = (Inr utxos, w3)"
    and current: "get_current_permissioned_candidates E utxos scripts = Ok current"
    and rest: "(case current of
       Some (current_utxo, current_permissioned_candidates) \<Rightarrow>
         if current_permissioned_candidates = ?cs then io_of (Ok None)
         else io_then (submit_or_create_tx_to_sign E g ctx (update_permissioned_candidates_tx E scripts ?cs current_utxo g)
           ''Update Permissioned Candidates'') (\<lambda>r. io_of (Ok (Some r)))
     | None \<Rightarrow> io_then (submit_or_create_tx_to_sign E g ctx (mint_permissioned_candidates_token_tx E scripts ?cs g)
           ''Insert Permissioned Candidates'') (\<lambda>r. io_of (Ok (Some r)))) w3 = (Ok result, w')"
    using run unfolding upsert_permissioned_candidates_def io_then_Ok client_result_Ok io_of_Ok Let_def by blast
  note payer = for_payment_key_payer [OF ok(3) ctx]
  have n: "ctx_network ctx = n" using payer by (simp add: payer_def)
  have read: "snd (governance_get E genesis_utxo (snd (for_payment_key (lib E) (client E) signing_key w))) = w2" using ctx g by simp
  show ?thesis
  proof (cases "\<exists>u. current = Some (u, ?cs)")
    case True
    then have none: "result = None" using rest by auto
    show ?thesis using True scripts query current unfolding read upsert_done_def n none option.case by blast
  next
    case False
    then have "\<exists>name r v. submit_or_create_tx_to_sign E g ctx
        (upsert_tx E scripts (new_integer (csl E) 0) (permissioned_candidates_to_plutus_data (csl E) ?cs) current g) name w3 = (Ok r, v) \<and> result = Some r"
      using rest
      by (auto simp: io_simps upsert_tx_def [abs_def] update_permissioned_candidates_tx_def mint_permissioned_candidates_token_tx_def
          split: option.splits prod.splits if_splits)
    then obtain name r v where s: "submit_or_create_tx_to_sign E g ctx
        (upsert_tx E scripts (new_integer (csl E) 0) (permissioned_candidates_to_plutus_data (csl E) ?cs) current g) name w3 = (Ok r, v)" "result = Some r"
      by blast
    obtain costs ctx' tx where i: "payer E n ctx'" "issued E r (tx_body tx)"
        "upsert_tx E scripts (new_integer (csl E) 0) (permissioned_candidates_to_plutus_data (csl E) ?cs) current g costs ctx' = Ok tx"
      using submit_or_create_issues [OF ok(3) payer s(1)] by blast
    show ?thesis unfolding s(2) read
      by (rule upsert_issued_done [OF ok(2,3) i(1) scripts [unfolded n] query permissioned_address [OF scripts [unfolded n]]
            current_permissioned_utxos [OF current] i(3,2) permissioned_read_back [OF ok(1) kept]])
  qed
qed

text \<open>
  C13: Upserting the D-parameter or the list of permissioned candidates settles. If the operation returns normally, either the value was already the one
  on Cardano, or after the transaction that was submitted or handed out there is one UTXO with the token and reading it gives the value, so a second upsert has
  nothing to do. For candidates this is the sorted list, and it holds for the lists that their encoding keeps. Relied on: the laws of the
  transaction builder, of Plutus data and of the ledger behind the client.
\<close>

theorem upserts_settle:
  assumes "csl_ok (csl E)" "tx_lib_ok (lib E) V" "client_ok (client E) n"
    and "upsert_d_param E genesis_utxo d signing_key v = (Ok d_result, v')"
    and "upsert_permissioned_candidates E genesis_utxo cs signing_key w = (Ok cs_result, w')" and "candidates_kept cs"
  shows "upsert_done E V n (d_parameter_scripts E genesis_utxo n) (get_current_d_parameter E) d
        (snd (for_payment_key (lib E) (client E) signing_key v)) d_result
    \<and> upsert_done E V n (permissioned_candidates_scripts E genesis_utxo n) (get_current_permissioned_candidates E)
        (sort_key permissioned_order cs) (snd (governance_get E genesis_utxo (snd (for_payment_key (lib E) (client E) signing_key w)))) cs_result"
  using upsert_d_param_done [OF assms(1-4)] upsert_permissioned_done [OF assms(1-3,6,5)] by (rule conjI)

subsubsection \<open>Registrations\<close>

definition registration_of :: "('w, 'pp, 'b, 'body, 'pd) offchain \<Rightarrow> bytes \<Rightarrow> bytes \<Rightarrow> ogmios_utxo \<Rightarrow> candidate_registration option" where
  "registration_of E own_pkh spo_pub_key u = (case get_candidate_registration E u of
       Ok r \<Rightarrow> if abs_pub_key (cr_stake_ownership r) = spo_pub_key \<and> cr_own_pkh r = own_pkh then Some r else None
     | _ \<Rightarrow> None)"

lemma own_registrations:
  "get_own_registrations E own_pkh spo_pub_key us = List.map_filter (\<lambda>u. map_option (Pair u) (registration_of E own_pkh spo_pub_key u)) us"
  unfolding get_own_registrations_def registration_of_def
  by (rule arg_cong [where f = "\<lambda>f. List.map_filter f us"]) (auto simp: fun_eq_iff split: outcome.splits)

lemma registration_of_other: "registration_of E p k u = Some r \<Longrightarrow> (p, k) \<noteq> (p', k') \<Longrightarrow> registration_of E p' k' u = None"
  by (auto simp: registration_of_def split: outcome.splits if_splits)

lemma own_registrations_after:
  assumes "distinct (map ou_utxo_id utxos)"
    and spent: "set spent = ou_utxo_id ` set (map fst (get_own_registrations E own_pkh spo_pub_key utxos)) \<union> other"
      "other \<inter> ou_utxo_id ` set utxos = {}"
    and after: "mset after = mset (filter (\<lambda>u. ou_utxo_id u \<notin> set spent) utxos @ new)"
  shows "mset (map snd (get_own_registrations E p k after)) = (if (p, k) = (own_pkh, spo_pub_key) then {#} else mset (map snd (get_own_registrations E p k utxos)))
    + mset (map snd (get_own_registrations E p k new))"
proof -
  let ?own = "registration_of E own_pkh spo_pub_key"
  have "ou_utxo_id u \<notin> set spent \<longleftrightarrow> ?own u = None" if "u \<in> set utxos" for u
  proof -
    have "inj_on ou_utxo_id (set utxos)" using assms(1) by (simp add: distinct_map)
    moreover have "set (map fst (get_own_registrations E own_pkh spo_pub_key utxos)) = {x \<in> set utxos. ?own x \<noteq> None}"
      by (force simp: own_registrations map_filter_as_map)
    ultimately show ?thesis using that spent by (auto simp: inj_on_def)
  qed
  then have "filter (\<lambda>u. ou_utxo_id u \<notin> set spent) utxos = filter (\<lambda>u. ?own u = None) utxos" by (rule filter_cong [OF refl])
  moreover have "List.map_filter (registration_of E p k) (filter (\<lambda>u. ?own u = None) utxos)
      = (if (p, k) = (own_pkh, spo_pub_key) then [] else List.map_filter (registration_of E p k) utxos)"
  proof (cases "(p, k) = (own_pkh, spo_pub_key)")
    case True
    then show ?thesis by (auto simp: map_filter_as_map filter_empty_conv)
  next
    case False
    then have "filter (\<lambda>u. registration_of E p k u \<noteq> None \<and> ?own u = None) utxos = filter (\<lambda>u. registration_of E p k u \<noteq> None) utxos"
      using registration_of_other [of E p k _ _ own_pkh spo_pub_key] by (intro filter_cong refl) (metis not_None_eq)
    then show ?thesis unfolding if_not_P [OF False] by (simp add: map_filter_as_map conj_commute)
  qed
  ultimately show ?thesis
    using map_filter_mset_cong [OF after, of "registration_of E p k"] by (simp add: own_registrations entries_snd map_filter_append)
qed

lemma register_does:
  assumes ok: "tx_lib_ok (lib E) V" and "register_tx E validator r u us costs ctx = Ok tx"
  shows "\<exists>out minted. out_address out = script_address (lib E) validator (ctx_network ctx)
    \<and> out_plutus_data out = Some (candidate_registration_to_plutus_data (csl E) r)
    \<and> does (lib E) V ctx (map ou_utxo_id us @ [ou_utxo_id u]) [out] minted (tx_body tx)"
proof -
  obtain b1 inputs o1 b2 out b3 where b: "new_builder (lib E) (protocol_parameters ctx) = Inr b1"
      "one_spend_inputs E validator costs us = Ok inputs" "set_inputs (lib E) (inputs @ [RegularUtxo (ou_utxo_id u) o1]) b1 = Inr b2"
      "with_minimum_ada (lib E) ctx \<lparr>out_address = script_address (lib E) validator (ctx_network ctx), out_value = ada_value 0,
        out_plutus_data = Some (candidate_registration_to_plutus_data (csl E) r), out_script_ref = None\<rparr> = Ok out"
      "add_output (lib E) out b2 = Inr b3" "balance_update_and_build (lib E) ctx b3 = Ok tx"
    using assms(2) by (auto simp: register_tx_def and_then_eq_Ok ogmios_utxo_to_csl_def)
  have "view_inputs V b3 = map ou_utxo_id us @ [ou_utxo_id u]" "view_outputs V b3 = [out]"
    using tx_lib_okD(5) [OF ok b(5)] tx_lib_okD(4) [OF ok b(3)] tx_lib_okD(1) [OF ok b(1)] one_spend_ids [OF b(2)] by simp_all
  moreover have "out_address out = script_address (lib E) validator (ctx_network ctx)"
    "out_plutus_data out = Some (candidate_registration_to_plutus_data (csl E) r)"
    using b(4) by (auto simp: with_minimum_ada_def and_then_eq_Ok)
  ultimately show ?thesis using balance_does [OF ok b(6)] by metis
qed

lemma deregister_does:
  assumes ok: "tx_lib_ok (lib E) V" and "deregister_tx E validator us costs ctx = Ok tx"
  shows "\<exists>minted. does (lib E) V ctx (map ou_utxo_id us) [] minted (tx_body tx)"
proof -
  obtain b1 inputs b2 where b: "new_builder (lib E) (protocol_parameters ctx) = Inr b1"
      "one_spend_inputs E validator costs us = Ok inputs" "set_inputs (lib E) inputs b1 = Inr b2" "balance_update_and_build (lib E) ctx b2 = Ok tx"
    using assms(2) by (auto simp: deregister_tx_def and_then_eq_Ok)
  then show ?thesis
    using balance_does [OF ok b(4)] tx_lib_okD(4) [OF ok b(3)] tx_lib_okD(1) [OF ok b(1)] one_spend_ids [OF b(2)] by auto
qed

lemma submit_and_await_Ok:
  assumes "submit_and_await E ctx make_tx w = (Ok result, w')"
  shows "\<exists>costs tx tx_id. result = Some tx_id \<and> make_tx costs = Ok tx \<and> issued E (TransactionSubmitted tx_id) (tx_body tx)"
proof -
  obtain tx w1 tx_id w2 where "calculate_costs (lib E) (client E) make_tx w = (Ok tx, w1)"
      "submit_transaction (client E) (ctx_sign (lib E) ctx tx) w1 = (Inr tx_id, w2)" "result = Some tx_id"
    using assms by (auto simp: submit_and_await_def io_simps)
  then show ?thesis using calculate_costs_Ok by (metis issued.simps(1) sign_body)
qed

lemma registration_read_back:
  assumes "csl_ok (csl E)" and "tx_lib_ok (lib E) V" and "registration_typed r"
    and "out_plutus_data out = Some (candidate_registration_to_plutus_data (csl E) r)"
  shows "registration_of E p k (ledger_utxo V address tx_id (i, out))
    = (if (p, k) = (cr_own_pkh r, abs_pub_key (cr_stake_ownership r)) then Some (r\<lparr>cr_keys := normal_keys (cr_keys r)\<rparr>) else None)"
proof -
  obtain x where "register_validator_decode (csl E) (candidate_registration_to_plutus_data (csl E) r) = Inr x"
      "register_validator_datum_into x = r\<lparr>cr_keys := normal_keys (cr_keys r)\<rparr>"
    using registration_plutus [OF assms(1,3)]
    by (cases "register_validator_decode (csl E) (candidate_registration_to_plutus_data (csl E) r)") auto
  then show ?thesis
    using assms(4) tx_lib_okD(13) [OF assms(2)]
    by (auto simp: registration_of_def get_candidate_registration_def token_datum_def ledger_utxo_def result_ok_def)
qed

text \<open>
  The registrations of every candidate after a transaction, compared with those read in a world: those of one candidate are replaced by the given ones, those of all others stay.
\<close>

definition registrations_replaced ::
  "('w, 'pp, 'b, 'body, 'pd) offchain \<Rightarrow> ('b, 'body, 'pd) builder_view \<Rightarrow> network \<Rightarrow> utxo_id \<Rightarrow> bytes \<Rightarrow> bytes
     \<Rightarrow> candidate_registration list \<Rightarrow> 'w \<Rightarrow> bytes \<Rightarrow> bool" where
  "registrations_replaced E V n genesis_utxo own_pkh spo_pub_key rs w tx_hash \<longleftrightarrow> (\<exists>validator address utxos w' body.
     plutus_script_of E CommitteeCandidateValidator [DatumArg (utxo_id_to_datum genesis_utxo)] = Ok validator
     \<and> address_bech32 E validator n = Ok address \<and> query_utxos (client E) address w = (Inr utxos, w')
     \<and> issued E (TransactionSubmitted tx_hash) body
     \<and> (\<forall>tx_id after p k. mset after = mset (apply_tx (lib E) V (script_address (lib E) validator n) address tx_id body utxos)
          \<longrightarrow> mset (map snd (get_own_registrations E p k after))
            = (if (p, k) = (own_pkh, spo_pub_key) then mset rs else mset (map snd (get_own_registrations E p k utxos)))))"

lemma registrations_replacedI:
  assumes ok: "tx_lib_ok (lib E) V" "client_ok (client E) n" and payer: "payer E n ctx"
    and validator: "plutus_script_of E CommitteeCandidateValidator [DatumArg (utxo_id_to_datum genesis_utxo)] = Ok validator"
    and address: "address_bech32 E validator n = Ok address" and query: "query_utxos (client E) address w = (Inr utxos, w')"
    and issued: "issued E (TransactionSubmitted tx_hash) body"
    and does: "does (lib E) V ctx (map ou_utxo_id (map fst (get_own_registrations E own_pkh spo_pub_key utxos)) @ map ou_utxo_id paid) outs minted body"
    and paid: "set paid \<subseteq> set (payment_key_utxos ctx)" and outs: "\<forall>out \<in> set outs. out_address out = script_address (lib E) validator n"
    and new: "\<And>p k tx_id. map snd (get_own_registrations E p k (map (ledger_utxo V address tx_id) (enumerate 0 outs)))
      = (if (p, k) = (own_pkh, spo_pub_key) then rs else [])"
  shows "registrations_replaced E V n genesis_utxo own_pkh spo_pub_key rs w tx_hash"
proof -
  have a: "to_bech32 (lib E) (script_address (lib E) validator n) = Inr address" using address by (simp add: address_bech32_def)
  have distinct: "distinct (map ou_utxo_id utxos)" using ok(2) query unfolding client_ok_def by blast
  have spent: "set (map ou_utxo_id (map fst (get_own_registrations E own_pkh spo_pub_key utxos)) @ map ou_utxo_id paid)
      = ou_utxo_id ` set (map fst (get_own_registrations E own_pkh spo_pub_key utxos)) \<union> ou_utxo_id ` set paid"
    by (simp only: set_append list.set_map)
  have elsewhere: "ou_utxo_id ` set paid \<inter> ou_utxo_id ` set utxos = {}"
    using payer_elsewhere(1) [OF ok payer query a] paid by blast
  have "mset (map snd (get_own_registrations E p k after))
      = (if (p, k) = (own_pkh, spo_pub_key) then mset rs else mset (map snd (get_own_registrations E p k utxos)))"
    if "mset after = mset (apply_tx (lib E) V (script_address (lib E) validator n) address tx_id body utxos)" for tx_id after p k
    unfolding own_registrations_after [OF distinct spent elsewhere that [unfolded apply_tx_does [OF ok payer query a does outs]], where p = p and k = k] new
    by simp
  then show ?thesis using validator address query issued unfolding registrations_replaced_def by blast
qed

lemma run_register_replaces:
  assumes ok: "csl_ok (csl E)" "tx_lib_ok (lib E) V" "client_ok (client E) n" and typed: "registration_typed r"
    and run: "run_register E genesis_utxo r signing_key w = (Ok (Some tx_hash), w')"
  shows "registrations_replaced E V n genesis_utxo (cr_own_pkh r) (abs_pub_key (cr_stake_ownership r)) [r\<lparr>cr_keys := normal_keys (cr_keys r)\<rparr>]
    (snd (for_payment_key (lib E) (client E) signing_key w)) tx_hash"
proof -
  let ?own = "get_own_registrations E (cr_own_pkh r) (abs_pub_key (cr_stake_ownership r))"
  obtain ctx validator address u utxos w1 w2 where ctx: "for_payment_key (lib E) (client E) signing_key w = (Ok ctx, w1)"
    and validator: "plutus_script_of E CommitteeCandidateValidator [DatumArg (utxo_id_to_datum genesis_utxo)] = Ok validator"
    and address: "address_bech32 E validator (ctx_network ctx) = Ok address"
    and u: "find (\<lambda>u. ou_utxo_id u = cr_registration_utxo r) (payment_key_utxos ctx) = Some u"
    and query: "query_utxos (client E) address w1 = (Inr utxos, w2)"
    and submit: "submit_and_await E ctx (\<lambda>costs. register_tx E validator r u (map fst (?own utxos)) costs ctx) w2 = (Ok (Some tx_hash), w')"
    using run by (auto simp: run_register_def io_simps Let_def split: if_splits)
  note payer = for_payment_key_payer [OF ok(3) ctx]
  have read: "snd (for_payment_key (lib E) (client E) signing_key w) = w1" using ctx by simp
  have n: "ctx_network ctx = n" using payer by (simp add: payer_def)
  obtain costs tx where tx: "register_tx E validator r u (map fst (?own utxos)) costs ctx = Ok tx" "issued E (TransactionSubmitted tx_hash) (tx_body tx)"
    using submit_and_await_Ok [OF submit] by (auto simp del: issued.simps)
  obtain out minted where out: "out_address out = script_address (lib E) validator n"
      "out_plutus_data out = Some (candidate_registration_to_plutus_data (csl E) r)"
      "does (lib E) V ctx (map ou_utxo_id (map fst (?own utxos)) @ map ou_utxo_id [u]) [out] minted (tx_body tx)"
    using register_does [OF ok(2) tx(1)] unfolding n by auto
  have "set [u] \<subseteq> set (payment_key_utxos ctx)" using u by (auto simp: find_Some_iff)
  then show ?thesis unfolding read
    using out(1,2) registration_read_back [OF ok(1,2) typed out(2)]
    by (intro registrations_replacedI [OF ok(2,3) payer validator address [unfolded n] query tx(2) out(3)])
      (simp_all add: own_registrations map_filter_simps)
qed

lemma run_deregister_replaces:
  assumes ok: "tx_lib_ok (lib E) V" "client_ok (client E) n"
    and run: "run_deregister E genesis_utxo signing_key spo_pub_key w = (Ok (Some tx_hash), w')"
  shows "registrations_replaced E V n genesis_utxo (public_hash (lib E) (to_public (lib E) signing_key)) spo_pub_key []
    (snd (for_payment_key (lib E) (client E) signing_key w)) tx_hash"
proof -
  let ?own = "get_own_registrations E (public_hash (lib E) (to_public (lib E) signing_key)) spo_pub_key"
  obtain ctx validator address utxos w1 w2 where ctx: "for_payment_key (lib E) (client E) signing_key w = (Ok ctx, w1)"
    and validator: "plutus_script_of E CommitteeCandidateValidator [DatumArg (utxo_id_to_datum genesis_utxo)] = Ok validator"
    and address: "address_bech32 E validator (ctx_network ctx) = Ok address"
    and query: "query_utxos (client E) address w1 = (Inr utxos, w2)"
    and submit: "submit_and_await E ctx (\<lambda>costs. deregister_tx E validator (map fst (?own utxos)) costs ctx) w2 = (Ok (Some tx_hash), w')"
    using run by (auto simp: run_deregister_def io_simps Let_def split: if_splits)
  note payer = for_payment_key_payer [OF ok(2) ctx]
  have read: "snd (for_payment_key (lib E) (client E) signing_key w) = w1" using ctx by simp
  have n: "ctx_network ctx = n" using payer by (simp add: payer_def)
  obtain costs tx where tx: "deregister_tx E validator (map fst (?own utxos)) costs ctx = Ok tx" "issued E (TransactionSubmitted tx_hash) (tx_body tx)"
    using submit_and_await_Ok [OF submit] by (auto simp del: issued.simps)
  obtain minted where "does (lib E) V ctx (map ou_utxo_id (map fst (?own utxos)) @ map ou_utxo_id []) [] minted (tx_body tx)"
    using deregister_does [OF ok(1) tx(1)] by auto
  then show ?thesis unfolding read
    by (rule registrations_replacedI [OF ok payer validator address [unfolded n] query tx(2)]) (simp_all add: own_registrations map_filter_simps)
qed

text \<open>
  C12: Registering replaces and deregistering removes the registrations of one candidate and no other. If a registration returns a transaction hash, then after that
  transaction the candidate has exactly the new registration, with its keys in the order in which they are read back, and after a deregistration none; the registrations
  of every other pair of payment key and stake pool key are unchanged. Relied on: the laws of the transaction builder, of Plutus data and of the ledger behind the client.
\<close>

theorem registrations_exclusive:
  assumes "csl_ok (csl E)" "tx_lib_ok (lib E) V" "client_ok (client E) n" and "registration_typed r"
    and "run_register E genesis_utxo r signing_key v = (Ok (Some tx_hash), v')"
    and "run_deregister E genesis_utxo signing_key spo_pub_key w = (Ok (Some tx_hash'), w')"
  shows "registrations_replaced E V n genesis_utxo (cr_own_pkh r) (abs_pub_key (cr_stake_ownership r)) [r\<lparr>cr_keys := normal_keys (cr_keys r)\<rparr>]
      (snd (for_payment_key (lib E) (client E) signing_key v)) tx_hash
    \<and> registrations_replaced E V n genesis_utxo (public_hash (lib E) (to_public (lib E) signing_key)) spo_pub_key []
      (snd (for_payment_key (lib E) (client E) signing_key w)) tx_hash'"
  using run_register_replaces [OF assms(1-5)] run_deregister_replaces [OF assms(2,3,6)] by (rule conjI)

text \<open>
  C38: Several registrations of one candidate cannot be removed. When a candidate has more than one registration and Ogmios, as it does, evaluates every script input
  of the first draft of the transaction, the second draft asks for the cost of the only script input and the deregistration panics.
\<close>

theorem several_registrations_panic:
  assumes "for_payment_key (lib E) (client E) signing_key w = (Ok ctx, w1)"
    and "plutus_script_of E CommitteeCandidateValidator [DatumArg (utxo_id_to_datum genesis_utxo)] = Ok validator"
    and "address_bech32 E validator (ctx_network ctx) = Ok address" and "query_utxos (client E) address w1 = (Inr utxos, w2)"
    and own: "own = map fst (get_own_registrations E (public_hash (lib E) (to_public (lib E) signing_key)) spo_pub_key utxos)" "1 < length own"
    and draft: "deregister_tx E validator own ZeroCosts ctx = Ok tx" and evaluated: "evaluate_transaction (client E) tx w2 = (Inr evaluations, w3)"
    and costs: "collect_costs (body_mint_keys (lib E) (tx_body tx)) evaluations [] [] = Ok (Costs ms ss)" "length ss = length own"
  shows "run_deregister E genesis_utxo signing_key spo_pub_key w = (Panic ExplicitPanic, w3)"
proof -
  let ?own = "get_own_registrations E (public_hash (lib E) (to_public (lib E) signing_key)) spo_pub_key utxos"
  have "?own \<noteq> []" using own by auto
  obtain a b ss' where "ss = a # b # ss'" using costs(2) own(2) by (cases ss; cases "tl ss") auto
  then have "get_one_spend (Costs ms ss) = Panic ExplicitPanic" by (cases a) (simp add: get_one_spend_def)
  moreover obtain u us where "own = u # us" using own(2) by (cases own) auto
  ultimately have "deregister_tx E validator own (Costs ms ss) ctx = Panic ExplicitPanic"
    using draft by (auto simp: deregister_tx_def and_then_eq_Ok csl_result_def)
  then have "submit_and_await E ctx (\<lambda>costs. deregister_tx E validator own costs ctx) w2 = (Panic ExplicitPanic, w3)"
    using draft evaluated costs(1)
    by (simp add: submit_and_await_def calculate_costs_def from_ogmios_def io_then_def io_of_def client_result_def)
  then show ?thesis
    using assms(1-4) \<open>?own \<noteq> []\<close> unfolding own(1)
    by (simp add: run_deregister_def io_then_def io_of_def client_result_def)
qed

subsection \<open>A small ledger\<close>

text \<open>A builder that keeps what it is told, pays with all UTXOs of the payer and counts the script inputs.\<close>

instance datum :: countable
  by countable_datatype

instance language :: countable
  by countable_datatype

instance plutus_script_ext :: (countable) countable
  by (rule countable_classI [of "\<lambda>s. to_nat (ps_bytes s, ps_language s, plutus_script.more s)"]) simp

instance script_ref :: countable
  by countable_datatype

instance ogmios_asset_ext :: (countable) countable
  by (rule countable_classI [of "\<lambda>a. to_nat (oa_name a, oa_amount a, ogmios_asset.more a)"]) simp

instance ogmios_value_ext :: (countable) countable
  by (rule countable_classI [of "\<lambda>v. to_nat (lovelace v, native_tokens v, ogmios_value.more v)"]) simp

instance utxo_id_ext :: (countable) countable
  by (rule countable_classI [of "\<lambda>u. to_nat (utxo_tx_hash u, utxo_index u, utxo_id.more u)"]) simp

instance tx_output_ext :: (countable, countable) countable
  by (rule countable_classI [of "\<lambda>out. to_nat (out_address out, out_value out, out_plutus_data out, out_script_ref out, tx_output.more out)"]) simp

record demo_body =
  db_inputs :: "utxo_id list"
  db_outputs :: "datum tx_output list"
  db_mints :: "(bytes \<times> int) list"
  db_spends :: nat

text \<open>Transaction ids and serialised datums are numbers in unary.\<close>

definition demo_tx_id :: "demo_body \<Rightarrow> bytes" where
  "demo_tx_id b = replicate (to_nat (db_inputs b, db_outputs b, db_mints b, db_spends b)) 0"

fun demo_policy :: "datum mint_source \<Rightarrow> bytes" where
  "demo_policy (PlutusSource s _ _) = language_to_u8 (ps_language s) # ps_bytes s"
| "demo_policy (PlutusRefInput h _ _ _ _ _) = h"
| "demo_policy (NativeSource _) = [9, 9]"

fun is_script_input :: "'pd input_call \<Rightarrow> bool" where
  "is_script_input (PlutusScriptInput _ _ _ _ _) = True"
| "is_script_input _ = False"

definition demo_char :: "u8 \<Rightarrow> char" where
  "demo_char x = ''01234567'' ! (unat x mod 8)"

definition demo_pay :: "(utxo_id \<times> datum tx_output) list \<Rightarrow> bytes \<Rightarrow> demo_body \<Rightarrow> string + demo_body" where
  "demo_pay us change_addr b = Inr (b\<lparr>db_inputs := db_inputs b @ map fst us,
     db_outputs := db_outputs b @ [\<lparr>out_address = change_addr, out_value = ada_value 1, out_plutus_data = None, out_script_ref = None\<rparr>]\<rparr>)"

definition demo_bytes :: "datum \<Rightarrow> bytes" where
  "demo_bytes d = replicate (to_nat d) 0"

definition demo_lib :: "(unit, demo_body, demo_body, datum) tx_lib" where
  "demo_lib = \<lparr>pd_from_bytes = (\<lambda>b. Some (from_nat (length b))),
     enterprise_address = (\<lambda>_ c. case c of FromKeyhash k \<Rightarrow> 0 # k | FromScripthash h \<Rightarrow> 1 # h),
     to_bech32 = (\<lambda>a. Inr (map demo_char a)), from_bech32 = (\<lambda>_. Inr []), asset_name_ok = (\<lambda>b. length b \<le> 32), native_script_ok = (\<lambda>_. True),
     blake2b_224 = (\<lambda>b. b), blake2b_256 = (\<lambda>b. b), to_public = (\<lambda>k. k), public_hash = (\<lambda>k. k), key_sign = (\<lambda>k m. k @ m),
     body_to_bytes = (\<lambda>_. []), body_mint_keys = (\<lambda>b. Some (map fst (db_mints b))), body_inputs = db_inputs, body_outputs = db_outputs,
     max_collateral_inputs = (\<lambda>_. 3), collateral_percentage = (\<lambda>_. 150),
     new_builder = (\<lambda>_. Inr \<lparr>db_inputs = [], db_outputs = [], db_mints = [], db_spends = 0\<rparr>), calculate_ada = (\<lambda>_ _. Inr 1000000),
     add_mint = (\<lambda>src _ n b. Inr (b\<lparr>db_mints := db_mints b @ [(demo_policy src, n)]\<rparr>)), add_reference_input = (\<lambda>_ b. b),
     set_inputs = (\<lambda>is b. Inr (b\<lparr>db_inputs := map input_id is, db_spends := length (filter is_script_input is)\<rparr>)),
     add_output = (\<lambda>out b. Inr (b\<lparr>db_outputs := db_outputs b @ [out]\<rparr>)), add_required_signer = (\<lambda>_ b. b),
     set_collateral = (\<lambda>_ b. Inr b), set_script_data_hash = (\<lambda>_ b. b), calc_script_data_hash = (\<lambda>_ b. Inr b),
     add_inputs_from_and_change = demo_pay, add_inputs_from_and_change_with_collateral_return = (\<lambda>us a _. demo_pay us a),
     build_tx = (\<lambda>b. Inr \<lparr>tx_body = b, tx_witness_set = \<lparr>ws_bootstraps = None, ws_plutus_data = None, ws_plutus_scripts = None, ws_redeemers = None,
       ws_native_scripts = None, ws_vkeys = None\<rparr>, tx_auxiliary_data = None\<rparr>),
     value_checked_add = (\<lambda>a _. Inr a), value_clamped_sub = (\<lambda>a _. a)\<rparr>"

definition demo_view :: "(demo_body, demo_body, datum) builder_view" where
  "demo_view = \<lparr>view_inputs = db_inputs, view_outputs = db_outputs,
     view_mint = (\<lambda>b p. sum_list (map snd (filter (\<lambda>m. fst m = p) (db_mints b)))),
     body_mint = (\<lambda>b p. sum_list (map snd (filter (\<lambda>m. fst m = p) (db_mints b)))), native_hash = (\<lambda>_. [9, 9]), pd_to_bytes = demo_bytes\<rparr>"

lemma demo_source_policy: "source_policy demo_lib demo_view src = demo_policy src"
  by (cases src) (simp_all add: demo_lib_def demo_view_def plutus_script_hash_def)

lemma demo_pd [simp]: "pd_from_bytes demo_lib (demo_bytes d) = Some d"
  by (simp add: demo_lib_def demo_bytes_def)

lemma demo_char_0_1: "demo_char 0 \<noteq> demo_char 1"
  by (simp add: demo_char_def)

lemma demo_lib_ok: "tx_lib_ok demo_lib demo_view"
  unfolding tx_lib_ok_def demo_source_policy
  by (intro conjI allI impI)
    (use demo_char_0_1 in \<open>auto simp: demo_lib_def demo_view_def demo_pay_def demo_bytes_def same_view_def balances_def fun_eq_iff ada_value_def\<close>)

text \<open>A client over a fixed set of UTXOs, which accepts every transaction and evaluates all its scripts.\<close>

definition demo_ogmios :: "ogmios_utxo list \<Rightarrow> (unit, unit, demo_body) ogmios_client" where
  "demo_ogmios utxos = \<lparr>shelley_genesis_network = (\<lambda>w. (Inr Testnet, w)), query_protocol_parameters = (\<lambda>w. (Inr (), w)),
     query_utxos = (\<lambda>a w. (Inr (filter (\<lambda>u. ou_address u = a) utxos), w)), query_utxo_by_id = (\<lambda>_ w. (Inr (Some (hd utxos)), w)),
     evaluate_transaction = (\<lambda>tx w. (Inr (map (\<lambda>i. \<lparr>ev_index = word_of_nat i, ev_purpose = ''mint'', ev_budget = (1, 1)\<rparr>) [0..<length (db_mints (tx_body tx))]
       @ map (\<lambda>i. \<lparr>ev_index = word_of_nat i, ev_purpose = ''spend'', ev_budget = (2, 2)\<rparr>) [0..<db_spends (tx_body tx)]), w)),
     submit_transaction = (\<lambda>tx w. (Inr (demo_tx_id (tx_body tx)), w))\<rparr>"

lemma demo_ogmios_ok:
  assumes "distinct (map ou_utxo_id utxos)"
  shows "client_ok (demo_ogmios utxos) Testnet"
  using assms by (auto simp: client_ok_def demo_ogmios_def distinct_map inj_on_def demo_tx_id_def replicate_eq_replicate)

definition demo_offchain :: "ogmios_utxo list \<Rightarrow> (unit, unit, demo_body, demo_body, datum) offchain" where
  "demo_offchain utxos = \<lparr>lib = demo_lib, csl = datum_csl, client = demo_ogmios utxos,
     raw_script = (\<lambda>s. case s of VersionOracleValidator \<Rightarrow> [3] | VersionOraclePolicy \<Rightarrow> [4] | GovernedMapValidator \<Rightarrow> [5] | GovernedMapPolicy \<Rightarrow> [6]
       | DParameterValidator \<Rightarrow> [5, 1] | DParameterPolicy \<Rightarrow> [6, 1] | PermissionedCandidatesValidator \<Rightarrow> [5, 2] | PermissionedCandidatesPolicy \<Rightarrow> [6, 2]
       | CommitteeCandidateValidator \<Rightarrow> [5, 3]),
     governed_map_validator_id = 1, governed_map_policy_id = 2, governance_policy_id = 32, apply_data = (\<lambda>b _. Inr b), last_argument = (\<lambda>_. Inr None),
     hash_order = rev, generate_ed25519 = (\<lambda>w. (Inr [6], w)), write_file = (\<lambda>_ _ w. (Inr (), w)), sleep = (\<lambda>w. w), retries = 59\<rparr>"

definition demo_utxo_at :: "u8 \<Rightarrow> string \<Rightarrow> bytes \<Rightarrow> datum \<Rightarrow> ogmios_utxo" where
  "demo_utxo_at i address policy d = \<lparr>ou_transaction = [i], ou_index = 0, ou_address = address,
     ou_value = \<lparr>lovelace = 5, native_tokens = [(policy, [\<lparr>oa_name = [], oa_amount = 1\<rparr>])]\<rparr>, ou_datum = Some (demo_bytes d), ou_script = None\<rparr>"

text \<open>Governance by one key, and a payer who has one UTXO.\<close>

definition demo_governance :: ogmios_utxo where
  "demo_governance = (demo_utxo_at 1 ''123'' [2, 4]
     (version_oracle_datum_to_plutus datum_csl \<lparr>vod_version_oracle = 32, vod_currency_symbol = replicate 28 0\<rparr>))
     \<lparr>ou_script := Some \<lparr>os_language = ''native'', os_cbor = [], os_json = Some (SomeOf [Signature [7]] 1)\<rparr>\<rparr>"

definition demo_payment :: ogmios_utxo where
  "demo_payment = \<lparr>ou_transaction = [2], ou_index = 0, ou_address = ''07'', ou_value = ada_value 100, ou_datum = None, ou_script = None\<rparr>"

definition demo_genesis :: utxo_id where
  "demo_genesis = \<lparr>utxo_tx_hash = [0], utxo_index = 0\<rparr>"

lemma demo_lib_simps:
  "enterprise_address demo_lib i (FromKeyhash k) = 0 # k" "enterprise_address demo_lib i (FromScripthash h) = 1 # h"
  "to_bech32 demo_lib a = Inr (map demo_char a)" "from_bech32 demo_lib t = Inr []" "asset_name_ok demo_lib b \<longleftrightarrow> length b \<le> 32"
  "blake2b_224 demo_lib b = b" "to_public demo_lib b = b" "public_hash demo_lib b = b" "body_mint_keys demo_lib x = Some (map fst (db_mints x))"
  "max_collateral_inputs demo_lib pp = 3" "collateral_percentage demo_lib pp = 150"
  "new_builder demo_lib pp = Inr \<lparr>db_inputs = [], db_outputs = [], db_mints = [], db_spends = 0\<rparr>" "calculate_ada demo_lib pp out = Inr 1000000"
  "add_mint demo_lib src name n x = Inr (x\<lparr>db_mints := db_mints x @ [(demo_policy src, n)]\<rparr>)" "add_reference_input demo_lib r x = x"
  "set_inputs demo_lib is x = Inr (x\<lparr>db_inputs := map input_id is, db_spends := length (filter is_script_input is)\<rparr>)"
  "add_output demo_lib out x = Inr (x\<lparr>db_outputs := db_outputs x @ [out]\<rparr>)" "add_required_signer demo_lib b x = x"
  "add_inputs_from_and_change demo_lib = demo_pay"
  "build_tx demo_lib x = Inr \<lparr>tx_body = x, tx_witness_set = \<lparr>ws_bootstraps = None, ws_plutus_data = None, ws_plutus_scripts = None, ws_redeemers = None,
       ws_native_scripts = None, ws_vkeys = None\<rparr>, tx_auxiliary_data = None\<rparr>"
  by (simp_all add: demo_lib_def)

lemma demo_env_simps [simp]:
  "lib (demo_offchain utxos) = demo_lib" "csl (demo_offchain utxos) = datum_csl" "client (demo_offchain utxos) = demo_ogmios utxos"
  "governance_policy_id (demo_offchain utxos) = 32" "apply_data (demo_offchain utxos) b arg = Inr b" "hash_order (demo_offchain utxos) = rev"
  "retries (demo_offchain utxos) = 59"
  by (simp_all add: demo_offchain_def)

lemma demo_plutus_script [simp]:
  "plutus_script_of (demo_offchain utxos) name args = Ok \<lparr>ps_bytes = raw_script (demo_offchain []) name, ps_language = PlutusV2\<rparr>"
proof -
  have "apply_arguments (apply_data (demo_offchain utxos)) s args = Ok s" for s
    by (induction args) simp_all
  then show ?thesis by (simp add: plutus_script_of_def demo_offchain_def)
qed

lemmas demo_io = io_then_def io_of_def client_result_def csl_result_def Let_def io_map_err_def

lemma demo_payer:
  "for_payment_key demo_lib (demo_ogmios utxos) key w
    = (Ok \<lparr>payment_key = key, payment_key_utxos = filter (\<lambda>u. ou_address u = map demo_char (0 # key)) utxos, ctx_network = Testnet, protocol_parameters = (),
        change_address = 0 # key\<rparr>, w)"
  by (simp add: for_payment_key_def demo_io key_hash_address_def demo_lib_simps demo_ogmios_def)

lemma demo_version_oracle:
  "version_oracle_scripts (demo_offchain utxos) demo_genesis Testnet = Ok \<lparr>psd_validator = \<lparr>ps_bytes = [3], ps_language = PlutusV2\<rparr>, psd_validator_address = ''123'',
     psd_policy = \<lparr>ps_bytes = [4], ps_language = PlutusV2\<rparr>\<rparr>"
  by (simp add: version_oracle_scripts_def address_bech32_def script_address_def plutus_script_hash_def demo_lib_simps demo_char_def csl_result_def)
    (simp add: demo_offchain_def demo_char_def)

lemma demo_governed_map:
  "governed_map_scripts (demo_offchain utxos) demo_genesis Testnet = Ok \<lparr>psd_validator = \<lparr>ps_bytes = [5], ps_language = PlutusV2\<rparr>, psd_validator_address = ''125'',
     psd_policy = \<lparr>ps_bytes = [6], ps_language = PlutusV2\<rparr>\<rparr>"
  by (simp add: governed_map_scripts_def demo_version_oracle address_bech32_def script_address_def plutus_script_hash_def demo_lib_simps demo_char_def csl_result_def)
    (simp add: demo_offchain_def demo_char_def)

lemma demo_read_governance:
  assumes "filter (\<lambda>u. ou_address u = ''123'') utxos = [demo_governance]"
  shows "governance_get (demo_offchain utxos) demo_genesis w = (Ok \<lparr>gov_policy = AtLeastN 1 [[7]], gov_utxo = demo_governance\<rparr>, w)"
proof -
  have "version_oracle_datum_try_from datum_csl (version_oracle_datum_to_plutus datum_csl \<lparr>vod_version_oracle = 32, vod_currency_symbol = replicate 28 0\<rparr>)
      = Inr \<lparr>vod_version_oracle = 32, vod_currency_symbol = replicate 28 0\<rparr>"
    using version_oracle_datum_plutus [OF datum_csl_ok] by simp
  then have "get_governance_utxo (demo_offchain utxos) demo_genesis w = (Ok (Some demo_governance), w)"
    using assms
    by (simp add: get_governance_utxo_def demo_io demo_ogmios_def demo_version_oracle get_plutus_data_def result_ok_def plutus_script_hash_def demo_lib_simps
        demo_governance_def demo_utxo_at_def)
  moreover have "read_policy (demo_offchain utxos) demo_governance = Ok (AtLeastN 1 [[7]])"
    by (simp add: read_policy_def demo_governance_def plutus_script_try_from_def parse_simple_at_least_n_native_script_def)
  ultimately show ?thesis by (simp add: governance_get_def demo_io)
qed

text \<open>A governed map in which a key is stored twice.\<close>

definition demo_entry :: "u8 \<Rightarrow> bytes \<Rightarrow> bytes \<Rightarrow> ogmios_utxo" where
  "demo_entry i key val = demo_utxo_at i ''125'' [2, 6] (governed_map_datum_to_plutus_data datum_csl \<lparr>gmd_key = key, gmd_value = val\<rparr>)"

definition demo_map :: "ogmios_utxo list" where
  "demo_map = [demo_governance, demo_payment, demo_entry 3 [0x6b] [1], demo_entry 4 [0x6c] [1], demo_entry 5 [0x6b] [2]]"

lemma demo_map_filters:
  "filter (\<lambda>u. ou_address u = ''123'') demo_map = [demo_governance]" "filter (\<lambda>u. ou_address u = [demo_char 0, demo_char 7]) demo_map = [demo_payment]"
  "filter (\<lambda>u. ou_address u = ''125'') demo_map = [demo_entry 3 [0x6b] [1], demo_entry 4 [0x6c] [1], demo_entry 5 [0x6b] [2]]"
  "distinct (map ou_utxo_id demo_map)"
  by (simp_all add: demo_map_def demo_governance_def demo_payment_def demo_entry_def demo_utxo_at_def ou_utxo_id_def demo_char_def)

lemma demo_entry_read:
  assumes "utf8_valid key"
  shows "governed_map_utxo (demo_offchain utxos) [2, 6] (demo_entry i key val) = Ok (Some \<lparr>gmd_key = key, gmd_value = val\<rparr>)"
  using governed_map_datum_plutus [OF datum_csl_ok, of "\<lparr>gmd_key = key, gmd_value = val\<rparr>"] assms
  by (simp add: governed_map_utxo_def get_plutus_data_def demo_entry_def demo_utxo_at_def)

lemma demo_await: "await_tx_output (demo_offchain utxos) h w = (Ok (), w)"
proof -
  have "await_loop (demo_offchain utxos) i n w = (Ok (), w)" for i n
    by (cases n) (simp_all add: demo_ogmios_def)
  then show ?thesis by (simp add: await_tx_output_def)
qed

lemma demo_submits: "submit_transaction (demo_ogmios utxos) tx w = (Inr (demo_tx_id (tx_body tx)), w)"
  by (simp add: demo_ogmios_def)

lemma demo_submit:
  assumes "filter (\<lambda>u. ou_address u = ''123'') utxos = [demo_governance]" and "payment_key ctx = [7]"
    and "calculate_costs demo_lib (demo_ogmios utxos) (\<lambda>c. make_tx \<lparr>gov_policy = AtLeastN 1 [[7]], gov_utxo = demo_governance\<rparr> c ctx) w = (Ok tx, w)"
  shows "governed_submit (demo_offchain utxos) demo_genesis ctx make_tx name w = (Ok (Some (TransactionSubmitted (demo_tx_id (tx_body tx)))), w)"
  using assms
  by (simp add: governed_submit_def demo_read_governance demo_io submit_or_create_tx_to_sign_def submit_single_governance_key_tx_def
      payment_key_hash_def demo_lib_simps demo_await demo_submits)

lemma demo_query: "query_utxos (demo_ogmios utxos) a w = (Inr (filter (\<lambda>u. ou_address u = a) utxos), w)"
  by (simp add: demo_ogmios_def)

lemmas demo_building = calculate_costs_def demo_io from_ogmios_def update_key_value_tx_def update_d_param_tx_def replace_token_tx_def
  mint_permissioned_candidates_token_tx_def mint_token_tx_def add_mint_one_script_token_def get_one_spend_def register_tx_def deregister_tx_def add_governance_mint_def add_mint_script_token_using_reference_script_def
  script_utxo_input_def get_spend_indices_def get_spend_def get_mint_def ogmios_value_to_csl_def add_mint_script_tokens_def add_output_with_one_script_token_def
  with_minimum_ada_def plutus_script_hash_def demo_lib_simps balance_update_and_build_def max_possible_collaterals_def try_balance_def ogmios_utxo_to_csl_def
  demo_pay_def hash_insert_def upt_rec remove_native_script_witnesses_def

lemma demo_update:
  "\<exists>tx_id. run_operation (demo_offchain demo_map) demo_genesis (UpdateKey [0x6b] [3] (Some [1])) [7] ()
    = (Ok (Some (TransactionSubmitted tx_id)), ())"
proof -
  let ?E = "demo_offchain demo_map" and ?s = "\<lparr>psd_validator = \<lparr>ps_bytes = [5], ps_language = PlutusV2\<rparr>, psd_validator_address = ''125'',
     psd_policy = \<lparr>ps_bytes = [6], ps_language = PlutusV2\<rparr>\<rparr>"
  have "utf8_valid [0x6b]" "utf8_valid [0x6c]" by (simp_all add: continuation_def)
  note read = demo_entry_read [OF this(1)] demo_entry_read [OF this(2)]
  have us: "get_utxos_for_key ?E [demo_entry 3 [0x6b] [1], demo_entry 4 [0x6c] [1], demo_entry 5 [0x6b] [2]] [0x6b] [2, 6]
      = Ok [demo_entry 3 [0x6b] [1], demo_entry 5 [0x6b] [2]]"
    by (simp add: get_utxos_for_key_def read)
  let ?ctx = "\<lparr>payment_key = [7], payment_key_utxos = [demo_payment], ctx_network = Testnet, protocol_parameters = (), change_address = [0, 7]\<rparr>"
    and ?make = "update_key_value_tx ?E ?s [0x6b] [3] [demo_entry 3 [0x6b] [1], demo_entry 5 [0x6b] [2]]"
  have "\<exists>tx. calculate_costs demo_lib (demo_ogmios demo_map) (\<lambda>c. ?make \<lparr>gov_policy = AtLeastN 1 [[7]], gov_utxo = demo_governance\<rparr> c ?ctx) () = (Ok tx, ())"
    by (simp add: demo_building demo_ogmios_def demo_entry_def demo_utxo_at_def demo_payment_def ada_value_def)
  then obtain tx where
    "calculate_costs demo_lib (demo_ogmios demo_map) (\<lambda>c. ?make \<lparr>gov_policy = AtLeastN 1 [[7]], gov_utxo = demo_governance\<rparr> c ?ctx) () = (Ok tx, ())" ..
  note submit = demo_submit [where make_tx = ?make, OF demo_map_filters(1) _ this]
  show ?thesis
    by (simp add: run_update_def demo_io demo_payer demo_governed_map demo_query demo_map_filters plutus_script_hash_def demo_lib_simps us read submit
        await_submitted_def demo_await)
qed

theorem governed_map_operations_witness:
  "\<exists>tx_id. run_operation (demo_offchain demo_map) demo_genesis (UpdateKey [0x6b] [3] (Some [1])) [7] () = (Ok (Some (TransactionSubmitted tx_id)), ())
    \<and> operation_done (demo_offchain demo_map) demo_view Testnet demo_genesis (UpdateKey [0x6b] [3] (Some [1])) [7] () (Some (TransactionSubmitted tx_id))"
proof -
  obtain tx_id where "run_operation (demo_offchain demo_map) demo_genesis (UpdateKey [0x6b] [3] (Some [1])) [7] () = (Ok (Some (TransactionSubmitted tx_id)), ())"
    using demo_update ..
  moreover from this have "operation_done (demo_offchain demo_map) demo_view Testnet demo_genesis (UpdateKey [0x6b] [3] (Some [1])) [7] ()
      (Some (TransactionSubmitted tx_id))"
    by (rule governed_map_operations [rotated 4])
      (simp_all add: datum_csl_ok demo_lib_ok demo_ogmios_ok demo_map_filters continuation_def)
  ultimately show ?thesis by blast
qed

text \<open>A D-parameter that is replaced, and a first list of permissioned candidates.\<close>

definition demo_settings :: "ogmios_utxo list" where
  "demo_settings = [demo_governance, demo_payment, demo_utxo_at 3 ''1251'' [2, 6, 1]
     (d_parameter_to_plutus_data datum_csl \<lparr>num_permissioned_candidates = 1, num_registered_candidates = 1\<rparr>)]"

definition demo_candidates :: "permissioned_candidate_data list" where
  "demo_candidates = [\<lparr>perm_sidechain_public_key = [1], perm_keys = [\<lparr>key_id = aura_id, key_bytes = [2]\<rparr>, \<lparr>key_id = grandpa_id, key_bytes = [3]\<rparr>]\<rparr>]"

lemma demo_settings_filters:
  "filter (\<lambda>u. ou_address u = ''123'') demo_settings = [demo_governance]"
  "filter (\<lambda>u. ou_address u = [demo_char 0, demo_char 7]) demo_settings = [demo_payment]"
  "filter (\<lambda>u. ou_address u = ''1251'') demo_settings = [demo_utxo_at 3 ''1251'' [2, 6, 1]
     (d_parameter_to_plutus_data datum_csl \<lparr>num_permissioned_candidates = 1, num_registered_candidates = 1\<rparr>)]"
  "filter (\<lambda>u. ou_address u = ''1252'') demo_settings = []" "distinct (map ou_utxo_id demo_settings)"
  by (simp_all add: demo_settings_def demo_governance_def demo_payment_def demo_utxo_at_def ou_utxo_id_def demo_char_def)

lemma demo_d_parameter:
  "d_parameter_scripts (demo_offchain utxos) demo_genesis Testnet = Ok \<lparr>psd_validator = \<lparr>ps_bytes = [5, 1], ps_language = PlutusV2\<rparr>,
     psd_validator_address = ''1251'', psd_policy = \<lparr>ps_bytes = [6, 1], ps_language = PlutusV2\<rparr>\<rparr>"
  by (simp add: d_parameter_scripts_def demo_version_oracle address_bech32_def script_address_def plutus_script_hash_def demo_lib_simps demo_char_def csl_result_def)
    (simp add: demo_offchain_def demo_char_def)

lemma demo_permissioned:
  "permissioned_candidates_scripts (demo_offchain utxos) demo_genesis Testnet = Ok \<lparr>psd_validator = \<lparr>ps_bytes = [5, 2], ps_language = PlutusV2\<rparr>,
     psd_validator_address = ''1252'', psd_policy = \<lparr>ps_bytes = [6, 2], ps_language = PlutusV2\<rparr>\<rparr>"
  by (simp add: permissioned_candidates_scripts_def demo_version_oracle address_bech32_def script_address_def plutus_script_hash_def demo_lib_simps demo_char_def
      csl_result_def) (simp add: demo_offchain_def demo_char_def)

lemma demo_upsert_d_param:
  "\<exists>tx_id. upsert_d_param (demo_offchain demo_settings) demo_genesis \<lparr>num_permissioned_candidates = 2, num_registered_candidates = 1\<rparr> [7] ()
    = (Ok (Some (TransactionSubmitted tx_id)), ())"
proof -
  let ?u = "demo_utxo_at 3 ''1251'' [2, 6, 1] (d_parameter_to_plutus_data datum_csl \<lparr>num_permissioned_candidates = 1, num_registered_candidates = 1\<rparr>)"
    and ?s = "\<lparr>psd_validator = \<lparr>ps_bytes = [5, 1], ps_language = PlutusV2\<rparr>, psd_validator_address = ''1251'', psd_policy = \<lparr>ps_bytes = [6, 1], ps_language = PlutusV2\<rparr>\<rparr>"
    and ?E = "demo_offchain demo_settings"
    and ?ctx = "\<lparr>payment_key = [7], payment_key_utxos = [demo_payment], ctx_network = Testnet, protocol_parameters = (), change_address = [0, 7]\<rparr>"
  let ?make = "update_d_param_tx ?E ?s \<lparr>num_permissioned_candidates = 2, num_registered_candidates = 1\<rparr> ?u"
  have current: "get_current_d_parameter ?E [?u] ?s = Ok (Some (?u, \<lparr>num_permissioned_candidates = 1, num_registered_candidates = 1\<rparr>))"
    by (rule d_param_read_back) (simp_all add: datum_csl_ok token_utxos_def token_datum_def plutus_script_hash_def demo_lib_simps demo_utxo_at_def)
  have "\<exists>tx. calculate_costs demo_lib (demo_ogmios demo_settings) (\<lambda>c. ?make \<lparr>gov_policy = AtLeastN 1 [[7]], gov_utxo = demo_governance\<rparr> c ?ctx) () = (Ok tx, ())"
    by (simp add: demo_building demo_ogmios_def demo_utxo_at_def demo_payment_def ada_value_def)
  then obtain tx where
    "calculate_costs demo_lib (demo_ogmios demo_settings) (\<lambda>c. ?make \<lparr>gov_policy = AtLeastN 1 [[7]], gov_utxo = demo_governance\<rparr> c ?ctx) () = (Ok tx, ())" ..
  note submit = demo_submit [where make_tx = ?make, OF demo_settings_filters(1) _ this]
  show ?thesis
    by (simp add: upsert_d_param_def demo_io demo_payer demo_d_parameter demo_query demo_settings_filters current submit await_submitted_def demo_await)
qed

lemma demo_upsert_permissioned:
  "\<exists>tx_id. upsert_permissioned_candidates (demo_offchain demo_settings) demo_genesis demo_candidates [7] () = (Ok (Some (TransactionSubmitted tx_id)), ())"
proof -
  let ?s = "\<lparr>psd_validator = \<lparr>ps_bytes = [5, 2], ps_language = PlutusV2\<rparr>, psd_validator_address = ''1252'', psd_policy = \<lparr>ps_bytes = [6, 2], ps_language = PlutusV2\<rparr>\<rparr>"
    and ?E = "demo_offchain demo_settings" and ?g = "\<lparr>gov_policy = AtLeastN 1 [[7]], gov_utxo = demo_governance\<rparr>"
    and ?ctx = "\<lparr>payment_key = [7], payment_key_utxos = [demo_payment], ctx_network = Testnet, protocol_parameters = (), change_address = [0, 7]\<rparr>"
  let ?make = "mint_permissioned_candidates_token_tx ?E ?s demo_candidates"
  have "\<exists>tx. calculate_costs demo_lib (demo_ogmios demo_settings) (\<lambda>c. ?make ?g c ?ctx) () = (Ok tx, ())"
    by (simp add: demo_building demo_ogmios_def demo_payment_def ada_value_def)
  then obtain tx where "calculate_costs demo_lib (demo_ogmios demo_settings) (\<lambda>c. ?make ?g c ?ctx) () = (Ok tx, ())" ..
  moreover have "sort_key permissioned_order demo_candidates = demo_candidates" by (simp add: demo_candidates_def)
  ultimately show ?thesis
    by (simp add: upsert_permissioned_candidates_def demo_io demo_payer demo_permissioned demo_query demo_settings_filters get_current_permissioned_candidates_def
        token_utxos_def demo_read_governance submit_or_create_tx_to_sign_def submit_single_governance_key_tx_def payment_key_hash_def demo_lib_simps demo_await demo_submits)
qed

theorem upserts_settle_witness:
  "\<exists>d_id cs_id. upsert_d_param (demo_offchain demo_settings) demo_genesis \<lparr>num_permissioned_candidates = 2, num_registered_candidates = 1\<rparr> [7] ()
      = (Ok (Some (TransactionSubmitted d_id)), ())
    \<and> upsert_permissioned_candidates (demo_offchain demo_settings) demo_genesis demo_candidates [7] () = (Ok (Some (TransactionSubmitted cs_id)), ())
    \<and> upsert_done (demo_offchain demo_settings) demo_view Testnet (d_parameter_scripts (demo_offchain demo_settings) demo_genesis Testnet)
        (get_current_d_parameter (demo_offchain demo_settings)) \<lparr>num_permissioned_candidates = 2, num_registered_candidates = 1\<rparr> ()
        (Some (TransactionSubmitted d_id))
    \<and> upsert_done (demo_offchain demo_settings) demo_view Testnet (permissioned_candidates_scripts (demo_offchain demo_settings) demo_genesis Testnet)
        (get_current_permissioned_candidates (demo_offchain demo_settings)) demo_candidates () (Some (TransactionSubmitted cs_id))"
proof -
  let ?E = "demo_offchain demo_settings" and ?d = "\<lparr>num_permissioned_candidates = 2, num_registered_candidates = 1\<rparr>"
  obtain d_id cs_id where runs: "upsert_d_param ?E demo_genesis ?d [7] () = (Ok (Some (TransactionSubmitted d_id)), ())"
      "upsert_permissioned_candidates ?E demo_genesis demo_candidates [7] () = (Ok (Some (TransactionSubmitted cs_id)), ())"
    using demo_upsert_d_param demo_upsert_permissioned by blast
  have "candidates_kept demo_candidates"
    by (simp add: candidates_kept_def demo_candidates_def aura_id_def grandpa_id_def)
  then have "upsert_done ?E demo_view Testnet (d_parameter_scripts ?E demo_genesis Testnet) (get_current_d_parameter ?E) ?d
      (snd (for_payment_key (lib ?E) (client ?E) [7] ())) (Some (TransactionSubmitted d_id))
    \<and> upsert_done ?E demo_view Testnet (permissioned_candidates_scripts ?E demo_genesis Testnet) (get_current_permissioned_candidates ?E)
      (sort_key permissioned_order demo_candidates) (snd (governance_get ?E demo_genesis (snd (for_payment_key (lib ?E) (client ?E) [7] ()))))
      (Some (TransactionSubmitted cs_id))"
    by (intro upserts_settle [OF _ _ _ runs]) (simp_all add: datum_csl_ok demo_lib_ok demo_ogmios_ok demo_settings_filters)
  moreover have "sort_key permissioned_order demo_candidates = demo_candidates" by (simp add: demo_candidates_def)
  ultimately show ?thesis using runs by auto
qed

text \<open>The registrations of a candidate who pays with a key of 28 bytes.\<close>

definition demo_key :: bytes where
  "demo_key = replicate 28 7"

definition demo_candidacy :: "u8 \<Rightarrow> candidate_registration" where
  "demo_candidacy k = \<lparr>cr_stake_ownership = \<lparr>abs_pub_key = replicate 32 1, abs_signature = replicate 64 2\<rparr>, cr_partner_chain_pub_key = [k],
     cr_partner_chain_signature = [4], cr_own_pkh = demo_key, cr_registration_utxo = \<lparr>utxo_tx_hash = replicate 32 5, utxo_index = 0\<rparr>,
     cr_keys = [\<lparr>key_id = aura_id, key_bytes = [2]\<rparr>, \<lparr>key_id = grandpa_id, key_bytes = [3]\<rparr>]\<rparr>"

definition demo_registered :: "u8 \<Rightarrow> ogmios_utxo" where
  "demo_registered k = demo_utxo_at k ''1253'' [] (candidate_registration_to_plutus_data datum_csl (demo_candidacy k))"

definition demo_registrations :: "u8 list \<Rightarrow> ogmios_utxo list" where
  "demo_registrations ks = \<lparr>ou_transaction = replicate 32 5, ou_index = 0, ou_address = map demo_char (0 # demo_key), ou_value = ada_value 100,
     ou_datum = None, ou_script = None\<rparr> # map demo_registered ks"

lemma demo_candidacy_typed: "registration_typed (demo_candidacy k)"
  by (simp add: registration_typed_def demo_candidacy_def demo_key_def aura_id_def grandpa_id_def)

lemma demo_own_registrations:
  "get_own_registrations (demo_offchain utxos) demo_key (replicate 32 1) (map demo_registered ks) = map (\<lambda>k. (demo_registered k, demo_candidacy k)) ks"
proof -
  have "normal_keys (cr_keys (demo_candidacy k)) = cr_keys (demo_candidacy k)" for k
    by (simp add: normal_keys_def demo_candidacy_def has_only_aura_and_grandpa_keys_def find_or_empty_def find_key_def aura_id_def grandpa_id_def)
  then have "get_candidate_registration (demo_offchain utxos) (demo_registered k) = Ok (demo_candidacy k)" for k
    using registration_plutus [OF datum_csl_ok demo_candidacy_typed [of k]]
    by (cases "register_validator_decode datum_csl (candidate_registration_to_plutus_data datum_csl (demo_candidacy k))")
      (simp_all add: get_candidate_registration_def token_datum_def demo_registered_def demo_utxo_at_def result_ok_def)
  then show ?thesis
    by (induction ks) (simp_all add: get_own_registrations_def map_filter_simps demo_candidacy_def)
qed

lemma demo_registrations_filters:
  "filter (\<lambda>u. ou_address u = ''1253'') (demo_registrations ks) = map demo_registered ks"
  "filter (\<lambda>u. ou_address u = demo_char 0 # map demo_char demo_key) (demo_registrations ks) = [hd (demo_registrations [])]"
  "distinct ks \<Longrightarrow> distinct (map ou_utxo_id (demo_registrations ks))"
proof -
  have "filter (\<lambda>u. ou_address u = ''1253'') (map demo_registered ks) = map demo_registered ks"
    by (simp add: demo_registered_def demo_utxo_at_def filter_id_conv)
  moreover have "filter (\<lambda>u. ou_address u = map demo_char (0 # demo_key)) (map demo_registered ks) = []"
    by (simp add: demo_registered_def demo_utxo_at_def demo_char_def)
  ultimately show "filter (\<lambda>u. ou_address u = ''1253'') (demo_registrations ks) = map demo_registered ks"
    "filter (\<lambda>u. ou_address u = demo_char 0 # map demo_char demo_key) (demo_registrations ks) = [hd (demo_registrations [])]"
    by (simp_all add: demo_registrations_def demo_char_def)
  show "distinct (map ou_utxo_id (demo_registrations ks))" if "distinct ks"
    using that by (auto simp: demo_registrations_def demo_registered_def demo_utxo_at_def ou_utxo_id_def distinct_map inj_on_def dest: arg_cong [where f = length])
qed

lemma demo_committee_validator: "address_bech32 (demo_offchain utxos) \<lparr>ps_bytes = [5, 3], ps_language = PlutusV2\<rparr> Testnet = Ok ''1253''"
  by (simp add: address_bech32_def script_address_def plutus_script_hash_def demo_lib_simps demo_char_def csl_result_def)

lemma demo_committee_script: "raw_script (demo_offchain utxos) CommitteeCandidateValidator = [5, 3]"
  by (simp add: demo_offchain_def)

lemma demo_registration_txs:
  fixes ctx :: "unit transaction_context"
  defines "ctx \<equiv> \<lparr>payment_key = demo_key, payment_key_utxos = [hd (demo_registrations [])], ctx_network = Testnet, protocol_parameters = (), change_address = 0 # demo_key\<rparr>"
  shows "\<exists>tx. calculate_costs demo_lib (demo_ogmios utxos) (\<lambda>c. register_tx (demo_offchain utxos) \<lparr>ps_bytes = [5, 3], ps_language = PlutusV2\<rparr> (demo_candidacy 6)
      (hd (demo_registrations [])) [demo_registered 3] c ctx) () = (Ok tx, ())"
    and "\<exists>tx. calculate_costs demo_lib (demo_ogmios utxos) (\<lambda>c. deregister_tx (demo_offchain utxos) \<lparr>ps_bytes = [5, 3], ps_language = PlutusV2\<rparr>
      [demo_registered 3] c ctx) () = (Ok tx, ())"
  by (simp_all add: ctx_def demo_building demo_ogmios_def demo_registered_def demo_utxo_at_def demo_registrations_def ada_value_def)

lemma demo_register:
  "\<exists>tx_id. run_register (demo_offchain (demo_registrations [3])) demo_genesis (demo_candidacy 6) demo_key () = (Ok (Some tx_id), ())"
  "\<exists>tx_id. run_deregister (demo_offchain (demo_registrations [3])) demo_genesis demo_key (replicate 32 1) () = (Ok (Some tx_id), ())"
proof -
  have own: "get_own_registrations (demo_offchain utxos) demo_key (replicate 32 1) [demo_registered 3] = [(demo_registered 3, demo_candidacy 3)]" for utxos
    using demo_own_registrations [of utxos "[3]"] by simp
  have r: "cr_own_pkh (demo_candidacy 6) = demo_key" "abs_pub_key (cr_stake_ownership (demo_candidacy 6)) = replicate 32 1"
    "\<not> matches_keys (demo_candidacy 6) (demo_candidacy 3)" "ou_utxo_id (hd (demo_registrations [])) = cr_registration_utxo (demo_candidacy 6)"
    by (simp_all add: demo_candidacy_def matches_keys_def demo_registrations_def ou_utxo_id_def)
  note run = demo_io demo_payer [of _ demo_key] demo_committee_validator demo_committee_script demo_query demo_registrations_filters own r
    submit_and_await_def demo_await demo_submits demo_lib_simps
  show "\<exists>tx_id. run_register (demo_offchain (demo_registrations [3])) demo_genesis (demo_candidacy 6) demo_key () = (Ok (Some tx_id), ())"
    using demo_registration_txs(1) [of "demo_registrations [3]"] by (auto simp: run_register_def run)
  show "\<exists>tx_id. run_deregister (demo_offchain (demo_registrations [3])) demo_genesis demo_key (replicate 32 1) () = (Ok (Some tx_id), ())"
    using demo_registration_txs(2) [of "demo_registrations [3]"] by (auto simp: run_deregister_def run)
qed

theorem registrations_exclusive_witness:
  "\<exists>tx_id tx_id'. run_register (demo_offchain (demo_registrations [3])) demo_genesis (demo_candidacy 6) demo_key () = (Ok (Some tx_id), ())
    \<and> run_deregister (demo_offchain (demo_registrations [3])) demo_genesis demo_key (replicate 32 1) () = (Ok (Some tx_id'), ())
    \<and> registrations_replaced (demo_offchain (demo_registrations [3])) demo_view Testnet demo_genesis demo_key (replicate 32 1) [demo_candidacy 6] () tx_id
    \<and> registrations_replaced (demo_offchain (demo_registrations [3])) demo_view Testnet demo_genesis demo_key (replicate 32 1) [] () tx_id'"
proof -
  let ?E = "demo_offchain (demo_registrations [3])"
  obtain tx_id tx_id' where runs: "run_register ?E demo_genesis (demo_candidacy 6) demo_key () = (Ok (Some tx_id), ())"
      "run_deregister ?E demo_genesis demo_key (replicate 32 1) () = (Ok (Some tx_id'), ())"
    using demo_register by blast
  have "registrations_replaced ?E demo_view Testnet demo_genesis (cr_own_pkh (demo_candidacy 6)) (abs_pub_key (cr_stake_ownership (demo_candidacy 6)))
      [(demo_candidacy 6)\<lparr>cr_keys := normal_keys (cr_keys (demo_candidacy 6))\<rparr>] (snd (for_payment_key (lib ?E) (client ?E) demo_key ())) tx_id
    \<and> registrations_replaced ?E demo_view Testnet demo_genesis (public_hash (lib ?E) (to_public (lib ?E) demo_key)) (replicate 32 1) []
      (snd (for_payment_key (lib ?E) (client ?E) demo_key ())) tx_id'"
    by (intro registrations_exclusive [OF _ _ _ _ runs])
      (simp_all add: datum_csl_ok demo_lib_ok demo_ogmios_ok demo_registrations_filters demo_candidacy_typed)
  moreover have "(demo_candidacy 6)\<lparr>cr_keys := normal_keys (cr_keys (demo_candidacy 6))\<rparr> = demo_candidacy 6"
    "cr_own_pkh (demo_candidacy 6) = demo_key" "abs_pub_key (cr_stake_ownership (demo_candidacy 6)) = replicate 32 1"
    by (simp_all add: normal_keys_def demo_candidacy_def has_only_aura_and_grandpa_keys_def find_or_empty_def find_key_def aura_id_def grandpa_id_def)
  ultimately show ?thesis using runs by (auto simp: demo_lib_simps)
qed

theorem several_registrations_panic_witness:
  "run_deregister (demo_offchain (demo_registrations [3, 4])) demo_genesis demo_key (replicate 32 1) () = (Panic ExplicitPanic, ())"
proof -
  let ?E = "demo_offchain (demo_registrations [3, 4])" and ?v = "\<lparr>ps_bytes = [5, 3], ps_language = PlutusV2\<rparr>"
    and ?ctx = "\<lparr>payment_key = demo_key, payment_key_utxos = [hd (demo_registrations [])], ctx_network = Testnet, protocol_parameters = (), change_address = 0 # demo_key\<rparr>"
  have own: "map fst (get_own_registrations ?E demo_key (replicate 32 1) (map demo_registered [3, 4])) = map demo_registered [3, 4]"
    unfolding demo_own_registrations by simp
  obtain tx where tx: "deregister_tx ?E ?v (map demo_registered [3, 4]) ZeroCosts ?ctx = Ok tx" "db_mints (tx_body tx) = []" "db_spends (tx_body tx) = 2"
    by (simp add: demo_building demo_registered_def demo_utxo_at_def demo_registrations_def ada_value_def)
  obtain evaluations ss where costs: "evaluate_transaction (client ?E) tx () = (Inr evaluations, ())"
      "collect_costs (body_mint_keys (lib ?E) (tx_body tx)) evaluations [] [] = Ok (Costs [] ss)" "length ss = 2"
    using tx(2,3) by (simp add: demo_ogmios_def demo_lib_simps upt_rec hash_insert_def)
  show ?thesis
  proof (rule several_registrations_panic [OF _ _ _ _ _ _ tx(1) costs(1,2)])
    show "for_payment_key (lib ?E) (client ?E) demo_key () = (Ok ?ctx, ())" by (simp add: demo_payer demo_registrations_filters)
    show "plutus_script_of ?E CommitteeCandidateValidator [DatumArg (utxo_id_to_datum demo_genesis)] = Ok ?v" by (simp add: demo_committee_script)
    show "address_bech32 ?E ?v (ctx_network ?ctx) = Ok ''1253''" by (simp add: demo_committee_validator)
    show "query_utxos (client ?E) ''1253'' () = (Inr (map demo_registered [3, 4]), ())" by (simp add: demo_query demo_registrations_filters)
    show "map demo_registered [3, 4]
        = map fst (get_own_registrations ?E (public_hash (lib ?E) (to_public (lib ?E) demo_key)) (replicate 32 1) (map demo_registered [3, 4]))"
      using own by (simp add: demo_lib_simps)
  qed (simp_all add: costs(3))
qed

end
