(* ===== verification/Spec2Isabelle.thy ===== *)
theory Spec2Isabelle
  imports Ariadne Slots Mainchain_Epoch Candidates Committee_Session Block_Participation Governed_Map Db_Sync
    Plutus_Codecs Block_Source Mc_Hash Governed_Map_Source Bridge_Source Ariadne_Inherent
    Stake_Source Block_Search Block_Producer_Fees Address_Associations Block_Producer_Metadata Committee_Query Node_Inherents
    Offchain_Ledger
begin

text \<open>
  Verification of the Partner Chains toolkit (\<open>src/toolkit\<close>, \<open>src/substrate-extensions\<close>) and of the parts of the demo node (\<open>src/demo\<close>) that put it together.

  \<^bold>\<open>The program.\<close> A Partner Chain is a Substrate chain that follows Cardano. Every block refers to a stable Cardano block; from the state of Cardano at that block the
  node computes inherent data (the next committee, changes of a map kept on Cardano, transfers over the token bridge, block participation), and the runtime pallets
  check and apply it. All nodes read their own Db-Sync database through data sources, most of them with caches, so what makes the chain work is that every node
  computes the same inherent data for the same block. The theories follow that flow, from Cardano to a block and on to the queries about the chain.

  \<^bold>\<open>Conventions\<close> (\<open>Prelude\<close>, \<open>Collections\<close>, \<open>Inherents\<close>). Rust integers are words of the same width, and unchecked arithmetic wraps as in the release profile. \<open>Result\<close> is a sum
  with the error on the left or, where code can also panic, the type \<open>outcome\<close> (\<open>Ok\<close>, \<open>Err\<close>, \<open>Panic\<close>). Structs are records, enums datatypes, pallet storage a record
  that every call returns updated. A call into a handler of the runtime is recorded in the state, in order. A \<open>BTreeMap\<close> is a sorted association list, the iteration
  order of a \<open>HashMap\<close> a function argument that may permute, an LRU cache a record with the law it is used for, a poisoned mutex \<open>None\<close>. Libraries outside the sources are
  arguments: ChaCha20 (\<open>chacha\<close>), signatures and hashes (\<open>keys_env\<close>), cardano-serialization-lib (\<open>csl\<close>), the Substrate client and runtime API, \<open>sc_consensus_aura\<close>. What a
  theorem needs of them is a named hypothesis, and its witness instantiates them by concrete functions.

  \<^bold>\<open>Cardano data.\<close>
  \<^item> \<open>Plutus_Data\<close>: \<open>utils/plutus\<close>, the \<open>Datum\<close> type, the instances and derived instances of \<open>ToDatum\<close>, the CBOR encoder. Encoding is injective.
  \<^item> \<open>Plutus_Codecs\<close>: \<open>smart-contracts/plutus-data\<close>, decoders and encoders of every datum in legacy and versioned form. Round trips.
  \<^item> \<open>Domain\<close>, \<open>Mainchain_Epoch\<close>, \<open>Slots\<close>: \<open>sidechain/domain\<close>, \<open>sidechain/sidechain-slots\<close> and the sidechain pallet: UTXO ids, keys, and the arithmetic of Cardano and Partner
    Chain epochs and slots at their widths.
  \<^item> \<open>Db_Sync\<close>: \<open>data-sources/db-sync/src/db_model.rs\<close>, every query as a function of the tables. The two ways Db-Sync can store transaction inputs give the same rows.
  \<^item> \<open>Block_Source\<close>, \<open>Mc_Hash\<close>: stable blocks and the Cardano reference of a block. The block source finds exactly the stable block, with or without its cache, and a
    reference an honest author proposes passes the check of a node that is ahead, proved from the locale \<open>mc_hash_contract\<close> that the Db-Sync source interprets.

  \<^bold>\<open>Data sources and their pallets.\<close>
  \<^item> \<open>Governed_Map\<close>, \<open>Governed_Map_Source\<close>: pallet, inherent data provider and sources. The map in the runtime is the one on Cardano after every block; the outcome of a
    block; the cached source answers as the uncached one up to order and never reads beyond what is stable.
  \<^item> \<open>Bridge\<close>, \<open>Bridge_Source\<close>: pallet, provider and sources. Over any sequence of blocks every transfer on Cardano is handled exactly once and in order, the chain catches up
    with Cardano, the cached source refines the uncached one. The first two are proved in the locale \<open>bridge_source\<close>.
  \<^item> \<open>Candidate_Source\<close>, \<open>Ariadne_Inherent\<close>: registrations, stake and parameters, and the inputs of committee selection collected from them. Any two nodes select the same
    committee, the inputs are not withheld, the cached source refines the uncached one.
  \<^item> \<open>Stake_Source\<close>, \<open>Block_Production_Log\<close>, \<open>Block_Participation\<close>: stake of delegators, the log of produced blocks, and the participation data, computed exactly once for each
    block, deterministic and with exact counts. The pallet uses the log through the locale \<open>block_log\<close>.

  \<^bold>\<open>Committees and sessions.\<close>
  \<^item> \<open>Weighted_Random\<close>, \<open>Ariadne\<close>: \<open>committee-selection/selection\<close>, both versions of the algorithm with every panic: seats and guaranteed seats, weights.
  \<^item> \<open>Candidates\<close>: \<open>authority-selection-inherents\<close>, filtering of candidates and the selection: members are valid, a signature binds the whole message.
  \<^item> \<open>Committee\<close>, \<open>Session\<close>, \<open>Committee_Session\<close>: the two pallets, the session manager (locale \<open>session_manager_contract\<close>) and the life of a block over both. In every reachable state the session
    runs the committee selected for it, author and verifier agree on the inherent, a chain that missed epochs catches up, and rotation leaves the provider counts consistent.
  \<^item> \<open>Committee_Query\<close>: \<open>committee-selection/query\<close>: the answers agree with the session and with the selection.

  \<^bold>\<open>Other pallets and the node.\<close> \<open>Block_Producer_Metadata\<close> (held deposits cover recorded ones), \<open>Address_Associations\<close> (permanent), \<open>Block_Producer_Fees\<close>, \<open>Block_Search\<close> (binary search for
  blocks), \<open>Aura\<close> (the proposer and verifier that put inherent data into the header), \<open>Node_Inherents\<close> (\<open>demo/node/src/inherent_data.rs\<close>). This theory composes
  them: a block of an honest author is imported.

  \<^bold>\<open>Writing to Cardano.\<close>
  \<^item> \<open>Offchain\<close>: \<open>smart-contracts/offchain\<close>, the context, costs, balancing and signing of a transaction, the governance policy and the submission by one key or for many signatures. An
    operation is a function of the world behind the Ogmios client; cardano-serialization-lib is the record \<open>tx_lib\<close>.
  \<^item> \<open>Offchain_Ops\<close>: the operations on the governed map, the D-parameter, the permissioned candidates and registrations.
  \<^item> \<open>Offchain_Ledger\<close>: the ledger rule, the laws of the transaction builder and of the ledger, and what the operations do to the data on Cardano: the map, the value or the
    registration is the one asked for and nothing else changes. A small ledger on which the operations run shows that the laws can hold.

  \<^bold>\<open>Loops.\<close> Loops of the sources are structural recursions or functions with a termination proof, so they are total. The binary search for blocks, which can fail to end, is a
  \<open>partial_function\<close>; that it returns is part of its theorem. No definition uses fuel; the number of probes for a transaction is the one of the code. \<open>partition_search\<close>, the binary search of the standard library, ends because its range shrinks.

  \<^bold>\<open>Not modelled.\<close>
  \<^item> Off-chain setup of the governance, the token reserve and the bridge, and \<open>smart-contracts/commands\<close>: administration built from the transactions above, and their command line.
  \<^item> The wizard (\<open>partner-chains-cli\<close>), the command line of the node and \<open>cli\<close>: dialogue, files and processes.
  \<^item> \<open>utils/ogmios-client\<close>, the RPC crates, metrics, pools and environment variables: transport and its serialisation.
  \<^item> The demo runtime and service: configuration of the pallets above and of EVM and Substrate crates outside the sources. The runtime methods that contain logic are
    modelled with their component.
  \<^item> Weights, benchmarks, storage migrations, mock sources and tests; \<open>byte-string-derivation\<close>, which derives formatting traits; the \<open>selection-simulator\<close>, a tool for statistics.
\<close>

subsection \<open>A block from its author to an importing node\<close>


text \<open>The block after genesis, between two nodes that refer to the same Cardano block.\<close>

definition demo_node :: "(u64, unit, nat, nat, nat, nat, unit) node_env" where
  "demo_node = \<lparr>ne_mc_epoch_config = demo_epoch_config, ne_sc_slot_config = \<lparr>slots_per_epoch = 5, slot_duration = 100\<rparr>,
     ne_slot_timestamp = (\<lambda>slot d. Some (slot * d)), ne_slot_from_timestamp = (\<lambda>t d. t div d), ne_find_pre_digest = (\<lambda>_. Inl ()),
     ne_author_from = (\<lambda>_. 1), ne_as_cardano_spo = Some, ne_from_delegator_key = (\<lambda>k. k)\<rparr>"

definition demo_parent :: "(unit, unit, nat, string) parent_api" where
  "demo_parent = \<lparr>pa_header = Inr \<lparr>header_number = 0, header_digest = []\<rparr>, pa_next_unset_epoch = Inr 1, pa_main_chain_scripts = Inr demo_scripts,
     pa_has_log_api = Inr True, pa_get_author = (\<lambda>_. Inr (Some ())),
     pa_participation = \<lparr>has_participation_api = Inr True, should_release_data = (\<lambda>_. Inr None), api_blocks_produced = (\<lambda>_. Inl ()), target_inherent_id = Inl ()\<rparr>,
     pa_governed_map = \<lparr>gm_has_api = Inr True, gm_api_pallet_version = Inr 1, gm_api_main_chain_scripts = Inr None, gm_api_is_initialized = Inl (), gm_api_current_state = Inl ()\<rparr>,
     pa_bridge = \<lparr>br_api_version = Inr None, br_api_max_transfers = Inl (), br_api_last_data_checkpoint = Inl (), br_api_main_chain_scripts = Inl ()\<rparr>\<rparr>"

definition demo_sources :: "nat hash_iteration \<Rightarrow> (datum pg_pool \<times> blocks_cache, nat, nat, nat, nat, ds_error) node_sources" where
  "demo_sources iteration = \<lparr>ns_mc_hash = db_mc_hash_source demo_block_source, ns_mc_state = (Inr node_db, Some []),
     ns_candidates = \<lparr>ads_get_ariadne_parameters = (\<lambda>_ _ _. Err (ExpectedDataNotFound [])), ads_get_candidates = (\<lambda>_ _. Ok []),
       ads_get_epoch_nonce = (\<lambda>_. Ok None), ads_data_epoch = (\<lambda>_. Ok 3)\<rparr>,
     ns_delegations = (\<lambda>_ _. Inr Map.empty), ns_hash_iteration = iteration,
     ns_governed_map = \<lparr>get_state_at_block = (\<lambda>_ _. Inr []), get_mapping_changes = (\<lambda>_ _ _. Inr [])\<rparr>,
     ns_bridge = (\<lambda>_ cp _ _. Inr ([], cp))\<rparr>"

definition demo_proposal :: "(nat, string, nat, nat) proposal_providers" where
  "demo_proposal = \<lparr>pp_slot = 15, pp_timestamp = 1510, pp_mc_hash = \<lparr>mc_block = the_mainchain_block reference_block, previous_mc_block = None\<rparr>,
     pp_common = \<lparr>cp_ariadne = None, cp_author = Some 1, cp_payouts = Inert, cp_governed_map = GmInert, cp_bridge = BridgeInert\<rparr>\<rparr>"

definition demo_substrate :: "(nat, nat, unit, (nat, string, nat, nat) node_inherent_data, unit) aura_env" where
  "demo_substrate = \<lparr>header_hash = (\<lambda>h. unat (hd_number h)),
     check_header_slot_and_seal = (\<lambda>now h auths. if 15 \<le> now then Inr (h\<lparr>hd_digest := butlast (hd_digest h)\<rparr>, 15, last (hd_digest h)) else Inl (Deferred h 15)),
     slot_author = (\<lambda>_ _. Some 1), check_equivocation = (\<lambda>_ _ _ _. Inr None), api_initialize_block = (\<lambda>_ _. Inr ()), api_authorities = (\<lambda>_. Inr [1, 2]),
     api_checks_inherents = (\<lambda>_. Inr True), check_inherents_with_data = (\<lambda>_ _ _ d. if nd_author d = Inr (Some 1) then None else Some ()),
     aura_pre_digest = (\<lambda>_. PreRuntime [97, 117, 114, 97] []), aura_seal = (\<lambda>_ _. Inr (OtherDigestItem [1])), find_pre_digest = (\<lambda>_. Inl ()),
     aura_compatibility_mode = NoCompatibility, check_for_equivocation = True\<rparr>"

definition demo_sealed_block :: "(nat, unit) block_import_params" where
  "demo_sealed_block = \<lparr>bi_with_state = False, bi_skip_execution_checks = False,
     bi_header = \<lparr>hd_number = 1, hd_parent = 0, hd_digest = [PreRuntime [97, 117, 114, 97] [], PreRuntime mc_hash_digest_id reference_hash, OtherDigestItem [1]]\<rparr>,
     bi_body = Some (), bi_post_digests = [], bi_fork_choice = None, bi_post_hash = None\<rparr>"

lemma demo_proposed: "proposal_cidp demo_node demo_parent (demo_sources ascending) 1510 = Ok demo_proposal"
proof -
  have "new_proposal (\<lambda>slot d. Some (slot * d)) [] (db_mc_hash_source demo_block_source) (Inr node_db, Some []) 15 100
      = Ok \<lparr>mc_block = the_mainchain_block reference_block, previous_mc_block = None\<rparr>"
    by (simp add: new_proposal_def node_db_latest_stable)
  moreover have "mc_reference_epoch \<lparr>mc_block = the_mainchain_block reference_block, previous_mc_block = None\<rparr> = 3"
    by (simp add: mc_reference_epoch_def the_mainchain_block_def reference_block_def)
  ultimately show ?thesis
    by (simp add: proposal_cidp_def timestamp_and_slot_cidp_def demo_node_def demo_parent_def demo_sources_def demo_proposal_def create_common_providers_def
        ariadne_provider_new_def mc_epoch_for_next_ariadne_cidp_def api_call_def config_epoch_number_def epoch_number_def sc_epoch_to_mc_epoch_def epoch_start_time_def
        timestamp_to_mainchain_epoch_def demo_epoch_config_def author_provider_new_def participation_provider_new_def gm_provider_new_def gm_provider_new_v1_def
        bridge_provider_new_def epochs_passed_def config_first_slot_number_def first_slot_number_def checked_sub_def div_or_panic_def narrow_def Let_def)
qed


end
